(* ===== verification/Prelude.thy ===== *)
theory Prelude
  imports Main "HOL-Library.AList"
begin

text \<open>
  Shared vocabulary of the development.

  \<^item> Go maps: a Go \<open>map[string]T\<close> is an association list with distinct keys; \<open>m[k]\<close> is
    \<open>map_of m k\<close>, \<open>m[k] = v\<close> is \<open>gm_set k v m\<close>, \<open>range m\<close> walks the list.
  \<^item> Go errors that may be nil are \<open>error option\<close>, a pair \<open>(T, error)\<close> is a sum.
  \<^item> \<open>invariant_step\<close> and \<open>framed_step\<close>: the two interfaces every component of the
    runtime offers to its clients (a step keeps an invariant, a step leaves a view alone),
    with the facts about runs that follow from them once.
\<close>

named_theorems wk_defs "unfolding rules of the model's small operations"
named_theorems wk_frame "what an operation leaves unchanged"

section \<open>Go maps\<close>

type_synonym 'v gomap = "(string \<times> 'v) list"

definition gm_set :: "string \<Rightarrow> 'v \<Rightarrow> 'v gomap \<Rightarrow> 'v gomap" where
  "gm_set k v m = AList.update k v m"

definition gm_wf :: "'v gomap \<Rightarrow> bool" where
  "gm_wf m \<longleftrightarrow> distinct (map fst m)"

lemma gm_set_lookup [simp]: "map_of (gm_set k v m) k' = (if k' = k then Some v else map_of m k')"
  by (simp add: gm_set_def update_conv)

lemma gm_set_Nil [simp]: "gm_set k v [] = [(k, v)]"
  by (simp add: gm_set_def)

lemma gm_set_Cons [simp]:
  "gm_set k v ((k', v') # m) = (if k' = k then (k, v) # m else (k', v') # gm_set k v m)"
  by (simp add: gm_set_def)

lemma gm_set_keys:
  "map fst (gm_set k v m) = (if k \<in> set (map fst m) then map fst m else map fst m @ [k])"
  by (simp add: gm_set_def update_keys)

lemma gm_set_keys_present [simp]:
  "map_of m k = Some w \<Longrightarrow> map fst (gm_set k v m) = map fst m"
  by (simp add: gm_set_keys) (metis map_of_SomeD fst_conv image_eqI)

lemma gm_set_keys_absent [simp]:
  "map_of m k = None \<Longrightarrow> map fst (gm_set k v m) = map fst m @ [k]"
  by (simp add: gm_set_keys map_of_eq_None_iff)

lemma gm_set_absent: "map_of m k = None \<Longrightarrow> gm_set k v m = m @ [(k, v)]"
  by (induction m) (auto split: if_splits)

lemma gm_set_wf [simp]: "gm_wf m \<Longrightarrow> gm_wf (gm_set k v m)"
  by (simp add: gm_wf_def gm_set_def distinct_update)

lemma gm_mem_lookup: "gm_wf m \<Longrightarrow> (k, v) \<in> set m \<longleftrightarrow> map_of m k = Some v"
  by (simp add: gm_wf_def)

lemma gm_set_mem:
  assumes "gm_wf m"
  shows "(k', x) \<in> set (gm_set k v m) \<longleftrightarrow>
         (if k' = k then x = v else (k', x) \<in> set m)"
  using assms by (auto simp: gm_mem_lookup)

text \<open>A sum over the entries of a map changes by what one entry changes by.\<close>

lemma gm_sum_set:
  fixes f :: "'v \<Rightarrow> int"
  assumes "map_of m k = Some w" and "gm_wf m"
  shows "sum_list (map (f \<circ> snd) (gm_set k v m)) = sum_list (map (f \<circ> snd) m) - f w + f v"
  using assms
proof (induction m)
  case Nil
  then show ?case by simp
next
  case (Cons a m)
  obtain k' v' where a: "a = (k', v')" by (cases a)
  show ?case
  proof (cases "k' = k")
    case True
    with Cons.prems a show ?thesis by simp
  next
    case False
    with Cons a show ?thesis by (simp add: gm_wf_def)
  qed
qed

lemma sum_list_zero_mem:
  fixes f :: "'v \<Rightarrow> int"
  assumes "\<And>x. x \<in> set xs \<Longrightarrow> 0 \<le> f x" and "sum_list (map f xs) = 0" and "x \<in> set xs"
  shows "f x = 0"
proof -
  have "\<forall>y \<in> set (map f xs). 0 \<le> y" using assms(1) by auto
  then have "\<forall>y \<in> set (map f xs). y = 0"
    using assms(2) sum_list_nonneg_eq_0_iff [of "map f xs"] by auto
  with assms(3) show ?thesis by simp
qed

lemma sum_list_mem_le:
  fixes f :: "'v \<Rightarrow> int"
  assumes "\<And>x. x \<in> set xs \<Longrightarrow> 0 \<le> f x" and "x \<in> set xs"
  shows "f x \<le> sum_list (map f xs)"
  using assms
proof (induction xs)
  case Nil
  then show ?case by simp
next
  case (Cons a xs)
  have nn: "0 \<le> sum_list (map f xs)"
    by (rule sum_list_nonneg) (use Cons.prems(1) in auto)
  show ?case
  proof (cases "x = a")
    case True
    with nn show ?thesis by simp
  next
    case False
    with Cons have "f x \<le> sum_list (map f xs)" by simp
    moreover have "0 \<le> f a" using Cons.prems(1) by simp
    ultimately show ?thesis by simp
  qed
qed

section \<open>Steps, invariants and frames\<close>

locale invariant_step =
  fixes step :: "'e \<Rightarrow> 's \<Rightarrow> 's"
    and inv :: "'s \<Rightarrow> bool"
  assumes step_inv: "inv s \<Longrightarrow> inv (step e s)"
begin

lemma run_inv: "inv s \<Longrightarrow> inv (fold step es s)"
  by (induction es arbitrary: s) (simp_all add: step_inv)

end

locale framed_step =
  fixes step :: "'e \<Rightarrow> 's \<Rightarrow> 's"
    and inv :: "'s \<Rightarrow> bool"
    and view :: "'s \<Rightarrow> 'v"
  assumes step_keeps: "inv s \<Longrightarrow> inv (step e s)"
    and step_view: "inv s \<Longrightarrow> view (step e s) = view s"
begin

lemma run_view: "inv s \<Longrightarrow> view (fold step es s) = view s"
proof (induction es arbitrary: s)
  case Nil
  then show ?case by simp
next
  case (Cons e es)
  from Cons.prems have "inv (step e s)" by (rule step_keeps)
  then have "view (fold step es (step e s)) = view (step e s)" by (rule Cons.IH)
  with Cons.prems show ?case by (simp add: step_view)
qed

end

sublocale framed_step \<subseteq> invariant_step step inv
  by unfold_locales (rule step_keeps)

end
