(* ===== verification/Go_Errors.thy ===== *)
theory Go_Errors
  imports Prelude
begin

text \<open>
  Go error values as the module builds and inspects them, and \<open>failure.go\<close>: how a private
  error is turned into the bounded public failure that reaches status, observers and HTTP.

  \<open>Errorf f as es\<close> is \<open>fmt.Errorf\<close>: the format, its operands other than \<open>%w\<close>, and the
  \<open>%w\<close> operands, kept apart instead of being rendered to text. \<open>ForeignError\<close> is an error
  value of a type this module does not define; its flag says that calling its methods panics.
\<close>

section \<open>Errors\<close>

datatype sentinel =
    ErrNilWorker | ErrWorkerAlreadyRegistered | ErrWorkerNotFound
  | ErrCommandAlreadyRegistered | ErrCommandNotFound
  | ErrInvalidWorkerState | ErrRuntimeNotAcceptingWork | ErrWorkerNotAcceptingWork
  | ErrRuntimeSaturated | ErrWorkerSaturated
  | ErrOpsCommandRejected | ErrOpsCommandFailed
  | ErrLoopExitedUnexpectedly | ErrLoopWorkerActive | ErrLoopCleanupPanicked
  | ErrNilChecker | ErrNilCheckGroup | ErrCheckLoopPanicked
  | CtxCanceled | CtxDeadlineExceeded

datatype fmt_arg = FStr string | FInt int

text \<open>The fields of \<open>opskit.Failure\<close> that this module reads and writes.\<close>

record failure =
  f_code :: string
  f_message :: string

definition zero_failure :: failure where
  "zero_failure = \<lparr>f_code = '''', f_message = ''''\<rparr>"

datatype error =
    Sentinel sentinel
  | Errorf string "fmt_arg list" "error list"
  | Joined "error list"
  | LoopCleanupError error
  | OperationalFailureError failure "error option"
  | OpskitCommandError failure string "sentinel option" "error option"
  | ForeignError string "error list" bool

definition errors_new :: "string \<Rightarrow> error" where
  "errors_new s = Errorf s [] []"

text \<open>\<open>errors.Join\<close>: nil operands are dropped, and nothing left is nil.\<close>

definition errors_join :: "error option list \<Rightarrow> error option" where
  "errors_join es =
     (case List.map_filter (\<lambda>e. e) es of [] \<Rightarrow> None | ys \<Rightarrow> Some (Joined ys))"

text \<open>\<open>errors.Is\<close> for a comparable sentinel: the value itself, then its unwrapped causes in
  order. \<open>None\<close> is a panic out of a foreign error's method.\<close>

fun errors_is :: "sentinel \<Rightarrow> error \<Rightarrow> bool option"
and errors_is_any :: "sentinel \<Rightarrow> error list \<Rightarrow> bool option" where
  "errors_is t (Sentinel s) = Some (s = t)"
| "errors_is t (Errorf f as es) = errors_is_any t es"
| "errors_is t (Joined es) = errors_is_any t es"
| "errors_is t (LoopCleanupError c) = errors_is t c"
| "errors_is t (OperationalFailureError f c) =
     (case c of None \<Rightarrow> Some False | Some e \<Rightarrow> errors_is t e)"
| "errors_is t (OpskitCommandError f m k c) = Some (k = Some t)"
| "errors_is t (ForeignError m es p) = (if p then None else errors_is_any t es)"
| "errors_is_any t [] = Some False"
| "errors_is_any t (e # es) =
     (case errors_is t e of
        None \<Rightarrow> None
      | Some b \<Rightarrow> if b then Some True else errors_is_any t es)"

abbreviation is_error :: "error \<Rightarrow> sentinel \<Rightarrow> bool" where
  "is_error e t \<equiv> errors_is t e = Some True"

section \<open>failure.go\<close>

definition FailureCodeWorkerFailed :: string where
  "FailureCodeWorkerFailed = ''worker_failed''"

definition FailureCodeLoopCleanupFailed :: string where
  "FailureCodeLoopCleanupFailed = ''loop_cleanup_failed''"

definition FailureCodeCommandFailed :: string where
  "FailureCodeCommandFailed = ''command_failed''"

definition FailureCodeDeadlineExceeded :: string where
  "FailureCodeDeadlineExceeded = ''deadline_exceeded''"

definition FailureCodeCanceled :: string where
  "FailureCodeCanceled = ''canceled''"

definition FailureCodePanic :: string where
  "FailureCodePanic = ''panic''"

definition FailureCodeOpskitCommandRejected :: string where
  "FailureCodeOpskitCommandRejected = ''opskit_command_rejected''"

definition FailureCodeOpskitCommandFailed :: string where
  "FailureCodeOpskitCommandFailed = ''opskit_command_failed''"

definition workerFailure :: failure where
  "workerFailure = \<lparr>f_code = FailureCodeWorkerFailed, f_message = ''worker operation failed''\<rparr>"

definition loopCleanupFailure :: failure where
  "loopCleanupFailure =
     \<lparr>f_code = FailureCodeLoopCleanupFailed, f_message = ''loop worker cleanup failed''\<rparr>"

definition commandFailure :: failure where
  "commandFailure = \<lparr>f_code = FailureCodeCommandFailed, f_message = ''command failed''\<rparr>"

definition deadlineFailure :: failure where
  "deadlineFailure =
     \<lparr>f_code = FailureCodeDeadlineExceeded, f_message = ''operation deadline exceeded''\<rparr>"

definition canceledFailure :: failure where
  "canceledFailure = \<lparr>f_code = FailureCodeCanceled, f_message = ''operation canceled''\<rparr>"

definition newLoopCleanupError :: "error option \<Rightarrow> error option" where
  "newLoopCleanupError cause =
     (case cause of
        None \<Rightarrow> None
      | Some (LoopCleanupError c) \<Rightarrow> Some (LoopCleanupError c)
      | Some e \<Rightarrow> Some (LoopCleanupError e))"

definition is_loop_cleanup :: "error \<Rightarrow> bool" where
  "is_loop_cleanup e \<longleftrightarrow> (case e of LoopCleanupError _ \<Rightarrow> True | _ \<Rightarrow> False)"

definition WithOperationalFailure :: "error option \<Rightarrow> failure \<Rightarrow> error option" where
  "WithOperationalFailure cause f =
     (if f = zero_failure then cause else Some (OperationalFailureError f cause))"

text \<open>The text of an \<open>operationalFailureError\<close>.\<close>

definition operationalFailureError_Error :: "failure \<Rightarrow> string" where
  "operationalFailureError_Error f =
     (if f_message f \<noteq> '''' then f_message f
      else if f_code f \<noteq> '''' then f_code f
      else ''operational failure'')"

text \<open>The text of the sentinels an \<open>OpskitCommandError\<close> can carry.\<close>

definition sentinel_Error :: "sentinel \<Rightarrow> string" where
  "sentinel_Error k = (case k of
       ErrOpsCommandRejected \<Rightarrow> ''opskit command rejected''
     | ErrOpsCommandFailed \<Rightarrow> ''opskit command failed''
     | ErrInvalidWorkerState \<Rightarrow> ''invalid worker state''
     | ErrRuntimeNotAcceptingWork \<Rightarrow> ''runtime not accepting work''
     | ErrWorkerNotAcceptingWork \<Rightarrow> ''worker not accepting work''
     | ErrRuntimeSaturated \<Rightarrow> ''runtime command concurrency limit reached''
     | ErrWorkerSaturated \<Rightarrow> ''worker command concurrency limit reached''
     | ErrNilWorker \<Rightarrow> ''worker must not be nil''
     | ErrWorkerAlreadyRegistered \<Rightarrow> ''worker already registered''
     | ErrWorkerNotFound \<Rightarrow> ''worker not found''
     | ErrCommandAlreadyRegistered \<Rightarrow> ''command already registered''
     | ErrCommandNotFound \<Rightarrow> ''command not found''
     | ErrLoopExitedUnexpectedly \<Rightarrow> ''loop worker exited unexpectedly''
     | ErrLoopWorkerActive \<Rightarrow> ''loop worker already active''
     | ErrLoopCleanupPanicked \<Rightarrow> ''loop worker cleanup panicked''
     | ErrNilChecker \<Rightarrow> ''opskit checker must not be nil''
     | ErrNilCheckGroup \<Rightarrow> ''opskit check group must not be nil''
     | ErrCheckLoopPanicked \<Rightarrow> ''opskit check loop panicked''
     | CtxCanceled \<Rightarrow> ''context canceled''
     | CtxDeadlineExceeded \<Rightarrow> ''context deadline exceeded'')"

text \<open>\<open>OpskitCommandError.OperationalFailure\<close>.\<close>

definition OpskitCommandError_OperationalFailure ::
  "failure \<Rightarrow> string \<Rightarrow> sentinel option \<Rightarrow> failure" where
  "OpskitCommandError_OperationalFailure f msg kind =
     (let f1 = (if f_code f = ''''
                then f\<lparr>f_code := (if kind = Some ErrOpsCommandRejected
                                  then FailureCodeOpskitCommandRejected
                                  else FailureCodeOpskitCommandFailed)\<rparr>
                else f);
          f2 = (if f_message f1 = '''' then f1\<lparr>f_message := msg\<rparr> else f1)
      in if f_message f2 = ''''
         then f2\<lparr>f_message := (case kind of Some k \<Rightarrow> sentinel_Error k
                                         | None \<Rightarrow> ''opskit command failed'')\<rparr>
         else f2)"

text \<open>\<open>errors.As\<close> with target \<open>operationalFailureProvider\<close>, together with the provider's
  answer: \<open>None\<close> is a panic, \<open>Some None\<close> no provider in the tree, \<open>Some (Some f)\<close> the failure
  the first provider presents. A cleanup error asks its cause first, under a recover of its
  own (\<open>safeExplicitOperationalFailure\<close>).\<close>

fun find_provider :: "error \<Rightarrow> failure option option"
and find_provider_any :: "error list \<Rightarrow> failure option option" where
  "find_provider (Sentinel s) = Some None"
| "find_provider (Errorf f as es) = find_provider_any es"
| "find_provider (Joined es) = find_provider_any es"
| "find_provider (LoopCleanupError c) =
     (case find_provider c of
        Some (Some f) \<Rightarrow> Some (Some (if f \<noteq> zero_failure then f else loopCleanupFailure))
      | _ \<Rightarrow> Some (Some loopCleanupFailure))"
| "find_provider (OperationalFailureError f c) = Some (Some f)"
| "find_provider (OpskitCommandError f m k c) =
     Some (Some (OpskitCommandError_OperationalFailure f m k))"
| "find_provider (ForeignError m es p) = (if p then None else find_provider_any es)"
| "find_provider_any [] = Some None"
| "find_provider_any (e # es) =
     (case find_provider e of
        None \<Rightarrow> None
      | Some None \<Rightarrow> find_provider_any es
      | Some (Some f) \<Rightarrow> Some (Some f))"

definition safeExplicitOperationalFailure :: "error \<Rightarrow> failure" where
  "safeExplicitOperationalFailure e =
     (case find_provider e of Some (Some f) \<Rightarrow> f | _ \<Rightarrow> zero_failure)"

definition operationalFailure :: "error option \<Rightarrow> failure \<Rightarrow> failure" where
  "operationalFailure err fallback =
     (case err of
        None \<Rightarrow> zero_failure
      | Some e \<Rightarrow>
          (case find_provider e of
             None \<Rightarrow> fallback
           | Some p \<Rightarrow>
               if p \<noteq> None \<and> p \<noteq> Some zero_failure then the p
               else (case errors_is CtxDeadlineExceeded e of
                       None \<Rightarrow> fallback
                     | Some True \<Rightarrow> deadlineFailure
                     | Some False \<Rightarrow>
                         (case errors_is CtxCanceled e of
                            None \<Rightarrow> fallback
                          | Some True \<Rightarrow> canceledFailure
                          | Some False \<Rightarrow> fallback))))"

text \<open>\<open>%q\<close> on the name of a registered worker or command: validation admits only letters, digits
  and the marks \<open>- _ . /\<close> there, so nothing is escaped.\<close>

definition go_quote :: "string \<Rightarrow> string" where
  "go_quote s = CHR 0x22 # s @ [CHR 0x22]"

definition newRecoveredPanicError :: "string \<Rightarrow> error" where
  "newRecoveredPanicError operation =
     OperationalFailureError
       \<lparr>f_code = FailureCodePanic, f_message = ''recovered panic during '' @ operation\<rparr> None"

section \<open>What the presentation of an error may depend on\<close>

text \<open>
  \<open>redact\<close> erases everything private in an error: the text of formatted and foreign errors
  and the internal cause of an adapted Opskit error. What is left is the shape of the tree,
  the sentinels and the failures that were attached on purpose.
\<close>

fun redact :: "error \<Rightarrow> error"
and redact_all :: "error list \<Rightarrow> error list" where
  "redact (Sentinel s) = Sentinel s"
| "redact (Errorf f as es) = Errorf '''' [] (redact_all es)"
| "redact (Joined es) = Joined (redact_all es)"
| "redact (LoopCleanupError c) = LoopCleanupError (redact c)"
| "redact (OperationalFailureError f c) =
     OperationalFailureError f (case c of None \<Rightarrow> None | Some e \<Rightarrow> Some (redact e))"
| "redact (OpskitCommandError f m k c) = OpskitCommandError f m k None"
| "redact (ForeignError m es p) = ForeignError '''' (redact_all es) p"
| "redact_all [] = []"
| "redact_all (e # es) = redact e # redact_all es"

text \<open>The failures an error tree presents explicitly.\<close>

fun presented :: "error \<Rightarrow> failure list"
and presented_any :: "error list \<Rightarrow> failure list" where
  "presented (Sentinel s) = []"
| "presented (Errorf f as es) = presented_any es"
| "presented (Joined es) = presented_any es"
| "presented (LoopCleanupError c) = loopCleanupFailure # presented c"
| "presented (OperationalFailureError f c) = [f]"
| "presented (OpskitCommandError f m k c) = [OpskitCommandError_OperationalFailure f m k]"
| "presented (ForeignError m es p) = presented_any es"
| "presented_any [] = []"
| "presented_any (e # es) = presented e @ presented_any es"

lemma errors_is_redact [simp]:
  "errors_is t (redact e) = errors_is t e"
  "errors_is_any t (redact_all es) = errors_is_any t es"
  by (induction e and es rule: redact_redact_all.induct) (auto split: option.splits)

lemma find_provider_redact [simp]:
  "find_provider (redact e) = find_provider e"
  "find_provider_any (redact_all es) = find_provider_any es"
  by (induction e and es rule: redact_redact_all.induct) (auto split: option.splits)

lemma find_provider_presented:
  "find_provider e = Some (Some f) \<Longrightarrow> f \<in> set (presented e)"
  "find_provider_any es = Some (Some f) \<Longrightarrow> f \<in> set (presented_any es)"
  by (induction e and es arbitrary: f and f rule: presented_presented_any.induct)
     (auto split: option.splits if_splits)

lemma operationalFailure_nil [simp]: "operationalFailure None fb = zero_failure"
  by (simp add: operationalFailure_def)

text \<open>Arbitrary error text never reaches the public presentation. Two errors that agree
  after erasing private text and private causes are presented the same.\<close>

lemma operationalFailure_ignores_private_text:
  "operationalFailure (map_option redact err) fb = operationalFailure err fb"
  by (cases err) (simp_all add: operationalFailure_def split: option.split)

text \<open>What is presented comes from a closed list: the fallback, the two fixed context
  failures, or a failure that code attached explicitly to the error tree.\<close>

lemma operationalFailure_closed:
  "operationalFailure (Some e) fb \<in>
     {fb, deadlineFailure, canceledFailure} \<union> set (presented e)"
proof (cases "find_provider e")
  case None
  then show ?thesis by (simp add: operationalFailure_def)
next
  case (Some p)
  then show ?thesis
    by (cases p)
       (auto simp: operationalFailure_def find_provider_presented
             split: option.splits bool.splits)
qed

lemma newLoopCleanupError_idem:
  "newLoopCleanupError (newLoopCleanupError e) = newLoopCleanupError e"
  by (auto simp: newLoopCleanupError_def split: option.splits error.splits)

lemma newLoopCleanupError_is: "newLoopCleanupError (Some e) = Some e' \<Longrightarrow> is_loop_cleanup e'"
  by (auto simp: newLoopCleanupError_def is_loop_cleanup_def split: error.splits)

lemma WithOperationalFailure_is:
  "is_error c t \<Longrightarrow> WithOperationalFailure (Some c) f = Some e \<Longrightarrow> is_error e t"
  by (auto simp: WithOperationalFailure_def split: if_splits)

lemma WithOperationalFailure_presents:
  "f \<noteq> zero_failure \<Longrightarrow> operationalFailure (WithOperationalFailure c f) fb = f"
  by (simp add: WithOperationalFailure_def operationalFailure_def)

lemma operationalFailure_sentinel:
  "operationalFailure (Some (Sentinel s)) fb =
     (if s = CtxDeadlineExceeded then deadlineFailure
      else if s = CtxCanceled then canceledFailure else fb)"
  by (simp add: operationalFailure_def)

lemma operationalFailure_panic:
  "operationalFailure (Some (newRecoveredPanicError op)) fb =
     \<lparr>f_code = FailureCodePanic, f_message = ''recovered panic during '' @ op\<rparr>"
  by (simp add: operationalFailure_def newRecoveredPanicError_def zero_failure_def
                FailureCodePanic_def)

end
