(* ===== verification/Names.thy ===== *)
theory Names
  imports Go_Errors
begin

text \<open>
  \<open>names.go\<close>: the operational identifiers of runtimes, workers and commands.

  A Go string is its bytes (a \<open>char list\<close>). \<open>range name\<close> and \<open>strings.TrimSpace\<close> walk its
  runes, so the UTF-8 decoding of the Go runtime is written out: an invalid byte is the
  replacement rune 65533 of width one. The other string functions work on bytes.
\<close>

section \<open>Strings and runes\<close>

abbreviation cont_byte :: "nat \<Rightarrow> bool" where
  "cont_byte b \<equiv> 128 \<le> b \<and> b < 192"

text \<open>The first rune of a non-empty byte string and its width.\<close>

definition decode_rune :: "nat \<Rightarrow> nat list \<Rightarrow> nat \<times> nat" where
  "decode_rune b bs =
     (if b < 128 then (b, 1)
      else case bs of
        [] \<Rightarrow> (65533, 1)
      | c # cs \<Rightarrow>
          if 194 \<le> b \<and> b < 224 \<and> cont_byte c then ((b - 192) * 64 + (c - 128), 2)
          else case cs of
            [] \<Rightarrow> (65533, 1)
          | d # ds \<Rightarrow>
              if 224 \<le> b \<and> b < 240 \<and> cont_byte c \<and> (b = 224 \<longrightarrow> 160 \<le> c) \<and> (b = 237 \<longrightarrow> c < 160)
                 \<and> cont_byte d
              then ((b - 224) * 4096 + (c - 128) * 64 + (d - 128), 3)
              else case ds of
                [] \<Rightarrow> (65533, 1)
              | e # es \<Rightarrow>
                  if 240 \<le> b \<and> b < 245 \<and> cont_byte c \<and> (b = 240 \<longrightarrow> 144 \<le> c)
                     \<and> (b = 244 \<longrightarrow> c < 144) \<and> cont_byte d \<and> cont_byte e
                  then ((b - 240) * 262144 + (c - 128) * 4096 + (d - 128) * 64 + (e - 128), 4)
                  else (65533, 1))"

fun utf8_runes :: "nat list \<Rightarrow> nat list" where
  "utf8_runes [] = []"
| "utf8_runes (b # bs) =
     (case decode_rune b bs of (r, w) \<Rightarrow> r # utf8_runes (drop (w - 1) bs))"

definition runes :: "string \<Rightarrow> nat list" where
  "runes s = utf8_runes (map of_char s)"

text \<open>\<open>unicode.IsSpace\<close>.\<close>

definition is_space :: "nat \<Rightarrow> bool" where
  "is_space r \<longleftrightarrow> r \<in> {9, 10, 11, 12, 13, 32, 133, 160, 5760, 8232, 8233, 8239, 8287, 12288}
     \<or> 8192 \<le> r \<and> r \<le> 8202"

text \<open>\<open>strings.TrimSpace(s) != s\<close>: trimming takes whole runes off either end.\<close>

definition trim_runes :: "nat list \<Rightarrow> nat list" where
  "trim_runes rs = rev (dropWhile is_space (rev (dropWhile is_space rs)))"

definition trim_changes :: "string \<Rightarrow> bool" where
  "trim_changes s \<longleftrightarrow> trim_runes (runes s) \<noteq> runes s"

text \<open>\<open>strings.Split(s, "/")\<close>, \<open>strings.Cut(s, "/")\<close> and \<open>strings.Contains(s, "//")\<close>.\<close>

fun split_slash :: "string \<Rightarrow> string list" where
  "split_slash [] = [[]]"
| "split_slash (c # cs) =
     (if c = CHR ''/'' then [] # split_slash cs
      else case split_slash cs of [] \<Rightarrow> [[c]] | w # ws \<Rightarrow> (c # w) # ws)"

definition cut_slash :: "string \<Rightarrow> (string \<times> string) option" where
  "cut_slash s =
     (if CHR ''/'' \<in> set s
      then Some (takeWhile (\<lambda>c. c \<noteq> CHR ''/'') s, tl (dropWhile (\<lambda>c. c \<noteq> CHR ''/'') s))
      else None)"

fun contains_slash2 :: "string \<Rightarrow> bool" where
  "contains_slash2 (c # d # cs) =
     (c = CHR ''/'' \<and> d = CHR ''/'' \<or> contains_slash2 (d # cs))"
| "contains_slash2 cs = False"

section \<open>Validation\<close>

fun identifier_runes :: "string \<Rightarrow> nat list \<Rightarrow> error option" where
  "identifier_runes field [] = None"
| "identifier_runes field (r # rs) =
     (if 97 \<le> r \<and> r \<le> 122 then identifier_runes field rs
      else if 48 \<le> r \<and> r \<le> 57 then identifier_runes field rs
      else if r = 45 \<or> r = 95 then identifier_runes field rs
      else if 65 \<le> r \<and> r \<le> 90
        then Some (Errorf ''%s must use lowercase ASCII letters, digits, '-' or '_' only''
                          [FStr field] [])
      else if is_space r
        then Some (Errorf ''%s must not contain whitespace'' [FStr field] [])
      else if r = 47
        then Some (Errorf (''%s must be flat and must not contain '/'' @ [CHR 0x27]) [FStr field] [])
      else if r > 127
        then Some (Errorf ''%s must use lowercase ASCII letters, digits, '-' or '_' only''
                          [FStr field] [])
      else Some (Errorf ''%s must use lowercase ASCII letters, digits, '-' or '_' only''
                        [FStr field] []))"

definition validateIdentifier :: "string \<Rightarrow> string \<Rightarrow> error option" where
  "validateIdentifier name field =
     (if name = [] then Some (Errorf ''%s must not be empty'' [FStr field] [])
      else if trim_changes name
        then Some (Errorf ''%s must not contain leading or trailing whitespace'' [FStr field] [])
      else identifier_runes field (runes name))"

fun validate_segments :: "string \<Rightarrow> string list \<Rightarrow> error option" where
  "validate_segments field [] = None"
| "validate_segments field (seg # segs) =
     (case validateIdentifier seg (field @ '' segment'') of
        Some e \<Rightarrow> Some e
      | None \<Rightarrow> validate_segments field segs)"

definition validatePathName :: "string \<Rightarrow> string \<Rightarrow> error option" where
  "validatePathName name field =
     (if name = [] then Some (Errorf ''%s must not be empty'' [FStr field] [])
      else if trim_changes name
        then Some (Errorf ''%s must not contain leading or trailing whitespace'' [FStr field] [])
      else if hd name = CHR ''/'' \<or> last name = CHR ''/''
        then Some (Errorf (''%s must not start or end with '/'' @ [CHR 0x27]) [FStr field] [])
      else if contains_slash2 name
        then Some (Errorf ''%s must not contain empty path segments'' [FStr field] [])
      else validate_segments field (split_slash name))"

definition ValidateRuntimeName :: "string \<Rightarrow> error option" where
  "ValidateRuntimeName name = validateIdentifier name ''runtime name''"

definition ValidateCommandName :: "string \<Rightarrow> error option" where
  "ValidateCommandName name = validatePathName name ''command name''"

definition ValidateWorkerLocalName :: "string \<Rightarrow> error option" where
  "ValidateWorkerLocalName name = validateIdentifier name ''worker local name''"

definition splitQualifiedWorkerName :: "string \<Rightarrow> (string \<times> string) option" where
  "splitQualifiedWorkerName name =
     (case cut_slash name of
        None \<Rightarrow> None
      | Some (pre, post) \<Rightarrow>
          if pre = [] \<or> post = [] \<or> CHR ''/'' \<in> set post then None
          else Some (pre, post))"

definition ValidateQualifiedWorkerName :: "string \<Rightarrow> error option" where
  "ValidateQualifiedWorkerName name =
     (case splitQualifiedWorkerName name of
        None \<Rightarrow> Some (errors_new ''qualified worker name must have form runtime/worker'')
      | Some (runtimeName, workerName) \<Rightarrow>
          (case ValidateRuntimeName runtimeName of
             Some e \<Rightarrow> Some (Errorf ''invalid qualified worker runtime: %w'' [] [e])
           | None \<Rightarrow>
               (case ValidateWorkerLocalName workerName of
                  Some e \<Rightarrow> Some (Errorf ''invalid qualified worker name: %w'' [] [e])
                | None \<Rightarrow> None)))"

definition validateWorkerReferenceName :: "string \<Rightarrow> error option" where
  "validateWorkerReferenceName name =
     (if CHR ''/'' \<in> set name then ValidateQualifiedWorkerName name
      else ValidateWorkerLocalName name)"

definition ValidateWorkerName :: "string \<Rightarrow> error option" where
  "ValidateWorkerName name = validateWorkerReferenceName name"

definition qualifyWorkerName :: "string \<Rightarrow> string \<Rightarrow> string" where
  "qualifyWorkerName runtimeName workerName = runtimeName @ ''/'' @ workerName"

definition resolveWorkerName :: "string \<Rightarrow> string \<Rightarrow> error + string" where
  "resolveWorkerName runtimeName name =
     (if CHR ''/'' \<in> set name
      then (case ValidateQualifiedWorkerName name of
              Some e \<Rightarrow> Inl e
            | None \<Rightarrow> Inr name)
      else (case ValidateWorkerLocalName name of
              Some e \<Rightarrow> Inl e
            | None \<Rightarrow> Inr (qualifyWorkerName runtimeName name)))"

section \<open>The language of names\<close>

text \<open>The specification: what the documentation of the package promises.\<close>

definition ident_char :: "char \<Rightarrow> bool" where
  "ident_char c \<longleftrightarrow> c \<in> set ''abcdefghijklmnopqrstuvwxyz0123456789-_''"

definition is_identifier :: "string \<Rightarrow> bool" where
  "is_identifier s \<longleftrightarrow> s \<noteq> [] \<and> list_all ident_char s"

definition ident_rune :: "nat \<Rightarrow> bool" where
  "ident_rune r \<longleftrightarrow> 97 \<le> r \<and> r \<le> 122 \<or> 48 \<le> r \<and> r \<le> 57 \<or> r = 45 \<or> r = 95"

lemma decode_rune_small:
  "decode_rune b bs = (r, w) \<Longrightarrow> r < 128 \<Longrightarrow> b < 128 \<and> r = b \<and> w = 1"
  by (auto simp: decode_rune_def split: if_splits list.splits)

lemma utf8_runes_small:
  "list_all (\<lambda>r. r < 128) (utf8_runes bs) \<Longrightarrow> utf8_runes bs = bs"
proof (induction bs rule: utf8_runes.induct)
  case 1
  then show ?case by simp
next
  case (2 b bs)
  obtain r w where d: "decode_rune b bs = (r, w)" by (cases "decode_rune b bs")
  with "2.prems" have "r < 128" by simp
  with d have "r = b" "w = 1" using decode_rune_small by blast+
  with "2" d show ?case by simp
qed

lemma utf8_runes_ascii: "list_all (\<lambda>b. b < 128) bs \<Longrightarrow> utf8_runes bs = bs"
  by (induction bs) (simp_all add: decode_rune_def)

lemma ident_rune_small: "ident_rune r \<Longrightarrow> r < 128"
  by (auto simp: ident_rune_def)

lemma ident_rune_not_space: "ident_rune r \<Longrightarrow> \<not> is_space r"
  by (auto simp: ident_rune_def is_space_def)

lemma ident_chars_codes:
  "map of_char ''abcdefghijklmnopqrstuvwxyz0123456789-_'' =
     ([97..<123] @ [48..<58] @ [45, 95] :: nat list)"
  by simp

lemma ident_codes_rune:
  "x \<in> set ([97..<123] @ [48..<58] @ [45, 95] :: nat list) \<longleftrightarrow> ident_rune x"
  by (simp only: set_append set_upt Un_iff atLeastLessThan_iff list.set insert_iff empty_iff
        ident_rune_def) arith

lemma ident_char_rune: "ident_char c \<longleftrightarrow> ident_rune (of_char c)"
proof -
  let ?cs = "''abcdefghijklmnopqrstuvwxyz0123456789-_''"
  have "ident_char c \<longleftrightarrow> (of_char c :: nat) \<in> set (map of_char ?cs)"
    unfolding ident_char_def set_map by (simp only: inj_image_mem_iff [OF inj_of_char])
  also have "\<dots> \<longleftrightarrow> ident_rune (of_char c)"
    unfolding ident_chars_codes by (rule ident_codes_rune)
  finally show ?thesis .
qed

lemma identifier_runes_ok: "identifier_runes field rs = None \<longleftrightarrow> list_all ident_rune rs"
  by (induction rs) (auto simp: ident_rune_def)

lemma dropWhile_none: "\<forall>x \<in> set xs. \<not> P x \<Longrightarrow> dropWhile P xs = xs"
  by (cases xs) simp_all

lemma trim_runes_id: "list_all (\<lambda>r. \<not> is_space r) rs \<Longrightarrow> trim_runes rs = rs"
  by (simp add: trim_runes_def list_all_iff dropWhile_none)

lemma runes_ident:
  "list_all ident_rune (runes s) \<longleftrightarrow> list_all ident_char s"
proof
  assume h: "list_all ident_rune (runes s)"
  then have "runes s = map of_char s"
    unfolding runes_def
    by (intro utf8_runes_small) (auto simp: list_all_iff dest: ident_rune_small)
  with h show "list_all ident_char s" by (simp add: list_all_iff ident_char_rune)
next
  assume h: "list_all ident_char s"
  then have "runes s = map of_char s"
    unfolding runes_def
    by (intro utf8_runes_ascii)
       (auto simp: list_all_iff ident_char_rune dest!: bspec dest: ident_rune_small)
  with h show "list_all ident_rune (runes s)" by (simp add: list_all_iff ident_char_rune)
qed

lemma trim_ident: "list_all ident_char s \<Longrightarrow> \<not> trim_changes s"
  using runes_ident [of s] ident_rune_not_space
  by (auto simp: trim_changes_def list_all_iff intro!: trim_runes_id)

lemma validateIdentifier_accepts:
  "validateIdentifier name field = None \<longleftrightarrow> is_identifier name"
  using trim_ident [of name]
  by (auto simp: validateIdentifier_def is_identifier_def identifier_runes_ok runes_ident)

text \<open>The validator accepts exactly the documented language: non-empty, lowercase ASCII
  letters, digits, \<open>-\<close> and \<open>_\<close>; whatever bytes the input has.\<close>

lemma validateIdentifier_iff:
  "validateIdentifier name field = None \<longleftrightarrow>
     name \<noteq> [] \<and> set name \<subseteq> set ''abcdefghijklmnopqrstuvwxyz0123456789-_''"
  unfolding validateIdentifier_accepts is_identifier_def list_all_iff ident_char_def by blast


lemma validateIdentifier_ok [simp]:
  "is_identifier name \<Longrightarrow> validateIdentifier name field = None"
  by (simp add: validateIdentifier_accepts)

lemma validateIdentifier_None: "validateIdentifier name field = None \<Longrightarrow> is_identifier name"
  by (simp add: validateIdentifier_accepts)

section \<open>Command paths\<close>

lemma slash_not_ident: "is_identifier s \<Longrightarrow> CHR ''/'' \<notin> set s"
  by (auto simp: is_identifier_def ident_char_rune ident_rune_def list_all_iff)

text \<open>Joining segments with the separator.\<close>

fun join_slash :: "string list \<Rightarrow> string" where
  "join_slash [] = []"
| "join_slash [s] = s"
| "join_slash (s # t # ss) = s @ CHR ''/'' # join_slash (t # ss)"

lemma split_slash_nonempty [simp]: "split_slash s \<noteq> []"
  by (cases s) (auto split: list.splits)

lemma join_split [simp]: "join_slash (split_slash s) = s"
proof (induction s)
  case Nil
  then show ?case by simp
next
  case (Cons c cs)
  obtain w ws where w: "split_slash cs = w # ws" by (cases "split_slash cs") simp_all
  with Cons show ?case by (cases ws) auto
qed

lemma split_slash_flat: "CHR ''/'' \<notin> set s \<Longrightarrow> split_slash s = [s]"
  by (induction s) auto

lemma split_slash_append:
  "CHR ''/'' \<notin> set s \<Longrightarrow> split_slash (s @ CHR ''/'' # t) = s # split_slash t"
  by (induction s) auto

lemma split_join:
  "ss \<noteq> [] \<Longrightarrow> \<forall>s \<in> set ss. CHR ''/'' \<notin> set s \<Longrightarrow> split_slash (join_slash ss) = ss"
  by (induction ss rule: join_slash.induct) (auto simp: split_slash_flat split_slash_append)

lemma validate_segments_ok:
  "validate_segments field segs = None \<longleftrightarrow> list_all is_identifier segs"
  by (induction segs) (auto simp: validateIdentifier_accepts split: option.splits)

text \<open>The checks before the segment loop reject nothing the segments would accept.\<close>

lemma is_identifier_seg: "is_identifier s \<Longrightarrow> s \<noteq> [] \<and> CHR ''/'' \<notin> set s"
  using slash_not_ident by (simp add: is_identifier_def)

lemma join_ident_ends:
  assumes "ss \<noteq> []" and "\<forall>s \<in> set ss. is_identifier s"
  shows "join_slash ss \<noteq> [] \<and> hd (join_slash ss) \<noteq> CHR ''/'' \<and> last (join_slash ss) \<noteq> CHR ''/''"
  using assms
proof (induction ss rule: join_slash.induct)
  case 1
  then show ?case by simp
next
  case (2 s)
  then have "s \<noteq> []" "CHR ''/'' \<notin> set s" using is_identifier_seg by auto
  then show ?case by (metis hd_in_set join_slash.simps(2) last_in_set)
next
  case (3 s t ss)
  then have "s \<noteq> []" "CHR ''/'' \<notin> set s" using is_identifier_seg by auto
  then have "hd s \<noteq> CHR ''/''" by (metis hd_in_set)
  with \<open>s \<noteq> []\<close> 3 show ?case by simp
qed

lemma contains_slash2_flat: "CHR ''/'' \<notin> set s \<Longrightarrow> \<not> contains_slash2 s"
  by (induction s rule: contains_slash2.induct) auto

lemma contains_slash2_glue:
  assumes "CHR ''/'' \<notin> set s" and "r \<noteq> []" and "hd r \<noteq> CHR ''/''"
    and "\<not> contains_slash2 r"
  shows "\<not> contains_slash2 (s @ CHR ''/'' # r)"
  using assms(1)
proof (induction s)
  case Nil
  from assms(2-4) show ?case by (cases r) auto
next
  case (Cons c s)
  then show ?case by (cases s) auto
qed

lemma join_ident_slash2:
  "ss \<noteq> [] \<Longrightarrow> \<forall>s \<in> set ss. is_identifier s \<Longrightarrow> \<not> contains_slash2 (join_slash ss)"
proof (induction ss rule: join_slash.induct)
  case 1
  then show ?case by simp
next
  case (2 s)
  then show ?case using is_identifier_seg contains_slash2_flat by simp
next
  case (3 s t ss)
  have "join_slash (t # ss) \<noteq> [] \<and> hd (join_slash (t # ss)) \<noteq> CHR ''/''"
    using join_ident_ends [of "t # ss"] 3 by simp
  with 3 show ?case using is_identifier_seg contains_slash2_glue by simp
qed

lemma join_ident_chars:
  "\<forall>s \<in> set ss. is_identifier s \<Longrightarrow> \<forall>c \<in> set (join_slash ss). ident_char c \<or> c = CHR ''/''"
  by (induction ss rule: join_slash.induct) (auto simp: is_identifier_def list_all_iff)

lemma trim_path:
  assumes "\<forall>c \<in> set s. ident_char c \<or> c = CHR ''/''"
  shows "\<not> trim_changes s"
proof -
  have small: "(of_char c :: nat) < 128 \<and> \<not> is_space (of_char c)" if "c \<in> set s" for c
  proof (cases "ident_char c")
    case True
    then show ?thesis by (simp add: ident_char_rune ident_rune_small ident_rune_not_space)
  next
    case False
    with assms that have "c = CHR ''/''" by auto
    then show ?thesis by (simp add: is_space_def)
  qed
  then have "runes s = map of_char s"
    unfolding runes_def by (intro utf8_runes_ascii) (auto simp: list_all_iff)
  with small show ?thesis by (auto simp: trim_changes_def list_all_iff intro!: trim_runes_id)
qed

lemma valid_command_name:
  "ValidateCommandName name = None \<longleftrightarrow>
     (\<exists>segs. segs \<noteq> [] \<and> (\<forall>s \<in> set segs. is_identifier s) \<and> name = join_slash segs)"
    (is "?ok = ?path")
proof
  assume ?ok
  then have "list_all is_identifier (split_slash name)"
    by (auto simp: ValidateCommandName_def validatePathName_def validate_segments_ok
             split: if_splits)
  then show ?path
    by (intro exI [of _ "split_slash name"]) (simp add: list_all_iff)
next
  assume ?path
  then obtain segs where s: "segs \<noteq> []" "\<forall>s \<in> set segs. is_identifier s"
    "name = join_slash segs" by auto
  then have "split_slash name = segs" by (simp add: split_join is_identifier_seg)
  with s show ?ok
    by (simp add: ValidateCommandName_def validatePathName_def validate_segments_ok
          join_ident_ends join_ident_slash2 trim_path [OF join_ident_chars] list_all_iff)
qed

section \<open>Qualified names\<close>

lemma cut_slash_qualify:
  "CHR ''/'' \<notin> set r \<Longrightarrow> cut_slash (qualifyWorkerName r w) = Some (r, w)"
proof -
  assume r: "CHR ''/'' \<notin> set r"
  then have "takeWhile (\<lambda>c. c \<noteq> CHR ''/'') (r @ CHR ''/'' # w) = r"
    and "dropWhile (\<lambda>c. c \<noteq> CHR ''/'') (r @ CHR ''/'' # w) = CHR ''/'' # w"
    by (induction r) auto
  then show ?thesis by (simp add: cut_slash_def qualifyWorkerName_def)
qed

lemma cut_slash_parts: "cut_slash s = Some (a, b) \<Longrightarrow> s = a @ CHR ''/'' # b"
proof -
  have "CHR ''/'' \<in> set s \<Longrightarrow>
    takeWhile (\<lambda>c. c \<noteq> CHR ''/'') s @ CHR ''/'' # tl (dropWhile (\<lambda>c. c \<noteq> CHR ''/'') s) = s"
    by (induction s) auto
  then show "cut_slash s = Some (a, b) \<Longrightarrow> s = a @ CHR ''/'' # b"
    by (auto simp: cut_slash_def split: if_splits)
qed

lemma qualify_inj:
  assumes "is_identifier w" and "is_identifier w'"
  shows "qualifyWorkerName r w = qualifyWorkerName r' w' \<longleftrightarrow> r = r' \<and> w = w'"
proof
  assume h: "qualifyWorkerName r w = qualifyWorkerName r' w'"
  have "takeWhile (\<lambda>c. c \<noteq> CHR ''/'') (rev (qualifyWorkerName r w)) = rev w"
    and "takeWhile (\<lambda>c. c \<noteq> CHR ''/'') (rev (qualifyWorkerName r' w')) = rev w'"
    using assms slash_not_ident
    by (auto simp: qualifyWorkerName_def takeWhile_append intro!: takeWhile_eq_all_conv [THEN iffD2])
  with h have "w = w'" by simp
  with h show "r = r' \<and> w = w'" by (simp add: qualifyWorkerName_def)
qed auto

lemma ValidateQualifiedWorkerName_iff:
  "ValidateQualifiedWorkerName name = None \<longleftrightarrow>
     (\<exists>r w. is_identifier r \<and> is_identifier w \<and> name = qualifyWorkerName r w)"
proof
  assume h: "ValidateQualifiedWorkerName name = None"
  then obtain r w where rw: "splitQualifiedWorkerName name = Some (r, w)"
    "is_identifier r" "is_identifier w"
    by (auto simp: ValidateQualifiedWorkerName_def ValidateRuntimeName_def
          ValidateWorkerLocalName_def validateIdentifier_accepts split: option.splits)
  then have "cut_slash name = Some (r, w)"
    by (auto simp: splitQualifiedWorkerName_def split: option.splits if_splits)
  then have "name = r @ CHR ''/'' # w"
    by (rule cut_slash_parts)
  with rw show "\<exists>r w. is_identifier r \<and> is_identifier w \<and> name = qualifyWorkerName r w"
    by (auto simp: qualifyWorkerName_def)
next
  assume "\<exists>r w. is_identifier r \<and> is_identifier w \<and> name = qualifyWorkerName r w"
  then obtain r w where rw: "is_identifier r" "is_identifier w" "name = qualifyWorkerName r w"
    by auto
  then have "splitQualifiedWorkerName name = Some (r, w)"
    using is_identifier_seg cut_slash_qualify
    by (simp add: splitQualifiedWorkerName_def)
  with rw show "ValidateQualifiedWorkerName name = None"
    by (simp add: ValidateQualifiedWorkerName_def ValidateRuntimeName_def
          ValidateWorkerLocalName_def validateIdentifier_accepts)
qed

lemma resolveWorkerName_local:
  assumes "is_identifier w"
  shows "resolveWorkerName r w = Inr (qualifyWorkerName r w)"
  using assms slash_not_ident
  by (simp add: resolveWorkerName_def ValidateWorkerLocalName_def validateIdentifier_accepts)

lemma resolveWorkerName_qualified:
  assumes "is_identifier r" and "is_identifier w"
  shows "resolveWorkerName r' (qualifyWorkerName r w) = Inr (qualifyWorkerName r w)"
proof -
  have "ValidateQualifiedWorkerName (qualifyWorkerName r w) = None"
    using assms ValidateQualifiedWorkerName_iff by blast
  then show ?thesis by (simp add: resolveWorkerName_def qualifyWorkerName_def)
qed

lemma resolveWorkerName_form:
  assumes "is_identifier r" and "resolveWorkerName r name = Inr q"
  shows "\<exists>r' w. is_identifier r' \<and> is_identifier w \<and> q = qualifyWorkerName r' w"
proof (cases "CHR ''/'' \<in> set name")
  case True
  with assms(2) have "ValidateQualifiedWorkerName name = None" "q = name"
    by (auto simp: resolveWorkerName_def split: option.splits)
  then show ?thesis by (simp add: ValidateQualifiedWorkerName_iff)
next
  case False
  with assms(2) have "is_identifier name" "q = qualifyWorkerName r name"
    by (auto simp: resolveWorkerName_def ValidateWorkerLocalName_def validateIdentifier_accepts
             split: option.splits)
  with assms(1) show ?thesis by blast
qed

lemma resolveWorkerName_idem:
  assumes "is_identifier r" and "resolveWorkerName r name = Inr q"
  shows "resolveWorkerName r' q = Inr q"
  using resolveWorkerName_form [OF assms] resolveWorkerName_qualified by blast

lemma resolveWorkerName_spellings:
  assumes "is_identifier r" and "is_identifier w"
  shows "resolveWorkerName r (qualifyWorkerName r w) = resolveWorkerName r w"
  using assms by (simp add: resolveWorkerName_local resolveWorkerName_qualified)

text \<open>C37: resolution is canonical. A target that resolves, resolves to a runtime/worker name of
  two identifiers, and resolving the result again changes nothing, whatever runtime does it.\<close>

theorem resolveWorkerName_canonical:
  assumes "is_identifier r" and "resolveWorkerName r name = Inr q"
  shows "(\<exists>r' w. is_identifier r' \<and> is_identifier w \<and> q = qualifyWorkerName r' w)
         \<and> resolveWorkerName r'' q = Inr q"
  using resolveWorkerName_form [OF assms] resolveWorkerName_idem [OF assms] by blast

theorem resolveWorkerName_canonical_witness:
  "resolveWorkerName ''core'' ''core/router'' = Inr ''core/router''"
proof -
  have id: "is_identifier ''core''" "is_identifier ''router''"
    by (simp_all add: is_identifier_def ident_char_def)
  then have "resolveWorkerName ''core'' ''router'' = Inr ''core/router''"
    by (simp add: resolveWorkerName_local qualifyWorkerName_def)
  from resolveWorkerName_canonical [OF id(1) this] show ?thesis by simp
qed

end
