(* ===== verification/Retry.thy ===== *)
theory Retry
  imports Go_Errors
begin

text \<open>
  Package \<open>retry\<close>: \<open>policy.go\<close>, \<open>backoff.go\<close> and the identity jitter of \<open>jitter.go\<close>.

  A \<open>time.Duration\<close> is an \<open>int64\<close>; it is an \<open>int\<close> here, with the wrap-around of its
  multiplication written out (\<open>wrap64\<close>). A \<open>Backoff\<close> is its \<open>Delay\<close> method, a \<open>Jitter\<close> its
  \<open>Apply\<close> method, a \<open>Policy\<close> its \<open>NextDelay\<close> method; a nil interface value is \<open>None\<close>.
  The locales say what the runtime expects of each.
\<close>

section \<open>Durations\<close>

type_synonym duration = int

definition wrap64 :: "int \<Rightarrow> int" where
  "wrap64 x = (x + 2 ^ 63) mod 2 ^ 64 - 2 ^ 63"

definition int64 :: "int \<Rightarrow> bool" where
  "int64 x \<longleftrightarrow> - (2 ^ 63) \<le> x \<and> x < 2 ^ 63"

lemma wrap64_id [simp]: "int64 x \<Longrightarrow> wrap64 x = x"
  by (simp add: wrap64_def int64_def)

definition maxDuration :: duration where
  "maxDuration = 2 ^ 63 - 1"

definition clampDuration :: "duration \<Rightarrow> duration" where
  "clampDuration delay = (if delay < 0 then 0 else delay)"

lemma clampDuration_nonneg [simp]: "0 \<le> clampDuration d"
  by (simp add: clampDuration_def)

lemma clampDuration_id [simp]: "0 \<le> d \<Longrightarrow> clampDuration d = d"
  by (simp add: clampDuration_def)

lemma clampDuration_int64 [simp]: "int64 d \<Longrightarrow> int64 (clampDuration d)"
  by (simp add: clampDuration_def int64_def)

section \<open>Backoff\<close>

type_synonym backoff = "int \<Rightarrow> duration"

definition BackoffFunc :: "(int \<Rightarrow> duration) \<Rightarrow> backoff" where
  "BackoffFunc f = (\<lambda>attempt. clampDuration (f attempt))"

definition Constant :: "duration \<Rightarrow> backoff" where
  "Constant delay0 = (let delay = clampDuration delay0 in BackoffFunc (\<lambda>_. delay))"

definition Linear :: "duration \<Rightarrow> duration \<Rightarrow> backoff" where
  "Linear step0 max0 =
     (let step = clampDuration step0; mx = clampDuration max0
      in BackoffFunc (\<lambda>attempt0.
           let attempt = (if attempt0 < 1 then 1 else attempt0)
           in if step = 0 then 0
              else let limit = (if mx > 0 then mx else maxDuration)
                   in if attempt > limit div step then limit
                      else wrap64 (attempt * step)))"

section \<open>Jitter\<close>

type_synonym jitter = "duration \<Rightarrow> int \<Rightarrow> duration"

definition JitterFunc :: "(duration \<Rightarrow> int \<Rightarrow> duration) \<Rightarrow> jitter" where
  "JitterFunc f = (\<lambda>base attempt. clampDuration (f base attempt))"

definition NoJitter :: jitter where
  "NoJitter = JitterFunc (\<lambda>base _. clampDuration base)"

section \<open>Policy\<close>

type_synonym policy = "int \<Rightarrow> error \<Rightarrow> duration \<times> bool"

record retry_config =
  MaxAttempts :: int
  Backoff :: "backoff option"
  Jitter :: "jitter option"
  Retryable :: "(error \<Rightarrow> bool) option"

definition Never :: policy where
  "Never = (\<lambda>_ _. (0, False))"

definition configPolicy_NextDelay :: "retry_config \<Rightarrow> policy" where
  "configPolicy_NextDelay p attempt0 err =
     (let attempt = (if attempt0 < 1 then 1 else attempt0)
      in if MaxAttempts p < 2 \<or> attempt \<ge> MaxAttempts p then (0, False)
         else if (case Retryable p of None \<Rightarrow> False | Some r \<Rightarrow> \<not> r err) then (0, False)
         else let delay = (case Backoff p of None \<Rightarrow> 0 | Some b \<Rightarrow> b attempt);
                  delay = (case Jitter p of None \<Rightarrow> delay | Some j \<Rightarrow> j delay attempt);
                  delay = (if delay < 0 then 0 else delay)
              in (delay, True))"

definition New :: "retry_config \<Rightarrow> policy" where
  "New cfg = configPolicy_NextDelay cfg"

definition Attempts :: "int \<Rightarrow> backoff option \<Rightarrow> jitter option \<Rightarrow> policy" where
  "Attempts maxAttempts b j =
     New \<lparr>MaxAttempts = maxAttempts, Backoff = b, Jitter = j, Retryable = None\<rparr>"

definition AttemptsIf ::
  "int \<Rightarrow> backoff option \<Rightarrow> jitter option \<Rightarrow> (error \<Rightarrow> bool) option \<Rightarrow> policy" where
  "AttemptsIf maxAttempts b j retryable =
     (case retryable of
        None \<Rightarrow> Never
      | Some r \<Rightarrow>
          New \<lparr>MaxAttempts = maxAttempts, Backoff = b, Jitter = j, Retryable = Some r\<rparr>)"

section \<open>The interfaces\<close>

text \<open>A backoff's delays are non-negative durations.\<close>

locale backoff_law =
  fixes delay :: backoff
  assumes delay_nonneg: "0 \<le> delay n"
    and delay_int64: "int64 (delay n)"

text \<open>A bounded policy: it stops retrying at \<open>bound\<close> attempts and never asks for a negative
  wait.\<close>

locale bounded_policy =
  fixes next_delay :: policy
    and bound :: int
  assumes stops: "bound \<le> attempt \<Longrightarrow> \<not> snd (next_delay attempt err)"
    and waits: "0 \<le> fst (next_delay attempt err)"
begin

lemma granted_below: "snd (next_delay attempt err) \<Longrightarrow> attempt < bound"
  using stops [of attempt err] by (cases "bound \<le> attempt") auto

end

text \<open>A policy that never grants a retry is bounded by every number from one on.\<close>

locale never_policy =
  fixes next_delay :: policy
  assumes refuses: "next_delay attempt err = (0, False)"

sublocale never_policy \<subseteq> bounded_policy next_delay 1
  by unfold_locales (simp_all add: refuses)

interpretation never_retry: never_policy Never
  by unfold_locales (simp add: Never_def)

interpretation config_policy: bounded_policy "New cfg" "max 1 (MaxAttempts cfg)"
  by unfold_locales (auto simp: New_def configPolicy_NextDelay_def Let_def split: option.splits)

section \<open>Properties\<close>

lemma Linear_cases:
  assumes "0 < step" and "0 \<le> mx"
  shows "Linear step mx attempt =
    clampDuration
      (if max 1 attempt > (if mx > 0 then mx else maxDuration) div step
       then (if mx > 0 then mx else maxDuration)
       else wrap64 (max 1 attempt * step))"
  using assms by (simp add: Linear_def BackoffFunc_def Let_def max_def)

lemma le_div_mult_le:
  fixes a b c :: int
  assumes "a \<le> c div b" and "0 < b"
  shows "a * b \<le> c"
proof -
  have "a * b \<le> (c div b) * b" using assms by (intro mult_right_mono) simp_all
  also have "\<dots> \<le> c" using assms(2) by (simp add: minus_mod_eq_div_mult [symmetric])
  finally show ?thesis .
qed

lemma gt_div_mult_gt:
  fixes a b c :: int
  assumes "c div b < a" and "0 < b"
  shows "c \<le> a * b"
proof -
  have "c div b + 1 \<le> a" using assms(1) by simp
  then have "(c div b + 1) * b \<le> a * b" using assms(2) by (intro mult_right_mono) simp_all
  moreover have "c \<le> (c div b + 1) * b"
    using pos_mod_bound [of b c, OF assms(2)] div_mult_mod_eq [of c b]
    unfolding distrib_right mult_1_left by linarith
  ultimately show ?thesis by simp
qed

text \<open>Linear backoff is exact. The guard before the multiplication keeps it inside \<open>int64\<close>, so the
  delay is the mathematical product capped at the limit, for every attempt.\<close>

lemma Linear_exact_eq:
  assumes "int64 step" and "int64 mx"
  shows "Linear step mx attempt =
    min (if 0 < mx then mx else maxDuration) (max 1 attempt * clampDuration step)"
proof (cases "0 < step")
  case False
  then have "clampDuration step = 0" by (simp add: clampDuration_def)
  moreover have "0 \<le> (if 0 < mx then mx else maxDuration)" by (simp add: maxDuration_def)
  ultimately show ?thesis by (simp add: Linear_def BackoffFunc_def)
next
  case True
  let ?limit = "if 0 < mx then mx else maxDuration"
  let ?a = "max 1 attempt"
  have lim: "0 < ?limit" "?limit < 2 ^ 63"
    using assms(2) by (auto simp: maxDuration_def int64_def)
  have clamp_mx: "Linear step mx attempt = Linear step (max 0 mx) attempt"
    by (simp add: Linear_def clampDuration_def max_def)
  have eq: "Linear step mx attempt =
      clampDuration (if ?a > ?limit div step then ?limit else wrap64 (?a * step))"
    unfolding clamp_mx using Linear_cases [OF True, of "max 0 mx" attempt] by simp
  show ?thesis
  proof (cases "?a > ?limit div step")
    case g: True
    then have "?limit \<le> ?a * step" using True by (intro gt_div_mult_gt) auto
    with g lim True show ?thesis by (simp add: eq min_def)
  next
    case g: False
    then have le: "?a * step \<le> ?limit" using True by (intro le_div_mult_le) auto
    moreover have pos: "0 < ?a * step" using True by simp
    ultimately have "int64 (?a * step)" using lim by (simp add: int64_def)
    then have "wrap64 (?a * step) = ?a * step" by simp
    with g le pos True show ?thesis by (simp add: eq min_def)
  qed
qed

lemma wrap64_int64 [simp]: "int64 (wrap64 x)"
  using pos_mod_bound [of "2 ^ 64 :: int" "x + 2 ^ 63"] pos_mod_sign [of "2 ^ 64 :: int" "x + 2 ^ 63"]
  by (simp add: int64_def wrap64_def)

lemma Linear_range:
  assumes "int64 step" and "int64 mx"
  shows "0 \<le> Linear step mx attempt \<and> int64 (Linear step mx attempt)"
proof -
  let ?limit = "if 0 < mx then mx else maxDuration"
  have "0 \<le> ?limit" "?limit < 2 ^ 63"
    using assms(2) by (auto simp: maxDuration_def int64_def)
  moreover have "0 \<le> max 1 attempt * clampDuration step" by simp
  ultimately show ?thesis
    unfolding Linear_exact_eq [OF assms] int64_def by linarith
qed

interpretation linear_backoff: backoff_law "Linear (wrap64 step) (wrap64 mx)" for step mx
  using Linear_range by unfold_locales simp_all

interpretation constant_backoff: backoff_law "Constant (wrap64 d)" for d
  by unfold_locales (simp_all add: Constant_def BackoffFunc_def)

end
