(* ===== verification/Status.thy ===== *)
theory Status
  imports Go_Errors "HOL-Library.Word"
begin

text \<open>
  \<open>lifecycle.go\<close> and \<open>status.go\<close>: lifecycle states and the snapshot types, with
  \<open>workerState\<close>, the runtime's record of one worker, and its snapshot (\<open>runtime.go\<close>).

  Pointers to snapshot parts are options: the code never mutates through them, so the
  \<open>clone\<close> functions are identities here. A point in time is a natural number.
\<close>

type_synonym time = nat

datatype LifecycleState =
    StateRegistered | StateStarting | StateRunning | StateDraining
  | StateStopping | StateStopped | StateFailed

definition lifecycle_string :: "LifecycleState \<Rightarrow> string" where
  "lifecycle_string s = (case s of
       StateRegistered \<Rightarrow> ''registered'' | StateStarting \<Rightarrow> ''starting''
     | StateRunning \<Rightarrow> ''running'' | StateDraining \<Rightarrow> ''draining''
     | StateStopping \<Rightarrow> ''stopping'' | StateStopped \<Rightarrow> ''stopped''
     | StateFailed \<Rightarrow> ''failed'')"

definition lifecycleAllowsWorkerRuntimeMutation :: "LifecycleState \<Rightarrow> bool" where
  "lifecycleAllowsWorkerRuntimeMutation s =
     (case s of StateStarting \<Rightarrow> True | StateRunning \<Rightarrow> True | StateDraining \<Rightarrow> True | _ \<Rightarrow> False)"

definition lifecycleAllowsWorkerRuntimePositiveSignal :: "LifecycleState \<Rightarrow> bool" where
  "lifecycleAllowsWorkerRuntimePositiveSignal s =
     (case s of StateStarting \<Rightarrow> True | StateRunning \<Rightarrow> True | _ \<Rightarrow> False)"

record LifecycleTransition =
  lt_from :: LifecycleState
  lt_to :: LifecycleState
  lt_at :: time

record FailureInfo =
  fi_code :: string
  fi_message :: string
  fi_at :: time

record CommandFailureInfo =
  cfi_command :: string
  cfi_code :: string
  cfi_message :: string
  cfi_at :: time

record WorkerStatus =
  ws_name :: string
  ws_localName :: string
  ws_state :: LifecycleState
  ws_ready :: bool
  ws_acceptingWork :: bool
  ws_inFlight :: int
  ws_lastTransition :: "LifecycleTransition option"
  ws_lastFailure :: "FailureInfo option"
  ws_lastCommandFailure :: "CommandFailureInfo option"

record RuntimeStatus =
  rs_name :: string
  rs_state :: LifecycleState
  rs_ready :: bool
  rs_inFlight :: int
  rs_workers :: nat
  rs_lastTransition :: "LifecycleTransition option"

text \<open>A generation is a Go \<open>uint64\<close>: its increment wraps around.\<close>

type_synonym generation = "64 word"

record workerState =
  qualifiedName :: string
  localName :: string
  generation :: generation
  lifecycle :: LifecycleState
  ready :: bool
  acceptingWork :: bool
  inFlight :: int
  readySetDuringStart :: bool
  acceptingWorkSetDuringStart :: bool
  failureReportedDuringStart :: bool
  lastTransition :: "LifecycleTransition option"
  lastFailure :: "FailureInfo option"
  lastCommandFailure :: "CommandFailureInfo option"

text \<open>The zero value, which a map lookup of an absent worker yields; its lifecycle string is
  empty in Go, and nothing reads it before the generation check has failed.\<close>

definition zero_workerState :: workerState where
  "zero_workerState =
     \<lparr>qualifiedName = '''', localName = '''', generation = 0, lifecycle = StateRegistered,
      ready = False, acceptingWork = False, inFlight = 0, readySetDuringStart = False,
      acceptingWorkSetDuringStart = False, failureReportedDuringStart = False,
      lastTransition = None, lastFailure = None, lastCommandFailure = None\<rparr>"

definition cloneLifecycleTransition :: "LifecycleTransition option \<Rightarrow> LifecycleTransition option" where
  "cloneLifecycleTransition t = (case t of None \<Rightarrow> None | Some x \<Rightarrow> Some x)"

definition cloneFailureInfo :: "FailureInfo option \<Rightarrow> FailureInfo option" where
  "cloneFailureInfo info = (case info of None \<Rightarrow> None | Some x \<Rightarrow> Some x)"

definition cloneCommandFailureInfo :: "CommandFailureInfo option \<Rightarrow> CommandFailureInfo option" where
  "cloneCommandFailureInfo info = (case info of None \<Rightarrow> None | Some x \<Rightarrow> Some x)"

lemma clone_id [simp]:
  "cloneLifecycleTransition t = t" "cloneFailureInfo i = i" "cloneCommandFailureInfo c = c"
  by (simp_all add: cloneLifecycleTransition_def cloneFailureInfo_def
        cloneCommandFailureInfo_def split: option.split)

definition toWorkerStatus :: "workerState \<Rightarrow> WorkerStatus" where
  "toWorkerStatus s =
     \<lparr>ws_name = qualifiedName s, ws_localName = localName s, ws_state = lifecycle s,
      ws_ready = ready s, ws_acceptingWork = acceptingWork s, ws_inFlight = inFlight s,
      ws_lastTransition = cloneLifecycleTransition (lastTransition s),
      ws_lastFailure = cloneFailureInfo (lastFailure s),
      ws_lastCommandFailure = cloneCommandFailureInfo (lastCommandFailure s)\<rparr>"

section \<open>The lifecycle automaton of one worker\<close>

text \<open>The specification of the lifecycle: the edges the documentation allows.\<close>

fun lifecycle_edge :: "LifecycleState \<Rightarrow> LifecycleState \<Rightarrow> bool" where
  "lifecycle_edge StateRegistered t = (t = StateStarting)"
| "lifecycle_edge StateStarting t = (t = StateRunning \<or> t = StateFailed)"
| "lifecycle_edge StateRunning t = (t = StateDraining \<or> t = StateStopping \<or> t = StateFailed)"
| "lifecycle_edge StateDraining t = (t = StateStopping \<or> t = StateFailed)"
| "lifecycle_edge StateStopping t = (t = StateStopped \<or> t = StateFailed)"
| "lifecycle_edge StateStopped t = (t = StateStarting)"
| "lifecycle_edge StateFailed t = (t = StateStarting \<or> t = StateStopping)"

lemma lifecycle_edge_irrefl [simp]: "\<not> lifecycle_edge s s"
  by (cases s) simp_all

lemma mutation_states:
  "lifecycleAllowsWorkerRuntimeMutation s \<longleftrightarrow> s \<in> {StateStarting, StateRunning, StateDraining}"
  by (cases s) (simp_all add: lifecycleAllowsWorkerRuntimeMutation_def)

lemma positive_signal_states:
  "lifecycleAllowsWorkerRuntimePositiveSignal s \<longleftrightarrow> s \<in> {StateStarting, StateRunning}"
  by (cases s) (simp_all add: lifecycleAllowsWorkerRuntimePositiveSignal_def)

end
