(* ===== verification/Observability.thy ===== *)
theory Observability
  imports Status
begin

text \<open>
  \<open>observability.go\<close>: the events the runtime emits, the observers that receive them, and the
  two wrappers that keep an observer's panic away from the runtime (\<open>SafeObserver\<close>) and from
  its siblings (\<open>MultiObserver\<close>).

  An observer supplied by the application is known by a number; what it does with an event
  (return or panic, and for the two start calls the context and the observation it hands back)
  is the parameter \<open>user\<close> of the definitions. A context is a number too; \<open>None\<close> is nil.
\<close>

section \<open>Events\<close>

record TransitionEvent =
  te_runtime :: string
  te_worker :: string
  te_from :: LifecycleState
  te_to :: LifecycleState
  te_at :: time

datatype CheckKind = CheckKindChecker | CheckKindGroup

datatype CheckOutcome =
    CheckOutcomeReady | CheckOutcomeNotReady | CheckOutcomeTimeout
  | CheckOutcomeCanceled | CheckOutcomePanic | CheckOutcomeError

record CheckStartEvent =
  cks_runtime :: string
  cks_worker :: string
  cks_kind :: CheckKind
  cks_startedAt :: time

record CheckEndEvent =
  cke_runtime :: string
  cke_worker :: string
  cke_kind :: CheckKind
  cke_outcome :: CheckOutcome
  cke_loopContinues :: bool
  cke_startedAt :: time
  cke_endedAt :: time
  cke_duration :: int

record CommandStartEvent =
  cs_runtime :: string
  cs_worker :: string
  cs_command :: string
  cs_dispatchID :: string
  cs_startedAt :: time

record CommandEndEvent =
  ce_runtime :: string
  ce_worker :: string
  ce_command :: string
  ce_dispatchID :: string
  ce_attempts :: int
  ce_startedAt :: time
  ce_endedAt :: time
  ce_duration :: int
  ce_success :: bool
  ce_code :: string
  ce_message :: string
  ce_cause :: "error option"

record FailureEvent =
  fe_runtime :: string
  fe_worker :: string
  fe_command :: string
  fe_dispatchID :: string
  fe_attempt :: int
  fe_at :: time
  fe_code :: string
  fe_message :: string
  fe_cause :: "error option"
  fe_panic :: bool

record ReadinessEvent =
  re_runtime :: string
  re_worker :: string
  re_ready :: bool
  re_at :: time

text \<open>One call on an observer, or on the observation an observer handed back.\<close>

datatype observation =
    ObserveTransition TransitionEvent
  | StartCommand CommandStartEvent
  | EndCommand CommandEndEvent
  | StartCheck CheckStartEvent
  | EndCheck CheckEndEvent
  | ObserveFailure FailureEvent
  | ObserveReadiness ReadinessEvent

section \<open>Observers\<close>

datatype Observer =
    NopObserver
  | UserObserver nat
  | MultiObs "Observer list"
  | SafeObs Observer

text \<open>What an observer hands back from \<open>StartCommand\<close> or \<open>StartCheck\<close>: nothing to do, the
  application's own value, the list a \<open>multiObserver\<close> collects, or a value wrapped by
  \<open>safeObserver\<close>.\<close>

datatype Observation =
    NopObservation
  | UserObservation nat
  | MultiObservation "Observation list"
  | SafeObservation Observation

text \<open>\<open>MultiObserver\<close> drops nil observers; \<open>SafeObserver\<close> wraps a non-nil one.\<close>

definition MultiObserver :: "Observer option list \<Rightarrow> Observer" where
  "MultiObserver observers =
     (let kept = List.map_filter (\<lambda>x. x) observers
      in if kept = [] then NopObserver else MultiObs kept)"

definition SafeObserver :: "Observer option \<Rightarrow> Observer" where
  "SafeObserver observer =
     (case observer of None \<Rightarrow> NopObserver | Some ob \<Rightarrow> SafeObs ob)"

text \<open>A call either completes or panics; \<open>log\<close> is the sequence of calls that reached
  application code, oldest first.\<close>

datatype 'a call = Done 'a | Panics

type_synonym 'e log = "(nat \<times> 'e) list"

text \<open>A fire-and-forget call (\<open>ObserveTransition\<close>, \<open>ObserveFailure\<close>, \<open>ObserveReadiness\<close>): the
  result says whether a panic leaves the observer.\<close>

fun notify :: "(nat \<Rightarrow> 'e \<Rightarrow> bool) \<Rightarrow> Observer \<Rightarrow> 'e \<Rightarrow> 'e log \<times> bool"
and notify_all :: "(nat \<Rightarrow> 'e \<Rightarrow> bool) \<Rightarrow> Observer list \<Rightarrow> 'e \<Rightarrow> 'e log" where
  "notify panics NopObserver e = ([], False)"
| "notify panics (UserObserver i) e = ([(i, e)], panics i e)"
| "notify panics (SafeObs ob) e = (fst (notify panics ob e), False)"
| "notify panics (MultiObs obs) e = (notify_all panics obs e, False)"
| "notify_all panics [] e = []"
| "notify_all panics (ob # obs) e = fst (notify panics ob e) @ notify_all panics obs e"

text \<open>\<open>StartCommand\<close> and \<open>StartCheck\<close>. The application's answer is a panic, or a context that
  may be nil and an observation that may be nil. A start call through \<open>safeObserver\<close> always
  answers with a usable context and observation.\<close>

type_synonym start_answer = "(nat option \<times> Observation option) call"

text \<open>\<open>startCommandSafely\<close> and the context check of its caller: a panic or a nil context keeps
  the context that was passed in.\<close>

definition startSafely :: "nat \<Rightarrow> start_answer \<Rightarrow> nat \<times> Observation option" where
  "startSafely ctx a =
     (case a of
        Panics \<Rightarrow> (ctx, None)
      | Done (c, r) \<Rightarrow> (case c of None \<Rightarrow> ctx | Some c' \<Rightarrow> c', r))"

fun start_obs :: "(nat \<Rightarrow> nat \<Rightarrow> 'e \<Rightarrow> (nat option \<times> nat option) call) \<Rightarrow>
    Observer \<Rightarrow> nat \<Rightarrow> 'e \<Rightarrow> start_answer"
and start_all :: "(nat \<Rightarrow> nat \<Rightarrow> 'e \<Rightarrow> (nat option \<times> nat option) call) \<Rightarrow>
    Observer list \<Rightarrow> nat \<Rightarrow> 'e \<Rightarrow> nat \<times> Observation list" where
  "start_obs user NopObserver ctx e = Done (Some ctx, Some NopObservation)"
| "start_obs user (UserObserver i) ctx e =
     (case user i ctx e of
        Panics \<Rightarrow> Panics
      | Done (c, ob) \<Rightarrow> Done (c, map_option UserObservation ob))"
| "start_obs user (SafeObs ob) ctx e =
     (case startSafely ctx (start_obs user ob ctx e) of
        (c, r) \<Rightarrow>
          Done (Some c, Some (case r of None \<Rightarrow> NopObservation | Some x \<Rightarrow> SafeObservation x)))"
| "start_obs user (MultiObs obs) ctx e =
     (case start_all user obs ctx e of
        (c, xs) \<Rightarrow>
          Done (Some c, Some (if xs = [] then NopObservation else MultiObservation xs)))"
| "start_all user [] ctx e = (ctx, [])"
| "start_all user (ob # obs) ctx e =
     (case startSafely ctx (start_obs user ob ctx e) of
        (ctx', r) \<Rightarrow>
          (case start_all user obs ctx' e of
             (cf, xs) \<Rightarrow> (cf, (case r of None \<Rightarrow> xs | Some x \<Rightarrow> x # xs))))"

text \<open>\<open>End\<close> on an observation: a multi-observation ends its parts in reverse order, each under
  its own recover.\<close>

fun end_obs :: "(nat \<Rightarrow> 'e \<Rightarrow> bool) \<Rightarrow> Observation \<Rightarrow> 'e \<Rightarrow> 'e log \<times> bool"
and end_all :: "(nat \<Rightarrow> 'e \<Rightarrow> bool) \<Rightarrow> Observation list \<Rightarrow> 'e \<Rightarrow> 'e log" where
  "end_obs panics NopObservation e = ([], False)"
| "end_obs panics (UserObservation i) e = ([(i, e)], panics i e)"
| "end_obs panics (SafeObservation x) e = (fst (end_obs panics x e), False)"
| "end_obs panics (MultiObservation xs) e = (end_all panics xs e, False)"
| "end_all panics [] e = []"
| "end_all panics (x # xs) e = end_all panics xs e @ fst (end_obs panics x e)"

section \<open>Isolation\<close>

text \<open>The application observers in an observer tree, in the order they are notified.\<close>

fun leaves :: "Observer \<Rightarrow> nat list"
and leaves_all :: "Observer list \<Rightarrow> nat list" where
  "leaves NopObserver = []"
| "leaves (UserObserver i) = [i]"
| "leaves (MultiObs obs) = leaves_all obs"
| "leaves (SafeObs ob) = leaves ob"
| "leaves_all [] = []"
| "leaves_all (ob # obs) = leaves ob @ leaves_all obs"

lemma notify_leaves:
  "fst (notify panics ob e) = map (\<lambda>i. (i, e)) (leaves ob)"
  "notify_all panics obs e = map (\<lambda>i. (i, e)) (leaves_all obs)"
  by (induction ob and obs rule: leaves_leaves_all.induct) auto

text \<open>What the runtime may rely on: an observer installed through \<open>WithObserver\<close>.\<close>

locale contained_observer =
  fixes ob :: Observer
  assumes no_panic: "\<not> snd (notify panics ob (e :: observation))"
    and start_done: "\<exists>c x. start_obs user ob ctx (e :: observation) = Done (Some c, Some x)"
begin

lemma start_never_panics: "start_obs user ob ctx (e :: observation) \<noteq> Panics"
  using start_done [of user ctx e] by auto

end

interpretation nop_observer: contained_observer NopObserver
  by unfold_locales auto

interpretation safe_observer: contained_observer "SafeObs ob" for ob
  by unfold_locales (simp_all add: case_prod_unfold)

interpretation multi_observer: contained_observer "MultiObs obs" for obs
  by unfold_locales (simp_all add: case_prod_unfold)

end
