(* ===== verification/Options.thy ===== *)
theory Options
  imports Retry Observability
begin

text \<open>
  \<open>options.go\<close>: the policy of a runtime and of its workers, the options that build it, and its
  validation. The three policy types are strings in Go; their constructors here are the
  package's constants plus \<open>\<dots>Other s\<close> for any other string.

  An option is the function it returns. Handlers and workers are references (numbers): what
  their code does is a parameter of the operations that run it.
\<close>

section \<open>Policies\<close>

datatype PanicPolicy = PanicPolicyRecover | PanicPolicyCrash | PanicPolicyOther string

datatype FailurePolicy =
    FailurePolicyIsolate | FailurePolicyMarkRuntimeUnready | FailurePolicyFailRuntime
  | FailurePolicyOther string

datatype ReadinessPolicy =
    ReadyWhenContributingWorkersReady | ReadyWhenAllWorkersReady | ReadinessPolicyOther string

type_synonym attribute = "string \<times> string"

record CommandSpec =
  csp_name :: string
  csp_description :: string
  csp_payloadKind :: string
  csp_dangerous :: bool
  csp_idempotent :: bool
  csp_attributes :: "attribute list"
  csp_handler :: "nat option"

record workerConfig =
  wc_commands :: "CommandSpec list"
  startTimeout :: duration
  stopTimeout :: duration
  commandTimeout :: duration
  startRetryPolicy :: "policy option"
  commandRetryPolicy :: "policy option"
  wc_commandConcurrency :: int
  panicPolicy :: PanicPolicy
  failurePolicy :: FailurePolicy
  readyOnStart :: bool
  wc_acceptingWork :: bool
  contributesToReadiness :: bool

record runtimeConfig =
  rc_commandConcurrency :: int
  readinessPolicy :: ReadinessPolicy
  rc_observer :: "Observer option"
  defaultWorker :: workerConfig

definition second :: duration where
  "second = 1000000000"

definition defaultWorkerConfig :: workerConfig where
  "defaultWorkerConfig =
     \<lparr>wc_commands = [], startTimeout = 30 * second, stopTimeout = 30 * second,
      commandTimeout = 30 * second, startRetryPolicy = Some Never,
      commandRetryPolicy = Some Never, wc_commandConcurrency = 0,
      panicPolicy = PanicPolicyRecover, failurePolicy = FailurePolicyIsolate,
      readyOnStart = True, wc_acceptingWork = True, contributesToReadiness = True\<rparr>"

definition defaultRuntimeConfig :: runtimeConfig where
  "defaultRuntimeConfig =
     \<lparr>rc_commandConcurrency = 0, readinessPolicy = ReadyWhenContributingWorkersReady,
      rc_observer = Some NopObserver, defaultWorker = defaultWorkerConfig\<rparr>"

text \<open>The zero value a map lookup of an absent worker yields.\<close>

definition zero_workerConfig :: workerConfig where
  "zero_workerConfig =
     \<lparr>wc_commands = [], startTimeout = 0, stopTimeout = 0, commandTimeout = 0,
      startRetryPolicy = None, commandRetryPolicy = None, wc_commandConcurrency = 0,
      panicPolicy = PanicPolicyOther '''', failurePolicy = FailurePolicyOther '''',
      readyOnStart = False, wc_acceptingWork = False, contributesToReadiness = False\<rparr>"

section \<open>Validation\<close>

definition validReadinessPolicy :: "ReadinessPolicy \<Rightarrow> bool" where
  "validReadinessPolicy p = (case p of ReadinessPolicyOther _ \<Rightarrow> False | _ \<Rightarrow> True)"

definition validPanicPolicy :: "PanicPolicy \<Rightarrow> bool" where
  "validPanicPolicy p = (case p of PanicPolicyOther _ \<Rightarrow> False | _ \<Rightarrow> True)"

definition validFailurePolicy :: "FailurePolicy \<Rightarrow> bool" where
  "validFailurePolicy p = (case p of FailurePolicyOther _ \<Rightarrow> False | _ \<Rightarrow> True)"

definition PanicPolicy_string :: "PanicPolicy \<Rightarrow> string" where
  "PanicPolicy_string p = (case p of
     PanicPolicyRecover \<Rightarrow> ''recover'' | PanicPolicyCrash \<Rightarrow> ''crash'' | PanicPolicyOther s \<Rightarrow> s)"

definition FailurePolicy_string :: "FailurePolicy \<Rightarrow> string" where
  "FailurePolicy_string p = (case p of
     FailurePolicyIsolate \<Rightarrow> ''isolate''
   | FailurePolicyMarkRuntimeUnready \<Rightarrow> ''mark_runtime_unready''
   | FailurePolicyFailRuntime \<Rightarrow> ''fail_runtime''
   | FailurePolicyOther s \<Rightarrow> s)"

definition ReadinessPolicy_string :: "ReadinessPolicy \<Rightarrow> string" where
  "ReadinessPolicy_string p = (case p of
     ReadyWhenContributingWorkersReady \<Rightarrow> ''contributing_workers''
   | ReadyWhenAllWorkersReady \<Rightarrow> ''all_workers''
   | ReadinessPolicyOther s \<Rightarrow> s)"

definition workerConfig_validate :: "workerConfig \<Rightarrow> error option" where
  "workerConfig_validate cfg =
     (if \<not> validPanicPolicy (panicPolicy cfg)
      then Some (Errorf ''invalid panic policy: %q'' [FStr (PanicPolicy_string (panicPolicy cfg))] [])
      else if \<not> validFailurePolicy (failurePolicy cfg)
      then Some (Errorf ''invalid failure policy: %q''
                   [FStr (FailurePolicy_string (failurePolicy cfg))] [])
      else if Option.is_none (startRetryPolicy cfg)
      then Some (errors_new ''start retry policy must not be nil'')
      else if Option.is_none (commandRetryPolicy cfg)
      then Some (errors_new ''command retry policy must not be nil'')
      else None)"

definition runtimeConfig_validate :: "runtimeConfig \<Rightarrow> error option" where
  "runtimeConfig_validate cfg =
     (if \<not> validReadinessPolicy (readinessPolicy cfg)
      then Some (Errorf ''invalid readiness policy: %q''
                   [FStr (ReadinessPolicy_string (readinessPolicy cfg))] [])
      else (case workerConfig_validate (defaultWorker cfg) of
              Some e \<Rightarrow> Some (Errorf ''invalid default worker config: %w'' [] [e])
            | None \<Rightarrow> None))"

section \<open>Per-worker options\<close>

type_synonym WorkerOption = "workerConfig \<Rightarrow> workerConfig"
type_synonym RuntimeOption = "runtimeConfig \<Rightarrow> runtimeConfig"

definition WithWorkerStartTimeout :: "duration \<Rightarrow> WorkerOption" where
  "WithWorkerStartTimeout t = (\<lambda>cfg. cfg\<lparr>startTimeout := t\<rparr>)"

definition WithWorkerStopTimeout :: "duration \<Rightarrow> WorkerOption" where
  "WithWorkerStopTimeout t = (\<lambda>cfg. cfg\<lparr>stopTimeout := t\<rparr>)"

definition WithWorkerCommandTimeout :: "duration \<Rightarrow> WorkerOption" where
  "WithWorkerCommandTimeout t = (\<lambda>cfg. cfg\<lparr>commandTimeout := t\<rparr>)"

definition WithWorkerStartRetry :: "policy option \<Rightarrow> WorkerOption" where
  "WithWorkerStartRetry p = (\<lambda>cfg.
     case p of None \<Rightarrow> cfg\<lparr>startRetryPolicy := Some Never\<rparr>
             | Some q \<Rightarrow> cfg\<lparr>startRetryPolicy := Some q\<rparr>)"

definition WithWorkerCommandRetry :: "policy option \<Rightarrow> WorkerOption" where
  "WithWorkerCommandRetry p = (\<lambda>cfg.
     case p of None \<Rightarrow> cfg\<lparr>commandRetryPolicy := Some Never\<rparr>
             | Some q \<Rightarrow> cfg\<lparr>commandRetryPolicy := Some q\<rparr>)"

definition WithWorkerCommandConcurrency :: "int \<Rightarrow> WorkerOption" where
  "WithWorkerCommandConcurrency limit = (\<lambda>cfg.
     let limit = (if limit < 0 then 0 else limit)
     in cfg\<lparr>wc_commandConcurrency := limit\<rparr>)"

definition WithWorkerPanicPolicy :: "PanicPolicy \<Rightarrow> WorkerOption" where
  "WithWorkerPanicPolicy p = (\<lambda>cfg.
     if p \<noteq> PanicPolicyOther '''' then cfg\<lparr>panicPolicy := p\<rparr> else cfg)"

definition WithWorkerFailurePolicy :: "FailurePolicy \<Rightarrow> WorkerOption" where
  "WithWorkerFailurePolicy p = (\<lambda>cfg.
     if p \<noteq> FailurePolicyOther '''' then cfg\<lparr>failurePolicy := p\<rparr> else cfg)"

definition WithWorkerReadyOnStart :: "bool \<Rightarrow> WorkerOption" where
  "WithWorkerReadyOnStart b = (\<lambda>cfg. cfg\<lparr>readyOnStart := b\<rparr>)"

definition WithWorkerAcceptingWorkOnStart :: "bool \<Rightarrow> WorkerOption" where
  "WithWorkerAcceptingWorkOnStart b = (\<lambda>cfg. cfg\<lparr>wc_acceptingWork := b\<rparr>)"

definition WithWorkerReadinessContribution :: "bool \<Rightarrow> WorkerOption" where
  "WithWorkerReadinessContribution b = (\<lambda>cfg. cfg\<lparr>contributesToReadiness := b\<rparr>)"

definition WithCommandSpec :: "CommandSpec \<Rightarrow> WorkerOption" where
  "WithCommandSpec command = (\<lambda>cfg. cfg\<lparr>wc_commands := wc_commands cfg @ [command]\<rparr>)"

definition WithCommand :: "string \<Rightarrow> nat option \<Rightarrow> WorkerOption" where
  "WithCommand name handler =
     WithCommandSpec \<lparr>csp_name = name, csp_description = '''', csp_payloadKind = '''',
       csp_dangerous = False, csp_idempotent = False, csp_attributes = [],
       csp_handler = handler\<rparr>"

section \<open>Runtime options\<close>

definition on_default :: "WorkerOption \<Rightarrow> RuntimeOption" where
  "on_default f = (\<lambda>cfg. cfg\<lparr>defaultWorker := f (defaultWorker cfg)\<rparr>)"

definition WithRuntimeCommandConcurrency :: "int \<Rightarrow> RuntimeOption" where
  "WithRuntimeCommandConcurrency limit = (\<lambda>cfg.
     let limit = (if limit < 0 then 0 else limit)
     in cfg\<lparr>rc_commandConcurrency := limit\<rparr>)"

definition WithReadinessPolicy :: "ReadinessPolicy \<Rightarrow> RuntimeOption" where
  "WithReadinessPolicy p = (\<lambda>cfg.
     if p \<noteq> ReadinessPolicyOther '''' then cfg\<lparr>readinessPolicy := p\<rparr> else cfg)"

definition WithDefaultStartTimeout :: "duration \<Rightarrow> RuntimeOption" where
  "WithDefaultStartTimeout t = on_default (\<lambda>w. w\<lparr>startTimeout := t\<rparr>)"

definition WithDefaultStopTimeout :: "duration \<Rightarrow> RuntimeOption" where
  "WithDefaultStopTimeout t = on_default (\<lambda>w. w\<lparr>stopTimeout := t\<rparr>)"

definition WithDefaultCommandTimeout :: "duration \<Rightarrow> RuntimeOption" where
  "WithDefaultCommandTimeout t = on_default (\<lambda>w. w\<lparr>commandTimeout := t\<rparr>)"

definition WithDefaultStartRetry :: "policy option \<Rightarrow> RuntimeOption" where
  "WithDefaultStartRetry p = on_default (\<lambda>w.
     case p of None \<Rightarrow> w\<lparr>startRetryPolicy := Some Never\<rparr>
             | Some q \<Rightarrow> w\<lparr>startRetryPolicy := Some q\<rparr>)"

definition WithDefaultCommandRetry :: "policy option \<Rightarrow> RuntimeOption" where
  "WithDefaultCommandRetry p = on_default (\<lambda>w.
     case p of None \<Rightarrow> w\<lparr>commandRetryPolicy := Some Never\<rparr>
             | Some q \<Rightarrow> w\<lparr>commandRetryPolicy := Some q\<rparr>)"

definition WithDefaultWorkerCommandConcurrency :: "int \<Rightarrow> RuntimeOption" where
  "WithDefaultWorkerCommandConcurrency limit = on_default (\<lambda>w.
     let limit = (if limit < 0 then 0 else limit)
     in w\<lparr>wc_commandConcurrency := limit\<rparr>)"

definition WithDefaultPanicPolicy :: "PanicPolicy \<Rightarrow> RuntimeOption" where
  "WithDefaultPanicPolicy p = on_default (\<lambda>w.
     if p \<noteq> PanicPolicyOther '''' then w\<lparr>panicPolicy := p\<rparr> else w)"

definition WithDefaultFailurePolicy :: "FailurePolicy \<Rightarrow> RuntimeOption" where
  "WithDefaultFailurePolicy p = on_default (\<lambda>w.
     if p \<noteq> FailurePolicyOther '''' then w\<lparr>failurePolicy := p\<rparr> else w)"

definition WithDefaultReadyOnStart :: "bool \<Rightarrow> RuntimeOption" where
  "WithDefaultReadyOnStart b = on_default (\<lambda>w. w\<lparr>readyOnStart := b\<rparr>)"

definition WithDefaultAcceptingWorkOnStart :: "bool \<Rightarrow> RuntimeOption" where
  "WithDefaultAcceptingWorkOnStart b = on_default (\<lambda>w. w\<lparr>wc_acceptingWork := b\<rparr>)"

definition WithDefaultWorkerReadinessContribution :: "bool \<Rightarrow> RuntimeOption" where
  "WithDefaultWorkerReadinessContribution b =
     on_default (\<lambda>w. w\<lparr>contributesToReadiness := b\<rparr>)"

definition WithObserver :: "Observer option \<Rightarrow> RuntimeOption" where
  "WithObserver observer = (\<lambda>cfg.
     case observer of
       None \<Rightarrow> cfg\<lparr>rc_observer := Some NopObserver\<rparr>
     | Some ob \<Rightarrow> cfg\<lparr>rc_observer := Some (SafeObserver (Some ob))\<rparr>)"

text \<open>\<open>for _, opt := range opts { if opt != nil { opt(&cfg) } }\<close>\<close>

definition apply_options :: "('c \<Rightarrow> 'c) option list \<Rightarrow> 'c \<Rightarrow> 'c" where
  "apply_options opts cfg = fold (\<lambda>opt c. case opt of None \<Rightarrow> c | Some f \<Rightarrow> f c) opts cfg"

end
