(* ===== verification/Runtime_State.thy ===== *)
theory Runtime_State
  imports Names Options "HOL-Library.Multiset"
begin

text \<open>
  The \<open>Runtime\<close> struct, its construction and registration (\<open>runtime.go\<close>), and the aggregate
  status derived from the workers (\<open>runtime_status.go\<close>).

  The record has the fields of the struct, with the lifecycle gate (a channel of capacity
  one) as the flag "its token is in the channel", and two fields for the world around it:
  \<open>r_now\<close> is what \<open>time.Now()\<close> reads and \<open>r_calls\<close> the calls made so far on \<open>r.observer()\<close>,
  oldest first. Operations are defined over every extension of the record, so later theories
  can add the goroutines that are under way.
\<close>

section \<open>The runtime\<close>

record WorkerSpec =
  sp_name :: string
  sp_description :: string
  sp_worker :: "nat option"

record commandRegistration =
  cr_worker :: string
  cr_name :: string
  cr_description :: string
  cr_payloadKind :: string
  cr_dangerous :: bool
  cr_idempotent :: bool
  cr_attributes :: "attribute list"
  cr_handler :: nat

type_synonym workerCommands = "commandRegistration gomap"
type_synonym commandRegistry = "workerCommands gomap"

record runtime =
  r_gate :: bool
  r_identity :: string
  r_config :: runtimeConfig
  r_registrations :: "WorkerSpec gomap"
  r_workerOrder :: "string list"
  r_workerConfigs :: "workerConfig gomap"
  r_commands :: commandRegistry
  r_workerStates :: "workerState gomap"
  r_dispatchSeq :: "64 word"
  r_status :: RuntimeStatus
  r_admissionClosed :: bool
  r_now :: time
  r_calls :: "observation list"

definition observe :: "observation \<Rightarrow> 'a runtime_scheme \<Rightarrow> 'a runtime_scheme" where
  "observe c r = r\<lparr>r_calls := r_calls r @ [c]\<rparr>"

text \<open>Map lookups that yield the zero value of an absent key.\<close>

definition get_state :: "'a runtime_scheme \<Rightarrow> string \<Rightarrow> workerState" where
  "get_state r name =
     (case map_of (r_workerStates r) name of None \<Rightarrow> zero_workerState | Some s \<Rightarrow> s)"

definition get_config :: "'a runtime_scheme \<Rightarrow> string \<Rightarrow> workerConfig" where
  "get_config r name =
     (case map_of (r_workerConfigs r) name of None \<Rightarrow> zero_workerConfig | Some c \<Rightarrow> c)"

definition get_commands :: "'a runtime_scheme \<Rightarrow> string \<Rightarrow> workerCommands" where
  "get_commands r name =
     (case map_of (r_commands r) name of None \<Rightarrow> [] | Some c \<Rightarrow> c)"

section \<open>Aggregate status\<close>

record statusFacts =
  hasWorkers :: bool
  anyStarting :: bool
  anyDraining :: bool
  anyStopping :: bool
  anyRunning :: bool
  anyFailed :: bool
  allRegistered :: bool
  allStopped :: bool
  hasRuntimeFailedWorker :: bool
  hasRuntimeUnreadyFailure :: bool
  readinessWorkers :: nat
  allContributingWorkersReady :: bool
  allWorkersReady :: bool

definition initialFacts :: "'a runtime_scheme \<Rightarrow> statusFacts" where
  "initialFacts r =
     (let some = length (r_workerStates r) > 0
      in \<lparr>hasWorkers = some, anyStarting = False, anyDraining = False, anyStopping = False,
          anyRunning = False, anyFailed = False, allRegistered = some, allStopped = some,
          hasRuntimeFailedWorker = False, hasRuntimeUnreadyFailure = False,
          readinessWorkers = 0, allContributingWorkersReady = True, allWorkersReady = True\<rparr>)"

text \<open>The body of the loop over \<open>r.workerStates\<close>.\<close>

definition addLifecycleFacts :: "workerConfig \<Rightarrow> workerState \<Rightarrow> statusFacts \<Rightarrow> statusFacts" where
  "addLifecycleFacts cfg s f =
     (case lifecycle s of
        StateStarting \<Rightarrow> f\<lparr>anyStarting := True\<rparr>
      | StateDraining \<Rightarrow> f\<lparr>anyDraining := True\<rparr>
      | StateStopping \<Rightarrow> f\<lparr>anyStopping := True\<rparr>
      | StateRunning \<Rightarrow> f\<lparr>anyRunning := True\<rparr>
      | StateFailed \<Rightarrow>
          (let f = f\<lparr>anyFailed := True\<rparr>
           in case failurePolicy cfg of
                FailurePolicyFailRuntime \<Rightarrow> f\<lparr>hasRuntimeFailedWorker := True\<rparr>
              | FailurePolicyMarkRuntimeUnready \<Rightarrow> f\<lparr>hasRuntimeUnreadyFailure := True\<rparr>
              | _ \<Rightarrow> f)
      | _ \<Rightarrow> f)"

definition addFacts :: "workerConfig \<Rightarrow> workerState \<Rightarrow> statusFacts \<Rightarrow> statusFacts" where
  "addFacts cfg s f0 =
     (let f = addLifecycleFacts cfg s f0;
          f = (if lifecycle s \<noteq> StateRegistered then f\<lparr>allRegistered := False\<rparr> else f);
          f = (if lifecycle s \<noteq> StateStopped then f\<lparr>allStopped := False\<rparr> else f);
          unready = (lifecycle s \<noteq> StateRunning \<or> \<not> ready s);
          f = (if unready then f\<lparr>allWorkersReady := False\<rparr> else f)
      in if contributesToReadiness cfg
         then (let f = f\<lparr>readinessWorkers := readinessWorkers f + 1\<rparr>
               in if unready then f\<lparr>allContributingWorkersReady := False\<rparr> else f)
         else f)"

definition statusFactsLocked :: "'a runtime_scheme \<Rightarrow> statusFacts" where
  "statusFactsLocked r =
     fold (\<lambda>(name, s) f. addFacts (get_config r name) s f) (r_workerStates r) (initialFacts r)"

definition deriveRuntimeLifecycleState ::
  "'a runtime_scheme \<Rightarrow> statusFacts \<Rightarrow> LifecycleState" where
  "deriveRuntimeLifecycleState r f =
     (if \<not> hasWorkers f then StateRegistered
      else if hasRuntimeFailedWorker f then StateFailed
      else if anyStarting f then StateStarting
      else if anyDraining f then StateDraining
      else if anyStopping f then StateStopping
      else if anyRunning f then StateRunning
      else if anyFailed f then StateFailed
      else if allStopped f then StateStopped
      else if allRegistered f then StateRegistered
      else rs_state (r_status r))"

definition deriveRuntimeReadiness :: "'a runtime_scheme \<Rightarrow> statusFacts \<Rightarrow> bool" where
  "deriveRuntimeReadiness r f =
     (if hasRuntimeFailedWorker f \<or> hasRuntimeUnreadyFailure f then False
      else case readinessPolicy (r_config r) of
        ReadyWhenAllWorkersReady \<Rightarrow>
          hasWorkers f \<and> \<not> anyStarting f \<and> \<not> anyDraining f \<and> \<not> anyStopping f \<and> \<not> anyFailed f
          \<and> allWorkersReady f
      | ReadyWhenContributingWorkersReady \<Rightarrow>
          (if readinessWorkers f = 0
           then anyRunning f \<and> \<not> anyStarting f \<and> \<not> anyDraining f \<and> \<not> anyStopping f
           else allContributingWorkersReady f)
      | _ \<Rightarrow> False)"

definition deriveRuntimeLifecycleTransition ::
  "LifecycleState \<Rightarrow> LifecycleState \<Rightarrow> LifecycleTransition option \<Rightarrow> time
   \<Rightarrow> LifecycleTransition option" where
  "deriveRuntimeLifecycleTransition previous next latest now =
     (if previous = next then cloneLifecycleTransition latest
      else Some \<lparr>lt_from = previous, lt_to = next, lt_at = now\<rparr>)"

definition recomputeStatusLocked :: "'a runtime_scheme \<Rightarrow> 'a runtime_scheme" where
  "recomputeStatusLocked r =
     (let facts = statusFactsLocked r;
          state = deriveRuntimeLifecycleState r facts
      in r\<lparr>r_status := (r_status r)
             \<lparr>rs_name := r_identity r,
              rs_state := state,
              rs_ready := deriveRuntimeReadiness r facts,
              rs_workers := length (r_workerStates r),
              rs_lastTransition :=
                deriveRuntimeLifecycleTransition (rs_state (r_status r)) state
                  (rs_lastTransition (r_status r)) (r_now r)\<rparr>\<rparr>)"

section \<open>Construction\<close>

definition NewRuntime :: "string \<Rightarrow> RuntimeOption option list \<Rightarrow> error + runtime" where
  "NewRuntime name opts =
     (case ValidateRuntimeName name of
        Some e \<Rightarrow> Inl (Errorf ''invalid runtime identity: %w'' [] [e])
      | None \<Rightarrow>
          (let cfg = apply_options opts defaultRuntimeConfig
           in case runtimeConfig_validate cfg of
                Some e \<Rightarrow> Inl e
              | None \<Rightarrow>
                  Inr \<lparr>r_gate = True, r_identity = name, r_config = cfg, r_registrations = [],
                       r_workerOrder = [], r_workerConfigs = [], r_commands = [],
                       r_workerStates = [], r_dispatchSeq = 0,
                       r_status = \<lparr>rs_name = name, rs_state = StateRegistered,
                                   rs_ready = False, rs_inFlight = 0, rs_workers = 0,
                                   rs_lastTransition = None\<rparr>,
                       r_admissionClosed = False, r_now = 0, r_calls = []\<rparr>))"

section \<open>Registration\<close>

definition cloneCommandAttributes :: "attribute list \<Rightarrow> attribute list" where
  "cloneCommandAttributes attributes = (if attributes = [] then [] else [] @ attributes)"

fun bindCommands :: "string \<Rightarrow> string list \<Rightarrow> CommandSpec list
    \<Rightarrow> commandRegistration list \<Rightarrow> error + commandRegistration list" where
  "bindCommands worker seen [] bound = Inr bound"
| "bindCommands worker seen (c # cs) bound =
     (case ValidateCommandName (csp_name c) of
        Some e \<Rightarrow> Inl (Errorf ''invalid command name: %w'' [] [e])
      | None \<Rightarrow>
          (case csp_handler c of
             None \<Rightarrow> Inl (errors_new ''command handler must not be nil'')
           | Some h \<Rightarrow>
               if csp_name c \<in> set seen
               then Inl (Errorf ''%w: %s/%s'' [FStr worker, FStr (csp_name c)]
                           [Sentinel ErrCommandAlreadyRegistered])
               else bindCommands worker (csp_name c # seen) cs
                      (bound @ [\<lparr>cr_worker = worker, cr_name = csp_name c,
                                 cr_description = csp_description c,
                                 cr_payloadKind = csp_payloadKind c,
                                 cr_dangerous = csp_dangerous c,
                                 cr_idempotent = csp_idempotent c,
                                 cr_attributes = cloneCommandAttributes (csp_attributes c),
                                 cr_handler = h\<rparr>])))"

definition bindWorkerCommands ::
  "string \<Rightarrow> CommandSpec list \<Rightarrow> error + commandRegistration list" where
  "bindWorkerCommands worker commands =
     (if commands = [] then Inr [] else bindCommands worker [] commands [])"

definition new_workerState :: "string \<Rightarrow> string \<Rightarrow> workerState" where
  "new_workerState qualified local =
     zero_workerState\<lparr>qualifiedName := qualified, localName := local,
                      lifecycle := StateRegistered\<rparr>"

definition commands_map :: "commandRegistration list \<Rightarrow> workerCommands" where
  "commands_map commands = fold (\<lambda>c m. gm_set (cr_name c) c m) commands []"

text \<open>\<open>Register\<close> under the lifecycle gate (its background context never expires, so the gate is
  always acquired).\<close>

definition Register ::
  "WorkerSpec \<Rightarrow> WorkerOption option list \<Rightarrow> 'a runtime_scheme
   \<Rightarrow> error option \<times> 'a runtime_scheme" where
  "Register reg opts r =
     (case sp_worker reg of
        None \<Rightarrow> (Some (Sentinel ErrNilWorker), r)
      | Some _ \<Rightarrow>
     (case validateIdentifier (sp_name reg) ''worker registration name'' of
        Some e \<Rightarrow> (Some e, r)
      | None \<Rightarrow>
     (let qualified = qualifyWorkerName (r_identity r) (sp_name reg);
          cfg = apply_options opts (defaultWorker (r_config r))
      in case workerConfig_validate cfg of
        Some e \<Rightarrow> (Some e, r)
      | None \<Rightarrow>
     (case bindWorkerCommands qualified (wc_commands cfg) of
        Inl e \<Rightarrow> (Some e, r)
      | Inr commands \<Rightarrow>
          if rs_state (r_status r) \<noteq> StateRegistered
          then (Some (Errorf ''%w: cannot register worker %q when runtime is in state %q''
                  [FStr qualified, FStr (lifecycle_string (rs_state (r_status r)))]
                  [Sentinel ErrInvalidWorkerState]), r)
          else if map_of (r_registrations r) qualified \<noteq> None
          then (Some (Errorf ''%w: %s'' [FStr qualified] [Sentinel ErrWorkerAlreadyRegistered]), r)
          else (None, recomputeStatusLocked
                 (r\<lparr>r_registrations := gm_set qualified reg (r_registrations r),
                    r_workerOrder := r_workerOrder r @ [qualified],
                    r_workerConfigs := gm_set qualified cfg (r_workerConfigs r),
                    r_commands := gm_set qualified (commands_map commands) (r_commands r),
                    r_workerStates :=
                      gm_set qualified (new_workerState qualified (sp_name reg))
                        (r_workerStates r)\<rparr>))))))"

section \<open>What the facts say\<close>

definition unready :: "workerState \<Rightarrow> bool" where
  "unready s \<longleftrightarrow> lifecycle s \<noteq> StateRunning \<or> \<not> ready s"

lemma addFacts_simps:
  "hasWorkers (addFacts c s f) = hasWorkers f"
  "anyStarting (addFacts c s f) = (anyStarting f \<or> lifecycle s = StateStarting)"
  "anyDraining (addFacts c s f) = (anyDraining f \<or> lifecycle s = StateDraining)"
  "anyStopping (addFacts c s f) = (anyStopping f \<or> lifecycle s = StateStopping)"
  "anyRunning (addFacts c s f) = (anyRunning f \<or> lifecycle s = StateRunning)"
  "anyFailed (addFacts c s f) = (anyFailed f \<or> lifecycle s = StateFailed)"
  "allRegistered (addFacts c s f) = (allRegistered f \<and> lifecycle s = StateRegistered)"
  "allStopped (addFacts c s f) = (allStopped f \<and> lifecycle s = StateStopped)"
  "hasRuntimeFailedWorker (addFacts c s f) =
     (hasRuntimeFailedWorker f
      \<or> lifecycle s = StateFailed \<and> failurePolicy c = FailurePolicyFailRuntime)"
  "hasRuntimeUnreadyFailure (addFacts c s f) =
     (hasRuntimeUnreadyFailure f
      \<or> lifecycle s = StateFailed \<and> failurePolicy c = FailurePolicyMarkRuntimeUnready)"
  "readinessWorkers (addFacts c s f) =
     readinessWorkers f + (if contributesToReadiness c then 1 else 0)"
  "allContributingWorkersReady (addFacts c s f) =
     (allContributingWorkersReady f \<and> (contributesToReadiness c \<longrightarrow> \<not> unready s))"
  "allWorkersReady (addFacts c s f) = (allWorkersReady f \<and> \<not> unready s)"
  by (auto simp: addFacts_def addLifecycleFacts_def unready_def Let_def
           split: LifecycleState.splits FailurePolicy.splits)

lemma fold_facts:
  fixes r :: "'a runtime_scheme"
  defines "run \<equiv> \<lambda>ms f. fold (\<lambda>(name, s) f. addFacts (get_config r name) s f) ms f"
  shows "hasWorkers (run ms f) = hasWorkers f"
    and "anyStarting (run ms f) = (anyStarting f \<or> (\<exists>(n, s) \<in> set ms. lifecycle s = StateStarting))"
    and "anyDraining (run ms f) = (anyDraining f \<or> (\<exists>(n, s) \<in> set ms. lifecycle s = StateDraining))"
    and "anyStopping (run ms f) = (anyStopping f \<or> (\<exists>(n, s) \<in> set ms. lifecycle s = StateStopping))"
    and "anyRunning (run ms f) = (anyRunning f \<or> (\<exists>(n, s) \<in> set ms. lifecycle s = StateRunning))"
    and "anyFailed (run ms f) = (anyFailed f \<or> (\<exists>(n, s) \<in> set ms. lifecycle s = StateFailed))"
    and "allRegistered (run ms f) =
           (allRegistered f \<and> (\<forall>(n, s) \<in> set ms. lifecycle s = StateRegistered))"
    and "allStopped (run ms f) =
           (allStopped f \<and> (\<forall>(n, s) \<in> set ms. lifecycle s = StateStopped))"
    and "hasRuntimeFailedWorker (run ms f) =
           (hasRuntimeFailedWorker f \<or> (\<exists>(n, s) \<in> set ms. lifecycle s = StateFailed
              \<and> failurePolicy (get_config r n) = FailurePolicyFailRuntime))"
    and "hasRuntimeUnreadyFailure (run ms f) =
           (hasRuntimeUnreadyFailure f \<or> (\<exists>(n, s) \<in> set ms. lifecycle s = StateFailed
              \<and> failurePolicy (get_config r n) = FailurePolicyMarkRuntimeUnready))"
    and "(readinessWorkers (run ms f) = 0) =
           (readinessWorkers f = 0
            \<and> (\<forall>(n, s) \<in> set ms. \<not> contributesToReadiness (get_config r n)))"
    and "allContributingWorkersReady (run ms f) =
           (allContributingWorkersReady f
            \<and> (\<forall>(n, s) \<in> set ms. contributesToReadiness (get_config r n) \<longrightarrow> \<not> unready s))"
    and "allWorkersReady (run ms f) = (allWorkersReady f \<and> (\<forall>(n, s) \<in> set ms. \<not> unready s))"
  unfolding run_def
  by (induction ms arbitrary: f) (auto simp: addFacts_simps)

text \<open>The facts of a runtime, each as a statement about its workers.\<close>

abbreviation some_worker :: "'a runtime_scheme \<Rightarrow> (string \<Rightarrow> workerState \<Rightarrow> bool) \<Rightarrow> bool" where
  "some_worker r P \<equiv> (\<exists>(n, s) \<in> set (r_workerStates r). P n s)"

abbreviation every_worker :: "'a runtime_scheme \<Rightarrow> (string \<Rightarrow> workerState \<Rightarrow> bool) \<Rightarrow> bool" where
  "every_worker r P \<equiv> (\<forall>(n, s) \<in> set (r_workerStates r). P n s)"

lemma statusFacts_simps:
  "hasWorkers (statusFactsLocked r) = (r_workerStates r \<noteq> [])"
  "anyStarting (statusFactsLocked r) = some_worker r (\<lambda>n s. lifecycle s = StateStarting)"
  "anyDraining (statusFactsLocked r) = some_worker r (\<lambda>n s. lifecycle s = StateDraining)"
  "anyStopping (statusFactsLocked r) = some_worker r (\<lambda>n s. lifecycle s = StateStopping)"
  "anyRunning (statusFactsLocked r) = some_worker r (\<lambda>n s. lifecycle s = StateRunning)"
  "anyFailed (statusFactsLocked r) = some_worker r (\<lambda>n s. lifecycle s = StateFailed)"
  "allRegistered (statusFactsLocked r) =
     (r_workerStates r \<noteq> [] \<and> every_worker r (\<lambda>n s. lifecycle s = StateRegistered))"
  "allStopped (statusFactsLocked r) =
     (r_workerStates r \<noteq> [] \<and> every_worker r (\<lambda>n s. lifecycle s = StateStopped))"
  "hasRuntimeFailedWorker (statusFactsLocked r) =
     some_worker r (\<lambda>n s. lifecycle s = StateFailed
       \<and> failurePolicy (get_config r n) = FailurePolicyFailRuntime)"
  "hasRuntimeUnreadyFailure (statusFactsLocked r) =
     some_worker r (\<lambda>n s. lifecycle s = StateFailed
       \<and> failurePolicy (get_config r n) = FailurePolicyMarkRuntimeUnready)"
  "(readinessWorkers (statusFactsLocked r) = 0) =
     every_worker r (\<lambda>n s. \<not> contributesToReadiness (get_config r n))"
  "allContributingWorkersReady (statusFactsLocked r) =
     every_worker r (\<lambda>n s. contributesToReadiness (get_config r n) \<longrightarrow> \<not> unready s)"
  "allWorkersReady (statusFactsLocked r) = every_worker r (\<lambda>n s. \<not> unready s)"
  unfolding statusFactsLocked_def fold_facts by (simp_all add: initialFacts_def Let_def)

text \<open>The aggregate state, as the documentation orders it: a worker failure under
  \<open>FailurePolicyFailRuntime\<close>, then work in progress, then running, then isolated failures.\<close>

definition fatal_worker :: "'a runtime_scheme \<Rightarrow> string \<Rightarrow> workerState \<Rightarrow> bool" where
  "fatal_worker r n s \<longleftrightarrow>
     lifecycle s = StateFailed \<and> failurePolicy (get_config r n) = FailurePolicyFailRuntime"

definition unready_failure :: "'a runtime_scheme \<Rightarrow> string \<Rightarrow> workerState \<Rightarrow> bool" where
  "unready_failure r n s \<longleftrightarrow>
     lifecycle s = StateFailed
     \<and> failurePolicy (get_config r n) = FailurePolicyMarkRuntimeUnready"

lemma derived_state_eq:
  "deriveRuntimeLifecycleState r (statusFactsLocked r) =
    (if r_workerStates r = [] then StateRegistered
     else if some_worker r (fatal_worker r) then StateFailed
     else if some_worker r (\<lambda>n s. lifecycle s = StateStarting) then StateStarting
     else if some_worker r (\<lambda>n s. lifecycle s = StateDraining) then StateDraining
     else if some_worker r (\<lambda>n s. lifecycle s = StateStopping) then StateStopping
     else if some_worker r (\<lambda>n s. lifecycle s = StateRunning) then StateRunning
     else if some_worker r (\<lambda>n s. lifecycle s = StateFailed) then StateFailed
     else if every_worker r (\<lambda>n s. lifecycle s = StateStopped) then StateStopped
     else if every_worker r (\<lambda>n s. lifecycle s = StateRegistered) then StateRegistered
     else rs_state (r_status r))"
  by (simp add: deriveRuntimeLifecycleState_def statusFacts_simps fatal_worker_def)

lemma derived_ready_eq:
  "deriveRuntimeReadiness r (statusFactsLocked r) \<longleftrightarrow>
     every_worker r (\<lambda>n s. \<not> fatal_worker r n s \<and> \<not> unready_failure r n s) \<and>
     (case readinessPolicy (r_config r) of
        ReadyWhenAllWorkersReady \<Rightarrow>
          r_workerStates r \<noteq> [] \<and> every_worker r (\<lambda>n s. lifecycle s = StateRunning \<and> ready s)
      | ReadyWhenContributingWorkersReady \<Rightarrow>
          (if some_worker r (\<lambda>n s. contributesToReadiness (get_config r n))
           then every_worker r (\<lambda>n s. contributesToReadiness (get_config r n)
                  \<longrightarrow> lifecycle s = StateRunning \<and> ready s)
           else some_worker r (\<lambda>n s. lifecycle s = StateRunning)
                \<and> every_worker r (\<lambda>n s. lifecycle s \<notin>
                     {StateStarting, StateDraining, StateStopping}))
      | ReadinessPolicyOther _ \<Rightarrow> False)"
  unfolding deriveRuntimeReadiness_def statusFacts_simps fatal_worker_def unready_failure_def
    unready_def
  by (cases "readinessPolicy (r_config r)") (auto; fastforce)+

lemma recompute_frame [simp]:
  "r_gate (recomputeStatusLocked r) = r_gate r"
  "r_identity (recomputeStatusLocked r) = r_identity r"
  "r_config (recomputeStatusLocked r) = r_config r"
  "r_registrations (recomputeStatusLocked r) = r_registrations r"
  "r_workerOrder (recomputeStatusLocked r) = r_workerOrder r"
  "r_workerConfigs (recomputeStatusLocked r) = r_workerConfigs r"
  "r_commands (recomputeStatusLocked r) = r_commands r"
  "r_workerStates (recomputeStatusLocked r) = r_workerStates r"
  "r_dispatchSeq (recomputeStatusLocked r) = r_dispatchSeq r"
  "r_admissionClosed (recomputeStatusLocked r) = r_admissionClosed r"
  "r_now (recomputeStatusLocked r) = r_now r"
  "r_calls (recomputeStatusLocked r) = r_calls r"
  "runtime.more (recomputeStatusLocked r) = runtime.more r"
  "rs_inFlight (r_status (recomputeStatusLocked r)) = rs_inFlight (r_status r)"
  "rs_name (r_status (recomputeStatusLocked r)) = r_identity r"
  "rs_workers (r_status (recomputeStatusLocked r)) = length (r_workerStates r)"
  "rs_state (r_status (recomputeStatusLocked r)) =
     deriveRuntimeLifecycleState r (statusFactsLocked r)"
  "rs_ready (r_status (recomputeStatusLocked r)) =
     deriveRuntimeReadiness r (statusFactsLocked r)"
  by (simp_all add: recomputeStatusLocked_def Let_def)

lemma observe_frame [simp]:
  "r_gate (observe c r) = r_gate r"
  "r_identity (observe c r) = r_identity r"
  "r_config (observe c r) = r_config r"
  "r_registrations (observe c r) = r_registrations r"
  "r_workerOrder (observe c r) = r_workerOrder r"
  "r_workerConfigs (observe c r) = r_workerConfigs r"
  "r_commands (observe c r) = r_commands r"
  "r_workerStates (observe c r) = r_workerStates r"
  "r_dispatchSeq (observe c r) = r_dispatchSeq r"
  "r_status (observe c r) = r_status r"
  "r_admissionClosed (observe c r) = r_admissionClosed r"
  "r_now (observe c r) = r_now r"
  "r_calls (observe c r) = r_calls r @ [c]"
  "runtime.more (observe c r) = runtime.more r"
  by (simp_all add: observe_def)

text \<open>Runtime readiness under each policy. Ready means that no worker has failed under a
  policy that takes readiness down and: under \<open>ReadyWhenAllWorkersReady\<close>, there is a worker and
  each is running and ready; under \<open>ReadyWhenContributingWorkersReady\<close>, each contributing worker
  is running and ready, or, when none contributes, some worker runs and none is starting,
  draining or stopping.\<close>

lemma ready_recomputed:
  "rs_ready (r_status (recomputeStatusLocked r)) \<longleftrightarrow>
     every_worker r (\<lambda>n s. \<not> fatal_worker r n s \<and> \<not> unready_failure r n s) \<and>
     (case readinessPolicy (r_config r) of
        ReadyWhenAllWorkersReady \<Rightarrow>
          r_workerStates r \<noteq> [] \<and> every_worker r (\<lambda>n s. lifecycle s = StateRunning \<and> ready s)
      | ReadyWhenContributingWorkersReady \<Rightarrow>
          (if some_worker r (\<lambda>n s. contributesToReadiness (get_config r n))
           then every_worker r (\<lambda>n s. contributesToReadiness (get_config r n)
                  \<longrightarrow> lifecycle s = StateRunning \<and> ready s)
           else some_worker r (\<lambda>n s. lifecycle s = StateRunning)
                \<and> every_worker r (\<lambda>n s. lifecycle s \<notin>
                     {StateStarting, StateDraining, StateStopping}))
      | ReadinessPolicyOther _ \<Rightarrow> False)"
  by (simp only: recompute_frame derived_ready_eq)

text \<open>Go visits a map in any order: the facts do not depend on it.\<close>

lemma addFacts_commute:
  "addFacts c s (addFacts c' s' f) = addFacts c' s' (addFacts c s f)"
  by (rule statusFacts.equality) (auto simp: addFacts_simps)

lemma statusFacts_any_order:
  assumes "mset ms = mset (r_workerStates r)"
  shows "statusFactsLocked (r\<lparr>r_workerStates := ms\<rparr>) = statusFactsLocked r"
proof -
  let ?g = "\<lambda>(name, s). addFacts (get_config r name) s"
  have "fold ?g ms = fold ?g (r_workerStates r)"
    by (rule fold_multiset_equiv [OF _ assms]) (auto simp: fun_eq_iff addFacts_commute)
  moreover have "length ms = length (r_workerStates r)"
    using assms by (rule mset_eq_length)
  ultimately show ?thesis
    by (simp add: statusFactsLocked_def initialFacts_def get_config_def Let_def split_def)
qed

text \<open>The aggregate status is a function of the set of workers: recomputing it over any other
  order of the same map entries gives the same state, readiness and worker count.\<close>

lemma recompute_reordered:
  assumes "mset ms = mset (r_workerStates r)"
  shows "r_status (recomputeStatusLocked (r\<lparr>r_workerStates := ms\<rparr>)) =
         r_status (recomputeStatusLocked r)"
  using mset_eq_length [OF assms]
  by (simp add: recomputeStatusLocked_def statusFacts_any_order [OF assms] Let_def
        deriveRuntimeLifecycleState_def deriveRuntimeReadiness_def)

end
