(* ===== verification/Runtime_Steps.thy ===== *)
theory Runtime_Steps
  imports Runtime_State
begin

text \<open>
  The critical sections of \<open>runtime.go\<close>: every function that takes the mutex, changes a worker
  record or the status, releases the mutex and reports what changed to the observer. Each is
  one atomic step here; the goroutines of the program interleave at this granularity.
  An error result of a section is \<open>Some e\<close> or \<open>Inl e\<close>, next to the state it leaves.
\<close>

section \<open>Observation\<close>

definition observeTransition ::
  "string \<Rightarrow> LifecycleState \<Rightarrow> LifecycleState \<Rightarrow> time \<Rightarrow> 'a runtime_scheme \<Rightarrow> 'a runtime_scheme" where
  "observeTransition worker from_state to_state at r =
     observe (ObserveTransition \<lparr>te_runtime = r_identity r, te_worker = worker,
                                te_from = from_state, te_to = to_state, te_at = at\<rparr>) r"

definition observeReadinessChange ::
  "string \<Rightarrow> bool \<Rightarrow> bool \<Rightarrow> time \<Rightarrow> 'a runtime_scheme \<Rightarrow> 'a runtime_scheme" where
  "observeReadinessChange worker prev after at r =
     (if prev = after then r
      else observe (ObserveReadiness \<lparr>re_runtime = r_identity r, re_worker = worker,
                                     re_ready = after, re_at = at\<rparr>) r)"

definition observeRuntimeChanges ::
  "RuntimeStatus \<Rightarrow> RuntimeStatus \<Rightarrow> 'a runtime_scheme \<Rightarrow> 'a runtime_scheme" where
  "observeRuntimeChanges prev after r =
     (let at = r_now r;
          r = (if rs_state prev \<noteq> rs_state after
               then observeTransition '''' (rs_state prev) (rs_state after) at r else r)
      in observeReadinessChange '''' (rs_ready prev) (rs_ready after) at r)"

definition observeFailure ::
  "string \<Rightarrow> string \<Rightarrow> error option \<Rightarrow> bool \<Rightarrow> time \<Rightarrow> string \<Rightarrow> int
   \<Rightarrow> 'a runtime_scheme \<Rightarrow> 'a runtime_scheme" where
  "observeFailure worker command err panicked at dispatchID attempt r =
     (let fallback = (if command \<noteq> '''' then commandFailure else workerFailure);
          failure = operationalFailure err fallback
      in observe (ObserveFailure \<lparr>fe_runtime = r_identity r, fe_worker = worker,
            fe_command = command, fe_dispatchID = dispatchID, fe_attempt = attempt, fe_at = at,
            fe_code = f_code failure, fe_message = f_message failure, fe_cause = err,
            fe_panic = panicked\<rparr>) r)"

section \<open>Committing a worker record\<close>

record workerStateObservation =
  wo_worker :: string
  wo_from :: LifecycleState
  wo_to :: LifecycleState
  wo_beforeReady :: bool
  wo_afterReady :: bool
  wo_before :: RuntimeStatus
  wo_after :: RuntimeStatus
  wo_at :: time

definition set_worker :: "string \<Rightarrow> workerState \<Rightarrow> 'a runtime_scheme \<Rightarrow> 'a runtime_scheme" where
  "set_worker name s r = r\<lparr>r_workerStates := gm_set name s (r_workerStates r)\<rparr>"

definition commitWorkerStateLocked ::
  "string \<Rightarrow> workerState \<Rightarrow> workerState \<Rightarrow> time \<Rightarrow> 'a runtime_scheme
   \<Rightarrow> workerStateObservation \<times> 'a runtime_scheme" where
  "commitWorkerStateLocked name prev after at r =
     (let prevRuntime = r_status r;
          r' = recomputeStatusLocked (set_worker name after r)
      in (\<lparr>wo_worker = name, wo_from = lifecycle prev, wo_to = lifecycle after,
           wo_beforeReady = ready prev, wo_afterReady = ready after,
           wo_before = prevRuntime, wo_after = r_status r', wo_at = at\<rparr>, r'))"

definition observeWorkerTransition ::
  "workerStateObservation \<Rightarrow> 'a runtime_scheme \<Rightarrow> 'a runtime_scheme" where
  "observeWorkerTransition obs r =
     (if wo_from obs \<noteq> wo_to obs
      then observeTransition (wo_worker obs) (wo_from obs) (wo_to obs) (wo_at obs) r else r)"

definition observeWorkerReadiness ::
  "workerStateObservation \<Rightarrow> 'a runtime_scheme \<Rightarrow> 'a runtime_scheme" where
  "observeWorkerReadiness obs r =
     observeReadinessChange (wo_worker obs) (wo_beforeReady obs) (wo_afterReady obs) (wo_at obs) r"

definition observeWorkerStateChange ::
  "workerStateObservation \<Rightarrow> 'a runtime_scheme \<Rightarrow> 'a runtime_scheme" where
  "observeWorkerStateChange obs r =
     observeRuntimeChanges (wo_before obs) (wo_after obs)
       (observeWorkerReadiness obs (observeWorkerTransition obs r))"

text \<open>The two assignments every transition makes to a worker record.\<close>

definition moved_to :: "LifecycleState \<Rightarrow> time \<Rightarrow> workerState \<Rightarrow> workerState" where
  "moved_to to_state now s =
     s\<lparr>lastTransition := Some \<lparr>lt_from = lifecycle s, lt_to = to_state, lt_at = now\<rparr>,
       lifecycle := to_state\<rparr>"

definition failure_info :: "failure \<Rightarrow> time \<Rightarrow> FailureInfo" where
  "failure_info f now = \<lparr>fi_code = f_code f, fi_message = f_message f, fi_at = now\<rparr>"

section \<open>Errors of the sections\<close>

definition worker_not_found :: "string \<Rightarrow> error" where
  "worker_not_found name = Errorf ''%w: %s'' [FStr name] [Sentinel ErrWorkerNotFound]"

definition invalid_state_error :: "string \<Rightarrow> string \<Rightarrow> LifecycleState \<Rightarrow> error" where
  "invalid_state_error what name s =
     Errorf (''%w: cannot '' @ what @ '' worker %q in state %q'')
       [FStr name, FStr (lifecycle_string s)] [Sentinel ErrInvalidWorkerState]"

definition completeWorkerTransitionStateError ::
  "string \<Rightarrow> LifecycleState \<Rightarrow> workerState \<Rightarrow> error" where
  "completeWorkerTransitionStateError name want s =
     Errorf ''%w: cannot complete worker %q transition from %q while in state %q''
       [FStr name, FStr (lifecycle_string want), FStr (lifecycle_string (lifecycle s))]
       [Sentinel ErrInvalidWorkerState]"

definition staleWorkerGenerationError :: "string \<Rightarrow> generation \<Rightarrow> generation \<Rightarrow> error" where
  "staleWorkerGenerationError name got current =
     Errorf ''%w: stale runtime handle for worker %q: generation=%d current=%d''
       [FStr name, FInt (uint got), FInt (uint current)] [Sentinel ErrInvalidWorkerState]"

definition completeWorkerStartStateError :: "string \<Rightarrow> workerState \<Rightarrow> error" where
  "completeWorkerStartStateError name s =
     (case lastFailure s of
        None \<Rightarrow> invalid_state_error ''complete start for'' name (lifecycle s)
      | Some f \<Rightarrow>
          Errorf ''%w: cannot complete start for worker %q in state %q: last failure: %s''
            [FStr name, FStr (lifecycle_string (lifecycle s)), FStr (fi_message f)]
            [Sentinel ErrInvalidWorkerState])"

section \<open>Start, stop and drain\<close>

definition beginWorkerStart ::
  "string \<Rightarrow> 'a runtime_scheme \<Rightarrow> (error + generation) \<times> 'a runtime_scheme" where
  "beginWorkerStart name r =
     (case map_of (r_workerStates r) name of
        None \<Rightarrow> (Inl (worker_not_found name), r)
      | Some s \<Rightarrow>
          if lifecycle s \<in> {StateRegistered, StateStopped, StateFailed}
          then let now = r_now r;
                   s' = (moved_to StateStarting now (s\<lparr>generation := generation s + 1\<rparr>))
                          \<lparr>ready := False, acceptingWork := False, readySetDuringStart := False,
                           acceptingWorkSetDuringStart := False,
                           failureReportedDuringStart := False\<rparr>;
                   (obs, r') = commitWorkerStateLocked name s s' now r
               in (Inr (generation s'), observeWorkerStateChange obs r')
          else (Inl (invalid_state_error ''start'' name (lifecycle s)), r))"

definition beginWorkerStop ::
  "string \<Rightarrow> 'a runtime_scheme \<Rightarrow> (error + generation) \<times> 'a runtime_scheme" where
  "beginWorkerStop name r =
     (case map_of (r_workerStates r) name of
        None \<Rightarrow> (Inl (worker_not_found name), r)
      | Some s \<Rightarrow>
          if lifecycle s \<in> {StateRunning, StateDraining, StateFailed}
          then let now = r_now r;
                   s' = (moved_to StateStopping now s)
                          \<lparr>ready := False, acceptingWork := False, readySetDuringStart := False,
                           acceptingWorkSetDuringStart := False\<rparr>;
                   (obs, r') = commitWorkerStateLocked name s s' now r
               in (Inr (generation s'), observeWorkerStateChange obs r')
          else (Inl (invalid_state_error ''stop'' name (lifecycle s)), r))"

definition beginWorkerDrain ::
  "string \<Rightarrow> 'a runtime_scheme \<Rightarrow> error option \<times> 'a runtime_scheme" where
  "beginWorkerDrain name r =
     (case map_of (r_workerStates r) name of
        None \<Rightarrow> (Some (worker_not_found name), r)
      | Some s \<Rightarrow>
          if lifecycle s = StateDraining
          then (None, recomputeStatusLocked
                        (set_worker name (s\<lparr>ready := False, acceptingWork := False\<rparr>) r))
          else if lifecycle s = StateRunning
          then let now = r_now r;
                   s' = (moved_to StateDraining now s)\<lparr>ready := False, acceptingWork := False\<rparr>;
                   (obs, r') = commitWorkerStateLocked name s s' now r
               in (None, observeWorkerStateChange obs r')
          else (Some (invalid_state_error ''begin drain for'' name (lifecycle s)), r))"

definition completeWorkerTransition ::
  "string \<Rightarrow> generation \<Rightarrow> LifecycleState \<Rightarrow> LifecycleState \<Rightarrow> bool \<Rightarrow> bool
   \<Rightarrow> 'a runtime_scheme \<Rightarrow> error option \<times> 'a runtime_scheme" where
  "completeWorkerTransition name gen from_state to_state rdy accepting r =
     (let s = get_state r name
      in if generation s \<noteq> gen
         then (Some (staleWorkerGenerationError name gen (generation s)), r)
         else if lifecycle s \<noteq> from_state
         then (Some (completeWorkerTransitionStateError name from_state s), r)
         else let now = r_now r;
                  s' = (moved_to to_state now s)
                         \<lparr>ready := rdy, acceptingWork := accepting,
                          readySetDuringStart := False, acceptingWorkSetDuringStart := False\<rparr>;
                  (obs, r') = commitWorkerStateLocked name s s' now r
              in (None, observeWorkerStateChange obs r'))"

definition completeWorkerStart ::
  "string \<Rightarrow> generation \<Rightarrow> bool \<Rightarrow> bool \<Rightarrow> 'a runtime_scheme
   \<Rightarrow> error option \<times> 'a runtime_scheme" where
  "completeWorkerStart name gen defaultReady defaultAcceptingWork r =
     (let s = get_state r name
      in if generation s \<noteq> gen
         then (Some (staleWorkerGenerationError name gen (generation s)), r)
         else if lifecycle s \<noteq> StateStarting
         then (Some (completeWorkerStartStateError name s), r)
         else let now = r_now r
              in if failureReportedDuringStart s
                 then let s' = (moved_to StateFailed now s)
                                 \<lparr>ready := False, acceptingWork := False,
                                  readySetDuringStart := False,
                                  acceptingWorkSetDuringStart := False,
                                  failureReportedDuringStart := False\<rparr>;
                          (obs, r') = commitWorkerStateLocked name s s' now r
                      in (None, observeWorkerStateChange obs r')
                 else let s1 = moved_to StateRunning now s;
                          s2 = (if \<not> readySetDuringStart s1 then s1\<lparr>ready := defaultReady\<rparr> else s1);
                          s3 = (if \<not> acceptingWorkSetDuringStart s2
                                then s2\<lparr>acceptingWork := defaultAcceptingWork\<rparr> else s2);
                          s' = s3\<lparr>readySetDuringStart := False,
                                  acceptingWorkSetDuringStart := False,
                                  failureReportedDuringStart := False, lastFailure := None\<rparr>;
                          (obs, r') = commitWorkerStateLocked name s s' now r
                      in (None, observeWorkerStateChange obs r'))"

section \<open>Signals from worker code\<close>

definition setWorkerReady ::
  "string \<Rightarrow> generation \<Rightarrow> bool \<Rightarrow> 'a runtime_scheme \<Rightarrow> error option \<times> 'a runtime_scheme" where
  "setWorkerReady name gen rdy r =
     (case map_of (r_workerStates r) name of
        None \<Rightarrow> (Some (worker_not_found name), r)
      | Some s \<Rightarrow>
          if generation s \<noteq> gen
          then (Some (staleWorkerGenerationError name gen (generation s)), r)
          else if \<not> lifecycleAllowsWorkerRuntimeMutation (lifecycle s)
          then (Some (invalid_state_error ''set readiness for'' name (lifecycle s)), r)
          else if rdy \<and> \<not> lifecycleAllowsWorkerRuntimePositiveSignal (lifecycle s)
          then (Some (invalid_state_error ''set readiness for'' name (lifecycle s)), r)
          else let now = r_now r;
                   s1 = s\<lparr>ready := rdy\<rparr>;
                   s' = (if lifecycle s1 = StateStarting
                         then s1\<lparr>readySetDuringStart := True\<rparr> else s1);
                   (obs, r') = commitWorkerStateLocked name s s' now r
               in (None, observeWorkerStateChange obs r'))"

definition setWorkerAcceptingWork ::
  "string \<Rightarrow> generation \<Rightarrow> bool \<Rightarrow> 'a runtime_scheme \<Rightarrow> error option \<times> 'a runtime_scheme" where
  "setWorkerAcceptingWork name gen accepting r =
     (case map_of (r_workerStates r) name of
        None \<Rightarrow> (Some (worker_not_found name), r)
      | Some s \<Rightarrow>
          if generation s \<noteq> gen
          then (Some (staleWorkerGenerationError name gen (generation s)), r)
          else if \<not> lifecycleAllowsWorkerRuntimeMutation (lifecycle s)
          then (Some (invalid_state_error ''set accepting-work for'' name (lifecycle s)), r)
          else if accepting \<and> \<not> lifecycleAllowsWorkerRuntimePositiveSignal (lifecycle s)
          then (Some (invalid_state_error ''set accepting-work for'' name (lifecycle s)), r)
          else let s1 = s\<lparr>acceptingWork := accepting\<rparr>;
                   s' = (if lifecycle s1 = StateStarting
                         then s1\<lparr>acceptingWorkSetDuringStart := True\<rparr> else s1)
               in (None, recomputeStatusLocked (set_worker name s' r)))"

text \<open>The assignments that fail a worker, as \<open>failWorker\<close>, \<open>reportWorkerFailure\<close> and
  \<open>recordCommandPanic\<close> make them.\<close>

definition failed_state :: "failure \<Rightarrow> time \<Rightarrow> workerState \<Rightarrow> workerState" where
  "failed_state f now s =
     (moved_to StateFailed now s)
       \<lparr>ready := False, acceptingWork := False, readySetDuringStart := False,
        acceptingWorkSetDuringStart := False, failureReportedDuringStart := False,
        lastFailure := Some (failure_info f now)\<rparr>"

definition reportWorkerFailure ::
  "string \<Rightarrow> generation \<Rightarrow> error option \<Rightarrow> 'a runtime_scheme
   \<Rightarrow> error option \<times> 'a runtime_scheme" where
  "reportWorkerFailure name gen err r =
     (if err = None then (None, r)
      else let failure = operationalFailure err workerFailure
      in case map_of (r_workerStates r) name of
        None \<Rightarrow> (Some (worker_not_found name), r)
      | Some s \<Rightarrow>
          if generation s \<noteq> gen
          then (Some (staleWorkerGenerationError name gen (generation s)), r)
          else if lifecycle s \<notin> {StateStarting, StateRunning, StateDraining, StateStopping}
          then (Some (invalid_state_error ''report failure for'' name (lifecycle s)), r)
          else let now = r_now r
               in if lifecycle s = StateStarting \<or> lifecycle s = StateStopping
                  then let s' = s\<lparr>ready := False, acceptingWork := False,
                                  readySetDuringStart := False,
                                  acceptingWorkSetDuringStart := False,
                                  failureReportedDuringStart := (lifecycle s = StateStarting),
                                  lastFailure := Some (failure_info failure now)\<rparr>;
                           (obs, r') = commitWorkerStateLocked name s s' now r
                       in (None, observeRuntimeChanges (wo_before obs) (wo_after obs)
                             (observeFailure name '''' err False now '''' 0
                               (observeWorkerReadiness obs r')))
                  else let s' = failed_state failure now s;
                           (obs, r') = commitWorkerStateLocked name s s' now r
                       in (None, observeRuntimeChanges (wo_before obs) (wo_after obs)
                             (observeFailure name '''' err False now '''' 0
                               (observeWorkerReadiness obs (observeWorkerTransition obs r')))))"

section \<open>Recording failures\<close>

definition failWorker ::
  "string \<Rightarrow> generation \<Rightarrow> error \<Rightarrow> bool \<Rightarrow> 'a runtime_scheme \<Rightarrow> 'a runtime_scheme" where
  "failWorker name gen err panicked r =
     (let failure = operationalFailure (Some err) workerFailure;
          s = get_state r name;
          now = r_now r
      in if generation s \<noteq> gen then r
         else let suppressFailureEvent =
                    (lastFailure s \<noteq> None
                     \<and> (lifecycle s = StateFailed \<or> failureReportedDuringStart s));
                  s' = failed_state failure now s;
                  (obs, r1) = commitWorkerStateLocked name s s' now r;
                  r2 = observeWorkerReadiness obs (observeWorkerTransition obs r1);
                  r3 = (if \<not> suppressFailureEvent
                        then observeFailure name '''' (Some err) panicked now '''' 0 r2 else r2)
              in observeRuntimeChanges (wo_before obs) (wo_after obs) r3)"

definition failLoopCleanup ::
  "string \<Rightarrow> generation \<Rightarrow> error \<Rightarrow> 'a runtime_scheme \<Rightarrow> 'a runtime_scheme" where
  "failLoopCleanup name gen err r =
     (let failure = operationalFailure (Some err) loopCleanupFailure;
          s = get_state r name;
          now = r_now r
      in if generation s \<noteq> gen then r
         else let s1 = (moved_to StateFailed now s)
                         \<lparr>ready := False, acceptingWork := False, readySetDuringStart := False,
                          acceptingWorkSetDuringStart := False,
                          failureReportedDuringStart := False\<rparr>;
                  s' = (if lastFailure s1 = None
                        then s1\<lparr>lastFailure := Some (failure_info failure now)\<rparr> else s1);
                  (obs, r1) = commitWorkerStateLocked name s s' now r
              in observeRuntimeChanges (wo_before obs) (wo_after obs)
                   (observeFailure name '''' (Some err) False now '''' 0
                     (observeWorkerReadiness obs (observeWorkerTransition obs r1))))"

definition observeLoopCleanupFailure ::
  "string \<Rightarrow> error option \<Rightarrow> bool \<Rightarrow> 'a runtime_scheme \<Rightarrow> 'a runtime_scheme" where
  "observeLoopCleanupFailure name err panicked r =
     (if err = None then r
      else observeFailure name '''' (newLoopCleanupError err) panicked (r_now r) '''' 0 r)"

definition recordWorkerFailureStatus ::
  "string \<Rightarrow> generation \<Rightarrow> error \<Rightarrow> 'a runtime_scheme \<Rightarrow> 'a runtime_scheme" where
  "recordWorkerFailureStatus name gen err r =
     (let failure = operationalFailure (Some err) workerFailure;
          s = get_state r name
      in if generation s \<noteq> gen then r
         else set_worker name (s\<lparr>lastFailure := Some (failure_info failure (r_now r))\<rparr>) r)"

definition command_failure_info :: "string \<Rightarrow> failure \<Rightarrow> time \<Rightarrow> CommandFailureInfo" where
  "command_failure_info command f now =
     \<lparr>cfi_command = command, cfi_code = f_code f, cfi_message = f_message f, cfi_at = now\<rparr>"

definition recordCommandFailure ::
  "string \<Rightarrow> generation \<Rightarrow> string \<Rightarrow> error \<Rightarrow> string \<Rightarrow> int
   \<Rightarrow> 'a runtime_scheme \<Rightarrow> 'a runtime_scheme" where
  "recordCommandFailure name gen command err dispatchID attempt r =
     (let failure = operationalFailure (Some err) commandFailure;
          s = get_state r name;
          now = r_now r;
          r1 = (if generation s = gen
                then set_worker name
                       (s\<lparr>lastCommandFailure := Some (command_failure_info command failure now)\<rparr>) r
                else r)
      in observeFailure name command (Some err) False now dispatchID attempt r1)"

definition recordCommandPanic ::
  "string \<Rightarrow> generation \<Rightarrow> string \<Rightarrow> error \<Rightarrow> string \<Rightarrow> int
   \<Rightarrow> 'a runtime_scheme \<Rightarrow> 'a runtime_scheme" where
  "recordCommandPanic name gen command err dispatchID attempt r =
     (let failure = operationalFailure (Some err) commandFailure;
          s = get_state r name;
          now = r_now r
      in if generation s \<noteq> gen
         then observeFailure name command (Some err) True now dispatchID attempt r
         else let s1 = s\<lparr>lastCommandFailure := Some (command_failure_info command failure now)\<rparr>
              in if lifecycle s1 = StateRunning \<or> lifecycle s1 = StateDraining
                 then let s' = failed_state failure now s1;
                          (obs, r1) = commitWorkerStateLocked name s1 s' now r
                      in observeRuntimeChanges (wo_before obs) (wo_after obs)
                           (observeFailure name command (Some err) True now dispatchID attempt
                             (observeWorkerReadiness obs (observeWorkerTransition obs r1)))
                 else observeFailure name command (Some err) True now dispatchID attempt
                        (set_worker name s1 r))"

section \<open>Command slots\<close>

definition admitCommand ::
  "string \<Rightarrow> 'a runtime_scheme \<Rightarrow> (error + generation) \<times> 'a runtime_scheme" where
  "admitCommand name r =
     (if r_admissionClosed r
      then (Inl (Errorf ''%w: runtime %q command admission is closed'' [FStr (r_identity r)]
              [Sentinel ErrRuntimeNotAcceptingWork]), r)
      else if rs_state (r_status r) \<in> {StateFailed, StateStopped, StateRegistered}
      then (Inl (Errorf ''%w: runtime %q is in state %q''
              [FStr (r_identity r), FStr (lifecycle_string (rs_state (r_status r)))]
              [Sentinel ErrRuntimeNotAcceptingWork]), r)
      else case map_of (r_workerStates r) name of
        None \<Rightarrow> (Inl (worker_not_found name), r)
      | Some s \<Rightarrow>
          if lifecycle s \<noteq> StateRunning
          then (Inl (invalid_state_error ''dispatch to'' name (lifecycle s)), r)
          else if \<not> acceptingWork s
          then (Inl (Errorf ''%w: worker %q'' [FStr name] [Sentinel ErrWorkerNotAcceptingWork]), r)
          else if rc_commandConcurrency (r_config r) > 0
                  \<and> rs_inFlight (r_status r) \<ge> rc_commandConcurrency (r_config r)
          then (Inl (Errorf ''%w: limit=%d'' [FInt (rc_commandConcurrency (r_config r))]
                  [Sentinel ErrRuntimeSaturated]), r)
          else if wc_commandConcurrency (get_config r name) > 0
                  \<and> inFlight s \<ge> wc_commandConcurrency (get_config r name)
          then (Inl (Errorf ''%w: worker=%s limit=%d''
                  [FStr name, FInt (wc_commandConcurrency (get_config r name))]
                  [Sentinel ErrWorkerSaturated]), r)
          else (Inr (generation s),
                (set_worker name (s\<lparr>inFlight := inFlight s + 1\<rparr>) r)
                  \<lparr>r_status := (r_status r)\<lparr>rs_inFlight := rs_inFlight (r_status r) + 1\<rparr>\<rparr>))"

definition releaseCommandSlot :: "string \<Rightarrow> 'a runtime_scheme \<Rightarrow> 'a runtime_scheme" where
  "releaseCommandSlot name r =
     (case map_of (r_workerStates r) name of
        None \<Rightarrow> r
      | Some s \<Rightarrow>
          let s' = (if inFlight s > 0 then s\<lparr>inFlight := inFlight s - 1\<rparr> else s);
              r1 = set_worker name s' r
          in if rs_inFlight (r_status r1) > 0
             then r1\<lparr>r_status := (r_status r1)\<lparr>rs_inFlight := rs_inFlight (r_status r1) - 1\<rparr>\<rparr>
             else r1)"

end
