(* ===== verification/Runtime_Inv.thy ===== *)
theory Runtime_Inv
  imports Runtime_Steps
begin

text \<open>
  The well-formedness invariant of a runtime and its preservation by every critical section.

  \<^item> \<open>worker_ok\<close>: one worker record; \<open>status_fresh\<close>: the status is what the facts derive;
    \<open>rt_inv\<close>: both, with maps that agree on their keys and in-flight counters that add up.
  \<^item> \<open>affects n r r'\<close>: from \<open>r\<close> to \<open>r'\<close> only worker \<open>n\<close>, the status and the observer
    calls changed, and calls were only appended.
  \<^item> \<open>worker_moves\<close>: a worker record stutters or takes an edge of the lifecycle automaton,
    with a new generation exactly when it starts.
\<close>

section \<open>The invariant\<close>

definition transition_ok :: "LifecycleTransition option \<Rightarrow> LifecycleState \<Rightarrow> bool" where
  "transition_ok t state =
     (case t of
        None \<Rightarrow> state = StateRegistered
      | Some x \<Rightarrow> lt_to x = state \<and> lifecycle_edge (lt_from x) (lt_to x))"

lemma transition_ok_Some [simp]:
  "transition_ok (Some x) state \<longleftrightarrow> lt_to x = state \<and> lifecycle_edge (lt_from x) (lt_to x)"
  by (simp add: transition_ok_def)

definition worker_ok :: "string \<Rightarrow> workerState \<Rightarrow> bool" where
  "worker_ok n s \<longleftrightarrow>
     qualifiedName s = n
     \<and> (ready s \<or> acceptingWork s \<longrightarrow> lifecycle s \<in> {StateStarting, StateRunning})
     \<and> (readySetDuringStart s \<or> acceptingWorkSetDuringStart s \<or> failureReportedDuringStart s
          \<longrightarrow> lifecycle s = StateStarting)
     \<and> (failureReportedDuringStart s \<or> lifecycle s = StateFailed \<longrightarrow> lastFailure s \<noteq> None)
     \<and> transition_ok (lastTransition s) (lifecycle s)
     \<and> 0 \<le> inFlight s"

definition status_fresh :: "'a runtime_scheme \<Rightarrow> bool" where
  "status_fresh r \<longleftrightarrow>
     rs_name (r_status r) = r_identity r
     \<and> rs_workers (r_status r) = length (r_workerStates r)
     \<and> rs_state (r_status r) = deriveRuntimeLifecycleState r (statusFactsLocked r)
     \<and> rs_ready (r_status r) = deriveRuntimeReadiness r (statusFactsLocked r)"

definition registry_ok :: "'a runtime_scheme \<Rightarrow> bool" where
  "registry_ok r \<longleftrightarrow>
     is_identifier (r_identity r)
     \<and> (\<forall>(n, reg) \<in> set (r_registrations r). is_identifier (sp_name reg)
          \<and> n = qualifyWorkerName (r_identity r) (sp_name reg) \<and> sp_worker reg \<noteq> None)
     \<and> (\<forall>(n, m) \<in> set (r_commands r). gm_wf m
        \<and> (\<forall>(k, c) \<in> set m. cr_worker c = n \<and> cr_name c = k \<and> ValidateCommandName k = None))"

definition rt_inv :: "'a runtime_scheme \<Rightarrow> bool" where
  "rt_inv r \<longleftrightarrow>
     distinct (r_workerOrder r)
     \<and> map fst (r_registrations r) = r_workerOrder r
     \<and> map fst (r_workerConfigs r) = r_workerOrder r
     \<and> map fst (r_commands r) = r_workerOrder r
     \<and> map fst (r_workerStates r) = r_workerOrder r
     \<and> (\<forall>(n, s) \<in> set (r_workerStates r). worker_ok n s)
     \<and> rs_inFlight (r_status r) = sum_list (map (inFlight \<circ> snd) (r_workerStates r))
     \<and> status_fresh r \<and> registry_ok r"

lemma rt_inv_wf: "rt_inv r \<Longrightarrow> gm_wf (r_workerStates r)"
  by (simp add: rt_inv_def gm_wf_def)

lemma rt_inv_worker: "rt_inv r \<Longrightarrow> map_of (r_workerStates r) n = Some s \<Longrightarrow> worker_ok n s"
  by (auto simp: rt_inv_def dest!: map_of_SomeD)

lemma rt_inv_fresh: "rt_inv r \<Longrightarrow> status_fresh r"
  by (simp add: rt_inv_def)

lemma rt_inv_registered:
  assumes "rt_inv r"
  shows "map_of (r_workerStates r) n \<noteq> None \<longleftrightarrow> n \<in> set (r_workerOrder r)"
    and "map_of (r_registrations r) n \<noteq> None \<longleftrightarrow> n \<in> set (r_workerOrder r)"
    and "map_of (r_workerConfigs r) n \<noteq> None \<longleftrightarrow> n \<in> set (r_workerOrder r)"
    and "map_of (r_commands r) n \<noteq> None \<longleftrightarrow> n \<in> set (r_workerOrder r)"
  using assms unfolding rt_inv_def
  by (metis map_of_eq_None_iff set_map)+

lemma get_state_Some [simp]: "map_of (r_workerStates r) n = Some s \<Longrightarrow> get_state r n = s"
  by (simp add: get_state_def)

section \<open>Frames\<close>

definition rest :: "'a runtime_scheme \<Rightarrow> 'a runtime_scheme" where
  "rest r = r\<lparr>r_workerStates := [],
     r_status := \<lparr>rs_name = '''', rs_state = StateRegistered, rs_ready = False, rs_inFlight = 0,
                  rs_workers = 0, rs_lastTransition = None\<rparr>, r_calls := []\<rparr>"

lemma rest_eqD:
  assumes "rest r' = rest r"
  shows "r_gate r' = r_gate r" "r_identity r' = r_identity r" "r_config r' = r_config r"
    "r_registrations r' = r_registrations r" "r_workerOrder r' = r_workerOrder r"
    "r_workerConfigs r' = r_workerConfigs r" "r_commands r' = r_commands r"
    "r_dispatchSeq r' = r_dispatchSeq r" "r_admissionClosed r' = r_admissionClosed r"
    "r_now r' = r_now r" "runtime.more r' = runtime.more r"
  using assms by (cases r; cases r'; simp add: rest_def)+

lemma rest_simps [simp]:
  "rest (observe c r) = rest r"
  "rest (set_worker n s r) = rest r"
  "rest (recomputeStatusLocked r) = rest r"
  "rest (r\<lparr>r_status := x\<rparr>) = rest r"
  by (simp_all add: rest_def observe_def set_worker_def recomputeStatusLocked_def Let_def)

definition affects :: "string \<Rightarrow> 'a runtime_scheme \<Rightarrow> 'a runtime_scheme \<Rightarrow> bool" where
  "affects n r r' \<longleftrightarrow>
     rest r' = rest r
     \<and> (\<forall>m. m \<noteq> n \<longrightarrow> map_of (r_workerStates r') m = map_of (r_workerStates r) m)
     \<and> (\<exists>cs. r_calls r' = r_calls r @ cs)"

lemma affects_refl [simp]: "affects n r r"
  by (simp add: affects_def)

lemma affects_trans: "affects n r r' \<Longrightarrow> affects n r' r'' \<Longrightarrow> affects n r r''"
  by (auto simp: affects_def)

lemma set_worker_frame [simp]:
  "r_workerStates (set_worker n s r) = gm_set n s (r_workerStates r)"
  "r_calls (set_worker n s r) = r_calls r"
  "r_status (set_worker n s r) = r_status r"
  "r_config (set_worker n s r) = r_config r"
  "r_identity (set_worker n s r) = r_identity r"
  "get_config (set_worker n s r) = get_config r"
  by (simp_all add: set_worker_def get_config_def fun_eq_iff)

lemma affects_set [simp]: "affects n r (set_worker n s r)"
  by (simp add: affects_def)

lemma affects_step [simp]:
  "affects n r r' \<Longrightarrow> affects n r (observe c r')"
  "affects n r r' \<Longrightarrow> affects n r (recomputeStatusLocked r')"
  "affects n r r' \<Longrightarrow> affects n r (r'\<lparr>r_status := x\<rparr>)"
  by (auto simp: affects_def)

text \<open>The observation functions only append calls.\<close>

lemmas observing_defs = observeTransition_def observeReadinessChange_def
  observeRuntimeChanges_def observeFailure_def observeWorkerTransition_def
  observeWorkerReadiness_def observeWorkerStateChange_def Let_def

lemma observing_affects [simp]:
  "affects n r r' \<Longrightarrow> affects n r (observeTransition w a b t r')"
  "affects n r r' \<Longrightarrow> affects n r (observeReadinessChange w p q t r')"
  "affects n r r' \<Longrightarrow> affects n r (observeRuntimeChanges s1 s2 r')"
  "affects n r r' \<Longrightarrow> affects n r (observeFailure w c e pn t d k r')"
  "affects n r r' \<Longrightarrow> affects n r (observeWorkerTransition ob r')"
  "affects n r r' \<Longrightarrow> affects n r (observeWorkerReadiness ob r')"
  "affects n r r' \<Longrightarrow> affects n r (observeWorkerStateChange ob r')"
  by (simp_all add: observing_defs)

lemma observing_states [simp]:
  "r_workerStates (observeTransition w a b t r) = r_workerStates r"
  "r_workerStates (observeReadinessChange w p q t r) = r_workerStates r"
  "r_workerStates (observeRuntimeChanges s1 s2 r) = r_workerStates r"
  "r_workerStates (observeFailure w c e pn t d k r) = r_workerStates r"
  "r_workerStates (observeWorkerTransition ob r) = r_workerStates r"
  "r_workerStates (observeWorkerReadiness ob r) = r_workerStates r"
  "r_workerStates (observeWorkerStateChange ob r) = r_workerStates r"
  by (simp_all add: observing_defs)

lemma observing_status [simp]:
  "r_status (observeTransition w a b t r) = r_status r"
  "r_status (observeReadinessChange w p q t r) = r_status r"
  "r_status (observeRuntimeChanges s1 s2 r) = r_status r"
  "r_status (observeFailure w c e pn t d k r) = r_status r"
  "r_status (observeWorkerTransition ob r) = r_status r"
  "r_status (observeWorkerReadiness ob r) = r_status r"
  "r_status (observeWorkerStateChange ob r) = r_status r"
  by (simp_all add: observing_defs)

section \<open>Preservation, by kind of change\<close>

lemma derive_state_cong:
  "rs_state (r_status r') = rs_state (r_status r) \<Longrightarrow>
   deriveRuntimeLifecycleState r' f = deriveRuntimeLifecycleState r f"
  by (simp add: deriveRuntimeLifecycleState_def)

lemma derive_ready_cong:
  "r_config r' = r_config r \<Longrightarrow> deriveRuntimeReadiness r' f = deriveRuntimeReadiness r f"
  by (simp add: deriveRuntimeReadiness_def)

lemma derive_cong:
  assumes "r_workerStates r' = r_workerStates r" "r_workerConfigs r' = r_workerConfigs r"
    "r_config r' = r_config r" "rs_state (r_status r') = rs_state (r_status r)"
  shows "statusFactsLocked r' = statusFactsLocked r"
    "deriveRuntimeLifecycleState r' f = deriveRuntimeLifecycleState r f"
    "deriveRuntimeReadiness r' f = deriveRuntimeReadiness r f"
  using assms
  by (simp_all add: statusFactsLocked_def initialFacts_def get_config_def
        deriveRuntimeLifecycleState_def deriveRuntimeReadiness_def Let_def)

lemma observe_inv [simp]: "rt_inv (observe c r) = rt_inv r"
  by (simp add: rt_inv_def status_fresh_def registry_ok_def derive_cong [of "observe c r" r])

lemma observing_inv [simp]:
  "rt_inv (observeTransition w a b t r) = rt_inv r"
  "rt_inv (observeReadinessChange w p q t r) = rt_inv r"
  "rt_inv (observeRuntimeChanges s1 s2 r) = rt_inv r"
  "rt_inv (observeFailure w c e pn t d k r) = rt_inv r"
  "rt_inv (observeWorkerTransition ob r) = rt_inv r"
  "rt_inv (observeWorkerReadiness ob r) = rt_inv r"
  "rt_inv (observeWorkerStateChange ob r) = rt_inv r"
  by (simp_all add: observing_defs)

lemma derive_idem:
  "rs_state (r_status r') = deriveRuntimeLifecycleState r f \<Longrightarrow>
   deriveRuntimeLifecycleState r' f = deriveRuntimeLifecycleState r f"
  by (simp add: deriveRuntimeLifecycleState_def)

lemma recompute_fresh: "status_fresh (recomputeStatusLocked r)"
proof -
  let ?r = "recomputeStatusLocked r"
  have facts: "statusFactsLocked ?r = statusFactsLocked r"
    by (simp add: statusFactsLocked_def initialFacts_def get_config_def)
  have "deriveRuntimeReadiness ?r f = deriveRuntimeReadiness r f" for f
    by (simp add: deriveRuntimeReadiness_def)
  then show ?thesis
    by (simp add: status_fresh_def facts derive_idem)
qed

text \<open>Writing a record with the same in-flight count and recomputing the status.\<close>

lemma commit_inv:
  assumes inv: "rt_inv r" and s: "map_of (r_workerStates r) n = Some s"
    and ok: "worker_ok n s'" and same: "inFlight s' = inFlight s"
  shows "rt_inv (recomputeStatusLocked (set_worker n s' r))"
proof -
  have wf: "gm_wf (r_workerStates r)" using inv by (rule rt_inv_wf)
  have "\<forall>(m, x) \<in> set (gm_set n s' (r_workerStates r)). worker_ok m x"
    using inv ok by (auto simp: gm_set_mem [OF wf] rt_inv_def split: if_splits)
  moreover have "sum_list (map (inFlight \<circ> snd) (gm_set n s' (r_workerStates r))) =
                 sum_list (map (inFlight \<circ> snd) (r_workerStates r))"
    using gm_sum_set [OF s wf, of inFlight s'] same by simp
  moreover have "status_fresh (recomputeStatusLocked (set_worker n s' r))"
    by (rule recompute_fresh)
  ultimately show ?thesis
    using inv s by (simp add: rt_inv_def registry_ok_def set_worker_def)
qed

text \<open>Writing a record that the status facts do not see.\<close>

lemma facts_touch:
  assumes wf: "gm_wf (r_workerStates r)" and s: "map_of (r_workerStates r) n = Some s"
    and same: "lifecycle s' = lifecycle s" "ready s' = ready s"
  shows "statusFactsLocked (set_worker n s' r) = statusFactsLocked r"
proof -
  let ?g = "\<lambda>(name, s) f. addFacts (get_config r name) s f"
  have one: "addFacts c s' f = addFacts c s f" for c f
    by (rule statusFacts.equality) (simp_all add: addFacts_simps unready_def same)
  have "fold ?g (gm_set n s' ms) f = fold ?g ms f"
    if "map_of ms n = Some s" for ms f
    using that by (induction ms arbitrary: f) (auto simp: one split: if_splits)
  moreover have "length (gm_set n s' (r_workerStates r)) = length (r_workerStates r)"
    using s by (metis gm_set_keys_present length_map)
  moreover have "get_config (set_worker n s' r) = get_config r"
    by (rule set_worker_frame)
  ultimately show ?thesis
    using s by (simp add: statusFactsLocked_def initialFacts_def Let_def)
qed

lemma touch_inv:
  assumes inv: "rt_inv r" and s: "map_of (r_workerStates r) n = Some s"
    and ok: "worker_ok n s'" and same: "lifecycle s' = lifecycle s" "ready s' = ready s"
  shows "rt_inv ((set_worker n s' r)\<lparr>r_status := (r_status r)
            \<lparr>rs_inFlight := rs_inFlight (r_status r) - inFlight s + inFlight s'\<rparr>\<rparr>)" (is "rt_inv ?r")
proof -
  have wf: "gm_wf (r_workerStates r)" using inv by (rule rt_inv_wf)
  have "\<forall>(m, x) \<in> set (gm_set n s' (r_workerStates r)). worker_ok m x"
    using inv ok by (auto simp: gm_set_mem [OF wf] rt_inv_def split: if_splits)
  moreover have "sum_list (map (inFlight \<circ> snd) (gm_set n s' (r_workerStates r))) =
                 rs_inFlight (r_status r) - inFlight s + inFlight s'"
    using gm_sum_set [OF s wf, of inFlight s'] inv by (simp add: rt_inv_def)
  moreover have "status_fresh ?r"
  proof -
    have f: "statusFactsLocked ?r = statusFactsLocked r"
      using facts_touch [OF wf s same] derive_cong(1) [of ?r "set_worker n s' r"]
      by (simp add: set_worker_def)
    have "length (gm_set n s' (r_workerStates r)) = length (r_workerStates r)"
      using s by (metis gm_set_keys_present length_map)
    moreover have "deriveRuntimeLifecycleState ?r x = deriveRuntimeLifecycleState r x" for x
      by (rule derive_state_cong) simp
    moreover have "deriveRuntimeReadiness ?r x = deriveRuntimeReadiness r x" for x
      by (rule derive_ready_cong) simp
    ultimately show ?thesis
      using rt_inv_fresh [OF inv] unfolding status_fresh_def f by (simp add: set_worker_def)
  qed
  ultimately show ?thesis
    using inv s by (simp add: rt_inv_def registry_ok_def set_worker_def)
qed

lemma touch_same_inv:
  assumes "rt_inv r" and "map_of (r_workerStates r) n = Some s" and "worker_ok n s'"
    and "lifecycle s' = lifecycle s" "ready s' = ready s" "inFlight s' = inFlight s"
  shows "rt_inv (set_worker n s' r)"
  using touch_inv [OF assms(1-5)] assms(6) by (simp add: set_worker_def)

end
