(* ===== verification/Runtime_Preserve.thy ===== *)
theory Runtime_Preserve
  imports Runtime_Inv
begin

text \<open>
  Every critical section of \<open>Runtime_Steps\<close> keeps \<open>rt_inv\<close>, changes only its worker
  (\<open>affects\<close>), and moves that worker along the lifecycle automaton (\<open>worker_moves\<close>).
\<close>

definition worker_moves :: "workerState \<Rightarrow> workerState \<Rightarrow> bool" where
  "worker_moves s s' \<longleftrightarrow>
     (lifecycle s' = lifecycle s \<and> generation s' = generation s)
     \<or> (lifecycle_edge (lifecycle s) (lifecycle s')
        \<and> generation s' =
            (if lifecycle s' = StateStarting then generation s + 1 else generation s))"

lemma worker_moves_refl [simp]: "worker_moves s s"
  by (simp add: worker_moves_def)

lemma worker_moves_same:
  "lifecycle s' = lifecycle s \<Longrightarrow> generation s' = generation s \<Longrightarrow> worker_moves s s'"
  by (simp add: worker_moves_def)

lemma worker_moves_edge:
  "lifecycle_edge (lifecycle s) (lifecycle s') \<Longrightarrow> lifecycle s' \<noteq> StateStarting
   \<Longrightarrow> generation s' = generation s \<Longrightarrow> worker_moves s s'"
  by (simp add: worker_moves_def)

section \<open>Projections of a commit\<close>

lemma commit_simps [simp]:
  "snd (commitWorkerStateLocked n s s' now r) = recomputeStatusLocked (set_worker n s' r)"
  "wo_from (fst (commitWorkerStateLocked n s s' now r)) = lifecycle s"
  "wo_to (fst (commitWorkerStateLocked n s s' now r)) = lifecycle s'"
  "wo_worker (fst (commitWorkerStateLocked n s s' now r)) = n"
  "wo_at (fst (commitWorkerStateLocked n s s' now r)) = now"
  "wo_beforeReady (fst (commitWorkerStateLocked n s s' now r)) = ready s"
  "wo_afterReady (fst (commitWorkerStateLocked n s s' now r)) = ready s'"
  "wo_before (fst (commitWorkerStateLocked n s s' now r)) = r_status r"
  "wo_after (fst (commitWorkerStateLocked n s s' now r)) =
     r_status (recomputeStatusLocked (set_worker n s' r))"
  by (simp_all add: commitWorkerStateLocked_def Let_def)

lemma moved_to_simps [simp]:
  "lifecycle (moved_to l t s) = l"
  "generation (moved_to l t s) = generation s"
  "inFlight (moved_to l t s) = inFlight s"
  "qualifiedName (moved_to l t s) = qualifiedName s"
  "localName (moved_to l t s) = localName s"
  "lastFailure (moved_to l t s) = lastFailure s"
  "lastCommandFailure (moved_to l t s) = lastCommandFailure s"
  "ready (moved_to l t s) = ready s"
  "acceptingWork (moved_to l t s) = acceptingWork s"
  "readySetDuringStart (moved_to l t s) = readySetDuringStart s"
  "acceptingWorkSetDuringStart (moved_to l t s) = acceptingWorkSetDuringStart s"
  "failureReportedDuringStart (moved_to l t s) = failureReportedDuringStart s"
  "lastTransition (moved_to l t s) =
     Some \<lparr>lt_from = lifecycle s, lt_to = l, lt_at = t\<rparr>"
  by (simp_all add: moved_to_def)

lemma failed_state_simps [simp]:
  "lifecycle (failed_state f t s) = StateFailed"
  "generation (failed_state f t s) = generation s"
  "inFlight (failed_state f t s) = inFlight s"
  "qualifiedName (failed_state f t s) = qualifiedName s"
  "ready (failed_state f t s) = False"
  "acceptingWork (failed_state f t s) = False"
  "readySetDuringStart (failed_state f t s) = False"
  "acceptingWorkSetDuringStart (failed_state f t s) = False"
  "failureReportedDuringStart (failed_state f t s) = False"
  "lastFailure (failed_state f t s) = Some (failure_info f t)"
  "lastTransition (failed_state f t s) =
     Some \<lparr>lt_from = lifecycle s, lt_to = StateFailed, lt_at = t\<rparr>"
  by (simp_all add: failed_state_def)

lemma worker_ok_facts:
  assumes "worker_ok n s"
  shows "qualifiedName s = n"
    and "ready s \<or> acceptingWork s \<Longrightarrow> lifecycle s \<in> {StateStarting, StateRunning}"
    and "readySetDuringStart s \<or> acceptingWorkSetDuringStart s \<or> failureReportedDuringStart s
         \<Longrightarrow> lifecycle s = StateStarting"
    and "failureReportedDuringStart s \<or> lifecycle s = StateFailed \<Longrightarrow> lastFailure s \<noteq> None"
    and "0 \<le> inFlight s"
    and "transition_ok (lastTransition s) (lifecycle s)"
  using assms by (auto simp: worker_ok_def)

lemma failed_state_ok:
  assumes "worker_ok n s" and "lifecycle s \<in> {StateStarting, StateRunning, StateDraining, StateStopping}"
  shows "worker_ok n (failed_state f t s)"
  using assms(2) by (auto simp: worker_ok_def worker_ok_facts [OF assms(1)])

section \<open>Start, stop and drain\<close>

lemma get_state_frame [simp]:
  "get_state (set_worker n s r) m = (if m = n then s else get_state r m)"
  "get_state (recomputeStatusLocked r) = get_state r"
  "get_state (r\<lparr>r_status := x\<rparr>) = get_state r"
  "get_state (observe c r) = get_state r"
  "get_state (observeTransition w p q t r) = get_state r"
  "get_state (observeReadinessChange w a b t r) = get_state r"
  "get_state (observeRuntimeChanges s1 s2 r) = get_state r"
  "get_state (observeFailure w c' e pn t d k r) = get_state r"
  "get_state (observeWorkerTransition ob r) = get_state r"
  "get_state (observeWorkerReadiness ob r) = get_state r"
  "get_state (observeWorkerStateChange ob r) = get_state r"
  by (simp_all add: get_state_def fun_eq_iff)

lemmas section_simps = Let_def case_prod_beta

lemma beginWorkerStart_inv:
  assumes inv: "rt_inv r"
  shows "rt_inv (snd (beginWorkerStart n r))"
proof (cases "map_of (r_workerStates r) n")
  case None
  with inv show ?thesis by (simp add: beginWorkerStart_def)
next
  case (Some s)
  note ok = worker_ok_facts [OF rt_inv_worker [OF inv Some]]
  show ?thesis
    using inv ok(2-) by (auto simp: ok(1) beginWorkerStart_def section_simps Some worker_ok_def
        intro!: commit_inv [OF inv Some])
qed

lemma beginWorkerStart_affects [simp]: "affects n r (snd (beginWorkerStart n r))"
  by (auto simp: beginWorkerStart_def section_simps split: option.split)

lemma beginWorkerStart_moves:
  "worker_moves (get_state r n) (get_state (snd (beginWorkerStart n r)) n)"
  by (auto simp: beginWorkerStart_def section_simps worker_moves_def
        split: option.split)

lemma beginWorkerStop_inv:
  assumes inv: "rt_inv r"
  shows "rt_inv (snd (beginWorkerStop n r))"
proof (cases "map_of (r_workerStates r) n")
  case None
  with inv show ?thesis by (simp add: beginWorkerStop_def)
next
  case (Some s)
  note ok = worker_ok_facts [OF rt_inv_worker [OF inv Some]]
  show ?thesis
    using inv ok(2-) by (auto simp: ok(1) beginWorkerStop_def section_simps Some worker_ok_def
        intro!: commit_inv [OF inv Some])
qed

lemma beginWorkerStop_affects [simp]: "affects n r (snd (beginWorkerStop n r))"
  by (auto simp: beginWorkerStop_def section_simps split: option.split)

lemma beginWorkerStop_moves:
  "worker_moves (get_state r n) (get_state (snd (beginWorkerStop n r)) n)"
  by (auto simp: beginWorkerStop_def section_simps worker_moves_def
        split: option.split)

lemma beginWorkerDrain_inv:
  assumes inv: "rt_inv r"
  shows "rt_inv (snd (beginWorkerDrain n r))"
proof (cases "map_of (r_workerStates r) n")
  case None
  with inv show ?thesis by (simp add: beginWorkerDrain_def)
next
  case (Some s)
  note ok = worker_ok_facts [OF rt_inv_worker [OF inv Some]]
  show ?thesis
    using inv ok(2-) by (auto simp: ok(1) beginWorkerDrain_def section_simps Some worker_ok_def
        intro!: commit_inv [OF inv Some])
qed

lemma beginWorkerDrain_affects [simp]: "affects n r (snd (beginWorkerDrain n r))"
  by (auto simp: beginWorkerDrain_def section_simps split: option.split)

lemma beginWorkerDrain_moves:
  "worker_moves (get_state r n) (get_state (snd (beginWorkerDrain n r)) n)"
  by (auto simp: beginWorkerDrain_def section_simps worker_moves_def
        split: option.split)

section \<open>Signals from worker code\<close>

lemma setWorkerReady_inv:
  assumes inv: "rt_inv r"
  shows "rt_inv (snd (setWorkerReady n g b r))"
proof (cases "map_of (r_workerStates r) n")
  case None
  with inv show ?thesis by (simp add: setWorkerReady_def Let_def)
next
  case (Some s)
  note ok = worker_ok_facts [OF rt_inv_worker [OF inv Some]]
  show ?thesis
    using inv ok(2-) by (auto simp: ok(1) setWorkerReady_def section_simps Some worker_ok_def
        mutation_states positive_signal_states intro!: commit_inv [OF inv Some])
qed

lemma setWorkerReady_affects [simp]: "affects n r (snd (setWorkerReady n g b r))"
  by (auto simp: setWorkerReady_def section_simps split: option.split)

lemma setWorkerReady_moves:
  "worker_moves (get_state r n) (get_state (snd (setWorkerReady n g b r)) n)"
  by (simp add: setWorkerReady_def section_simps worker_moves_same split: option.split)

lemma setWorkerAcceptingWork_inv:
  assumes inv: "rt_inv r"
  shows "rt_inv (snd (setWorkerAcceptingWork n g b r))"
proof (cases "map_of (r_workerStates r) n")
  case None
  with inv show ?thesis by (simp add: setWorkerAcceptingWork_def Let_def)
next
  case (Some s)
  note ok = worker_ok_facts [OF rt_inv_worker [OF inv Some]]
  show ?thesis
    using inv ok(2-) by (auto simp: ok(1) setWorkerAcceptingWork_def section_simps Some worker_ok_def
        mutation_states positive_signal_states intro!: commit_inv [OF inv Some])
qed

lemma setWorkerAcceptingWork_affects [simp]: "affects n r (snd (setWorkerAcceptingWork n g b r))"
  by (auto simp: setWorkerAcceptingWork_def section_simps split: option.split)

lemma setWorkerAcceptingWork_moves:
  "worker_moves (get_state r n) (get_state (snd (setWorkerAcceptingWork n g b r)) n)"
  by (simp add: setWorkerAcceptingWork_def section_simps worker_moves_same split: option.split)

lemma reportWorkerFailure_inv:
  assumes inv: "rt_inv r"
  shows "rt_inv (snd (reportWorkerFailure n g e r))"
proof (cases "map_of (r_workerStates r) n")
  case None
  with inv show ?thesis by (simp add: reportWorkerFailure_def Let_def)
next
  case (Some s)
  note ok = worker_ok_facts [OF rt_inv_worker [OF inv Some]]
  show ?thesis
    using inv ok(2-) by (auto simp: ok(1) reportWorkerFailure_def section_simps Some worker_ok_def
        mutation_states positive_signal_states intro!: commit_inv [OF inv Some])
qed

lemma reportWorkerFailure_affects [simp]: "affects n r (snd (reportWorkerFailure n g e r))"
  by (auto simp: reportWorkerFailure_def section_simps split: option.split)

lemma reportWorkerFailure_moves:
  "worker_moves (get_state r n) (get_state (snd (reportWorkerFailure n g e r)) n)"
  by (auto simp: reportWorkerFailure_def section_simps
        intro: worker_moves_same worker_moves_edge split: option.split)

section \<open>Completing an operation\<close>

lemma worker_present:
  "lifecycle (get_state r n) \<noteq> StateRegistered \<Longrightarrow> \<exists>s. map_of (r_workerStates r) n = Some s"
  by (cases "map_of (r_workerStates r) n") (simp_all add: get_state_def zero_workerState_def)

lemma completeWorkerStart_inv:
  assumes inv: "rt_inv r"
  shows "rt_inv (snd (completeWorkerStart n g a b r))"
proof (cases "lifecycle (get_state r n) = StateStarting")
  case False
  with inv show ?thesis by (simp add: completeWorkerStart_def Let_def)
next
  case True
  then obtain s where Some: "map_of (r_workerStates r) n = Some s"
    using worker_present [of r n] by auto
  note ok = worker_ok_facts [OF rt_inv_worker [OF inv Some]]
  show ?thesis
    using inv ok(2-) by (auto simp: ok(1) completeWorkerStart_def section_simps Some worker_ok_def
        intro!: commit_inv [OF inv Some])
qed

lemma completeWorkerStart_affects [simp]: "affects n r (snd (completeWorkerStart n g a b r))"
  by (auto simp: completeWorkerStart_def section_simps)

lemma completeWorkerStart_moves:
  "worker_moves (get_state r n) (get_state (snd (completeWorkerStart n g a b r)) n)"
  by (auto simp: completeWorkerStart_def section_simps intro: worker_moves_same worker_moves_edge)

lemma completeWorkerTransition_inv:
  assumes inv: "rt_inv r"
  shows "rt_inv (snd (completeWorkerTransition n g StateStopping StateStopped False False r))"
proof (cases "lifecycle (get_state r n) = StateStopping")
  case False
  with inv show ?thesis by (simp add: completeWorkerTransition_def Let_def)
next
  case True
  then obtain s where Some: "map_of (r_workerStates r) n = Some s"
    using worker_present [of r n] by auto
  note ok = worker_ok_facts [OF rt_inv_worker [OF inv Some]]
  show ?thesis
    using inv ok(2-) by (auto simp: ok(1) completeWorkerTransition_def section_simps Some worker_ok_def
        intro!: commit_inv [OF inv Some])
qed

lemma completeWorkerTransition_affects [simp]:
  "affects n r (snd (completeWorkerTransition n g l l' a b r))"
  by (auto simp: completeWorkerTransition_def section_simps)

lemma completeWorkerTransition_moves:
  "worker_moves (get_state r n)
     (get_state (snd (completeWorkerTransition n g StateStopping StateStopped a b r)) n)"
  by (auto simp: completeWorkerTransition_def section_simps worker_moves_def)

section \<open>Recording failures\<close>

text \<open>The sections that fail a worker run while its start or stop is under way.\<close>

definition in_operation :: "string \<Rightarrow> 'a runtime_scheme \<Rightarrow> bool" where
  "in_operation n r \<longleftrightarrow> lifecycle (get_state r n) \<in> {StateStarting, StateStopping}"

lemma in_operation_present:
  "in_operation n r \<Longrightarrow> \<exists>s. map_of (r_workerStates r) n = Some s
     \<and> lifecycle s \<in> {StateStarting, StateStopping}"
  using worker_present [of r n] by (auto simp: in_operation_def)

lemma failWorker_inv:
  assumes inv: "rt_inv r" and op: "in_operation n r"
  shows "rt_inv (failWorker n g e p r)"
proof -
  obtain s where Some: "map_of (r_workerStates r) n = Some s"
    and l: "lifecycle s \<in> {StateStarting, StateStopping}"
    using in_operation_present [OF op] by auto
  have "worker_ok n (failed_state f t s)" for f t
    by (rule failed_state_ok [OF rt_inv_worker [OF inv Some]]) (use l in auto)
  then show ?thesis
    using inv by (auto simp: failWorker_def section_simps Some intro!: commit_inv [OF inv Some])
qed

lemma failWorker_affects [simp]: "affects n r (failWorker n g e p r)"
  by (simp add: failWorker_def section_simps)

lemma failWorker_moves:
  "in_operation n r \<Longrightarrow> worker_moves (get_state r n) (get_state (failWorker n g e p r) n)"
  by (auto simp: failWorker_def section_simps in_operation_def intro!: worker_moves_edge)

lemma failLoopCleanup_inv:
  assumes inv: "rt_inv r" and op: "in_operation n r"
  shows "rt_inv (failLoopCleanup n g e r)"
proof -
  obtain s where Some: "map_of (r_workerStates r) n = Some s"
    and l: "lifecycle s \<in> {StateStarting, StateStopping}"
    using in_operation_present [OF op] by auto
  note ok = worker_ok_facts [OF rt_inv_worker [OF inv Some]]
  show ?thesis
    using inv ok(2-) l by (auto simp: ok(1) failLoopCleanup_def section_simps Some worker_ok_def
        intro!: commit_inv [OF inv Some])
qed

lemma failLoopCleanup_affects [simp]: "affects n r (failLoopCleanup n g e r)"
  by (simp add: failLoopCleanup_def section_simps)

lemma failLoopCleanup_moves:
  "in_operation n r \<Longrightarrow> worker_moves (get_state r n) (get_state (failLoopCleanup n g e r) n)"
  by (auto simp: failLoopCleanup_def section_simps in_operation_def intro!: worker_moves_edge)

lemma observeLoopCleanupFailure_affects [simp]:
  "affects n r r' \<Longrightarrow> affects n r (observeLoopCleanupFailure w e p r')"
  by (simp add: observeLoopCleanupFailure_def)

lemma observeLoopCleanupFailure_inv [simp]:
  "rt_inv (observeLoopCleanupFailure n e p r) = rt_inv r"
  by (simp add: observeLoopCleanupFailure_def)

lemma observeLoopCleanupFailure_states [simp]:
  "r_workerStates (observeLoopCleanupFailure n e p r) = r_workerStates r"
  by (simp add: observeLoopCleanupFailure_def)

lemma recordWorkerFailureStatus_inv:
  assumes inv: "rt_inv r" and Some: "map_of (r_workerStates r) n = Some s"
  shows "rt_inv (recordWorkerFailureStatus n g e r)"
proof -
  note ok = worker_ok_facts [OF rt_inv_worker [OF inv Some]]
  show ?thesis
    using inv ok(2-) by (auto simp: ok(1) recordWorkerFailureStatus_def section_simps Some
        worker_ok_def intro!: touch_same_inv [OF inv Some])
qed

lemma recordWorkerFailureStatus_affects [simp]:
  "affects n r (recordWorkerFailureStatus n g e r)"
  by (simp add: recordWorkerFailureStatus_def section_simps)

lemma recordWorkerFailureStatus_state:
  "get_state (recordWorkerFailureStatus n g e r) n = (get_state r n)
     \<lparr>lastFailure := if generation (get_state r n) = g
        then Some (failure_info (operationalFailure (Some e) workerFailure) (r_now r))
        else lastFailure (get_state r n)\<rparr>"
  by (simp add: recordWorkerFailureStatus_def section_simps )

lemma recordWorkerFailureStatus_moves:
  "worker_moves (get_state r n) (get_state (recordWorkerFailureStatus n g e r) n)"
  by (simp add: recordWorkerFailureStatus_state worker_moves_def)

lemma recordCommandFailure_inv:
  assumes inv: "rt_inv r" and Some: "map_of (r_workerStates r) n = Some s"
  shows "rt_inv (recordCommandFailure n g c e d k r)"
proof -
  note ok = worker_ok_facts [OF rt_inv_worker [OF inv Some]]
  show ?thesis
    using inv ok(2-) by (auto simp: ok(1) recordCommandFailure_def section_simps Some
        worker_ok_def intro!: touch_same_inv [OF inv Some])
qed

lemma recordCommandFailure_affects [simp]: "affects n r (recordCommandFailure n g c e d k r)"
  by (simp add: recordCommandFailure_def section_simps)

lemma recordCommandPanic_inv:
  assumes inv: "rt_inv r" and Some: "map_of (r_workerStates r) n = Some s"
  shows "rt_inv (recordCommandPanic n g c e d k r)"
proof -
  note ok = worker_ok_facts [OF rt_inv_worker [OF inv Some]]
  show ?thesis
    using inv ok(2-) by (auto simp: ok(1) recordCommandPanic_def section_simps Some worker_ok_def
        intro!: touch_same_inv [OF inv Some] commit_inv [OF inv Some])
qed

lemma recordCommandPanic_affects [simp]: "affects n r (recordCommandPanic n g c e d k r)"
  by (simp add: recordCommandPanic_def section_simps)

lemma recordCommandPanic_moves:
  "worker_moves (get_state r n) (get_state (recordCommandPanic n g c e d k r) n)"
  by (auto simp: recordCommandPanic_def section_simps intro: worker_moves_same worker_moves_edge)

lemma recordCommandFailure_moves:
  "worker_moves (get_state r n) (get_state (recordCommandFailure n g c e d k r) n)"
  by (auto simp: recordCommandFailure_def section_simps intro: worker_moves_same worker_moves_edge)

section \<open>In-flight counters\<close>

text \<open>Only \<open>admitCommand\<close> and \<open>releaseCommandSlot\<close> change a counter.\<close>

definition count_of :: "'a runtime_scheme \<Rightarrow> string \<Rightarrow> int option" where
  "count_of r m = map_option inFlight (map_of (r_workerStates r) m)"

lemma count_of_frame [simp]:
  "count_of (recomputeStatusLocked r) m = count_of r m"
  "count_of (observe c r) m = count_of r m"
  "count_of (observeTransition w p q t r) m = count_of r m"
  "count_of (observeReadinessChange w a b t r) m = count_of r m"
  "count_of (observeRuntimeChanges s1 s2 r) m = count_of r m"
  "count_of (observeFailure w c' e pn t d k r) m = count_of r m"
  "count_of (observeWorkerTransition ob r) m = count_of r m"
  "count_of (observeWorkerReadiness ob r) m = count_of r m"
  "count_of (observeWorkerStateChange ob r) m = count_of r m"
  "count_of (observeLoopCleanupFailure n e pn r) m = count_of r m"
  by (simp_all add: count_of_def)

lemma count_of_set:
  "map_of (r_workerStates r) n = Some s \<Longrightarrow> inFlight s' = inFlight s
   \<Longrightarrow> count_of (set_worker n s' r) m = count_of r m"
  by (simp add: count_of_def)

lemma section_counts [simp]:
  "count_of (snd (beginWorkerStart n r)) m = count_of r m"
  "count_of (snd (beginWorkerStop n r)) m = count_of r m"
  "count_of (snd (beginWorkerDrain n r)) m = count_of r m"
  "count_of (snd (setWorkerReady n g b r)) m = count_of r m"
  "count_of (snd (setWorkerAcceptingWork n g b r)) m = count_of r m"
  "count_of (snd (reportWorkerFailure n g e r)) m = count_of r m"
  by (auto simp: beginWorkerStart_def beginWorkerStop_def beginWorkerDrain_def setWorkerReady_def
        setWorkerAcceptingWork_def reportWorkerFailure_def section_simps count_of_set
        split: option.split)

lemma completion_counts [simp]:
  "count_of (snd (completeWorkerStart n g a b r)) m = count_of r m"
  "count_of (snd (completeWorkerTransition n g StateStopping l a b r)) m = count_of r m"
  by (use worker_present [of r n] in \<open>auto simp: completeWorkerStart_def
        completeWorkerTransition_def section_simps count_of_set\<close>)

lemma failing_counts:
  assumes "map_of (r_workerStates r) n = Some s"
  shows "count_of (failWorker n g e p r) m = count_of r m"
    and "count_of (failLoopCleanup n g e r) m = count_of r m"
    and "count_of (recordWorkerFailureStatus n g e r) m = count_of r m"
    and "count_of (recordCommandFailure n g c e d k r) m = count_of r m"
    and "count_of (recordCommandPanic n g c e d k r) m = count_of r m"
  using assms by (simp_all add: failWorker_def failLoopCleanup_def recordWorkerFailureStatus_def
      recordCommandFailure_def recordCommandPanic_def section_simps count_of_set)

end
