(* ===== verification/Runtime_System.thy ===== *)
theory Runtime_System
  imports Runtime_Preserve
begin

text \<open>
  The runtime among its goroutines. \<open>sys\<close> adds to the runtime the command slots that are
  held (a ghost: each \<open>Dispatch\<close> call between admission and its deferred release), the
  contexts that are done, and what the program's code has printed. An \<open>action\<close> is one atomic step of code that runs without the
  lifecycle gate: signals through a \<open>WorkerRuntime\<close> handle of any generation, the sections of
  concurrent dispatches, the clock, and contexts ending. A script is a sequence of them: the
  environment of a lifecycle operation is adversarial, it may take any action at any time.
\<close>

type_synonym ctx = nat

record sys = runtime +
  s_active :: "(nat \<times> string \<times> generation) list"
  s_next :: nat
  s_done :: "(ctx \<times> sentinel) list"
  s_output :: string

definition ctx_Err :: "ctx \<Rightarrow> sys \<Rightarrow> error option" where
  "ctx_Err c s = map_option Sentinel (map_of (s_done s) c)"

datatype action =
    SignalReady string generation bool
  | SignalAccepting string generation bool
  | SignalFailure string generation "error option"
  | LoopCleanupFailed string "error option" bool
  | AdmitSlot string
  | ReleaseSlot nat
  | CommandFailed nat string error string int
  | CommandPanicked nat string error string int
  | Observed observation
  | NextDispatchID
  | Tick
  | CtxDone ctx sentinel
  | Print string

definition admit_slot :: "string \<Rightarrow> sys \<Rightarrow> (error + nat \<times> generation) \<times> sys" where
  "admit_slot n s =
     (case admitCommand n s of
        (Inl e, s') \<Rightarrow> (Inl e, s')
      | (Inr g, s') \<Rightarrow>
          (Inr (s_next s', g),
           s'\<lparr>s_active := s_active s' @ [(s_next s', n, g)], s_next := s_next s' + 1\<rparr>))"

definition release_slot :: "nat \<Rightarrow> sys \<Rightarrow> sys" where
  "release_slot t s =
     (case map_of (s_active s) t of
        None \<Rightarrow> s
      | Some (n, g) \<Rightarrow>
          (releaseCommandSlot n s)\<lparr>s_active := AList.delete t (s_active s)\<rparr>)"

definition holding :: "nat \<Rightarrow> (string \<Rightarrow> generation \<Rightarrow> sys \<Rightarrow> sys) \<Rightarrow> sys \<Rightarrow> sys" where
  "holding t f s = (case map_of (s_active s) t of None \<Rightarrow> s | Some (n, g) \<Rightarrow> f n g s)"

fun act :: "action \<Rightarrow> sys \<Rightarrow> sys" where
  "act (SignalReady n g b) s = snd (setWorkerReady n g b s)"
| "act (SignalAccepting n g b) s = snd (setWorkerAcceptingWork n g b s)"
| "act (SignalFailure n g e) s = snd (reportWorkerFailure n g e s)"
| "act (LoopCleanupFailed n e p) s = observeLoopCleanupFailure n e p s"
| "act (AdmitSlot n) s = snd (admit_slot n s)"
| "act (ReleaseSlot t) s = release_slot t s"
| "act (CommandFailed t c e d k) s =
     holding t (\<lambda>n g. recordCommandFailure n g c e d k) s"
| "act (CommandPanicked t c e d k) s =
     holding t (\<lambda>n g. recordCommandPanic n g c e d k) s"
| "act (Observed c) s = observe c s"
| "act NextDispatchID s = s\<lparr>r_dispatchSeq := r_dispatchSeq s + 1\<rparr>"
| "act Tick s = s\<lparr>r_now := r_now s + 1\<rparr>"
| "act (CtxDone c e) s =
     (if map_of (s_done s) c = None then s\<lparr>s_done := (c, e) # s_done s\<rparr> else s)"
| "act (Print t) s = s\<lparr>s_output := s_output s @ t\<rparr>"

abbreviation run :: "action list \<Rightarrow> sys \<Rightarrow> sys" where
  "run \<equiv> fold act"

section \<open>The invariant of the system\<close>

definition slots :: "string \<Rightarrow> sys \<Rightarrow> nat" where
  "slots n s = length (filter (\<lambda>(t, m, g). m = n) (s_active s))"

definition sys_inv :: "sys \<Rightarrow> bool" where
  "sys_inv s \<longleftrightarrow>
     rt_inv s
     \<and> distinct (map fst (s_active s))
     \<and> (\<forall>(t, n, g) \<in> set (s_active s). t < s_next s \<and> n \<in> set (r_workerOrder s))
     \<and> (\<forall>(n, w) \<in> set (r_workerStates s). inFlight w = int (slots n s))
     \<and> (rc_commandConcurrency (r_config s) > 0
          \<longrightarrow> rs_inFlight (r_status s) \<le> rc_commandConcurrency (r_config s))
     \<and> (\<forall>(n, w) \<in> set (r_workerStates s). wc_commandConcurrency (get_config s n) > 0
          \<longrightarrow> inFlight w \<le> wc_commandConcurrency (get_config s n))"

lemma sys_inv_rt: "sys_inv s \<Longrightarrow> rt_inv s"
  by (simp add: sys_inv_def)

text \<open>A section that keeps the in-flight counters, and the whole rest of the system.\<close>

definition same_counts :: "sys \<Rightarrow> sys \<Rightarrow> bool" where
  "same_counts s s' \<longleftrightarrow>
     rest s' = rest s
     \<and> (\<forall>n. count_of s' n = count_of s n)"

lemma rest_get_config: "rest r' = rest r \<Longrightarrow> get_config r' = get_config r"
  by (drule rest_eqD(6)) (simp add: get_config_def fun_eq_iff)

lemma rest_slots: "rest s' = rest s \<Longrightarrow> slots n s' = slots n (s :: sys)"
proof -
  assume "rest s' = rest s"
  then have "runtime.more s' = runtime.more s" by (rule rest_eqD)
  then have "s_active s' = s_active s" by (cases s; cases s') simp
  then show ?thesis by (simp add: slots_def)
qed

lemma rest_more:
  assumes "rest s' = rest s"
  shows "s_active s' = s_active s" "s_next s' = s_next s" "s_done s' = s_done s" "s_output s' = s_output s"
  using rest_eqD(11) [OF assms] by (cases s; cases s'; simp)+

lemma same_counts_status:
  assumes "same_counts s s'" "rt_inv s" "rt_inv s'"
  shows "rs_inFlight (r_status s') = rs_inFlight (r_status s)"
proof -
  have keys: "map fst (r_workerStates s') = map fst (r_workerStates s)"
    using assms rest_eqD(5) [of s' s] by (simp add: same_counts_def rt_inv_def)
  have total: "sum_list (map (inFlight \<circ> snd) m)
      = sum_list (map (\<lambda>k. case map_of m k of None \<Rightarrow> 0 | Some w \<Rightarrow> inFlight w) (map fst m))"
    if "gm_wf m" for m :: "workerState gomap"
  proof -
    have "map (inFlight \<circ> snd) m =
          map (\<lambda>k. case map_of m k of None \<Rightarrow> 0 | Some w \<Rightarrow> inFlight w) (map fst m)"
      using that by (auto simp: gm_wf_def)
    then show ?thesis by (rule arg_cong)
  qed
  have "(case map_of (r_workerStates s') k of None \<Rightarrow> 0 | Some w \<Rightarrow> inFlight w) =
        (case map_of (r_workerStates s) k of None \<Rightarrow> 0 | Some w \<Rightarrow> inFlight w)" for k
  proof -
    have "map_option inFlight (map_of (r_workerStates s') k) =
          map_option inFlight (map_of (r_workerStates s) k)"
      using assms(1) by (simp add: same_counts_def count_of_def)
    then show ?thesis by (auto split: option.splits)
  qed
  then have "sum_list (map (inFlight \<circ> snd) (r_workerStates s')) =
             sum_list (map (inFlight \<circ> snd) (r_workerStates s))"
    using assms(2,3) by (simp add: total rt_inv_wf keys del: map_map)
  then show ?thesis using assms(2,3) by (simp add: rt_inv_def)
qed

lemma same_counts_inv:
  assumes same: "same_counts s s'" and inv: "sys_inv s" and rt: "rt_inv s'"
  shows "sys_inv s'"
proof -
  have r: "rest s' = rest s" using same by (simp add: same_counts_def)
  have rt0: "rt_inv s" using inv by (rule sys_inv_rt)
  have look: "\<exists>w0. (n, w0) \<in> set (r_workerStates s) \<and> inFlight w0 = inFlight w"
    if "(n, w) \<in> set (r_workerStates s')" for n w
  proof -
    have "map_of (r_workerStates s') n = Some w"
      using that rt by (simp add: gm_mem_lookup rt_inv_wf)
    then have "map_option inFlight (map_of (r_workerStates s) n) = Some (inFlight w)"
      using same by (metis same_counts_def count_of_def option.map(2))
    then obtain w0 where "map_of (r_workerStates s) n = Some w0" "inFlight w0 = inFlight w"
      by (auto simp: map_option_eq_Some)
    then show ?thesis by (auto dest: map_of_SomeD)
  qed
  have "\<forall>(n, w) \<in> set (r_workerStates s'). inFlight w = int (slots n s')"
    using look inv by (fastforce simp: sys_inv_def rest_slots [OF r])
  moreover have "\<forall>(n, w) \<in> set (r_workerStates s'). wc_commandConcurrency (get_config s' n) > 0
          \<longrightarrow> inFlight w \<le> wc_commandConcurrency (get_config s' n)"
    using look inv by (fastforce simp: sys_inv_def rest_get_config [OF r])
  ultimately show ?thesis
    using inv rt same_counts_status [OF same rt0 rt]
    unfolding sys_inv_def rest_more [OF r] rest_eqD(3,5) [OF r] by simp
qed

lemma sys_inv_section:
  assumes "affects n s s'" and "\<And>m. count_of s' m = count_of s m" and "sys_inv s" and "rt_inv s'"
  shows "sys_inv s'"
  by (rule same_counts_inv [OF _ assms(3,4)])
     (use assms(1,2) in \<open>simp add: same_counts_def affects_def\<close>)

section \<open>Slots\<close>

lemma slots_registered:
  assumes "sys_inv s" and "map_of (s_active s) t = Some (n, g)"
  shows "\<exists>w. map_of (r_workerStates s) n = Some w"
proof -
  have "(t, n, g) \<in> set (s_active s)" using assms(2) by (rule map_of_SomeD)
  then have "n \<in> set (r_workerOrder s)" using assms(1) by (auto simp: sys_inv_def)
  then show ?thesis
    using rt_inv_registered(1) [OF sys_inv_rt [OF assms(1)], of n] by auto
qed

lemma slots_append [simp]:
  "slots m (s\<lparr>s_active := s_active s @ [(t, n, g)], s_next := k\<rparr>) =
     slots m s + (if m = n then 1 else 0)"
  by (simp add: slots_def)

lemma filter_delete_count:
  "distinct (map fst xs) \<Longrightarrow> map_of xs t = Some (n, g) \<Longrightarrow>
   length (filter (\<lambda>(t, m', g). m' = m) (AList.delete t xs)) + (if m = n then 1 else 0)
   = length (filter (\<lambda>(t, m', g). m' = m) xs)"
proof (induction xs)
  case Nil
  then show ?case by simp
next
  case (Cons x xs)
  show ?case
  proof (cases "fst x = t")
    case True
    with Cons.prems show ?thesis by (cases x) auto
  next
    case False
    with Cons show ?thesis by (cases x) auto
  qed
qed

lemma rt_inv_cong:
  assumes "r_registrations s' = r_registrations s" "r_workerOrder s' = r_workerOrder s"
    "r_workerConfigs s' = r_workerConfigs s" "r_commands s' = r_commands s"
    "r_workerStates s' = r_workerStates s" "r_status s' = r_status s"
    "r_identity s' = r_identity s" "r_config s' = r_config s"
  shows "rt_inv s' = rt_inv s"
proof -
  have c: "get_config s' = get_config s"
    using assms(3) by (simp add: get_config_def fun_eq_iff)
  have f: "statusFactsLocked s' = statusFactsLocked s"
    unfolding statusFactsLocked_def initialFacts_def c assms(5) by (rule refl)
  have l: "deriveRuntimeLifecycleState s' x = deriveRuntimeLifecycleState s x" for x
    by (rule derive_state_cong) (simp add: assms)
  have d: "deriveRuntimeReadiness s' x = deriveRuntimeReadiness s x" for x
    by (rule derive_ready_cong) (simp add: assms)
  show ?thesis
    unfolding rt_inv_def status_fresh_def registry_ok_def assms f l d by (rule refl)
qed

lemma rt_inv_more [simp]:
  "rt_inv (s\<lparr>s_active := a\<rparr>) = rt_inv s" "rt_inv (s\<lparr>s_next := k\<rparr>) = rt_inv s"
  "rt_inv (s\<lparr>s_active := a, s_next := k\<rparr>) = rt_inv s"
  "rt_inv (s\<lparr>s_done := d\<rparr>) = rt_inv s" "rt_inv (s\<lparr>s_output := t'\<rparr>) = rt_inv s"
  "rt_inv (s\<lparr>r_dispatchSeq := q\<rparr>) = rt_inv s" "rt_inv (s\<lparr>r_now := t\<rparr>) = rt_inv s"
  "rt_inv (s\<lparr>r_admissionClosed := b\<rparr>) = rt_inv s" "rt_inv (s\<lparr>r_gate := b\<rparr>) = rt_inv s"
  by (rule rt_inv_cong; simp)+

lemma sys_inv_cong:
  assumes "rt_inv s' = rt_inv s" "s_active s' = s_active s" "s_next s' = s_next s"
    "r_workerOrder s' = r_workerOrder s" "r_workerConfigs s' = r_workerConfigs s"
    "r_workerStates s' = r_workerStates s" "r_status s' = r_status s" "r_config s' = r_config s"
  shows "sys_inv s' = sys_inv s"
proof -
  have c: "get_config s' = get_config s"
    using assms(5) by (simp add: get_config_def fun_eq_iff)
  have l: "slots n s' = slots n s" for n using assms(2) by (simp add: slots_def)
  show ?thesis unfolding sys_inv_def assms c l by (rule refl)
qed

lemma sys_fields [simp]:
  "s_active (observe c s) = s_active s" "s_next (observe c s) = s_next s"
  "s_done (observe c s) = s_done s" "s_output (observe c s) = s_output s"
  "s_active (set_worker n w s) = s_active s" "s_next (set_worker n w s) = s_next s"
  "s_done (set_worker n w s) = s_done s" "s_output (set_worker n w s) = s_output s"
  by (simp_all add: observe_def set_worker_def)

lemma sys_inv_more [simp]:
  "sys_inv (s\<lparr>s_done := d\<rparr>) = sys_inv s" "sys_inv (s\<lparr>s_output := t'\<rparr>) = sys_inv s"
  "sys_inv (s\<lparr>r_dispatchSeq := q\<rparr>) = sys_inv s"
  "sys_inv (s\<lparr>r_now := t\<rparr>) = sys_inv s" "sys_inv (s\<lparr>r_admissionClosed := b\<rparr>) = sys_inv s"
  "sys_inv (s\<lparr>r_gate := b\<rparr>) = sys_inv s" "sys_inv (observe c s) = sys_inv s"
  by (rule sys_inv_cong; simp)+

lemma sys_inv_slots:
  "sys_inv s \<Longrightarrow> map_of (r_workerStates s) n = Some w \<Longrightarrow> inFlight w = int (slots n s)"
  by (auto simp: sys_inv_def dest!: map_of_SomeD)

lemma sys_inv_limit:
  "sys_inv s \<Longrightarrow> map_of (r_workerStates s) n = Some w
   \<Longrightarrow> wc_commandConcurrency (get_config s n) > 0
   \<Longrightarrow> inFlight w \<le> wc_commandConcurrency (get_config s n)"
  by (fastforce simp: sys_inv_def dest!: map_of_SomeD)

section \<open>Admission\<close>

text \<open>A command is admitted exactly when every gate is open; then both counters go up.\<close>

definition admissible :: "string \<Rightarrow> workerState \<Rightarrow> 'a runtime_scheme \<Rightarrow> bool" where
  "admissible n w r \<longleftrightarrow>
     \<not> r_admissionClosed r
     \<and> rs_state (r_status r) \<notin> {StateFailed, StateStopped, StateRegistered}
     \<and> map_of (r_workerStates r) n = Some w \<and> lifecycle w = StateRunning \<and> acceptingWork w
     \<and> (rc_commandConcurrency (r_config r) > 0
          \<longrightarrow> rs_inFlight (r_status r) < rc_commandConcurrency (r_config r))
     \<and> (wc_commandConcurrency (get_config r n) > 0
          \<longrightarrow> inFlight w < wc_commandConcurrency (get_config r n))"

definition admitted :: "string \<Rightarrow> workerState \<Rightarrow> 'a runtime_scheme \<Rightarrow> 'a runtime_scheme" where
  "admitted n w r =
     (set_worker n (w\<lparr>inFlight := inFlight w + 1\<rparr>) r)
       \<lparr>r_status := (r_status r)\<lparr>rs_inFlight := rs_inFlight (r_status r) + 1\<rparr>\<rparr>"

lemma admitCommand_admissible:
  "admissible n w r \<Longrightarrow> admitCommand n r = (Inr (generation w), admitted n w r)"
  by (auto simp: admitCommand_def admissible_def admitted_def)

lemma admitCommand_refused:
  "\<nexists>w. admissible n w r \<Longrightarrow> \<exists>e. admitCommand n r = (Inl e, r)"
  by (auto simp: admitCommand_def admissible_def split: option.split)

lemma admitCommand_cases:
  obtains (refused) e where "admitCommand n r = (Inl e, r)"
  | (admitted) w where "admissible n w r"
      "admitCommand n r = (Inr (generation w), admitted n w r)"
  using admitCommand_admissible admitCommand_refused by metis

lemma admit_slot_inv:
  assumes inv: "sys_inv s"
  shows "sys_inv (snd (admit_slot n s))"
proof (cases n s rule: admitCommand_cases)
  case (refused e)
  with inv show ?thesis by (simp add: admit_slot_def)
next
  case (admitted w)
  let ?s = "admitted n w s"
  let ?t = "?s\<lparr>s_active := s_active ?s @ [(s_next ?s, n, generation w)], s_next := s_next ?s + 1\<rparr>"
  have w: "map_of (r_workerStates s) n = Some w" using admitted(1) by (simp add: admissible_def)
  have rt: "rt_inv s" using inv by (rule sys_inv_rt)
  have wf: "gm_wf (r_workerStates s)" using rt by (rule rt_inv_wf)
  note ok = worker_ok_facts [OF rt_inv_worker [OF rt w]]
  have "worker_ok n (w\<lparr>inFlight := inFlight w + 1\<rparr>)"
    using ok(2-) by (auto simp: ok(1) worker_ok_def)
  from touch_inv [OF rt w this] have rt': "rt_inv ?s" by (simp add: admitted_def)
  have n: "n \<in> set (r_workerOrder s)" using rt_inv_registered(1) [OF rt, of n] w by simp
  have sl: "slots m ?t = slots m s + (if m = n then 1 else 0)" for m
    by (simp add: slots_def admitted_def set_worker_def)
  have cfg: "get_config ?t = get_config s"
    by (simp add: admitted_def set_worker_def get_config_def fun_eq_iff)
  have "\<forall>(m, x) \<in> set (r_workerStates ?t). inFlight x = int (slots m ?t)"
    unfolding sl using w
    by (auto simp: admitted_def gm_set_mem [OF wf] gm_mem_lookup [OF wf] sys_inv_slots [OF inv]
        split: if_splits)
  moreover have "\<forall>(m, x) \<in> set (r_workerStates ?t). wc_commandConcurrency (get_config ?t m) > 0
          \<longrightarrow> inFlight x \<le> wc_commandConcurrency (get_config ?t m)"
    unfolding cfg using inv admitted(1)
    by (auto simp: admitted_def gm_set_mem [OF wf] sys_inv_def admissible_def split: if_splits)
  moreover have "distinct (map fst (s_active ?t))"
    using inv by (auto simp: admitted_def set_worker_def sys_inv_def)
  moreover have "\<forall>(t, m, g) \<in> set (s_active ?t). t < s_next ?t \<and> m \<in> set (r_workerOrder ?t)"
    using inv n by (auto simp: admitted_def set_worker_def sys_inv_def)
  moreover have "rt_inv ?t" using rt' by simp
  moreover have "rc_commandConcurrency (r_config ?t) > 0
      \<longrightarrow> rs_inFlight (r_status ?t) \<le> rc_commandConcurrency (r_config ?t)"
    using admitted(1) by (auto simp: admitted_def admissible_def)
  ultimately have "sys_inv ?t" unfolding sys_inv_def by blast
  with admitted(2) show ?thesis by (simp add: admit_slot_def)
qed

section \<open>Release\<close>

text \<open>The deferred release always finds its slot counted: neither counter is ever at zero
  when a slot is given back, so the defensive branches of the code are not taken.\<close>

definition released :: "string \<Rightarrow> workerState \<Rightarrow> 'a runtime_scheme \<Rightarrow> 'a runtime_scheme" where
  "released n w r =
     (set_worker n (w\<lparr>inFlight := inFlight w - 1\<rparr>) r)
       \<lparr>r_status := (r_status r)\<lparr>rs_inFlight := rs_inFlight (r_status r) - 1\<rparr>\<rparr>"

lemma rt_inv_nonneg:
  "rt_inv r \<Longrightarrow> p \<in> set (r_workerStates r) \<Longrightarrow> 0 \<le> (inFlight \<circ> snd) p"
  by (cases p) (auto simp: gm_mem_lookup rt_inv_wf dest!: rt_inv_worker worker_ok_facts(5))

lemma held_slot_counted:
  assumes inv: "sys_inv s" and t: "map_of (s_active s) t = Some (n, g)"
  obtains w where "map_of (r_workerStates s) n = Some w" "0 < inFlight w"
    "0 < rs_inFlight (r_status s)" "releaseCommandSlot n s = released n w s"
proof -
  obtain w where w: "map_of (r_workerStates s) n = Some w"
    using slots_registered [OF inv t] by auto
  have rt: "rt_inv s" using inv by (rule sys_inv_rt)
  have "(t, n, g) \<in> set (s_active s)" using t by (rule map_of_SomeD)
  then have "(t, n, g) \<in> set (filter (\<lambda>(t, m, g). m = n) (s_active s))" by simp
  then have "slots n s > 0" unfolding slots_def by (rule length_pos_if_in_set)
  then have pos: "0 < inFlight w" using sys_inv_slots [OF inv w] by simp
  have "inFlight w \<le> sum_list (map (inFlight \<circ> snd) (r_workerStates s))"
  proof -
    have "(inFlight \<circ> snd) (n, w) \<le> sum_list (map (inFlight \<circ> snd) (r_workerStates s))"
      using w by (intro sum_list_mem_le) (auto dest: map_of_SomeD intro: rt_inv_nonneg [OF rt, simplified])
    then show ?thesis by simp
  qed
  then have "0 < rs_inFlight (r_status s)" using rt pos by (simp add: rt_inv_def)
  with w pos show thesis
    by (intro that [of w]) (simp_all add: releaseCommandSlot_def released_def Let_def)
qed

lemma release_slot_inv:
  assumes inv: "sys_inv s"
  shows "sys_inv (release_slot t s)"
proof (cases "map_of (s_active s) t")
  case None
  with inv show ?thesis by (simp add: release_slot_def)
next
  case (Some p)
  then obtain n g where t: "map_of (s_active s) t = Some (n, g)" by (cases p) auto
  obtain w where w: "map_of (r_workerStates s) n = Some w" and pos: "0 < inFlight w"
    and rel: "releaseCommandSlot n s = released n w s"
    using held_slot_counted [OF inv t] by metis
  let ?t = "(released n w s)\<lparr>s_active := AList.delete t (s_active s)\<rparr>"
  have rt: "rt_inv s" using inv by (rule sys_inv_rt)
  have wf: "gm_wf (r_workerStates s)" using rt by (rule rt_inv_wf)
  note ok = worker_ok_facts [OF rt_inv_worker [OF rt w]]
  have "worker_ok n (w\<lparr>inFlight := inFlight w - 1\<rparr>)"
    using ok(2-) pos by (auto simp: ok(1) worker_ok_def)
  from touch_inv [OF rt w this] have rt': "rt_inv ?t" by (simp add: released_def)
  have d: "distinct (map fst (s_active s))" using inv by (simp add: sys_inv_def)
  have sl: "int (slots m ?t) = int (slots m s) - (if m = n then 1 else 0)" for m
    using filter_delete_count [OF d t, of m] by (auto simp: slots_def)
  have cfg: "get_config ?t = get_config s"
    by (simp add: released_def set_worker_def get_config_def fun_eq_iff)
  have "\<forall>(m, x) \<in> set (r_workerStates ?t). inFlight x = int (slots m ?t)"
    unfolding sl using w
    by (auto simp: released_def gm_set_mem [OF wf] gm_mem_lookup [OF wf] sys_inv_slots [OF inv]
        split: if_splits)
  moreover have "\<forall>(m, x) \<in> set (r_workerStates ?t). wc_commandConcurrency (get_config ?t m) > 0
          \<longrightarrow> inFlight x \<le> wc_commandConcurrency (get_config ?t m)"
  proof (clarify)
    fix m x assume x: "(m, x) \<in> set (r_workerStates ?t)"
      and c: "wc_commandConcurrency (get_config ?t m) > 0"
    obtain y where "map_of (r_workerStates s) m = Some y" "inFlight x \<le> inFlight y"
      using x w by (auto simp: released_def gm_set_mem [OF wf] gm_mem_lookup [OF wf]
          split: if_splits)
    with sys_inv_limit [OF inv] c cfg
    show "inFlight x \<le> wc_commandConcurrency (get_config ?t m)" by fastforce
  qed
  moreover have "distinct (map fst (s_active ?t))" using d by (simp add: distinct_delete)
  moreover have "\<forall>(u, m, g) \<in> set (s_active ?t). u < s_next ?t \<and> m \<in> set (r_workerOrder ?t)"
    using inv by (auto simp: released_def set_worker_def sys_inv_def AList.delete_eq)
  moreover have "rc_commandConcurrency (r_config ?t) > 0
      \<longrightarrow> rs_inFlight (r_status ?t) \<le> rc_commandConcurrency (r_config ?t)"
    using inv by (auto simp: released_def sys_inv_def)
  ultimately have "sys_inv ?t" using rt' unfolding sys_inv_def by blast
  then show ?thesis by (simp add: release_slot_def t rel)
qed

section \<open>Every action keeps the invariant\<close>

lemma holding_inv:
  assumes "sys_inv s"
    and "\<And>n g w. map_of (s_active s) t = Some (n, g) \<Longrightarrow> map_of (r_workerStates s) n = Some w
          \<Longrightarrow> sys_inv (f n g s)"
  shows "sys_inv (holding t f s)"
proof (cases "map_of (s_active s) t")
  case None
  with assms(1) show ?thesis by (simp add: holding_def)
next
  case (Some p)
  obtain n g where p: "p = (n, g)" by (cases p)
  obtain w where "map_of (r_workerStates s) n = Some w"
    using slots_registered [OF assms(1)] Some p by metis
  with assms(2) Some p show ?thesis by (simp add: holding_def)
qed

lemma act_inv: "sys_inv s \<Longrightarrow> sys_inv (act a s)"
proof (cases a)
  case (SignalReady n g b)
  assume "sys_inv s"
  with SignalReady show ?thesis
    by (simp add: sys_inv_section [of n s] setWorkerReady_inv sys_inv_rt)
next
  case (SignalAccepting n g b)
  assume "sys_inv s"
  with SignalAccepting show ?thesis
    by (simp add: sys_inv_section [of n s] setWorkerAcceptingWork_inv sys_inv_rt)
next
  case (SignalFailure n g e)
  assume "sys_inv s"
  with SignalFailure show ?thesis
    by (simp add: sys_inv_section [of n s] reportWorkerFailure_inv sys_inv_rt)
next
  case (LoopCleanupFailed n e p)
  assume "sys_inv s"
  with LoopCleanupFailed show ?thesis
    by (simp add: sys_inv_section [of n s] sys_inv_rt)
next
  case (AdmitSlot n)
  assume "sys_inv s"
  with AdmitSlot show ?thesis by (simp add: admit_slot_inv)
next
  case (ReleaseSlot t)
  assume "sys_inv s"
  with ReleaseSlot show ?thesis by (simp add: release_slot_inv)
next
  case (CommandFailed t c e d k)
  assume i: "sys_inv s"
  have "sys_inv (holding t (\<lambda>n g. recordCommandFailure n g c e d k) s)"
    by (rule holding_inv [OF i], rule sys_inv_section [OF recordCommandFailure_affects _ i])
       (simp_all add: failing_counts recordCommandFailure_inv sys_inv_rt [OF i])
  with CommandFailed show ?thesis by simp
next
  case (CommandPanicked t c e d k)
  assume i: "sys_inv s"
  have "sys_inv (holding t (\<lambda>n g. recordCommandPanic n g c e d k) s)"
    by (rule holding_inv [OF i], rule sys_inv_section [OF recordCommandPanic_affects _ i])
       (simp_all add: failing_counts recordCommandPanic_inv sys_inv_rt [OF i])
  with CommandPanicked show ?thesis by simp
next
  case (CtxDone c e)
  assume "sys_inv s"
  with CtxDone show ?thesis by simp
qed simp_all

interpretation actions: invariant_step act sys_inv
  by unfold_locales (rule act_inv)

lemmas run_inv [simp] = actions.run_inv

section \<open>What an action may do to a worker\<close>

text \<open>Outside the lifecycle gate a worker keeps its generation, and its lifecycle changes only
  from running or draining to failed.\<close>

definition may_fail :: "workerState \<Rightarrow> workerState \<Rightarrow> bool" where
  "may_fail w w' \<longleftrightarrow>
     generation w' = generation w
     \<and> (lifecycle w' = lifecycle w
        \<or> lifecycle w \<in> {StateRunning, StateDraining} \<and> lifecycle w' = StateFailed)"

lemma may_fail_refl [simp]: "may_fail w w"
  by (simp add: may_fail_def)

lemma may_fail_same:
  "lifecycle w' = lifecycle w \<Longrightarrow> generation w' = generation w \<Longrightarrow> may_fail w w'"
  by (simp add: may_fail_def)

lemma may_fail_failed:
  "lifecycle w = StateRunning \<or> lifecycle w = StateDraining \<Longrightarrow> lifecycle w' = StateFailed
   \<Longrightarrow> generation w' = generation w \<Longrightarrow> may_fail w w'"
  by (auto simp: may_fail_def)

lemma may_fail_trans: "may_fail a b \<Longrightarrow> may_fail b c \<Longrightarrow> may_fail a c"
  by (auto simp: may_fail_def)

lemma affects_other: "affects n r r' \<Longrightarrow> m \<noteq> n \<Longrightarrow> get_state r' m = get_state r m"
  by (simp add: affects_def get_state_def)

lemma may_fail_section:
  assumes "affects n r r'" and "may_fail (get_state r n) (get_state r' n)"
  shows "may_fail (get_state r m) (get_state r' m)"
  using assms affects_other [OF assms(1), of m] by (cases "m = n") simp_all

lemma signals_may_fail:
  "may_fail (get_state r n) (get_state (snd (setWorkerReady n g b r)) n)"
  "may_fail (get_state r n) (get_state (snd (setWorkerAcceptingWork n g b r)) n)"
  "may_fail (get_state r n) (get_state (snd (reportWorkerFailure n g e r)) n)"
  by (auto simp: setWorkerReady_def setWorkerAcceptingWork_def reportWorkerFailure_def
        section_simps intro: may_fail_same may_fail_failed split: option.split)

lemma command_may_fail:
  "may_fail (get_state r n) (get_state (recordCommandFailure n g c e d k r) n)"
  "may_fail (get_state r n) (get_state (recordCommandPanic n g c e d k r) n)"
  by (auto simp: recordCommandFailure_def recordCommandPanic_def
        section_simps intro: may_fail_same may_fail_failed)

lemma get_state_ext [simp]:
  "get_state (s\<lparr>s_active := a\<rparr>) = get_state s" "get_state (s\<lparr>s_next := k\<rparr>) = get_state s"
  "get_state (s\<lparr>s_done := d\<rparr>) = get_state s" "get_state (s\<lparr>r_dispatchSeq := q\<rparr>) = get_state s"
  "get_state (s\<lparr>r_now := t\<rparr>) = get_state s" "get_state (s\<lparr>r_admissionClosed := b\<rparr>) = get_state s"
  "get_state (s\<lparr>r_gate := b\<rparr>) = get_state s" "get_state (s\<lparr>s_output := t'\<rparr>) = get_state s"
  by (simp_all add: get_state_def fun_eq_iff)

lemma admit_state:
  "get_state (snd (admit_slot n s)) m =
     (case fst (admitCommand n s) of
        Inl e \<Rightarrow> get_state s m
      | Inr g \<Rightarrow> if m = n then (get_state s n)\<lparr>inFlight := inFlight (get_state s n) + 1\<rparr>
                else get_state s m)"
proof (cases n s rule: admitCommand_cases)
  case (refused e)
  then show ?thesis by (simp add: admit_slot_def)
next
  case (admitted w)
  then have "get_state s n = w" by (simp add: admissible_def)
  with admitted(2) show ?thesis by (simp add: admit_slot_def admitted_def)
qed

lemma release_state:
  assumes inv: "sys_inv s"
  shows "get_state (release_slot t s) m =
     (if \<exists>g. map_of (s_active s) t = Some (m, g)
      then (get_state s m)\<lparr>inFlight := max 0 (inFlight (get_state s m) - 1)\<rparr>
      else get_state s m)"
proof (cases "map_of (s_active s) t")
  case None
  then show ?thesis by (simp add: release_slot_def)
next
  case (Some p)
  then obtain n g where p: "map_of (s_active s) t = Some (n, g)" by (cases p) auto
  obtain w where "map_of (r_workerStates s) n = Some w" "0 < inFlight w"
      "releaseCommandSlot n s = released n w s"
    using held_slot_counted [OF inv p] by metis
  then show ?thesis using p by (auto simp: release_slot_def released_def)
qed

lemma act_may_fail:
  assumes inv: "sys_inv s"
  shows "may_fail (get_state s m) (get_state (act a s) m)"
proof (cases a)
  case (SignalReady n g b)
  then show ?thesis
    using may_fail_section [OF setWorkerReady_affects signals_may_fail(1)] by simp
next
  case (SignalAccepting n g b)
  then show ?thesis
    using may_fail_section [OF setWorkerAcceptingWork_affects signals_may_fail(2)] by simp
next
  case (SignalFailure n g e)
  then show ?thesis
    using may_fail_section [OF reportWorkerFailure_affects signals_may_fail(3)] by simp
next
  case (AdmitSlot n)
  then show ?thesis by (auto simp: admit_state intro!: may_fail_same split: sum.split)
next
  case (ReleaseSlot t)
  then show ?thesis by (auto simp: release_state [OF inv] intro!: may_fail_same)
next
  case (CommandFailed t c e d k)
  then show ?thesis
    by (auto simp: holding_def split: option.split
        intro: may_fail_section [OF recordCommandFailure_affects command_may_fail(1)])
next
  case (CommandPanicked t c e d k)
  then show ?thesis
    by (auto simp: holding_def split: option.split
        intro: may_fail_section [OF recordCommandPanic_affects command_may_fail(2)])
next
  case (LoopCleanupFailed n e p)
  then show ?thesis by (simp add: get_state_def)
qed (simp_all add: get_state_def)

text \<open>What no action changes.\<close>

definition frozen :: "'a runtime_scheme \<Rightarrow> _" where
  "frozen s = (r_gate s, r_identity s, r_config s, r_registrations s, r_workerOrder s,
     r_workerConfigs s, r_commands s, r_admissionClosed s)"

lemma rest_frozen: "rest r' = rest r \<Longrightarrow> frozen r' = frozen r"
proof -
  assume r: "rest r' = rest r"
  show ?thesis unfolding frozen_def rest_eqD [OF r] by (rule refl)
qed

lemma affects_frozen: "affects n r r' \<Longrightarrow> frozen r' = frozen r"
  by (rule rest_frozen) (simp add: affects_def)

lemma frozen_more [simp]:
  "frozen (s\<lparr>s_active := a\<rparr>) = frozen s" "frozen (s\<lparr>s_next := k\<rparr>) = frozen s"
  "frozen (s\<lparr>s_done := d\<rparr>) = frozen s" "frozen (s\<lparr>r_dispatchSeq := q\<rparr>) = frozen s"
  "frozen (s\<lparr>r_now := t\<rparr>) = frozen s" "frozen (s\<lparr>r_status := st\<rparr>) = frozen s"
  "frozen (s\<lparr>s_output := t'\<rparr>) = frozen s"
  "frozen (observe c s) = frozen s" "frozen (set_worker n w s) = frozen s"
  by (simp_all add: frozen_def observe_def set_worker_def)

lemma act_frozen: "frozen (act a s) = frozen s"
proof (cases a)
  case (SignalReady n g b)
  then show ?thesis by (auto intro!: affects_frozen [of n])
next
  case (SignalAccepting n g b)
  then show ?thesis by (auto intro!: affects_frozen [of n])
next
  case (SignalFailure n g e)
  then show ?thesis by (auto intro!: affects_frozen [of n])
next
  case (LoopCleanupFailed n e p)
  then show ?thesis by (auto intro!: affects_frozen [of n])
next
  case (AdmitSlot n)
  then show ?thesis
    by (cases n s rule: admitCommand_cases) (simp_all add: admit_slot_def admitted_def)
next
  case (ReleaseSlot t)
  then show ?thesis
    by (simp add: release_slot_def releaseCommandSlot_def Let_def split: option.split)
next
  case (CommandFailed t c e d k)
  then show ?thesis
    by (auto simp: holding_def intro: affects_frozen [OF recordCommandFailure_affects] split: option.split)
next
  case (CommandPanicked t c e d k)
  then show ?thesis
    by (auto simp: holding_def intro: affects_frozen [OF recordCommandPanic_affects] split: option.split)
qed simp_all

interpretation frozen: framed_step act sys_inv frozen
  by unfold_locales (simp_all add: act_inv act_frozen)

section \<open>Stability of a worker whose operation is under way\<close>

definition operating :: "string \<Rightarrow> LifecycleState \<Rightarrow> generation \<Rightarrow> 'a runtime_scheme \<Rightarrow> bool" where
  "operating n l g s \<longleftrightarrow>
     l \<in> {StateStarting, StateStopping}
     \<and> lifecycle (get_state s n) = l \<and> generation (get_state s n) = g"

interpretation stable: invariant_step act "\<lambda>s. sys_inv s \<and> operating n l g s" for n l g
  using act_may_fail by unfold_locales (fastforce simp: act_inv operating_def may_fail_def)

lemma operating_in_operation: "operating n l g s \<Longrightarrow> in_operation n s"
  by (auto simp: operating_def in_operation_def)

end
