(* ===== verification/Runtime_Lifecycle.thy ===== *)
theory Runtime_Lifecycle
  imports Runtime_System
begin

text \<open>
  The public lifecycle operations of \<open>runtime.go\<close>: \<open>Start\<close>, \<open>Stop\<close>, \<open>Drain\<close> and their
  \<open>All\<close> forms, \<open>Shutdown\<close>, \<open>WaitIdle\<close>, the retry loop, and the lifecycle gate.

  What the code does not decide is an argument: a call of \<open>Worker.Start\<close> or \<open>Worker.Stop\<close> is
  an \<open>attempt\<close>, with the actions of the whole program while it runs, its result, and the
  actions and the timer of the wait that may follow; an empty list of attempts is a call that
  has not returned. The result of an operation is an \<open>outcome\<close>: \<open>Finished\<close> with the Go error,
  \<open>Panicking\<close> (a panic leaves the function), or \<open>Blocked\<close>.
\<close>

section \<open>Outcomes and the environment\<close>

datatype op_result = Returns "error option" | Panics

datatype outcome = Finished "error option" | Panicking | Blocked

record attempt =
  at_script :: "action list"
  at_result :: op_result
  at_after :: "action list"
  at_wait :: "action list"
  at_timer :: bool

record op_env =
  oe_before :: "action list"
  oe_attempts :: "attempt list"

record poll =
  po_script :: "action list"
  po_timer :: bool

text \<open>A \<open>select\<close> on a timer and \<open>ctx.Done()\<close>: \<open>timer\<close> says which case is taken, and the second
  can be taken only if the context is done.\<close>

definition select_timer :: "ctx \<Rightarrow> action list \<Rightarrow> bool \<Rightarrow> sys \<Rightarrow> outcome \<times> sys" where
  "select_timer c script timer s =
     (let s1 = run script s
      in if timer then (Finished None, s1)
         else (case ctx_Err c s1 of Some e \<Rightarrow> (Finished (Some e), s1) | None \<Rightarrow> (Blocked, s1)))"

section \<open>The retry loop\<close>

definition waitBeforeRetry :: "ctx \<Rightarrow> duration \<Rightarrow> attempt \<Rightarrow> sys \<Rightarrow> outcome \<times> sys" where
  "waitBeforeRetry c delay a s =
     (if delay \<le> 0 then (Finished None, s) else select_timer c (at_wait a) (at_timer a) s)"

text \<open>The loop also returns the number of the last attempt it made, which the closure of
  \<open>executeCommand\<close> records.\<close>

fun retryLoop ::
  "ctx \<Rightarrow> policy \<Rightarrow> (attempt \<Rightarrow> int \<Rightarrow> sys \<Rightarrow> op_result \<times> sys) \<Rightarrow> (error \<Rightarrow> int \<Rightarrow> sys \<Rightarrow> sys)
   \<Rightarrow> int \<Rightarrow> attempt list \<Rightarrow> sys \<Rightarrow> outcome \<times> int \<times> sys" where
  "retryLoop c policy operation onFailure attempt [] s = (Blocked, attempt - 1, s)"
| "retryLoop c policy operation onFailure attempt (a # as) s =
     (case operation a attempt s of
        (Panics, s1) \<Rightarrow> (Panicking, attempt, s1)
      | (Returns None, s1) \<Rightarrow> (Finished None, attempt, s1)
      | (Returns (Some err), s1) \<Rightarrow>
          (let s2 = run (at_after a) (onFailure err attempt s1)
           in case ctx_Err c s2 of
                Some ctxErr \<Rightarrow> (Finished (Some ctxErr), attempt, s2)
              | None \<Rightarrow>
                  (let (delay, ok) = policy attempt err
                   in if \<not> ok then (Finished (Some err), attempt, s2)
                      else (case waitBeforeRetry c delay a s2 of
                              (Finished None, s3) \<Rightarrow>
                                retryLoop c policy operation onFailure (attempt + 1) as s3
                            | (stopped, s3) \<Rightarrow> (stopped, attempt, s3)))))"

definition runWithRetry ::
  "ctx \<Rightarrow> policy option \<Rightarrow> (attempt \<Rightarrow> int \<Rightarrow> sys \<Rightarrow> op_result \<times> sys)
   \<Rightarrow> (error \<Rightarrow> int \<Rightarrow> sys \<Rightarrow> sys) \<Rightarrow> attempt list \<Rightarrow> sys \<Rightarrow> outcome \<times> int \<times> sys" where
  "runWithRetry c policy operation onFailure as s =
     retryLoop c (case policy of None \<Rightarrow> Never | Some p \<Rightarrow> p) operation onFailure 1 as s"

section \<open>Lookups\<close>

definition resolveWorkerNameStrict :: "string \<Rightarrow> 'a runtime_scheme \<Rightarrow> error + string" where
  "resolveWorkerNameStrict name r = resolveWorkerName (r_identity r) name"

definition invalid_worker_name :: "error \<Rightarrow> error" where
  "invalid_worker_name e = Errorf ''invalid worker name: %w'' [] [e]"

definition lookupWorker ::
  "string \<Rightarrow> 'a runtime_scheme \<Rightarrow> error + string \<times> nat option \<times> workerConfig" where
  "lookupWorker name r =
     (case resolveWorkerNameStrict name r of
        Inl e \<Rightarrow> Inl (invalid_worker_name e)
      | Inr n \<Rightarrow>
          (case map_of (r_registrations r) n of
             None \<Rightarrow> Inl (worker_not_found n)
           | Some reg \<Rightarrow> Inr (n, sp_worker reg, get_config r n)))"

definition registeredWorkerLifecycles ::
  "'a runtime_scheme \<Rightarrow> (string \<times> LifecycleState) list" where
  "registeredWorkerLifecycles r =
     map (\<lambda>name. (name, lifecycle (get_state r name))) (r_workerOrder r)"

definition workerIdle :: "string \<Rightarrow> 'a runtime_scheme \<Rightarrow> error + bool" where
  "workerIdle name r =
     (case resolveWorkerNameStrict name r of
        Inl e \<Rightarrow> Inl (invalid_worker_name e)
      | Inr n \<Rightarrow>
          (case map_of (r_workerStates r) n of
             None \<Rightarrow> Inl (worker_not_found n)
           | Some s \<Rightarrow> Inr (inFlight s = 0)))"

definition runtimeIdle :: "'a runtime_scheme \<Rightarrow> bool" where
  "runtimeIdle r \<longleftrightarrow> rs_inFlight (r_status r) = 0"

section \<open>One worker\<close>

text \<open>A call of worker code: its result is the environment's.\<close>

definition call_worker :: "attempt \<Rightarrow> int \<Rightarrow> sys \<Rightarrow> op_result \<times> sys" where
  "call_worker a attempt s = (at_result a, run (at_script a) s)"

text \<open>The deferred \<open>recover\<close> of \<open>start\<close> and \<open>stop\<close>.\<close>

definition recoverLifecyclePanic ::
  "string \<Rightarrow> string \<Rightarrow> generation \<Rightarrow> workerConfig \<Rightarrow> sys \<Rightarrow> outcome \<times> sys" where
  "recoverLifecyclePanic verb n g cfg s =
     (let panicErr = newRecoveredPanicError (verb @ '' worker '' @ go_quote n);
          s1 = failWorker n g panicErr True s
      in if panicPolicy cfg = PanicPolicyCrash then (Panicking, s1)
         else (Finished (Some panicErr), s1))"

definition recordStartFailure ::
  "string \<Rightarrow> generation \<Rightarrow> error \<Rightarrow> int \<Rightarrow> sys \<Rightarrow> sys" where
  "recordStartFailure n g err attempt s =
     (if is_loop_cleanup err then s else recordWorkerFailureStatus n g err s)"

definition start :: "ctx \<Rightarrow> attempt list \<Rightarrow> string \<Rightarrow> sys \<Rightarrow> outcome \<times> sys" where
  "start c as name s =
     (case lookupWorker name s of
        Inl e \<Rightarrow> (Finished (Some e), s)
      | Inr (n, worker, cfg) \<Rightarrow>
          (case beginWorkerStart n s of
             (Inl e, s1) \<Rightarrow> (Finished (Some e), s1)
           | (Inr g, s1) \<Rightarrow>
               (case runWithRetry c (startRetryPolicy cfg) call_worker
                       (recordStartFailure n g) as s1 of
                  (Blocked, k, s2) \<Rightarrow> (Blocked, s2)
                | (Panicking, k, s2) \<Rightarrow> recoverLifecyclePanic ''starting'' n g cfg s2
                | (Finished (Some err), k, s2) \<Rightarrow>
                    (if is_loop_cleanup err
                     then (Finished (Some err), failLoopCleanup n g err s2)
                     else (Finished (Some err), failWorker n g err False s2))
                | (Finished None, k, s2) \<Rightarrow>
                    (case completeWorkerStart n g (readyOnStart cfg) (wc_acceptingWork cfg) s2 of
                       (err, s3) \<Rightarrow> (Finished err, s3)))))"

definition stop :: "attempt list \<Rightarrow> string \<Rightarrow> sys \<Rightarrow> outcome \<times> sys" where
  "stop as name s =
     (case lookupWorker name s of
        Inl e \<Rightarrow> (Finished (Some e), s)
      | Inr (n, worker, cfg) \<Rightarrow>
          (case beginWorkerStop n s of
             (Inl e, s1) \<Rightarrow> (Finished (Some e), s1)
           | (Inr g, s1) \<Rightarrow>
               (case as of
                  [] \<Rightarrow> (Blocked, s1)
                | a # _ \<Rightarrow>
                    (case call_worker a 1 s1 of
                       (Panics, s2) \<Rightarrow> recoverLifecyclePanic ''stopping'' n g cfg s2
                     | (Returns (Some err), s2) \<Rightarrow>
                         (if is_loop_cleanup err
                          then (Finished (Some err), failLoopCleanup n g err s2)
                          else (Finished (Some err),
                                failWorker n g err False
                                  (recordWorkerFailureStatus n g err s2)))
                     | (Returns None, s2) \<Rightarrow>
                         (case completeWorkerTransition n g StateStopping StateStopped
                                 False False s2 of
                            (err, s3) \<Rightarrow> (Finished err, s3))))))"

definition drain :: "string \<Rightarrow> 'a runtime_scheme \<Rightarrow> error option \<times> 'a runtime_scheme" where
  "drain name s =
     (case resolveWorkerNameStrict name s of
        Inl e \<Rightarrow> (Some (invalid_worker_name e), s)
      | Inr n \<Rightarrow> beginWorkerDrain n s)"

section \<open>All workers\<close>

fun startAllFrom ::
  "ctx \<Rightarrow> (string \<Rightarrow> op_env) \<Rightarrow> (string \<times> LifecycleState) list \<Rightarrow> sys \<Rightarrow> outcome \<times> sys" where
  "startAllFrom c env [] s = (Finished None, s)"
| "startAllFrom c env ((n, state) # ws) s =
     (let s0 = run (oe_before (env n)) s
      in if state \<in> {StateRegistered, StateStopped, StateFailed}
         then (case start c (oe_attempts (env n)) n s0 of
                 (Finished None, s1) \<Rightarrow> startAllFrom c env ws s1
               | ended \<Rightarrow> ended)
         else if state = StateRunning then startAllFrom c env ws s0
         else (Finished (Some (invalid_state_error ''start'' n state)), s0))"

definition startAll :: "ctx \<Rightarrow> (string \<Rightarrow> op_env) \<Rightarrow> sys \<Rightarrow> outcome \<times> sys" where
  "startAll c env s = startAllFrom c env (registeredWorkerLifecycles s) s"

fun drainAllFrom ::
  "(string \<Rightarrow> op_env) \<Rightarrow> (string \<times> LifecycleState) list \<Rightarrow> sys \<Rightarrow> error option \<times> sys" where
  "drainAllFrom env [] s = (None, s)"
| "drainAllFrom env ((n, state) # ws) s =
     (let s0 = run (oe_before (env n)) s
      in if state = StateRunning
         then (case drain n s0 of
                 (None, s1) \<Rightarrow> drainAllFrom env ws s1
               | (Some e, s1) \<Rightarrow> (Some e, s1))
         else if state \<in> {StateDraining, StateRegistered, StateStopped, StateFailed}
         then drainAllFrom env ws s0
         else (Some (invalid_state_error ''drain'' n state), s0))"

definition drainAll :: "(string \<Rightarrow> op_env) \<Rightarrow> sys \<Rightarrow> outcome \<times> sys" where
  "drainAll env s =
     (case drainAllFrom env (registeredWorkerLifecycles s) s of (e, s1) \<Rightarrow> (Finished e, s1))"

fun drainEach ::
  "(string \<Rightarrow> op_env) \<Rightarrow> (string \<times> LifecycleState) list \<Rightarrow> error list \<Rightarrow> sys
   \<Rightarrow> error list \<times> sys" where
  "drainEach env [] errs s = (errs, s)"
| "drainEach env ((n, state) # ws) errs s =
     (let s0 = run (oe_before (env n)) s
      in if state = StateRunning
         then (case drain n s0 of
                 (None, s1) \<Rightarrow> drainEach env ws errs s1
               | (Some e, s1) \<Rightarrow> drainEach env ws (errs @ [e]) s1)
         else if state \<in> {StateDraining, StateRegistered, StateStopped, StateFailed}
         then drainEach env ws errs s0
         else drainEach env ws (errs @ [invalid_state_error ''drain'' n state]) s0)"

definition drainAllBestEffort :: "(string \<Rightarrow> op_env) \<Rightarrow> sys \<Rightarrow> error option \<times> sys" where
  "drainAllBestEffort env s =
     (case drainEach env (registeredWorkerLifecycles s) [] s of
        (errs, s1) \<Rightarrow> (errors_join (map Some errs), s1))"

fun stopEach ::
  "(string \<Rightarrow> op_env) \<Rightarrow> (string \<times> LifecycleState) list \<Rightarrow> error list \<Rightarrow> sys
   \<Rightarrow> outcome \<times> sys" where
  "stopEach env [] errs s = (Finished (errors_join (map Some errs)), s)"
| "stopEach env ((n, state) # ws) errs s =
     (let s0 = run (oe_before (env n)) s
      in if state \<in> {StateRunning, StateDraining, StateFailed}
         then (case stop (oe_attempts (env n)) n s0 of
                 (Finished None, s1) \<Rightarrow> stopEach env ws errs s1
               | (Finished (Some e), s1) \<Rightarrow> stopEach env ws (errs @ [e]) s1
               | ended \<Rightarrow> ended)
         else if state \<in> {StateRegistered, StateStopped, StateStopping}
         then stopEach env ws errs s0
         else stopEach env ws (errs @ [invalid_state_error ''stop'' n state]) s0)"

definition stopAll :: "(string \<Rightarrow> op_env) \<Rightarrow> sys \<Rightarrow> outcome \<times> sys" where
  "stopAll env s = stopEach env (rev (registeredWorkerLifecycles s)) [] s"

section \<open>Waiting\<close>

definition waitForIdlePoll :: "ctx \<Rightarrow> poll \<Rightarrow> sys \<Rightarrow> outcome \<times> sys" where
  "waitForIdlePoll c p s = select_timer c (po_script p) (po_timer p) s"

fun WaitAllIdle :: "ctx \<Rightarrow> poll list \<Rightarrow> sys \<Rightarrow> outcome \<times> sys" where
  "WaitAllIdle c [] s = ((if runtimeIdle s then Finished None else Blocked), s)"
| "WaitAllIdle c (p # ps) s =
     (if runtimeIdle s then (Finished None, s)
      else (case waitForIdlePoll c p s of
              (Finished None, s1) \<Rightarrow> WaitAllIdle c ps s1
            | ended \<Rightarrow> ended))"

fun waitWorkerIdle :: "ctx \<Rightarrow> string \<Rightarrow> poll list \<Rightarrow> sys \<Rightarrow> outcome \<times> sys" where
  "waitWorkerIdle c n [] s =
     ((case workerIdle n s of
         Inl e \<Rightarrow> Finished (Some e)
       | Inr idle \<Rightarrow> if idle then Finished None else Blocked), s)"
| "waitWorkerIdle c n (p # ps) s =
     (case workerIdle n s of
        Inl e \<Rightarrow> (Finished (Some e), s)
      | Inr idle \<Rightarrow>
          if idle then (Finished None, s)
          else (case waitForIdlePoll c p s of
                  (Finished None, s1) \<Rightarrow> waitWorkerIdle c n ps s1
                | ended \<Rightarrow> ended))"

definition WaitIdle :: "ctx \<Rightarrow> string \<Rightarrow> poll list \<Rightarrow> sys \<Rightarrow> outcome \<times> sys" where
  "WaitIdle c name ps s =
     (case resolveWorkerNameStrict name s of
        Inl e \<Rightarrow> (Finished (Some (invalid_worker_name e)), s)
      | Inr n \<Rightarrow> waitWorkerIdle c n ps s)"

section \<open>Shutdown\<close>

record shutdown_env =
  sh_drain :: "string \<Rightarrow> op_env"
  sh_afterDrain :: "action list"
  sh_polls :: "poll list"
  sh_afterWait :: "action list"
  sh_stop :: "string \<Rightarrow> op_env"

definition append_err :: "error option \<Rightarrow> error list \<Rightarrow> error list" where
  "append_err e errs = (case e of None \<Rightarrow> errs | Some x \<Rightarrow> errs @ [x])"

definition shutdown :: "ctx \<Rightarrow> shutdown_env \<Rightarrow> sys \<Rightarrow> outcome \<times> sys" where
  "shutdown c env s =
     (let (drained, s1) = drainAllBestEffort (sh_drain env) s;
          errs1 = append_err drained [];
          s2 = run (sh_afterDrain env) s1
      in case ctx_Err c s2 of
        Some e \<Rightarrow> (Finished (errors_join (map Some (errs1 @ [e]))), s2)
      | None \<Rightarrow>
     (case WaitAllIdle c (sh_polls env) s2 of
        (Finished waited, s3) \<Rightarrow>
          (let errs2 = append_err waited errs1;
               s4 = run (sh_afterWait env) s3
           in case ctx_Err c s4 of
             Some e \<Rightarrow> (Finished (errors_join (map Some (errs2 @ [e]))), s4)
           | None \<Rightarrow>
          (case stopAll (sh_stop env) s4 of
             (Finished stopped, s5) \<Rightarrow>
               (Finished (errors_join (map Some (append_err stopped errs2))), s5)
           | ended \<Rightarrow> ended))
      | ended \<Rightarrow> ended))"

section \<open>The lifecycle gate\<close>

datatype acquired = Acquired | AcquireFailed error | AcquireBlocked

text \<open>While it waits, other code acts (\<open>pre\<close>). If the context is done when the token arrives,
  both cases of the \<open>select\<close> end in its error, and a token taken is put back.\<close>

definition acquireLifecycle :: "ctx \<Rightarrow> action list \<Rightarrow> sys \<Rightarrow> acquired \<times> sys" where
  "acquireLifecycle c pre s =
     (case ctx_Err c s of
        Some e \<Rightarrow> (AcquireFailed e, s)
      | None \<Rightarrow>
          (let s1 = run pre s
           in case ctx_Err c s1 of
                Some e \<Rightarrow> (AcquireFailed e, s1)
              | None \<Rightarrow> if r_gate s1 then (Acquired, s1\<lparr>r_gate := False\<rparr>)
                        else (AcquireBlocked, s1)))"

definition runLifecycle ::
  "ctx \<Rightarrow> action list \<Rightarrow> (sys \<Rightarrow> outcome \<times> sys) \<Rightarrow> sys \<Rightarrow> outcome \<times> sys" where
  "runLifecycle c pre operation s =
     (case acquireLifecycle c pre s of
        (AcquireFailed e, s1) \<Rightarrow> (Finished (Some e), s1)
      | (AcquireBlocked, s1) \<Rightarrow> (Blocked, s1)
      | (Acquired, s1) \<Rightarrow>
          (case operation s1 of
             (Blocked, s2) \<Rightarrow> (Blocked, s2)
           | (out, s2) \<Rightarrow> (out, s2\<lparr>r_gate := True\<rparr>)))"

definition runWithCommandAdmissionClosed ::
  "(sys \<Rightarrow> outcome \<times> sys) \<Rightarrow> sys \<Rightarrow> outcome \<times> sys" where
  "runWithCommandAdmissionClosed operation s =
     (let wasClosed = r_admissionClosed s
      in case operation (s\<lparr>r_admissionClosed := True\<rparr>) of
           (Blocked, s1) \<Rightarrow> (Blocked, s1)
         | (out, s1) \<Rightarrow> (out, s1\<lparr>r_admissionClosed := wasClosed\<rparr>))"

definition Start :: "ctx \<Rightarrow> action list \<Rightarrow> attempt list \<Rightarrow> string \<Rightarrow> sys \<Rightarrow> outcome \<times> sys" where
  "Start c pre as name = runLifecycle c pre (start c as name)"

definition Stop :: "ctx \<Rightarrow> action list \<Rightarrow> attempt list \<Rightarrow> string \<Rightarrow> sys \<Rightarrow> outcome \<times> sys" where
  "Stop c pre as name = runLifecycle c pre (stop as name)"

definition Drain :: "ctx \<Rightarrow> action list \<Rightarrow> string \<Rightarrow> sys \<Rightarrow> outcome \<times> sys" where
  "Drain c pre name =
     runLifecycle c pre (\<lambda>s. case drain name s of (e, s1) \<Rightarrow> (Finished e, s1))"

definition StartAll :: "ctx \<Rightarrow> action list \<Rightarrow> (string \<Rightarrow> op_env) \<Rightarrow> sys \<Rightarrow> outcome \<times> sys" where
  "StartAll c pre env = runLifecycle c pre (startAll c env)"

definition DrainAll :: "ctx \<Rightarrow> action list \<Rightarrow> (string \<Rightarrow> op_env) \<Rightarrow> sys \<Rightarrow> outcome \<times> sys" where
  "DrainAll c pre env = runLifecycle c pre (drainAll env)"

definition DrainAllBestEffort ::
  "ctx \<Rightarrow> action list \<Rightarrow> (string \<Rightarrow> op_env) \<Rightarrow> sys \<Rightarrow> outcome \<times> sys" where
  "DrainAllBestEffort c pre env =
     runLifecycle c pre (\<lambda>s. case drainAllBestEffort env s of (e, s1) \<Rightarrow> (Finished e, s1))"

definition StopAll :: "ctx \<Rightarrow> action list \<Rightarrow> (string \<Rightarrow> op_env) \<Rightarrow> sys \<Rightarrow> outcome \<times> sys" where
  "StopAll c pre env = runLifecycle c pre (runWithCommandAdmissionClosed (stopAll env))"

definition Shutdown :: "ctx \<Rightarrow> action list \<Rightarrow> shutdown_env \<Rightarrow> sys \<Rightarrow> outcome \<times> sys" where
  "Shutdown c pre env = runLifecycle c pre (runWithCommandAdmissionClosed (shutdown c env))"

end
