(* ===== verification/Lifecycle_Props.thy ===== *)
theory Lifecycle_Props
  imports Runtime_Lifecycle
begin

text \<open>
  What the lifecycle operations guarantee, for every environment.
\<close>

section \<open>The retry loop and its clients\<close>

text \<open>A client of the retry loop: its operation and its failure hook keep a predicate that
  the actions its environment may take (\<open>allowed\<close>) keep too. \<open>start\<close> and \<open>executeCommand\<close>
  are the two clients.\<close>

definition attempt_allowed :: "(action \<Rightarrow> bool) \<Rightarrow> attempt \<Rightarrow> bool" where
  "attempt_allowed allowed a \<longleftrightarrow>
     list_all allowed (at_script a) \<and> list_all allowed (at_after a) \<and> list_all allowed (at_wait a)"

locale retry_client =
  fixes P :: "sys \<Rightarrow> bool"
    and allowed :: "action \<Rightarrow> bool"
    and operation :: "attempt \<Rightarrow> int \<Rightarrow> sys \<Rightarrow> op_result \<times> sys"
    and onFailure :: "error \<Rightarrow> int \<Rightarrow> sys \<Rightarrow> sys"
  assumes act_keeps: "P s \<Longrightarrow> allowed x \<Longrightarrow> P (act x s)"
    and operation_keeps: "P s \<Longrightarrow> attempt_allowed allowed a \<Longrightarrow> P (snd (operation a k s))"
    and onFailure_keeps: "P s \<Longrightarrow> P (onFailure e k s)"
begin

lemma run_keeps: "P s \<Longrightarrow> list_all allowed xs \<Longrightarrow> P (run xs s)"
  by (induction xs arbitrary: s) (simp_all add: act_keeps)

lemma wait_keeps: "P s \<Longrightarrow> attempt_allowed allowed a \<Longrightarrow> P (snd (waitBeforeRetry c d a s))"
  by (auto simp: waitBeforeRetry_def select_timer_def Let_def attempt_allowed_def run_keeps
      split: option.split)

lemma loop_keeps:
  "P s \<Longrightarrow> list_all (attempt_allowed allowed) as
   \<Longrightarrow> P (snd (snd (retryLoop c p operation onFailure k as s)))"
proof (induction as arbitrary: k s)
  case Nil
  then show ?case by simp
next
  case (Cons a as)
  obtain res s1 where op: "operation a k s = (res, s1)" by (cases "operation a k s")
  have ok: "attempt_allowed allowed a" and oks: "list_all (attempt_allowed allowed) as"
    using Cons.prems(2) by simp_all
  have s1: "P s1" using operation_keeps [OF Cons.prems(1) ok, of k] op by simp
  show ?case
  proof (cases res)
    case Panics
    with op s1 show ?thesis by simp
  next
    case (Returns eo)
    show ?thesis
    proof (cases eo)
      case None
      with Returns op s1 show ?thesis by simp
    next
      case (Some err)
      let ?s2 = "run (at_after a) (onFailure err k s1)"
      have s2: "P ?s2"
        using s1 ok by (simp add: run_keeps onFailure_keeps attempt_allowed_def)
      obtain d ok where p: "p k err = (d, ok)" by (cases "p k err")
      obtain w s3 where w: "waitBeforeRetry c d a ?s2 = (w, s3)"
        by (cases "waitBeforeRetry c d a ?s2")
      have "P s3" using wait_keeps [OF s2 ok, of c d] w by simp
      with Cons.IH oks s2 show ?thesis
        by (simp add: op Returns Some p w Let_def split: option.split outcome.split)
    qed
  qed
qed

lemma runWithRetry_keeps:
  "P s \<Longrightarrow> list_all (attempt_allowed allowed) as
   \<Longrightarrow> P (snd (snd (runWithRetry c p operation onFailure as s)))"
  by (simp add: runWithRetry_def loop_keeps)

end

text \<open>Under a bounded policy the loop makes at most \<open>bound\<close> attempts, and it ends once each
  attempt returns and each delay elapses.\<close>

context bounded_policy begin

lemma loop_attempts:
  assumes "int m \<ge> bound - k + 1" and "1 \<le> m"
  shows "retryLoop c next_delay op f k as s = retryLoop c next_delay op f k (take m as) s"
  using assms
proof (induction as arbitrary: k m s)
  case Nil
  then show ?case by simp
next
  case (Cons a as)
  obtain m' where m: "m = Suc m'" using Cons.prems(2) by (cases m) auto
  have "retryLoop c next_delay op f (k + 1) as s3 =
        retryLoop c next_delay op f (k + 1) (take m' as) s3"
    if "next_delay k e = (d, True)" for d e s3
  proof (rule Cons.IH)
    have "k < bound" using granted_below [of k e] that by simp
    then show "bound - (k + 1) + 1 \<le> int m'" "1 \<le> m'" using Cons.prems(1) m by linarith+
  qed
  then show ?case
    by (auto simp: m Let_def split: prod.split op_result.split option.split outcome.split)
qed

lemma loop_returns:
  assumes "int (length as) \<ge> bound - k + 1" and "as \<noteq> []"
    and "\<And>a. a \<in> set as \<Longrightarrow> at_timer a"
  shows "fst (retryLoop c next_delay op f k as s) \<noteq> Blocked"
  using assms
proof (induction as arbitrary: k s)
  case Nil
  then show ?case by simp
next
  case (Cons a as)
  have next_ok: "fst (retryLoop c next_delay op f (k + 1) as s3) \<noteq> Blocked"
    if "next_delay k e = (d, True)" for d e s3
  proof (rule Cons.IH)
    have "k < bound" using granted_below [of k e] that by simp
    moreover have "bound - k \<le> int (length as)" using Cons.prems(1) by simp
    ultimately have "0 < int (length as)" by linarith
    then show "as \<noteq> []" by auto
    show "bound - (k + 1) + 1 \<le> int (length as)" using Cons.prems(1) by simp
  qed (use Cons.prems(3) in simp)
  have "at_timer a" using Cons.prems(3) by simp
  then have w: "waitBeforeRetry c d a s2 = (Finished None, if d \<le> 0 then s2 else run (at_wait a) s2)"
    for d s2 by (simp add: waitBeforeRetry_def select_timer_def Let_def)
  show ?case
    by (auto simp: w Let_def dest: next_ok split: prod.split op_result.split option.split)
qed

end

section \<open>An operation on one worker, step by step\<close>

text \<open>What an operation on worker \<open>n\<close> that began in \<open>s0\<close> has done by the time it is in \<open>s\<close>:
  the invariant holds, registrations, configuration and gates are as before, every other
  worker did nothing but possibly fail, and no command was admitted behind a closed gate.\<close>

definition no_admission :: "sys \<Rightarrow> sys \<Rightarrow> bool" where
  "no_admission s0 s \<longleftrightarrow>
     s_next s = s_next s0 \<and> set (s_active s) \<subseteq> set (s_active s0)"

lemma no_admission_refl [simp]: "no_admission s s"
  by (simp add: no_admission_def)

lemma no_admission_trans: "no_admission a b \<Longrightarrow> no_admission b c \<Longrightarrow> no_admission a c"
  by (auto simp: no_admission_def)

lemma rest_no_admission: "rest s' = rest s \<Longrightarrow> no_admission s s'"
  unfolding no_admission_def using rest_more [of s' s] by simp

lemma affects_no_admission: "affects n s s' \<Longrightarrow> no_admission s s'"
  by (simp add: affects_def rest_no_admission)

definition op_frame :: "string \<Rightarrow> sys \<Rightarrow> sys \<Rightarrow> bool" where
  "op_frame n s0 s \<longleftrightarrow>
     sys_inv s \<and> frozen s = frozen s0
     \<and> (\<forall>m. m \<noteq> n \<longrightarrow> may_fail (get_state s0 m) (get_state s m))
     \<and> (r_admissionClosed s0 \<longrightarrow> no_admission s0 s)"

definition under_way :: "string \<Rightarrow> LifecycleState \<Rightarrow> generation \<Rightarrow> sys \<Rightarrow> sys \<Rightarrow> bool" where
  "under_way n l g s0 s \<longleftrightarrow> op_frame n s0 s \<and> operating n l g s"

lemma op_frame_refl: "sys_inv s \<Longrightarrow> op_frame n s s"
  by (simp add: op_frame_def)

lemma frozen_closed: "frozen s = frozen s0 \<Longrightarrow> r_admissionClosed s = r_admissionClosed s0"
  by (simp add: frozen_def)

lemma op_frame_trans: "op_frame n s0 s \<Longrightarrow> op_frame n s s' \<Longrightarrow> op_frame n s0 s'"
  unfolding op_frame_def by (auto dest: frozen_closed intro: may_fail_trans no_admission_trans)

lemma section_frame:
  assumes "affects n s s'" and "\<And>m. count_of s' m = count_of s m" and "sys_inv s" and "rt_inv s'"
  shows "op_frame n s s'"
proof -
  have "no_admission s s'" using assms(1) by (rule affects_no_admission)
  moreover have "sys_inv s'" by (rule sys_inv_section [OF assms])
  ultimately show ?thesis
    using affects_frozen [OF assms(1)] affects_other [OF assms(1)] by (simp add: op_frame_def)
qed

lemma closed_no_admission:
  "r_admissionClosed s \<Longrightarrow> no_admission s (act a s)"
proof (cases a)
  case (AdmitSlot n)
  assume "r_admissionClosed s"
  with AdmitSlot show ?thesis by (simp add: admit_slot_def admitCommand_def)
next
  case (ReleaseSlot t)
  then show ?thesis
    by (auto simp: no_admission_def release_slot_def releaseCommandSlot_def Let_def AList.delete_eq
        split: option.split)
next
  case (CommandFailed t c e d k)
  then show ?thesis
    by (auto simp: holding_def intro: affects_no_admission [OF recordCommandFailure_affects]
        split: option.split)
next
  case (CommandPanicked t c e d k)
  then show ?thesis
    by (auto simp: holding_def intro: affects_no_admission [OF recordCommandPanic_affects]
        split: option.split)
next
  case (SignalReady n g b)
  then show ?thesis by (auto intro!: affects_no_admission [of n])
next
  case (SignalAccepting n g b)
  then show ?thesis by (auto intro!: affects_no_admission [of n])
next
  case (SignalFailure n g e)
  then show ?thesis by (auto intro!: affects_no_admission [of n])
next
  case (LoopCleanupFailed n e p)
  then show ?thesis by (auto intro!: affects_no_admission [of n])
qed (simp_all add: no_admission_def)

lemma act_frame:
  assumes "op_frame n s0 s"
  shows "op_frame n s0 (act a s)"
proof -
  have inv: "sys_inv s" using assms by (simp add: op_frame_def)
  have c: "r_admissionClosed s0 \<Longrightarrow> no_admission s (act a s)"
    using assms by (intro closed_no_admission) (auto simp: op_frame_def dest: frozen_closed)
  show ?thesis
    using assms c act_may_fail [OF inv, of _ a]
    by (auto simp: op_frame_def act_inv act_frozen intro: may_fail_trans no_admission_trans)
qed

interpretation frame: invariant_step act "op_frame n s0" for n s0
  by unfold_locales (rule act_frame)

interpretation under_way: invariant_step act "under_way n l g s0" for n l g s0
proof unfold_locales
  fix s a
  assume u: "under_way n l g s0 s"
  then have "sys_inv s" by (simp add: under_way_def op_frame_def)
  with u show "under_way n l g s0 (act a s)"
    using stable.step_inv [of s n l g a] by (simp add: under_way_def act_frame)
qed

lemma any_allowed [simp]:
  "attempt_allowed (\<lambda>x. True) a" "list_all (attempt_allowed (\<lambda>x. True)) as"
  by (simp_all add: attempt_allowed_def list_all_iff)

lemma under_way_present: "under_way n l g s0 s \<Longrightarrow> \<exists>w. map_of (r_workerStates s) n = Some w"
  unfolding under_way_def using in_operation_present operating_in_operation by blast

lemma under_way_inv: "under_way n l g s0 s \<Longrightarrow> sys_inv s \<and> rt_inv s"
  by (simp add: under_way_def op_frame_def sys_inv_rt)

lemma recordStatus_under_way:
  assumes u: "under_way n l g s0 s"
  shows "under_way n l g s0 (recordWorkerFailureStatus n g e s)"
proof -
  obtain w where w: "map_of (r_workerStates s) n = Some w" using under_way_present [OF u] ..
  have inv: "sys_inv s" "rt_inv s" using under_way_inv [OF u] by simp_all
  have "op_frame n s (recordWorkerFailureStatus n g e s)"
    by (rule section_frame [OF recordWorkerFailureStatus_affects _ inv(1)])
       (simp_all add: failing_counts [OF w] recordWorkerFailureStatus_inv [OF inv(2) w])
  with u have "op_frame n s0 (recordWorkerFailureStatus n g e s)"
    unfolding under_way_def using op_frame_trans by blast
  moreover have "operating n l g (recordWorkerFailureStatus n g e s)"
    using u by (simp add: under_way_def operating_def recordWorkerFailureStatus_state)
  ultimately show ?thesis by (simp add: under_way_def)
qed

interpretation start_client: retry_client "under_way n StateStarting g s0" "\<lambda>x. True" call_worker
  "recordStartFailure n g" for n g s0
proof unfold_locales
  fix s x
  assume "under_way n StateStarting g s0 s"
  then show "under_way n StateStarting g s0 (act x s)" by (rule under_way.step_inv)
next
  fix s a k
  assume "under_way n StateStarting g s0 s"
  then show "under_way n StateStarting g s0 (snd (call_worker a k s))"
    by (simp add: call_worker_def under_way.run_inv)
next
  fix s e k
  assume "under_way n StateStarting g s0 s"
  then show "under_way n StateStarting g s0 (recordStartFailure n g e k s)"
    by (simp add: recordStartFailure_def recordStatus_under_way)
qed

section \<open>How an operation ends\<close>

definition failed_at :: "string \<Rightarrow> generation \<Rightarrow> 'a runtime_scheme \<Rightarrow> bool" where
  "failed_at n g s \<longleftrightarrow>
     (let w = get_state s n
      in lifecycle w = StateFailed \<and> generation w = g \<and> \<not> ready w \<and> \<not> acceptingWork w
         \<and> lastFailure w \<noteq> None)"

definition running_at :: "string \<Rightarrow> generation \<Rightarrow> 'a runtime_scheme \<Rightarrow> bool" where
  "running_at n g s \<longleftrightarrow>
     (let w = get_state s n
      in lifecycle w = StateRunning \<and> generation w = g \<and> lastFailure w = None)"

definition stopped_at :: "string \<Rightarrow> generation \<Rightarrow> 'a runtime_scheme \<Rightarrow> bool" where
  "stopped_at n g s \<longleftrightarrow>
     (let w = get_state s n
      in lifecycle w = StateStopped \<and> generation w = g \<and> \<not> ready w \<and> \<not> acceptingWork w)"

lemma failWorker_ends:
  assumes u: "under_way n l g s0 s"
  shows "op_frame n s0 (failWorker n g e p s) \<and> failed_at n g (failWorker n g e p s)"
proof -
  obtain w where w: "map_of (r_workerStates s) n = Some w" using under_way_present [OF u] ..
  have inv: "sys_inv s" "rt_inv s" using under_way_inv [OF u] by simp_all
  have op: "in_operation n s" using u operating_in_operation by (auto simp: under_way_def)
  have "op_frame n s (failWorker n g e p s)"
    by (rule section_frame [OF failWorker_affects _ inv(1)])
       (simp_all add: failing_counts [OF w] failWorker_inv [OF inv(2) op])
  moreover have "op_frame n s0 s" "generation (get_state s n) = g"
    using u by (simp_all add: under_way_def operating_def)
  moreover from this have "failed_at n g (failWorker n g e p s)"
    by (simp add: failed_at_def failWorker_def section_simps)
  ultimately show ?thesis using op_frame_trans by blast
qed

lemma failLoopCleanup_ends:
  assumes u: "under_way n l g s0 s"
  shows "op_frame n s0 (failLoopCleanup n g e s) \<and> failed_at n g (failLoopCleanup n g e s)"
proof -
  obtain w where w: "map_of (r_workerStates s) n = Some w" using under_way_present [OF u] ..
  have inv: "sys_inv s" "rt_inv s" using under_way_inv [OF u] by simp_all
  have op: "in_operation n s" using u operating_in_operation by (auto simp: under_way_def)
  have "op_frame n s (failLoopCleanup n g e s)"
    by (rule section_frame [OF failLoopCleanup_affects _ inv(1)])
       (simp_all add: failing_counts [OF w] failLoopCleanup_inv [OF inv(2) op])
  moreover have "op_frame n s0 s" "generation (get_state s n) = g"
    using u by (simp_all add: under_way_def operating_def)
  moreover from this have "failed_at n g (failLoopCleanup n g e s)"
    by (simp add: failed_at_def failLoopCleanup_def section_simps)
  ultimately show ?thesis using op_frame_trans by blast
qed

lemma completeWorkerStart_ends:
  assumes u: "under_way n StateStarting g s0 s"
  shows "fst (completeWorkerStart n g a b s) = None
    \<and> op_frame n s0 (snd (completeWorkerStart n g a b s))
    \<and> (running_at n g (snd (completeWorkerStart n g a b s))
       \<or> failed_at n g (snd (completeWorkerStart n g a b s)))"
proof -
  have inv: "sys_inv s" "rt_inv s" using under_way_inv [OF u] by simp_all
  obtain w where w: "map_of (r_workerStates s) n = Some w" using under_way_present [OF u] ..
  have "op_frame n s (snd (completeWorkerStart n g a b s))"
    by (rule section_frame [OF completeWorkerStart_affects _ inv(1)])
       (simp_all add: completeWorkerStart_inv [OF inv(2)])
  moreover have f: "op_frame n s0 s" and "lifecycle w = StateStarting" "generation w = g"
    using u w by (simp_all add: under_way_def operating_def)
  moreover have "failureReportedDuringStart w \<Longrightarrow> lastFailure w \<noteq> None"
    using worker_ok_facts(4) [OF rt_inv_worker [OF inv(2) w]] by simp
  ultimately show ?thesis
    using op_frame_trans [OF f] w
    by (auto simp: running_at_def failed_at_def completeWorkerStart_def section_simps)
qed

lemma completeWorkerTransition_ends:
  assumes u: "under_way n StateStopping g s0 s"
  defines "res \<equiv> completeWorkerTransition n g StateStopping StateStopped False False s"
  shows "fst res = None \<and> op_frame n s0 (snd res) \<and> stopped_at n g (snd res)"
proof -
  have inv: "sys_inv s" "rt_inv s" using under_way_inv [OF u] by simp_all
  have "op_frame n s (snd res)"
    unfolding res_def
    by (rule section_frame [OF completeWorkerTransition_affects _ inv(1)])
       (simp_all add: completeWorkerTransition_inv [OF inv(2)])
  moreover have f: "op_frame n s0 s" and "lifecycle (get_state s n) = StateStopping"
      "generation (get_state s n) = g"
    using u by (simp_all add: under_way_def operating_def)
  ultimately show ?thesis
    using op_frame_trans [OF f]
    by (simp add: res_def stopped_at_def completeWorkerTransition_def section_simps)
qed

section \<open>Start and Stop\<close>

abbreviation startable :: "LifecycleState \<Rightarrow> bool" where
  "startable l \<equiv> l \<in> {StateRegistered, StateStopped, StateFailed}"

abbreviation stoppable :: "LifecycleState \<Rightarrow> bool" where
  "stoppable l \<equiv> l \<in> {StateRunning, StateDraining, StateFailed}"

lemma beginWorkerStart_begins:
  assumes inv: "sys_inv s" and w: "map_of (r_workerStates s) n = Some w"
    and l: "startable (lifecycle w)"
  obtains s1 where "beginWorkerStart n s = (Inr (generation w + 1), s1)"
    "under_way n StateStarting (generation w + 1) s s1"
proof -
  obtain res s1 where b: "beginWorkerStart n s = (res, s1)" by (cases "beginWorkerStart n s")
  have "op_frame n s (snd (beginWorkerStart n s))"
    by (rule section_frame [OF beginWorkerStart_affects _ inv])
       (simp_all add: beginWorkerStart_inv sys_inv_rt [OF inv])
  moreover have "res = Inr (generation w + 1)" "operating n StateStarting (generation w + 1) s1"
    using b w l by (auto simp: beginWorkerStart_def section_simps operating_def)
  ultimately show thesis using that [of s1] b by (simp add: under_way_def)
qed

lemma beginWorkerStop_begins:
  assumes inv: "sys_inv s" and w: "map_of (r_workerStates s) n = Some w"
    and l: "stoppable (lifecycle w)"
  obtains s1 where "beginWorkerStop n s = (Inr (generation w), s1)"
    "under_way n StateStopping (generation w) s s1"
proof -
  obtain res s1 where b: "beginWorkerStop n s = (res, s1)" by (cases "beginWorkerStop n s")
  have "op_frame n s (snd (beginWorkerStop n s))"
    by (rule section_frame [OF beginWorkerStop_affects _ inv])
       (simp_all add: beginWorkerStop_inv sys_inv_rt [OF inv])
  moreover have "res = Inr (generation w)" "operating n StateStopping (generation w) s1"
    using b w l by (auto simp: beginWorkerStop_def section_simps operating_def)
  ultimately show thesis using that [of s1] b by (simp add: under_way_def)
qed

lemma begin_refused:
  "\<not> (\<exists>w. map_of (r_workerStates s) n = Some w \<and> startable (lifecycle w))
   \<Longrightarrow> \<exists>e. beginWorkerStart n s = (Inl e, s)"
  "\<not> (\<exists>w. map_of (r_workerStates s) n = Some w \<and> stoppable (lifecycle w))
   \<Longrightarrow> \<exists>e. beginWorkerStop n s = (Inl e, s)"
  by (auto simp: beginWorkerStart_def beginWorkerStop_def split: option.split)

text \<open>What a finished operation left, by its outcome.\<close>

definition ended_start :: "string \<Rightarrow> generation \<Rightarrow> workerConfig \<Rightarrow> outcome \<Rightarrow> sys \<Rightarrow> bool" where
  "ended_start n g cfg out s \<longleftrightarrow>
     (case out of
        Finished None \<Rightarrow> running_at n g s \<or> failed_at n g s
      | Finished (Some e) \<Rightarrow> failed_at n g s
      | Panicking \<Rightarrow> failed_at n g s \<and> panicPolicy cfg = PanicPolicyCrash
      | Blocked \<Rightarrow> operating n StateStarting g s)"

definition ended_stop :: "string \<Rightarrow> generation \<Rightarrow> workerConfig \<Rightarrow> outcome \<Rightarrow> sys \<Rightarrow> bool" where
  "ended_stop n g cfg out s \<longleftrightarrow>
     (case out of
        Finished None \<Rightarrow> stopped_at n g s
      | Finished (Some e) \<Rightarrow> failed_at n g s
      | Panicking \<Rightarrow> failed_at n g s \<and> panicPolicy cfg = PanicPolicyCrash
      | Blocked \<Rightarrow> operating n StateStopping g s)"

lemma recover_ends:
  assumes "under_way n l g s0 s" and "recoverLifecyclePanic verb n g cfg s = (out, s')"
  shows "op_frame n s0 s' \<and> ended_start n g cfg out s' \<and> ended_stop n g cfg out s'
    \<and> out \<noteq> Finished None"
  using failWorker_ends [OF assms(1)] assms(2)
  by (auto simp: recoverLifecyclePanic_def Let_def ended_start_def ended_stop_def split: if_splits)

lemma start_ends:
  assumes inv: "sys_inv s" and look: "lookupWorker name s = Inr (n, wk, cfg)"
    and w: "map_of (r_workerStates s) n = Some w" and l: "startable (lifecycle w)"
    and run: "start c as name s = (out, s')"
  shows "op_frame n s s' \<and> ended_start n (generation w + 1) cfg out s'"
proof -
  let ?g = "generation w + 1"
  obtain s1 where b: "beginWorkerStart n s = (Inr ?g, s1)"
    and u1: "under_way n StateStarting ?g s s1"
    using beginWorkerStart_begins [OF inv w l] .
  obtain out2 k s2 where loop:
    "runWithRetry c (startRetryPolicy cfg) call_worker (recordStartFailure n ?g) as s1 = (out2, k, s2)"
    by (cases "runWithRetry c (startRetryPolicy cfg) call_worker (recordStartFailure n ?g) as s1")
  have u2: "under_way n StateStarting ?g s s2"
    using start_client.runWithRetry_keeps [OF u1, of as c "startRetryPolicy cfg"] loop by simp
  note step = run [unfolded start_def look, simplified, unfolded b, simplified, unfolded loop]
  show ?thesis
  proof (cases out2)
    case Blocked
    with step u2 show ?thesis by (auto simp: under_way_def ended_start_def)
  next
    case Panicking
    with step recover_ends [OF u2] show ?thesis by simp
  next
    case (Finished eo)
    show ?thesis
    proof (cases eo)
      case None
      with step Finished completeWorkerStart_ends
          [OF u2, of "readyOnStart cfg" "wc_acceptingWork cfg"] show ?thesis
        by (auto simp: ended_start_def split: prod.splits)
    next
      case (Some err)
      with step Finished failWorker_ends [OF u2] failLoopCleanup_ends [OF u2] show ?thesis
        by (auto simp: ended_start_def split: if_splits)
    qed
  qed
qed

lemma stop_ends:
  assumes inv: "sys_inv s" and look: "lookupWorker name s = Inr (n, wk, cfg)"
    and w: "map_of (r_workerStates s) n = Some w" and l: "stoppable (lifecycle w)"
    and run: "stop as name s = (out, s')"
  shows "op_frame n s s' \<and> ended_stop n (generation w) cfg out s'"
proof -
  let ?g = "generation w"
  obtain s1 where b: "beginWorkerStop n s = (Inr ?g, s1)"
    and u1: "under_way n StateStopping ?g s s1"
    using beginWorkerStop_begins [OF inv w l] .
  note step = run [unfolded stop_def look, simplified, unfolded b, simplified]
  show ?thesis
  proof (cases as)
    case Nil
    with step u1 show ?thesis by (auto simp: under_way_def ended_stop_def)
  next
    case (Cons a as')
    let ?s2 = "run (at_script a) s1"
    have u2: "under_way n StateStopping ?g s ?s2" using under_way.run_inv [OF u1] .
    note u3 = recordStatus_under_way [OF u2]
    show ?thesis
    proof (cases "at_result a")
      case Panics
      with step Cons recover_ends [OF u2] show ?thesis by (simp add: call_worker_def)
    next
      case (Returns eo)
      show ?thesis
      proof (cases eo)
        case None
        with step Cons Returns completeWorkerTransition_ends [OF u2] show ?thesis
          by (auto simp: call_worker_def ended_stop_def split: prod.splits)
      next
        case (Some err)
        with step Cons Returns failWorker_ends [OF u3] failLoopCleanup_ends [OF u2] show ?thesis
          by (auto simp: call_worker_def ended_stop_def split: if_splits)
      qed
    qed
  qed
qed

lemma start_refused:
  assumes "\<not> (\<exists>n wk cfg w. lookupWorker name s = Inr (n, wk, cfg)
             \<and> map_of (r_workerStates s) n = Some w \<and> startable (lifecycle w))"
  shows "\<exists>e. start c as name s = (Finished (Some e), s)"
proof (cases "lookupWorker name s")
  case (Inr p)
  then obtain n wk cfg where p: "lookupWorker name s = Inr (n, wk, cfg)" by (cases p) auto
  with assms begin_refused(1) [of s n] show ?thesis by (auto simp: start_def)
qed (simp add: start_def)

lemma stop_refused:
  assumes "\<not> (\<exists>n wk cfg w. lookupWorker name s = Inr (n, wk, cfg)
             \<and> map_of (r_workerStates s) n = Some w \<and> stoppable (lifecycle w))"
  shows "\<exists>e. stop as name s = (Finished (Some e), s)"
proof (cases "lookupWorker name s")
  case (Inr p)
  then obtain n wk cfg where p: "lookupWorker name s = Inr (n, wk, cfg)" by (cases p) auto
  with assms begin_refused(2) [of s n] show ?thesis by (auto simp: stop_def)
qed (simp add: stop_def)

end
