(* ===== verification/Registration.thy ===== *)
theory Registration
  imports Runtime_Preserve
begin

text \<open>
  \<open>New\<close> establishes the invariant of a runtime, \<open>Register\<close> keeps it, and a rejected
  registration changes nothing.
\<close>

lemma NewRuntime_fields:
  assumes "NewRuntime name opts = Inr r"
  shows "is_identifier name" "r_identity r = name" "r_workerStates r = []" "r_workerOrder r = []"
    "r_registrations r = []" "r_workerConfigs r = []" "r_commands r = []" "r_gate r"
    "\<not> r_admissionClosed r" "r_config r = apply_options opts defaultRuntimeConfig"
    "r_status r = \<lparr>rs_name = name, rs_state = StateRegistered, rs_ready = False,
                   rs_inFlight = 0, rs_workers = 0, rs_lastTransition = None\<rparr>"
    "runtimeConfig_validate (r_config r) = None"
  using assms
  by (auto simp: NewRuntime_def Let_def ValidateRuntimeName_def validateIdentifier_accepts
        split: option.splits)

lemma NewRuntime_inv:
  assumes "NewRuntime name opts = Inr r"
  shows "rt_inv r"
proof -
  note f = NewRuntime_fields [OF assms]
  have "status_fresh r"
    unfolding status_fresh_def derived_state_eq derived_ready_eq
    by (simp add: f split: ReadinessPolicy.split)
  then show ?thesis by (simp add: rt_inv_def registry_ok_def f)
qed

section \<open>Binding commands\<close>

text \<open>What was bound: each command validated, named once, owned by its worker.\<close>

lemma bindCommands_ok:
  assumes "bindCommands w seen cs bound = Inr out"
    and "\<forall>c \<in> set bound. cr_worker c = w \<and> ValidateCommandName (cr_name c) = None"
    and "distinct (map cr_name bound)" and "set (map cr_name bound) = set seen"
  shows "(\<forall>c \<in> set out. cr_worker c = w \<and> ValidateCommandName (cr_name c) = None)
    \<and> distinct (map cr_name out)"
  using assms
proof (induction cs arbitrary: seen bound)
  case Nil
  then show ?case by simp
next
  case (Cons c cs)
  from Cons.prems(1) obtain h where
    v: "ValidateCommandName (csp_name c) = None" and n: "csp_name c \<notin> set seen"
    and rest: "bindCommands w (csp_name c # seen) cs
      (bound @ [\<lparr>cr_worker = w, cr_name = csp_name c, cr_description = csp_description c,
                cr_payloadKind = csp_payloadKind c, cr_dangerous = csp_dangerous c,
                cr_idempotent = csp_idempotent c,
                cr_attributes = cloneCommandAttributes (csp_attributes c),
                cr_handler = h\<rparr>]) = Inr out"
    by (auto split: option.splits if_splits)
  show ?case
    by (rule Cons.IH [OF rest]) (use Cons.prems v n in auto)
qed

lemma bindWorkerCommands_ok:
  "bindWorkerCommands w cs = Inr out \<Longrightarrow>
   (\<forall>c \<in> set out. cr_worker c = w \<and> ValidateCommandName (cr_name c) = None)
   \<and> distinct (map cr_name out)"
  using bindCommands_ok [of w "[]" cs "[]" out]
  by (auto simp: bindWorkerCommands_def split: if_splits)

lemma commands_map_ok:
  assumes "\<forall>c \<in> set cs. P c"
  shows "gm_wf (commands_map cs) \<and> (\<forall>(k, c) \<in> set (commands_map cs). cr_name c = k \<and> P c)"
proof -
  have "gm_wf (fold (\<lambda>c m. gm_set (cr_name c) c m) cs m)
      \<and> (\<forall>(k, c) \<in> set (fold (\<lambda>c m. gm_set (cr_name c) c m) cs m). cr_name c = k \<and> P c)"
    if "gm_wf m" "\<forall>(k, c) \<in> set m. cr_name c = k \<and> P c" for m
    using assms that
  proof (induction cs arbitrary: m)
    case Nil
    then show ?case by simp
  next
    case (Cons c cs)
    have "\<forall>(k, c') \<in> set (gm_set (cr_name c) c m). cr_name c' = k \<and> P c'"
      using Cons.prems by (auto simp: gm_set_mem split: if_splits)
    then show ?case
      using Cons.IH [of "gm_set (cr_name c) c m"] Cons.prems by simp
  qed
  from this [of "[]"] show ?thesis by (simp add: commands_map_def gm_wf_def)
qed

section \<open>Registration\<close>

lemma Register_rejected: "Register reg opts r = (Some e, r') \<Longrightarrow> r' = r"
proof -
  have "case Register reg opts r of (x, y) \<Rightarrow> x \<noteq> None \<longrightarrow> y = r"
    by (simp only: Register_def Let_def prod.case option.distinct simp_thms
        split: option.split sum.split if_split)
  then show "Register reg opts r = (Some e, r') \<Longrightarrow> r' = r" by simp
qed

lemma gm_snoc:
  "n \<notin> set (map fst m) \<Longrightarrow> gm_set n v m = m @ [(n, v)]"
  by (rule gm_set_absent) (simp add: map_of_eq_None_iff)

lemma Register_inv:
  assumes inv: "rt_inv r" and ok: "Register reg opts r = (None, r')"
  shows "rt_inv r'"
proof -
  let ?q = "qualifyWorkerName (r_identity r) (sp_name reg)"
  let ?cfg = "apply_options opts (defaultWorker (r_config r))"
  obtain w cs where w: "sp_worker reg = Some w" and id: "is_identifier (sp_name reg)"
    and b: "bindWorkerCommands ?q (wc_commands ?cfg) = Inr cs"
    and new: "map_of (r_registrations r) ?q = None"
    and r': "r' = recomputeStatusLocked
       (r\<lparr>r_registrations := gm_set ?q reg (r_registrations r),
          r_workerOrder := r_workerOrder r @ [?q],
          r_workerConfigs := gm_set ?q ?cfg (r_workerConfigs r),
          r_commands := gm_set ?q (commands_map cs) (r_commands r),
          r_workerStates := gm_set ?q (new_workerState ?q (sp_name reg)) (r_workerStates r)\<rparr>)"
    using ok by (auto simp: Register_def Let_def validateIdentifier_accepts
        split: option.splits sum.splits if_splits)
  have fresh: "?q \<notin> set (r_workerOrder r)"
    using new rt_inv_registered(2) [OF inv, of ?q] by blast
  then have snoc: "gm_set ?q reg (r_registrations r) = r_registrations r @ [(?q, reg)]"
    "gm_set ?q ?cfg (r_workerConfigs r) = r_workerConfigs r @ [(?q, ?cfg)]"
    "gm_set ?q (commands_map cs) (r_commands r) = r_commands r @ [(?q, commands_map cs)]"
    "gm_set ?q (new_workerState ?q (sp_name reg)) (r_workerStates r) =
       r_workerStates r @ [(?q, new_workerState ?q (sp_name reg))]"
    using inv by (simp_all add: rt_inv_def gm_snoc)
  have cmds: "gm_wf (commands_map cs)
      \<and> (\<forall>(k, c) \<in> set (commands_map cs). cr_name c = k \<and> cr_worker c = ?q
           \<and> ValidateCommandName (cr_name c) = None)"
    by (rule commands_map_ok) (use bindWorkerCommands_ok [OF b] in simp)
  have new_ok: "worker_ok ?q (new_workerState ?q (sp_name reg))"
    "inFlight (new_workerState ?q (sp_name reg)) = 0"
    by (simp_all add: worker_ok_def new_workerState_def zero_workerState_def transition_ok_def)
  have reg: "registry_ok r'"
    unfolding registry_ok_def
    using inv w id cmds by (auto simp: r' snoc rt_inv_def registry_ok_def)
  have "status_fresh r'" unfolding r' by (rule recompute_fresh)
  with reg show ?thesis
    using inv fresh new_ok by (simp add: rt_inv_def r' snoc)
qed

end
