(* ===== verification/Bulk_Props.thy ===== *)
theory Bulk_Props
  imports Lifecycle_Props Registration
begin

text \<open>
  \<open>StartAll\<close>, \<open>StopAll\<close>, \<open>DrainAll\<close> and \<open>Shutdown\<close>: the order they visit the workers in, what
  they leave of each worker, and what they never do.
\<close>

section \<open>Names and snapshots\<close>

lemma registered_resolves:
  assumes inv: "rt_inv r" and n: "n \<in> set (r_workerOrder r)"
  obtains reg where "map_of (r_registrations r) n = Some reg"
    "resolveWorkerNameStrict n r = Inr n" "lookupWorker n r = Inr (n, sp_worker reg, get_config r n)"
proof -
  obtain reg where reg: "map_of (r_registrations r) n = Some reg"
    using rt_inv_registered(2) [OF inv, of n] n by auto
  then have "(n, reg) \<in> set (r_registrations r)" by (rule map_of_SomeD)
  moreover have "registry_ok r" using inv by (simp add: rt_inv_def)
  ultimately have "is_identifier (r_identity r)" "is_identifier (sp_name reg)"
    "n = qualifyWorkerName (r_identity r) (sp_name reg)"
    by (auto simp: registry_ok_def)
  then have "resolveWorkerNameStrict n r = Inr n"
    by (simp add: resolveWorkerNameStrict_def resolveWorkerName_qualified)
  with reg show thesis by (intro that [of reg]) (simp_all add: lookupWorker_def)
qed

lemma registered_lookup:
  "rt_inv r \<Longrightarrow> n \<in> set (r_workerOrder r) \<Longrightarrow> \<exists>wk. lookupWorker n r = Inr (n, wk, get_config r n)"
  by (erule (1) registered_resolves) blast

lemma lookupWorker_frozen:
  assumes "frozen s' = frozen s"
  shows "lookupWorker name s' = lookupWorker name s"
proof -
  have eqs: "r_identity s' = r_identity s" "r_registrations s' = r_registrations s"
    "r_workerConfigs s' = r_workerConfigs s"
    using assms by (simp_all add: frozen_def)
  show ?thesis
    unfolding lookupWorker_def resolveWorkerNameStrict_def get_config_def eqs by (rule refl)
qed

lemma lookupWorker_registered:
  assumes "lookupWorker name r = Inr (n, wk, cfg)"
  shows "n \<in> set (map fst (r_registrations r)) \<and> cfg = get_config r n"
  using assms by (auto simp: lookupWorker_def split: sum.splits option.splits
      dest!: map_of_SomeD intro: image_eqI [where x = "(n, _)"])

lemma state_present:
  assumes "rt_inv r" and "n \<in> set (r_workerOrder r)"
  shows "map_of (r_workerStates r) n = Some (get_state r n)"
proof -
  obtain w where "map_of (r_workerStates r) n = Some w"
    using rt_inv_registered(1) [OF assms(1), of n] assms(2) by auto
  then show ?thesis by simp
qed

text \<open>The worker map, by registration order.\<close>

lemma worker_entries:
  assumes "rt_inv r"
  shows "set (r_workerStates r) = (\<lambda>n. (n, get_state r n)) ` set (r_workerOrder r)"
proof -
  have "(n, w) \<in> set (r_workerStates r) \<longleftrightarrow> n \<in> set (r_workerOrder r) \<and> w = get_state r n" for n w
    using state_present [OF assms, of n] rt_inv_wf [OF assms] rt_inv_registered(1) [OF assms, of n]
    by (auto simp: get_state_def gm_wf_def dest: map_of_SomeD map_of_is_SomeI)
  then show ?thesis by auto
qed

text \<open>A snapshot taken at the start of a bulk operation, against the worker's state later.\<close>

definition tracks :: "LifecycleState \<Rightarrow> workerState \<Rightarrow> bool" where
  "tracks l w \<longleftrightarrow>
     lifecycle w = l \<or> l \<in> {StateRunning, StateDraining} \<and> lifecycle w = StateFailed"

lemma tracks_may_fail: "tracks l w \<Longrightarrow> may_fail w w' \<Longrightarrow> tracks l w'"
  by (auto simp: tracks_def may_fail_def)

definition snapshot_ok :: "(string \<times> LifecycleState) list \<Rightarrow> sys \<Rightarrow> bool" where
  "snapshot_ok ws s \<longleftrightarrow>
     distinct (map fst ws)
     \<and> (\<forall>(n, l) \<in> set ws. n \<in> set (r_workerOrder s) \<and> tracks l (get_state s n))"

lemma snapshot_taken:
  assumes "rt_inv s"
  shows "snapshot_ok (registeredWorkerLifecycles s) s"
    "snapshot_ok (rev (registeredWorkerLifecycles s)) s"
proof -
  have "distinct (r_workerOrder s)" using assms by (simp add: rt_inv_def)
  moreover have "map fst (registeredWorkerLifecycles s) = r_workerOrder s"
    by (simp add: registeredWorkerLifecycles_def comp_def)
  ultimately show "snapshot_ok (registeredWorkerLifecycles s) s"
    "snapshot_ok (rev (registeredWorkerLifecycles s)) s"
    by (auto simp: snapshot_ok_def registeredWorkerLifecycles_def tracks_def rev_map [symmetric])
qed

section \<open>Frames of bulk operations\<close>

definition bulk_frame :: "sys \<Rightarrow> sys \<Rightarrow> bool" where
  "bulk_frame s0 s \<longleftrightarrow>
     sys_inv s \<and> frozen s = frozen s0 \<and> (r_admissionClosed s0 \<longrightarrow> no_admission s0 s)"

lemma bulk_frame_refl: "sys_inv s \<Longrightarrow> bulk_frame s s"
  by (simp add: bulk_frame_def)

lemma bulk_frame_trans:
  assumes a: "bulk_frame s0 s" and b: "bulk_frame s s'"
  shows "bulk_frame s0 s'"
proof -
  have f: "frozen s = frozen s0" and g: "frozen s' = frozen s" and i: "sys_inv s'"
    using a b by (simp_all only: bulk_frame_def)
  have "no_admission s0 s'" if "r_admissionClosed s0"
    using a b that frozen_closed [OF f] no_admission_trans [of s0 s s']
    by (simp only: bulk_frame_def)
  with i trans [OF g f] show ?thesis unfolding bulk_frame_def by blast
qed

lemma op_bulk: "op_frame n s0 s \<Longrightarrow> bulk_frame s0 s"
  unfolding op_frame_def bulk_frame_def by blast

lemma frozen_order: "frozen s' = frozen s \<Longrightarrow> r_workerOrder s' = r_workerOrder s"
  by (simp add: frozen_def)

lemma bulk_order: "bulk_frame s0 s \<Longrightarrow> r_workerOrder s = r_workerOrder s0"
  unfolding bulk_frame_def by (elim conjE) (rule frozen_order)

text \<open>Actions alone: every worker may at most fail.\<close>

definition idle_frame :: "sys \<Rightarrow> sys \<Rightarrow> bool" where
  "idle_frame s0 s \<longleftrightarrow>
     bulk_frame s0 s \<and> (\<forall>m. may_fail (get_state s0 m) (get_state s m))"

interpretation idle_frame: invariant_step act "idle_frame s0" for s0
proof unfold_locales
  fix s a
  assume h: "idle_frame s0 s"
  then have "op_frame n s0 s" for n by (simp add: idle_frame_def bulk_frame_def op_frame_def)
  then have "op_frame n s0 (act a s)" for n by (rule act_frame)
  moreover have "sys_inv s" using h by (simp add: idle_frame_def bulk_frame_def)
  ultimately show "idle_frame s0 (act a s)"
    using h act_may_fail by (auto simp: idle_frame_def op_frame_def bulk_frame_def
        intro: may_fail_trans)
qed

lemma idle_frame_refl: "sys_inv s \<Longrightarrow> idle_frame s s"
  by (simp add: idle_frame_def bulk_frame_refl)

lemma idle_frame_trans: "idle_frame a b \<Longrightarrow> idle_frame b c \<Longrightarrow> idle_frame a c"
  unfolding idle_frame_def by (auto intro: bulk_frame_trans may_fail_trans)

lemma run_idle: "sys_inv s \<Longrightarrow> idle_frame s (run as s)"
  by (intro idle_frame.run_inv idle_frame_refl)

lemma op_idle_op: "idle_frame s0 s \<Longrightarrow> op_frame n s s' \<Longrightarrow>
    bulk_frame s0 s' \<and> (\<forall>m. m \<noteq> n \<longrightarrow> may_fail (get_state s0 m) (get_state s' m))"
  using bulk_frame_trans [of s0 s s'] op_bulk [of n s s']
  by (auto simp: idle_frame_def op_frame_def intro: may_fail_trans)

lemma snapshot_later:
  assumes "snapshot_ok ws s" and "r_workerOrder s' = r_workerOrder s"
    and "\<And>n l. (n, l) \<in> set ws \<Longrightarrow> may_fail (get_state s n) (get_state s' n)"
  shows "snapshot_ok ws s'"
  using assms tracks_may_fail by (fastforce simp: snapshot_ok_def)

lemma errors_join_None: "errors_join (map Some es) = None \<longleftrightarrow> es = []"
  by (cases es) (simp_all add: errors_join_def)

section \<open>One worker within a bulk operation\<close>

lemma stop_registered:
  assumes inv: "sys_inv s" and n: "n \<in> set (r_workerOrder s)"
    and l: "stoppable (lifecycle (get_state s n))" and run: "stop as n s = (out, s')"
  shows "op_frame n s s' \<and> ended_stop n (generation (get_state s n)) (get_config s n) out s'"
proof -
  have rt: "rt_inv s" using inv by (rule sys_inv_rt)
  obtain wk where look: "lookupWorker n s = Inr (n, wk, get_config s n)"
    using registered_lookup [OF rt n] ..
  show ?thesis by (rule stop_ends [OF inv look state_present [OF rt n] l run])
qed

lemma start_registered:
  assumes inv: "sys_inv s" and n: "n \<in> set (r_workerOrder s)"
    and l: "startable (lifecycle (get_state s n))" and run: "start c as n s = (out, s')"
  shows "op_frame n s s'
    \<and> ended_start n (generation (get_state s n) + 1) (get_config s n) out s'"
proof -
  have rt: "rt_inv s" using inv by (rule sys_inv_rt)
  obtain wk where look: "lookupWorker n s = Inr (n, wk, get_config s n)"
    using registered_lookup [OF rt n] ..
  show ?thesis by (rule start_ends [OF inv look state_present [OF rt n] l run])
qed

section \<open>StopAll\<close>

text \<open>What becomes of a worker that was in state \<open>l\<close> when \<open>StopAll\<close> began.\<close>

definition stop_result :: "LifecycleState \<Rightarrow> workerState \<Rightarrow> bool" where
  "stop_result l w \<longleftrightarrow>
     (if stoppable l then lifecycle w \<in> {StateStopped, StateFailed} else lifecycle w = l)"

definition stop_clean :: "LifecycleState \<Rightarrow> workerState \<Rightarrow> bool" where
  "stop_clean l w \<longleftrightarrow>
     (if stoppable l then lifecycle w = StateStopped else lifecycle w = l \<and> l \<noteq> StateStarting)"

lemma stop_result_later: "stop_result l w \<Longrightarrow> may_fail w w' \<Longrightarrow> stop_result l w'"
  by (auto simp: stop_result_def may_fail_def split: if_splits)

lemma stop_clean_later: "stop_result l w \<Longrightarrow> may_fail w w' \<Longrightarrow> stop_clean l w' = stop_clean l w"
  by (auto simp: stop_result_def stop_clean_def may_fail_def split: if_splits)

text \<open>Where a pass over the workers has got to when it breaks off at one of them, \<open>n\<close>, left in
  one of the states \<open>L\<close>: the workers before it satisfy \<open>R\<close>, those after it are untouched.\<close>

definition interrupted ::
  "(LifecycleState \<Rightarrow> workerState \<Rightarrow> bool) \<Rightarrow> LifecycleState set
   \<Rightarrow> (string \<times> LifecycleState) list \<Rightarrow> sys \<Rightarrow> sys \<Rightarrow> bool" where
  "interrupted R L ws s s' \<longleftrightarrow>
     (\<exists>xs n l ys. ws = xs @ (n, l) # ys
        \<and> lifecycle (get_state s' n) \<in> L
        \<and> (\<forall>(m, k) \<in> set xs. R k (get_state s' m))
        \<and> (\<forall>(m, k) \<in> set ys. may_fail (get_state s m) (get_state s' m)))"

definition stopped_each ::
  "(string \<times> LifecycleState) list \<Rightarrow> error list \<Rightarrow> outcome \<Rightarrow> sys \<Rightarrow> sys \<Rightarrow> bool" where
  "stopped_each ws errs out s s' \<longleftrightarrow>
     bulk_frame s s'
     \<and> (\<forall>m. m \<notin> fst ` set ws \<longrightarrow> may_fail (get_state s m) (get_state s' m))
     \<and> (case out of
          Finished eo \<Rightarrow>
            (\<exists>es. eo = errors_join (map Some (errs @ es))
               \<and> (\<forall>(n, l) \<in> set ws. stop_result l (get_state s' n))
               \<and> (es = [] \<longleftrightarrow> (\<forall>(n, l) \<in> set ws. stop_clean l (get_state s' n))))
        | _ \<Rightarrow> interrupted stop_result {StateStopping, StateFailed} ws s s')"

lemma interrupted_here:
  assumes "lifecycle (get_state s' n) \<in> L"
    and "\<forall>m. m \<noteq> n \<longrightarrow> may_fail (get_state s m) (get_state s' m)" and "n \<notin> fst ` set ws"
  shows "interrupted R L ((n, l) # ws) s s'"
proof -
  have "may_fail (get_state s m) (get_state s' m)" if "(m, k) \<in> set ws" for m k
  proof -
    have "m \<in> fst ` set ws" using that by (auto intro: image_eqI [of _ _ "(m, k)"])
    with assms(3) have "m \<noteq> n" by blast
    with assms(2) show ?thesis by simp
  qed
  with assms(1) show ?thesis
    unfolding interrupted_def
    by (intro exI [of _ "[]"] exI [of _ n] exI [of _ l] exI [of _ ws]) auto
qed

lemma interrupted_Cons:
  assumes i: "interrupted R L ws s1 s'" and step: "\<forall>m. m \<noteq> n \<longrightarrow> may_fail (get_state s m) (get_state s1 m)"
    and n: "n \<notin> fst ` set ws" and res: "R l (get_state s' n)"
  shows "interrupted R L ((n, l) # ws) s s'"
proof -
  obtain xs m k ys where w: "ws = xs @ (m, k) # ys"
      and l: "lifecycle (get_state s' m) \<in> L"
      and x: "\<forall>(m, k) \<in> set xs. R k (get_state s' m)"
      and y: "\<forall>(m, k) \<in> set ys. may_fail (get_state s1 m) (get_state s' m)"
    using i by (auto simp: interrupted_def)
  have "may_fail (get_state s u) (get_state s' u)" if "(u, k') \<in> set ys" for u k'
  proof -
    have "u \<in> fst ` set ws" using that w by (auto intro: image_eqI [of _ _ "(u, k')"])
    with n have "u \<noteq> n" by blast
    with step have "may_fail (get_state s u) (get_state s1 u)" by simp
    moreover have "may_fail (get_state s1 u) (get_state s' u)" using that y by auto
    ultimately show ?thesis by (rule may_fail_trans)
  qed
  with w l x res show ?thesis
    unfolding interrupted_def
    by (intro exI [of _ "(n, l) # xs"] exI [of _ m] exI [of _ k] exI [of _ ys]) auto
qed

text \<open>One worker dealt with, then the rest.\<close>

lemma stopped_each_Cons:
  assumes step: "bulk_frame s s1" "\<forall>m. m \<noteq> n \<longrightarrow> may_fail (get_state s m) (get_state s1 m)"
    and res: "stop_result l (get_state s1 n)"
    and es1: "es1 = [] \<longleftrightarrow> stop_clean l (get_state s1 n)"
    and rest: "stopped_each ws (errs @ es1) out s1 s'"
    and n: "n \<notin> fst ` set ws"
  shows "stopped_each ((n, l) # ws) errs out s s'"
proof -
  have f: "bulk_frame s s'"
    using step(1) rest by (auto simp: stopped_each_def intro: bulk_frame_trans)
  have later: "may_fail (get_state s1 n) (get_state s' n)"
    using rest n by (simp add: stopped_each_def)
  have res': "stop_result l (get_state s' n)" using stop_result_later [OF res later] .
  have clean: "stop_clean l (get_state s' n) = (es1 = [])"
    using es1 stop_clean_later [OF res later] by simp
  have others: "may_fail (get_state s m) (get_state s' m)" if "m \<notin> fst ` set ((n, l) # ws)" for m
    using that step(2) rest by (auto simp: stopped_each_def intro: may_fail_trans)
  show ?thesis
  proof (cases out)
    case (Finished eo)
    then obtain es2 where e: "eo = errors_join (map Some (errs @ es1 @ es2))"
      "\<forall>(n, l) \<in> set ws. stop_result l (get_state s' n)"
      "es2 = [] \<longleftrightarrow> (\<forall>(n, l) \<in> set ws. stop_clean l (get_state s' n))"
      using rest by (auto simp: stopped_each_def)
    with f others res' clean Finished show ?thesis
      by (auto simp: stopped_each_def intro!: exI [of _ "es1 @ es2"])
  next
    case Panicking
    with rest have "interrupted stop_result {StateStopping, StateFailed} ((n, l) # ws) s s'"
      by (intro interrupted_Cons [where R = stop_result, OF _ step(2) n res']) (simp add: stopped_each_def)
    with f others Panicking show ?thesis by (simp add: stopped_each_def)
  next
    case Blocked
    with rest have "interrupted stop_result {StateStopping, StateFailed} ((n, l) # ws) s s'"
      by (intro interrupted_Cons [where R = stop_result, OF _ step(2) n res']) (simp add: stopped_each_def)
    with f others Blocked show ?thesis by (simp add: stopped_each_def)
  qed
qed

lemma stopEach_spec:
  assumes "sys_inv s" and "snapshot_ok ws s" and "stopEach env ws errs s = (out, s')"
  shows "stopped_each ws errs out s s'"
  using assms
proof (induction ws arbitrary: errs s)
  case Nil
  then show ?case
    by (auto simp: stopped_each_def bulk_frame_refl intro: exI [of _ "[]"])
next
  case (Cons p ws)
  obtain n l where p: "p = (n, l)" by (cases p)
  let ?s0 = "run (oe_before (env n)) s"
  have idle: "idle_frame s ?s0" using Cons.prems(1) by (rule run_idle)
  have inv0: "sys_inv ?s0" using idle by (simp add: idle_frame_def bulk_frame_def)
  have ord: "r_workerOrder ?s0 = r_workerOrder s"
    using idle by (simp add: idle_frame_def bulk_order)
  have snap0: "snapshot_ok (p # ws) ?s0"
    using idle by (intro snapshot_later [OF Cons.prems(2) ord]) (simp add: idle_frame_def)
  have n: "n \<notin> fst ` set ws" and reg: "n \<in> set (r_workerOrder ?s0)"
    and tr: "tracks l (get_state ?s0 n)" and snapws: "snapshot_ok ws ?s0"
    using snap0 by (auto simp: snapshot_ok_def p)
  have keep: "bulk_frame s ?s0" "\<forall>m. m \<noteq> n \<longrightarrow> may_fail (get_state s m) (get_state ?s0 m)"
    using idle by (simp_all add: idle_frame_def)
  show ?case
  proof (cases "stoppable l")
    case True
    obtain out1 s1 where st: "stop (oe_attempts (env n)) n ?s0 = (out1, s1)"
      by (cases "stop (oe_attempts (env n)) n ?s0")
    have "stoppable (lifecycle (get_state ?s0 n))" using tr True by (auto simp: tracks_def)
    note sr = stop_registered [OF inv0 reg this st]
    have f1: "bulk_frame s s1" "\<forall>m. m \<noteq> n \<longrightarrow> may_fail (get_state s m) (get_state s1 m)"
      using op_idle_op [OF idle] sr by blast+
    have inv1: "sys_inv s1" using f1(1) by (simp add: bulk_frame_def)
    have snap1: "snapshot_ok ws s1"
    proof (rule snapshot_later [OF snapws])
      show "r_workerOrder s1 = r_workerOrder ?s0" using sr by (intro bulk_order op_bulk [of n]) simp
      show "may_fail (get_state ?s0 m) (get_state s1 m)" if "(m, k) \<in> set ws" for m k
      proof -
        have "m \<noteq> n" using that n by force
        with sr show ?thesis by (simp add: op_frame_def)
      qed
    qed
    have res: "stop_result l (get_state s1 n)" "out1 = Finished None \<longleftrightarrow> stop_clean l (get_state s1 n)"
      if "out1 = Finished eo" for eo
      using sr that True by (cases eo; simp add: ended_stop_def stop_result_def stop_clean_def
          stopped_at_def failed_at_def Let_def)+
    show ?thesis
    proof (cases out1)
      case (Finished eo)
      have rest: "stopped_each ws (errs @ (case eo of None \<Rightarrow> [] | Some e \<Rightarrow> [e])) out s1 s'"
        using Cons.prems(3) True st Finished
        by (intro Cons.IH [OF inv1 snap1]) (auto simp: p Let_def split: option.splits)
      show ?thesis
        unfolding p
        by (rule stopped_each_Cons [OF f1 res(1) [OF Finished] _ rest n])
           (use res(2) [OF Finished] Finished in \<open>auto split: option.splits\<close>)
    next
      case Panicking
      with Cons.prems(3) True st have "out = Panicking" "s' = s1"
        by (auto simp: p Let_def)
      moreover have "interrupted stop_result {StateStopping, StateFailed} (p # ws) s s1"
        unfolding p by (rule interrupted_here)
          (use sr Panicking f1(2) n in \<open>auto simp: ended_stop_def failed_at_def Let_def\<close>)
      ultimately show ?thesis using f1 by (simp add: stopped_each_def p)
    next
      case Blocked
      with Cons.prems(3) True st have "out = Blocked" "s' = s1"
        by (auto simp: p Let_def)
      moreover have "interrupted stop_result {StateStopping, StateFailed} (p # ws) s s1"
        unfolding p by (rule interrupted_here)
          (use sr Blocked f1(2) n in \<open>auto simp: ended_stop_def operating_def\<close>)
      ultimately show ?thesis using f1 by (simp add: stopped_each_def p)
    qed
  next
    case False
    let ?es = "if l = StateStarting then [invalid_state_error ''stop'' n l] else []"
    have res: "stop_result l (get_state ?s0 n)" "(?es = []) = stop_clean l (get_state ?s0 n)"
      using tr False by (auto simp: stop_result_def stop_clean_def tracks_def)
    have rest: "stopped_each ws (errs @ ?es) out ?s0 s'"
      using Cons.prems(3) False
      by (intro Cons.IH [OF inv0 snapws]) (cases l; simp add: p Let_def)
    show ?thesis unfolding p by (rule stopped_each_Cons [OF keep res rest n])
  qed
qed

section \<open>StartAll\<close>

text \<open>\<open>StartAll\<close> leaves a worker running, or failed by a report of its own.\<close>

definition start_result :: "LifecycleState \<Rightarrow> workerState \<Rightarrow> bool" where
  "start_result l w \<longleftrightarrow> lifecycle w \<in> {StateRunning, StateFailed}"

lemma start_result_later: "start_result l w \<Longrightarrow> may_fail w w' \<Longrightarrow> start_result l w'"
  by (auto simp: start_result_def may_fail_def)

definition started_each ::
  "(string \<times> LifecycleState) list \<Rightarrow> outcome \<Rightarrow> sys \<Rightarrow> sys \<Rightarrow> bool" where
  "started_each ws out s s' \<longleftrightarrow>
     bulk_frame s s'
     \<and> (\<forall>m. m \<notin> fst ` set ws \<longrightarrow> may_fail (get_state s m) (get_state s' m))
     \<and> (if out = Finished None then \<forall>(n, l) \<in> set ws. start_result l (get_state s' n)
        else interrupted start_result (- {StateRunning, StateRegistered, StateStopped}) ws s s')"

lemma started_each_Cons:
  assumes step: "bulk_frame s s1" "\<forall>m. m \<noteq> n \<longrightarrow> may_fail (get_state s m) (get_state s1 m)"
    and res: "start_result l (get_state s1 n)"
    and rest: "started_each ws out s1 s'" and n: "n \<notin> fst ` set ws"
  shows "started_each ((n, l) # ws) out s s'"
proof -
  have "may_fail (get_state s1 n) (get_state s' n)" using rest n by (simp add: started_each_def)
  with res have r: "start_result l (get_state s' n)" by (rule start_result_later)
  have "bulk_frame s s'"
    using step(1) rest by (auto simp: started_each_def intro: bulk_frame_trans)
  moreover have "may_fail (get_state s m) (get_state s' m)"
    if "m \<notin> fst ` set ((n, l) # ws)" for m
    using that step(2) rest by (auto simp: started_each_def intro: may_fail_trans)
  moreover have "interrupted start_result (- {StateRunning, StateRegistered, StateStopped})
      ((n, l) # ws) s s'" if "out \<noteq> Finished None"
    using that rest by (intro interrupted_Cons [where R = start_result, OF _ step(2) n r]) (simp add: started_each_def)
  ultimately show ?thesis using r rest by (simp add: started_each_def)
qed

lemma startAllFrom_spec:
  assumes "sys_inv s" and "snapshot_ok ws s" and "startAllFrom c env ws s = (out, s')"
  shows "started_each ws out s s'"
  using assms
proof (induction ws arbitrary: s)
  case Nil
  then show ?case by (auto simp: started_each_def bulk_frame_refl)
next
  case (Cons p ws)
  obtain n l where p: "p = (n, l)" by (cases p)
  let ?s0 = "run (oe_before (env n)) s"
  have idle: "idle_frame s ?s0" using Cons.prems(1) by (rule run_idle)
  have inv0: "sys_inv ?s0" using idle by (simp add: idle_frame_def bulk_frame_def)
  have ord: "r_workerOrder ?s0 = r_workerOrder s"
    using idle by (simp add: idle_frame_def bulk_order)
  have snap0: "snapshot_ok (p # ws) ?s0"
    using idle by (intro snapshot_later [OF Cons.prems(2) ord]) (simp add: idle_frame_def)
  have n: "n \<notin> fst ` set ws" and reg: "n \<in> set (r_workerOrder ?s0)"
    and tr: "tracks l (get_state ?s0 n)" and snapws: "snapshot_ok ws ?s0"
    using snap0 by (auto simp: snapshot_ok_def p)
  have keep: "bulk_frame s ?s0" "\<forall>m. m \<noteq> n \<longrightarrow> may_fail (get_state s m) (get_state ?s0 m)"
    using idle by (simp_all add: idle_frame_def)
  show ?case
  proof (cases "startable l")
    case True
    obtain out1 s1 where st: "start c (oe_attempts (env n)) n ?s0 = (out1, s1)"
      by (cases "start c (oe_attempts (env n)) n ?s0")
    have "startable (lifecycle (get_state ?s0 n))" using tr True by (auto simp: tracks_def)
    note sr = start_registered [OF inv0 reg this st]
    have f1: "bulk_frame s s1" "\<forall>m. m \<noteq> n \<longrightarrow> may_fail (get_state s m) (get_state s1 m)"
      using op_idle_op [OF idle] sr by blast+
    have inv1: "sys_inv s1" using f1(1) by (simp add: bulk_frame_def)
    have snap1: "snapshot_ok ws s1"
    proof (rule snapshot_later [OF snapws])
      show "r_workerOrder s1 = r_workerOrder ?s0" using sr by (intro bulk_order op_bulk [of n]) simp
      show "may_fail (get_state ?s0 m) (get_state s1 m)" if "(m, k) \<in> set ws" for m k
      proof -
        have "m \<noteq> n" using that n by force
        with sr show ?thesis by (simp add: op_frame_def)
      qed
    qed
    show ?thesis
    proof (cases "out1 = Finished None")
      case ok: True
      have "start_result l (get_state s1 n)"
        using sr ok by (auto simp: ended_start_def start_result_def running_at_def failed_at_def Let_def)
      moreover have "started_each ws out s1 s'"
        using Cons.prems(3) True st ok by (intro Cons.IH [OF inv1 snap1]) (auto simp: p Let_def)
      ultimately show ?thesis unfolding p by (intro started_each_Cons [OF f1 _ _ n])
    next
      case bad: False
      have "out = out1" "s' = s1"
        using Cons.prems(3) True st bad by (auto simp: p Let_def split: outcome.splits option.splits)
      moreover have "interrupted start_result (- {StateRunning, StateRegistered, StateStopped})
          (p # ws) s s1"
        unfolding p by (rule interrupted_here)
          (use sr bad f1(2) n in \<open>auto simp: ended_start_def operating_def failed_at_def Let_def
             split: outcome.splits option.splits\<close>)
      ultimately show ?thesis using f1 bad by (simp add: started_each_def p)
    qed
  next
    case False
    show ?thesis
    proof (cases "l = StateRunning")
      case running: True
      have "start_result l (get_state ?s0 n)"
        using tr running by (auto simp: tracks_def start_result_def)
      moreover have "started_each ws out ?s0 s'"
        using Cons.prems(3) running
        by (intro Cons.IH [OF inv0 snapws]) (simp add: p Let_def)
      ultimately show ?thesis unfolding p by (intro started_each_Cons [OF keep _ _ n])
    next
      case other: False
      have "out \<noteq> Finished None" "s' = ?s0"
        using Cons.prems(3) False other by (auto simp: p Let_def)
      moreover have "interrupted start_result (- {StateRunning, StateRegistered, StateStopped})
          (p # ws) s ?s0"
        unfolding p by (rule interrupted_here [OF _ keep(2) n])
          (use tr False other in \<open>auto simp: tracks_def\<close>)
      ultimately show ?thesis using keep by (simp add: started_each_def p)
    qed
  qed
qed

end
