(* ===== verification/Shutdown_Props.thy ===== *)
theory Shutdown_Props
  imports Bulk_Props
begin

text \<open>
  Draining, waiting and \<open>Shutdown\<close>, and the lifecycle gate around every public operation.
\<close>

section \<open>Draining\<close>

definition drain_result :: "LifecycleState \<Rightarrow> workerState \<Rightarrow> bool" where
  "drain_result l w \<longleftrightarrow>
     (if l = StateRunning then lifecycle w \<in> {StateDraining, StateFailed} else tracks l w)"

lemma drain_result_later: "drain_result l w \<Longrightarrow> may_fail w w' \<Longrightarrow> drain_result l w'"
  by (auto simp: drain_result_def tracks_def may_fail_def split: if_splits)

lemma drain_frame:
  assumes inv: "sys_inv s" and run: "drain name s = (e, s')"
  shows "\<exists>n. op_frame n s s'"
proof -
  have "op_frame n s (snd (beginWorkerDrain n s))" for n
    by (rule section_frame [OF beginWorkerDrain_affects _ inv])
       (simp_all add: beginWorkerDrain_inv sys_inv_rt [OF inv])
  moreover have "s' = s \<or> (\<exists>n. s' = snd (beginWorkerDrain n s))"
  proof (cases "resolveWorkerNameStrict name s")
    case (Inr m)
    with run have "s' = snd (beginWorkerDrain m s)" by (simp add: drain_def)
    then show ?thesis by blast
  qed (use run in \<open>simp add: drain_def\<close>)
  ultimately show ?thesis using op_frame_refl [OF inv] by blast
qed

lemma drain_registered:
  assumes inv: "sys_inv s" and n: "n \<in> set (r_workerOrder s)" and run: "drain n s = (e, s')"
    and l: "lifecycle (get_state s n) \<in> {StateRunning, StateFailed}"
  shows "op_frame n s s' \<and> lifecycle (get_state s' n) \<in> {StateDraining, StateFailed}"
proof -
  have rt: "rt_inv s" using inv by (rule sys_inv_rt)
  have "resolveWorkerNameStrict n s = Inr n"
    by (rule registered_resolves [OF rt n]) blast
  then have b: "beginWorkerDrain n s = (e, s')" using run by (simp add: drain_def)
  have "op_frame n s (snd (beginWorkerDrain n s))"
    by (rule section_frame [OF beginWorkerDrain_affects _ inv])
       (simp_all add: beginWorkerDrain_inv rt)
  then have "op_frame n s s'" using b by simp
  moreover have "lifecycle (get_state (snd (beginWorkerDrain n s)) n) \<in> {StateDraining, StateFailed}"
  proof -
    obtain w where w: "map_of (r_workerStates s) n = Some w"
      using state_present [OF rt n] by blast
    with l have "lifecycle w \<in> {StateRunning, StateFailed}" by simp
    with w show ?thesis
      using b l by (auto simp: beginWorkerDrain_def section_simps)
  qed
  ultimately show ?thesis using b by simp
qed

definition drained_each :: "(string \<times> LifecycleState) list \<Rightarrow> sys \<Rightarrow> sys \<Rightarrow> bool" where
  "drained_each ws s s' \<longleftrightarrow>
     bulk_frame s s'
     \<and> (\<forall>m. m \<notin> fst ` set ws \<longrightarrow> may_fail (get_state s m) (get_state s' m))
     \<and> (\<forall>(n, l) \<in> set ws. drain_result l (get_state s' n))"

lemma drained_each_Cons:
  assumes step: "bulk_frame s s1" "\<forall>m. m \<noteq> n \<longrightarrow> may_fail (get_state s m) (get_state s1 m)"
    and res: "drain_result l (get_state s1 n)"
    and rest: "drained_each ws s1 s'" and n: "n \<notin> fst ` set ws"
  shows "drained_each ((n, l) # ws) s s'"
proof -
  have "may_fail (get_state s1 n) (get_state s' n)" using rest n by (simp add: drained_each_def)
  with res have "drain_result l (get_state s' n)" by (rule drain_result_later)
  moreover have "bulk_frame s s'"
    using step(1) rest by (auto simp: drained_each_def intro: bulk_frame_trans)
  moreover have "may_fail (get_state s m) (get_state s' m)"
    if "m \<notin> fst ` set ((n, l) # ws)" for m
    using that step(2) rest by (auto simp: drained_each_def intro: may_fail_trans)
  ultimately show ?thesis using rest by (simp add: drained_each_def)
qed

lemma drainEach_spec:
  assumes "sys_inv s" and "snapshot_ok ws s" and "drainEach env ws errs s = (errs', s')"
  shows "drained_each ws s s'"
  using assms
proof (induction ws arbitrary: errs s)
  case Nil
  then show ?case by (simp add: drained_each_def bulk_frame_refl)
next
  case (Cons p ws)
  obtain n l where p: "p = (n, l)" by (cases p)
  let ?s0 = "run (oe_before (env n)) s"
  have idle: "idle_frame s ?s0" using Cons.prems(1) by (rule run_idle)
  have inv0: "sys_inv ?s0" using idle by (simp add: idle_frame_def bulk_frame_def)
  have ord: "r_workerOrder ?s0 = r_workerOrder s"
    using idle by (simp add: idle_frame_def bulk_order)
  have snap0: "snapshot_ok (p # ws) ?s0"
    using idle by (intro snapshot_later [OF Cons.prems(2) ord]) (simp add: idle_frame_def)
  have n: "n \<notin> fst ` set ws" and reg: "n \<in> set (r_workerOrder ?s0)"
    and tr: "tracks l (get_state ?s0 n)" and snapws: "snapshot_ok ws ?s0"
    using snap0 by (auto simp: snapshot_ok_def p)
  have keep: "bulk_frame s ?s0" "\<forall>m. m \<noteq> n \<longrightarrow> may_fail (get_state s m) (get_state ?s0 m)"
    using idle by (simp_all add: idle_frame_def)
  show ?case
  proof (cases "l = StateRunning")
    case True
    obtain e s1 where d: "drain n ?s0 = (e, s1)" by (cases "drain n ?s0")
    have "lifecycle (get_state ?s0 n) \<in> {StateRunning, StateFailed}"
      using tr True by (auto simp: tracks_def)
    note dr = drain_registered [OF inv0 reg d this]
    have f1: "bulk_frame s s1" "\<forall>m. m \<noteq> n \<longrightarrow> may_fail (get_state s m) (get_state s1 m)"
      using op_idle_op [OF idle] dr by blast+
    have inv1: "sys_inv s1" using f1(1) by (simp add: bulk_frame_def)
    have snap1: "snapshot_ok ws s1"
    proof (rule snapshot_later [OF snapws])
      show "r_workerOrder s1 = r_workerOrder ?s0" using dr by (intro bulk_order op_bulk [of n]) simp
      show "may_fail (get_state ?s0 m) (get_state s1 m)" if "(m, k) \<in> set ws" for m k
      proof -
        have "m \<noteq> n" using that n by force
        with dr show ?thesis by (simp add: op_frame_def)
      qed
    qed
    have "drained_each ws s1 s'"
      using Cons.prems(3) True d
      by (intro Cons.IH [OF inv1 snap1, of "case e of None \<Rightarrow> errs | Some x \<Rightarrow> errs @ [x]"])
         (auto simp: p Let_def split: option.splits)
    moreover have "drain_result l (get_state s1 n)" using dr True by (simp add: drain_result_def)
    ultimately show ?thesis unfolding p by (intro drained_each_Cons [OF f1 _ _ n])
  next
    case False
    let ?e = "if l \<in> {StateDraining, StateRegistered, StateStopped, StateFailed} then errs
              else errs @ [invalid_state_error ''drain'' n l]"
    have "drained_each ws ?s0 s'"
      using Cons.prems(3) False
      by (intro Cons.IH [OF inv0 snapws, of ?e]) (cases l; simp add: p Let_def)
    moreover have "drain_result l (get_state ?s0 n)" using tr False by (simp add: drain_result_def)
    ultimately show ?thesis unfolding p by (intro drained_each_Cons [OF keep _ _ n])
  qed
qed

section \<open>Waiting for idleness\<close>

lemma ctx_done_act: "ctx_Err c s = Some e \<Longrightarrow> ctx_Err c (act a s) = Some e"
proof -
  assume h: "ctx_Err c s = Some e"
  have k: "s_done s' = s_done s \<Longrightarrow> ctx_Err c s' = Some e" for s'
    using h by (simp add: ctx_Err_def)
  have aff: "affects n s s' \<Longrightarrow> ctx_Err c s' = Some e" for n s'
    by (rule k, rule rest_more(3)) (simp add: affects_def)
  show ?thesis
  proof (cases a)
    case (AdmitSlot n)
    then show ?thesis
      by (cases n s rule: admitCommand_cases) (auto intro!: k simp: admit_slot_def admitted_def)
  next
    case (ReleaseSlot t)
    then show ?thesis
      by (auto intro!: k simp: release_slot_def releaseCommandSlot_def Let_def split: option.split)
  next
    case (CommandFailed t cm er d kk)
    then show ?thesis
      using h by (auto simp: holding_def intro: aff [OF recordCommandFailure_affects] split: option.split)
  next
    case (CommandPanicked t cm er d kk)
    then show ?thesis
      using h by (auto simp: holding_def intro: aff [OF recordCommandPanic_affects] split: option.split)
  next
    case (SignalReady n g b)
    then show ?thesis by (auto intro!: aff [of n])
  next
    case (SignalAccepting n g b)
    then show ?thesis by (auto intro!: aff [of n])
  next
    case (SignalFailure n g er)
    then show ?thesis by (auto intro!: aff [of n])
  next
    case (LoopCleanupFailed n er p)
    then show ?thesis by (auto intro!: aff [of n])
  next
    case (CtxDone c' er)
    then show ?thesis using h by (auto simp: ctx_Err_def)
  qed (auto intro!: k)
qed

interpretation ctx_done: invariant_step act "\<lambda>s. ctx_Err c s = Some e" for c e
  by unfold_locales (rule ctx_done_act)

lemma WaitAllIdle_spec:
  assumes "sys_inv s" and "WaitAllIdle c ps s = (out, s')"
  shows "idle_frame s s' \<and> out \<noteq> Panicking
    \<and> (out = Finished None \<longrightarrow> runtimeIdle s')
    \<and> (\<forall>e. out = Finished (Some e) \<longrightarrow> ctx_Err c s' = Some e)"
  using assms
proof (induction ps arbitrary: s)
  case Nil
  then show ?case by (auto simp: idle_frame_refl split: if_splits)
next
  case (Cons p ps)
  let ?s1 = "run (po_script p) s"
  have idle: "idle_frame s ?s1" using Cons.prems(1) by (rule run_idle)
  have inv1: "sys_inv ?s1" using idle by (simp add: idle_frame_def bulk_frame_def)
  show ?case
  proof (cases "runtimeIdle s")
    case True
    with Cons.prems show ?thesis by (auto simp: idle_frame_refl)
  next
    case False
    show ?thesis
    proof (cases "po_timer p")
      case True
      with False Cons.prems(2) have "WaitAllIdle c ps ?s1 = (out, s')"
        by (simp add: waitForIdlePoll_def select_timer_def Let_def)
      with Cons.IH [OF inv1] show ?thesis using idle idle_frame_trans by blast
    next
      case timer: False
      with False Cons.prems(2) idle show ?thesis
        by (auto simp: waitForIdlePoll_def select_timer_def Let_def split: option.splits)
    qed
  qed
qed

text \<open>The wait does end: if the command slots are all given back within the polls made, the
  runtime is found idle.\<close>

lemma idle_no_slots:
  assumes inv: "sys_inv s" and idle: "runtimeIdle s"
  shows "s_active s = []"
proof (rule ccontr)
  assume "s_active s \<noteq> []"
  then obtain t n g where "(t, n, g) \<in> set (s_active s)" by (cases "s_active s") auto
  moreover have "distinct (map fst (s_active s))" using inv by (simp add: sys_inv_def)
  ultimately have "map_of (s_active s) t = Some (n, g)" by simp
  from held_slot_counted [OF inv this] have "0 < rs_inFlight (r_status s)" by blast
  with idle show False by (simp add: runtimeIdle_def)
qed

lemma no_slots_idle:
  assumes inv: "sys_inv s" and none: "s_active s = []"
  shows "runtimeIdle s"
proof -
  have "\<forall>(n, w) \<in> set (r_workerStates s). inFlight w = 0"
    using inv none by (auto simp: sys_inv_def slots_def)
  then have "map (inFlight \<circ> snd) (r_workerStates s) = map (\<lambda>_. 0) (r_workerStates s)" by auto
  then have "sum_list (map (inFlight \<circ> snd) (r_workerStates s)) = 0" by (simp only:) simp
  moreover have "rs_inFlight (r_status s) = sum_list (map (inFlight \<circ> snd) (r_workerStates s))"
    using sys_inv_rt [OF inv] by (simp add: rt_inv_def)
  ultimately show ?thesis by (simp only: runtimeIdle_def)
qed

section \<open>Shutdown\<close>

lemma closed_stays_empty:
  assumes "bulk_frame s s'" and "r_admissionClosed s" and "s_active s = []"
  shows "s_active s' = []"
  using assms by (simp add: bulk_frame_def no_admission_def)

text \<open>The three ways \<open>shutdown\<close> ends.\<close>

definition kept_or_drained :: "sys \<Rightarrow> sys \<Rightarrow> bool" where
  "kept_or_drained s s' \<longleftrightarrow>
     (\<forall>n \<in> set (r_workerOrder s). drain_result (lifecycle (get_state s n)) (get_state s' n))"

lemma shutdown_cases:
  assumes inv: "sys_inv s" and closed: "r_admissionClosed s"
    and run: "shutdown c env s = (out, s')"
  obtains (cut_off) e where "out = Finished (Some e) \<or> out = Blocked" "bulk_frame s s'"
      "kept_or_drained s s'"
  | (stopping) errs s4 stopped where "bulk_frame s s4" "kept_or_drained s s4"
      "s_active s4 = []" "stopAll (sh_stop env) s4 = (stopped, s')"
      "out = (case stopped of Finished e \<Rightarrow> Finished (errors_join (map Some (append_err e errs)))
              | _ \<Rightarrow> stopped)"
proof -
  let ?ws = "registeredWorkerLifecycles s"
  obtain errs0 s1 where d: "drainEach (sh_drain env) ?ws [] s = (errs0, s1)"
    by (cases "drainEach (sh_drain env) ?ws [] s")
  have snap: "snapshot_ok ?ws s" using snapshot_taken [OF sys_inv_rt [OF inv]] by simp
  have dr: "drained_each ?ws s s1" by (rule drainEach_spec [OF inv snap d])
  then have b1: "bulk_frame s s1" and k1: "kept_or_drained s s1"
    by (auto simp: drained_each_def kept_or_drained_def registeredWorkerLifecycles_def)
  let ?s2 = "run (sh_afterDrain env) s1"
  have later: "bulk_frame s x \<Longrightarrow> kept_or_drained s x \<Longrightarrow> idle_frame x y
      \<Longrightarrow> bulk_frame s y \<and> kept_or_drained s y" for x y
    by (auto simp: idle_frame_def kept_or_drained_def intro: bulk_frame_trans drain_result_later)
  have i2: "idle_frame s1 ?s2" using b1 by (intro run_idle) (simp add: bulk_frame_def)
  note f2 = later [OF b1 k1 i2]
  have inv2: "sys_inv ?s2" using f2 by (simp add: bulk_frame_def)
  let ?errs1 = "append_err (errors_join (map Some errs0)) []"
  show thesis
  proof (cases "ctx_Err c ?s2")
    case (Some e)
    then have "out = Finished (errors_join (map Some (?errs1 @ [e])))" "s' = ?s2"
      using run by (simp_all add: shutdown_def drainAllBestEffort_def d Let_def)
    moreover obtain x where "errors_join (map Some (?errs1 @ [e])) = Some x"
      using errors_join_None [of "?errs1 @ [e]"] by (cases "errors_join (map Some (?errs1 @ [e]))") simp_all
    ultimately show thesis using f2 by (intro cut_off [of x]) simp_all
  next
    case None
    obtain waited s3 where wt: "WaitAllIdle c (sh_polls env) ?s2 = (waited, s3)"
      by (cases "WaitAllIdle c (sh_polls env) ?s2")
    note ws = WaitAllIdle_spec [OF inv2 wt]
    have i3: "idle_frame ?s2 s3" using ws by simp
    have f3: "bulk_frame s s3 \<and> kept_or_drained s s3" using later f2 i3 by blast
    show thesis
    proof (cases waited)
      case Blocked
      then have "out = Blocked" "s' = s3"
        using run None wt by (simp_all add: shutdown_def drainAllBestEffort_def d Let_def)
      then show thesis using f3 by (intro cut_off) auto
    next
      case Panicking
      then show thesis using ws by simp
    next
      case (Finished eo)
      let ?s4 = "run (sh_afterWait env) s3"
      let ?errs2 = "append_err eo ?errs1"
      have i4: "idle_frame s3 ?s4" using f3 by (intro run_idle) (simp add: bulk_frame_def)
      have f4: "bulk_frame s ?s4 \<and> kept_or_drained s ?s4" using later f3 i4 by blast
      show thesis
      proof (cases "ctx_Err c ?s4")
        case (Some e)
        then have "out = Finished (errors_join (map Some (?errs2 @ [e])))" "s' = ?s4"
          using run None wt Finished
          by (simp_all add: shutdown_def drainAllBestEffort_def d Let_def)
        moreover obtain x where "errors_join (map Some (?errs2 @ [e])) = Some x"
          using errors_join_None [of "?errs2 @ [e]"] by (cases "errors_join (map Some (?errs2 @ [e]))") simp_all
        ultimately show thesis using f4 by (intro cut_off [of x]) simp_all
      next
        case not_done: None
        have "eo = None"
        proof (rule ccontr)
          assume "eo \<noteq> None"
          then obtain e where "ctx_Err c s3 = Some e" using ws Finished by auto
          then have "ctx_Err c ?s4 = Some e" by (rule ctx_done.run_inv)
          with not_done show False by simp
        qed
        then have "runtimeIdle s3" using ws Finished by simp
        then have "s_active s3 = []" using f3 by (intro idle_no_slots) (simp_all add: bulk_frame_def)
        moreover have "r_admissionClosed s3" using f3 closed frozen_closed by (auto simp: bulk_frame_def)
        ultimately have e4: "s_active ?s4 = []"
          using i4 closed_stays_empty [of s3 ?s4] by (simp add: idle_frame_def)
        obtain stopped s5 where st: "stopAll (sh_stop env) ?s4 = (stopped, s5)"
          by (cases "stopAll (sh_stop env) ?s4")
        have "shutdown c env s = (case stopped of
            Finished e \<Rightarrow> Finished (errors_join (map Some (append_err e ?errs2))) | _ \<Rightarrow> stopped, s5)"
          using None wt Finished not_done st
          by (simp add: shutdown_def drainAllBestEffort_def d Let_def split: outcome.split)
        with run f4 e4 st show thesis by (intro stopping [of ?s4 stopped ?errs2]) simp_all
      qed
    qed
  qed
qed

section \<open>Public operations: the gates are given back\<close>

text \<open>What every operation behind the lifecycle gate promises: the invariant, and, once it has
  returned or panicked, the gates and the registrations as it found them.\<close>

locale lifecycle_operation =
  fixes operation :: "sys \<Rightarrow> outcome \<times> sys"
  assumes keeps: "sys_inv s \<Longrightarrow> sys_inv (snd (operation s))"
    and restores: "sys_inv s \<Longrightarrow> fst (operation s) \<noteq> Blocked
      \<Longrightarrow> frozen (snd (operation s)) = frozen s"
begin

lemma acquired_state:
  "acquireLifecycle c pre s = (Acquired, s1) \<Longrightarrow>
   \<exists>s0. s0 = run pre s \<and> r_gate s0 \<and> s1 = s0\<lparr>r_gate := False\<rparr>"
  by (auto simp: acquireLifecycle_def Let_def split: option.splits if_splits)

lemma not_acquired_state:
  "acquireLifecycle c pre s = (a, s1) \<Longrightarrow> a \<noteq> Acquired \<Longrightarrow> s1 = s \<or> s1 = run pre s"
  by (auto simp: acquireLifecycle_def Let_def split: option.splits if_splits)

lemma gated:
  assumes inv: "sys_inv s" and call: "runLifecycle c pre operation s = (out, s')"
  shows "sys_inv s' \<and> (out \<noteq> Blocked \<longrightarrow> frozen s' = frozen s)"
proof -
  obtain a s1 where acq: "acquireLifecycle c pre s = (a, s1)" by (cases "acquireLifecycle c pre s")
  have fr: "frozen (run pre s) = frozen s" "sys_inv (run pre s)"
    using frozen.run_view [OF inv] inv by simp_all
  show ?thesis
  proof (cases "a = Acquired")
    case False
    then have "s' = s1" using call acq by (auto simp: runLifecycle_def split: acquired.splits)
    with not_acquired_state [OF acq False] fr inv show ?thesis by auto
  next
    case True
    with acquired_state acq obtain s0 where s0: "s0 = run pre s" "r_gate s0"
      "s1 = s0\<lparr>r_gate := False\<rparr>" by blast
    have i1: "sys_inv s1" using fr(2) s0 by simp
    obtain o2 s2 where op: "operation s1 = (o2, s2)" by (cases "operation s1")
    have s': "out = o2" "s' = (if o2 = Blocked then s2 else s2\<lparr>r_gate := True\<rparr>)"
      using call acq True op by (auto simp: runLifecycle_def split: outcome.splits)
    have "frozen (s2\<lparr>r_gate := True\<rparr>) = frozen s" if "o2 \<noteq> Blocked"
    proof -
      have "frozen s2 = frozen s1" using restores [OF i1] op that by simp
      then show ?thesis using fr(1) s0 by (simp add: frozen_def)
    qed
    moreover have "sys_inv s2" using keeps [OF i1] op by simp
    ultimately show ?thesis using s' by simp
  qed
qed

end

text \<open>An operation with a bulk frame promises it as it is, and with command admission closed
  around it.\<close>

lemma bulk_operation:
  assumes "\<And>s. sys_inv s \<Longrightarrow> bulk_frame s (snd (op s))"
  shows "lifecycle_operation op"
  using assms by unfold_locales (auto simp: bulk_frame_def)

lemma closed_operation:
  assumes "\<And>s. sys_inv s \<Longrightarrow> r_admissionClosed s \<Longrightarrow> bulk_frame s (snd (op s))"
  shows "lifecycle_operation (runWithCommandAdmissionClosed op)"
proof unfold_locales
  fix s :: sys assume inv: "sys_inv s"
  let ?s = "s\<lparr>r_admissionClosed := True\<rparr>"
  obtain out s1 where op: "op ?s = (out, s1)" by (cases "op ?s")
  have "bulk_frame ?s s1" using assms [of ?s] inv op by simp
  then have i: "sys_inv s1" and f: "frozen s1 = frozen ?s" by (simp_all only: bulk_frame_def)
  then show "sys_inv (snd (runWithCommandAdmissionClosed op s))"
    using op by (simp add: runWithCommandAdmissionClosed_def Let_def split: outcome.split)
  assume "fst (runWithCommandAdmissionClosed op s) \<noteq> Blocked"
  then have "snd (runWithCommandAdmissionClosed op s) = s1\<lparr>r_admissionClosed := r_admissionClosed s\<rparr>"
    using op by (simp add: runWithCommandAdmissionClosed_def Let_def split: outcome.splits)
  with f show "frozen (snd (runWithCommandAdmissionClosed op s)) = frozen s"
    by (simp add: frozen_def)
qed

lemma start_bulk: "sys_inv s \<Longrightarrow> bulk_frame s (snd (start c as name s))"
proof (cases "\<exists>n wk cfg w. lookupWorker name s = Inr (n, wk, cfg)
    \<and> map_of (r_workerStates s) n = Some w \<and> startable (lifecycle w)")
  case True
  assume inv: "sys_inv s"
  obtain out s' where run: "start c as name s = (out, s')" by (cases "start c as name s")
  from True obtain n wk cfg w where l: "lookupWorker name s = Inr (n, wk, cfg)"
    "map_of (r_workerStates s) n = Some w" "startable (lifecycle w)" by blast
  from start_ends [OF inv l run] run show ?thesis by (auto intro: op_bulk)
next
  case False
  assume "sys_inv s"
  with start_refused [OF False, of c as] show ?thesis by (auto simp: bulk_frame_refl)
qed

lemma stop_bulk: "sys_inv s \<Longrightarrow> bulk_frame s (snd (stop as name s))"
proof (cases "\<exists>n wk cfg w. lookupWorker name s = Inr (n, wk, cfg)
    \<and> map_of (r_workerStates s) n = Some w \<and> stoppable (lifecycle w)")
  case True
  assume inv: "sys_inv s"
  obtain out s' where run: "stop as name s = (out, s')" by (cases "stop as name s")
  from True obtain n wk cfg w where l: "lookupWorker name s = Inr (n, wk, cfg)"
    "map_of (r_workerStates s) n = Some w" "stoppable (lifecycle w)" by blast
  from stop_ends [OF inv l run] run show ?thesis by (auto intro: op_bulk)
next
  case False
  assume "sys_inv s"
  with stop_refused [OF False, of as] show ?thesis by (auto simp: bulk_frame_refl)
qed

lemma drain_bulk: "sys_inv s \<Longrightarrow> bulk_frame s (snd (drain name s))"
  using drain_frame [of s name] op_bulk by (metis prod.collapse)

lemma startAll_bulk: "sys_inv s \<Longrightarrow> bulk_frame s (snd (startAll c env s))"
proof -
  assume inv: "sys_inv s"
  obtain out s' where run: "startAll c env s = (out, s')" by (cases "startAll c env s")
  have "started_each (registeredWorkerLifecycles s) out s s'"
    using run snapshot_taken(1) [OF sys_inv_rt [OF inv]]
    by (intro startAllFrom_spec [OF inv]) (simp_all add: startAll_def)
  with run show ?thesis by (simp add: started_each_def)
qed

lemma stopAll_each:
  "sys_inv s \<Longrightarrow> stopAll env s = (out, s')
   \<Longrightarrow> stopped_each (rev (registeredWorkerLifecycles s)) [] out s s'"
  by (rule stopEach_spec) (simp_all add: stopAll_def snapshot_taken(2) sys_inv_rt)

lemma stopAll_bulk: "sys_inv s \<Longrightarrow> bulk_frame s (snd (stopAll env s))"
  using stopAll_each [of s env] by (cases "stopAll env s") (simp add: stopped_each_def)

lemma shutdown_bulk:
  assumes inv: "sys_inv s" and closed: "r_admissionClosed s"
  shows "bulk_frame s (snd (shutdown c env s))"
proof -
  obtain out s' where run: "shutdown c env s = (out, s')" by (cases "shutdown c env s")
  show ?thesis
  proof (cases rule: shutdown_cases [OF inv closed run])
    case (1 e)
    with run show ?thesis by simp
  next
    case (2 errs s4 stopped)
    have "bulk_frame s4 s'" using stopAll_bulk [of s4 "sh_stop env"] 2 by (simp add: bulk_frame_def)
    with 2(1) run show ?thesis by (auto intro: bulk_frame_trans)
  qed
qed

lemma drainEach_bulk:
  "sys_inv s \<Longrightarrow> bulk_frame s (snd (drainEach env (registeredWorkerLifecycles s) [] s))"
  using drainEach_spec [of s "registeredWorkerLifecycles s" env "[]"]
  by (cases "drainEach env (registeredWorkerLifecycles s) [] s")
     (simp add: drained_each_def snapshot_taken(1) sys_inv_rt)

lemma drainAllFrom_bulk: "sys_inv s \<Longrightarrow> bulk_frame s (snd (drainAllFrom env ws s))"
proof (induction ws arbitrary: s)
  case Nil
  then show ?case by (simp add: bulk_frame_refl)
next
  case (Cons p ws)
  obtain n l where p: "p = (n, l)" by (cases p)
  let ?s0 = "run (oe_before (env n)) s"
  have b0: "bulk_frame s ?s0" and i0: "sys_inv ?s0"
    using run_idle [OF Cons.prems] by (simp_all add: idle_frame_def bulk_frame_def)
  obtain e s1 where d: "drain n ?s0 = (e, s1)" by (cases "drain n ?s0")
  have b1: "bulk_frame s s1" using drain_bulk [OF i0, of n] d b0 by (auto intro: bulk_frame_trans)
  then have i1: "sys_inv s1" by (simp only: bulk_frame_def)
  have "bulk_frame s (snd (drainAllFrom env ws ?s0))" "bulk_frame s (snd (drainAllFrom env ws s1))"
    using b0 b1 i0 i1 Cons.IH bulk_frame_trans by blast+
  with b0 b1 d show ?case by (simp add: p Let_def split: option.split)
qed

interpretation start_op: lifecycle_operation "start c as name" for c as name
  by (rule bulk_operation) (rule start_bulk)

interpretation stop_op: lifecycle_operation "stop as name" for as name
  by (rule bulk_operation) (rule stop_bulk)

interpretation drain_op:
  lifecycle_operation "\<lambda>s. case drain name s of (e, s1) \<Rightarrow> (Finished e, s1)" for name
  by (rule bulk_operation) (use drain_bulk in \<open>simp add: case_prod_beta\<close>)

interpretation startAll_op: lifecycle_operation "startAll c env" for c env
  by (rule bulk_operation) (rule startAll_bulk)

interpretation drainAll_op: lifecycle_operation "drainAll env" for env
  by (rule bulk_operation) (use drainAllFrom_bulk in \<open>simp add: drainAll_def case_prod_beta\<close>)

interpretation drainEach_op:
  lifecycle_operation "\<lambda>s. case drainAllBestEffort env s of (e, s1) \<Rightarrow> (Finished e, s1)" for env
  by (rule bulk_operation)
     (use drainEach_bulk in \<open>simp add: drainAllBestEffort_def case_prod_beta\<close>)

interpretation stopAll_op: lifecycle_operation "runWithCommandAdmissionClosed (stopAll env)" for env
  by (rule closed_operation) (rule stopAll_bulk)

interpretation shutdown_op:
  lifecycle_operation "runWithCommandAdmissionClosed (shutdown c env)" for c env
  by (rule closed_operation) (rule shutdown_bulk)

end
