(* ===== verification/Runtime_Dispatch.thy ===== *)
theory Runtime_Dispatch
  imports Shutdown_Props
begin

text \<open>
  \<open>Runtime.Dispatch\<close> (\<open>runtime.go\<close>) and the snapshots clients read.

  A dispatch is one goroutine among others: \<open>dispatch_env\<close> has what the others do at each of
  its steps, the context the observer hands back, and the results of the handler's attempts.
  No other goroutine gives back this dispatch's slot: only its own deferred call does, so that
  action is filtered out of the scripts (\<open>others\<close>).
\<close>

record CommandRequest =
  cq_worker :: string
  cq_name :: string
  cq_payload :: string
  cq_requestedAt :: "time option"

record CommandResult =
  res_message :: string
  res_payload :: string

record dispatch_env =
  de_ctx :: ctx
  de_beforeAdmit :: "action list"
  de_attempts :: "attempt list"
  de_value :: "int \<Rightarrow> CommandResult"
  de_beforeRelease :: "action list"
  de_beforeEnd :: "action list"

datatype dispatch_outcome =
    CommandOk CommandResult | CommandErr error | CommandPanic | CommandBlocked

section \<open>Request validation and lookup\<close>

definition CommandRequest_Validate :: "CommandRequest \<Rightarrow> error option" where
  "CommandRequest_Validate cmd =
     (case ValidateWorkerName (cq_worker cmd) of
        Some e \<Rightarrow> Some (Errorf ''invalid command target: %w'' [] [e])
      | None \<Rightarrow>
          (case ValidateCommandName (cq_name cmd) of
             Some e \<Rightarrow> Some (Errorf ''invalid command name: %w'' [] [e])
           | None \<Rightarrow> None))"

definition CommandSpec_Validate :: "CommandSpec \<Rightarrow> error option" where
  "CommandSpec_Validate reg =
     (case ValidateCommandName (csp_name reg) of
        Some e \<Rightarrow> Some (Errorf ''invalid command name: %w'' [] [e])
      | None \<Rightarrow>
          if csp_handler reg = None
          then Some (errors_new ''command handler must not be nil'') else None)"

definition normalizeCommandRequest ::
  "CommandRequest \<Rightarrow> time \<Rightarrow> 'a runtime_scheme \<Rightarrow> error + CommandRequest" where
  "normalizeCommandRequest req requestedAt r =
     (let req1 = (if cq_requestedAt req = None
                  then req\<lparr>cq_requestedAt := Some requestedAt\<rparr> else req)
      in case resolveWorkerName (r_identity r) (cq_worker req1) of
           Inl e \<Rightarrow> Inl (Errorf ''invalid command target: %w'' [] [e])
         | Inr worker \<Rightarrow>
             (case ValidateCommandName (cq_name req1) of
                Some e \<Rightarrow> Inl (Errorf ''invalid command name: %w'' [] [e])
              | None \<Rightarrow> Inr (req1\<lparr>cq_worker := worker\<rparr>)))"

definition lookupCommandTarget ::
  "CommandRequest \<Rightarrow> 'a runtime_scheme \<Rightarrow> error + workerConfig \<times> commandRegistration" where
  "lookupCommandTarget req r =
     (if map_of (r_registrations r) (cq_worker req) = None
      then Inl (worker_not_found (cq_worker req))
      else case map_of (get_commands r (cq_worker req)) (cq_name req) of
             None \<Rightarrow> Inl (Errorf ''%w: %s/%s'' [FStr (cq_worker req), FStr (cq_name req)]
                           [Sentinel ErrCommandNotFound])
           | Some reg \<Rightarrow> Inr (get_config r (cq_worker req), reg))"

text \<open>\<open>%d\<close> of an unsigned number.\<close>

fun decimal :: "nat \<Rightarrow> string" where
  "decimal n =
     (if n < 10 then [char_of (48 + n)] else decimal (n div 10) @ [char_of (48 + n mod 10)])"

definition nextCommandDispatchID :: "'a runtime_scheme \<Rightarrow> string \<times> 'a runtime_scheme" where
  "nextCommandDispatchID r =
     (let seq = r_dispatchSeq r + 1
      in (r_identity r @ ''-'' @ decimal (unat seq), r\<lparr>r_dispatchSeq := seq\<rparr>))"

section \<open>Observation of a command\<close>

definition startCommandObservation ::
  "string \<Rightarrow> string \<Rightarrow> string \<Rightarrow> time \<Rightarrow> 'a runtime_scheme \<Rightarrow> 'a runtime_scheme" where
  "startCommandObservation worker command dispatchID startedAt r =
     observe (StartCommand \<lparr>cs_runtime = r_identity r, cs_worker = worker, cs_command = command,
                           cs_dispatchID = dispatchID, cs_startedAt = startedAt\<rparr>) r"

definition endCommandObservation ::
  "string \<Rightarrow> string \<Rightarrow> string \<Rightarrow> int \<Rightarrow> time \<Rightarrow> error option \<Rightarrow> 'a runtime_scheme
   \<Rightarrow> 'a runtime_scheme" where
  "endCommandObservation worker command dispatchID attempts startedAt err r =
     (let endedAt = r_now r;
          failure = operationalFailure err commandFailure
      in observe (EndCommand \<lparr>ce_runtime = r_identity r, ce_worker = worker,
            ce_command = command, ce_dispatchID = dispatchID, ce_attempts = attempts,
            ce_startedAt = startedAt, ce_endedAt = endedAt,
            ce_duration = int endedAt - int startedAt, ce_success = (err = None),
            ce_code = f_code failure, ce_message = f_message failure, ce_cause = err\<rparr>) r)"

section \<open>Running the handler\<close>

definition others :: "nat \<Rightarrow> action list \<Rightarrow> action list" where
  "others t as = filter (\<lambda>a. a \<noteq> ReleaseSlot t) as"

definition shield :: "nat \<Rightarrow> attempt \<Rightarrow> attempt" where
  "shield t a = a\<lparr>at_script := others t (at_script a), at_after := others t (at_after a),
                  at_wait := others t (at_wait a)\<rparr>"

definition executeCommand ::
  "ctx \<Rightarrow> CommandRequest \<Rightarrow> workerConfig \<Rightarrow> generation \<Rightarrow> string \<Rightarrow> attempt list \<Rightarrow> sys
   \<Rightarrow> outcome \<times> int \<times> sys" where
  "executeCommand c req cfg g dispatchID as s =
     runWithRetry c (commandRetryPolicy cfg) call_worker
       (\<lambda>opErr attempt.
          recordCommandFailure (cq_worker req) g (cq_name req) opErr dispatchID attempt)
       as s"

text \<open>The deferred \<open>recoverCommandPanic\<close>: the error it makes, and whether it panics again.\<close>

definition recoverCommandPanic ::
  "CommandRequest \<Rightarrow> workerConfig \<Rightarrow> generation \<Rightarrow> string \<Rightarrow> int \<Rightarrow> sys
   \<Rightarrow> error \<times> bool \<times> sys" where
  "recoverCommandPanic req cfg g dispatchID attempts s =
     (let panicErr = newRecoveredPanicError
            (''handling command '' @ go_quote (cq_name req) @ '' for worker ''
             @ go_quote (cq_worker req))
      in (panicErr, panicPolicy cfg = PanicPolicyCrash,
          recordCommandPanic (cq_worker req) g (cq_name req) panicErr dispatchID attempts s))"

text \<open>From admission on: the handler, then the deferred calls in reverse order of their
  \<open>defer\<close> statements: panic recovery, the slot, the end of the observation.\<close>

definition finishCommand ::
  "nat \<Rightarrow> dispatch_env \<Rightarrow> CommandRequest \<Rightarrow> string \<Rightarrow> int \<Rightarrow> time \<Rightarrow> error option \<Rightarrow> sys \<Rightarrow> sys" where
  "finishCommand t env req dispatchID attempts startedAt err s =
     endCommandObservation (cq_worker req) (cq_name req) dispatchID attempts startedAt err
       (run (de_beforeEnd env) (release_slot t (run (others t (de_beforeRelease env)) s)))"

definition runAdmitted ::
  "dispatch_env \<Rightarrow> CommandRequest \<Rightarrow> workerConfig \<Rightarrow> nat \<Rightarrow> generation \<Rightarrow> string \<Rightarrow> time \<Rightarrow> sys
   \<Rightarrow> dispatch_outcome \<times> sys" where
  "runAdmitted env req cfg t g dispatchID startedAt s =
     (case executeCommand (de_ctx env) req cfg g dispatchID (map (shield t) (de_attempts env)) s of
        (Blocked, k, s1) \<Rightarrow> (CommandBlocked, s1)
      | (Finished None, k, s1) \<Rightarrow>
          (CommandOk (de_value env k), finishCommand t env req dispatchID k startedAt None s1)
      | (Finished (Some err), k, s1) \<Rightarrow>
          (CommandErr err, finishCommand t env req dispatchID k startedAt (Some err) s1)
      | (Panicking, k, s1) \<Rightarrow>
          (case recoverCommandPanic req cfg g dispatchID k s1 of
             (panicErr, again, s2) \<Rightarrow>
               ((if again then CommandPanic else CommandErr panicErr),
                finishCommand t env req dispatchID k startedAt (Some panicErr) s2)))"

definition Dispatch ::
  "dispatch_env \<Rightarrow> CommandRequest \<Rightarrow> sys \<Rightarrow> dispatch_outcome \<times> sys" where
  "Dispatch env req0 s =
     (let startedAt = r_now s
      in case normalizeCommandRequest req0 startedAt s of
        Inl e \<Rightarrow> (CommandErr e, s)
      | Inr req1 \<Rightarrow>
     (case lookupCommandTarget req1 s of
        Inl e \<Rightarrow> (CommandErr e, s)
      | Inr (cfg, reg) \<Rightarrow>
     (let req = req1\<lparr>cq_worker := cr_worker reg, cq_name := cr_name reg\<rparr>;
          (dispatchID, s1) = nextCommandDispatchID s;
          s2 = startCommandObservation (cq_worker req) (cq_name req) dispatchID startedAt s1
      in case admit_slot (cq_worker req) (run (de_beforeAdmit env) s2) of
           (Inl e, s3) \<Rightarrow>
             (CommandErr e,
              endCommandObservation (cq_worker req) (cq_name req) dispatchID 0 startedAt (Some e) s3)
         | (Inr (t, g), s3) \<Rightarrow> runAdmitted env req cfg t g dispatchID startedAt s3)))"

section \<open>Snapshots\<close>

text \<open>An \<open>Identity\<close> is its name.\<close>

definition Identity_Validate :: "string \<Rightarrow> error option" where
  "Identity_Validate m = ValidateRuntimeName m"

definition Runtime_Identity :: "'a runtime_scheme \<Rightarrow> string" where
  "Runtime_Identity r = r_identity r"

record WorkerSnapshot =
  sn_qualifiedName :: string
  sn_name :: string
  sn_description :: string
  sn_status :: WorkerStatus

definition RuntimeStatus_of :: "'a runtime_scheme \<Rightarrow> RuntimeStatus" where
  "RuntimeStatus_of r =
     (r_status r)\<lparr>rs_lastTransition := cloneLifecycleTransition (rs_lastTransition (r_status r))\<rparr>"

definition snapshot_of :: "string \<Rightarrow> WorkerSpec \<Rightarrow> 'a runtime_scheme \<Rightarrow> WorkerSnapshot" where
  "snapshot_of name reg r =
     \<lparr>sn_qualifiedName = name, sn_name = sp_name reg, sn_description = sp_description reg,
      sn_status = toWorkerStatus (get_state r name)\<rparr>"

definition zero_WorkerSpec :: WorkerSpec where
  "zero_WorkerSpec = \<lparr>sp_name = '''', sp_description = '''', sp_worker = None\<rparr>"

definition Workers :: "'a runtime_scheme \<Rightarrow> WorkerSnapshot list" where
  "Workers r =
     map (\<lambda>name.
            let reg = (case map_of (r_registrations r) name of
                         None \<Rightarrow> zero_WorkerSpec | Some reg \<Rightarrow> reg)
            in snapshot_of name reg r) (r_workerOrder r)"

text \<open>The lenient resolution of the read paths: a name that does not resolve is looked up as it
  is.\<close>

definition resolveWorkerNameLenient :: "string \<Rightarrow> 'a runtime_scheme \<Rightarrow> string" where
  "resolveWorkerNameLenient name r =
     (case resolveWorkerName (r_identity r) name of Inl e \<Rightarrow> name | Inr n \<Rightarrow> n)"

definition Worker_of :: "string \<Rightarrow> 'a runtime_scheme \<Rightarrow> WorkerSnapshot option" where
  "Worker_of name r =
     (let n = resolveWorkerNameLenient name r
      in case map_of (r_registrations r) n of
           None \<Rightarrow> None | Some reg \<Rightarrow> Some (snapshot_of n reg r))"

definition workerStatus :: "string \<Rightarrow> 'a runtime_scheme \<Rightarrow> WorkerStatus option" where
  "workerStatus name r =
     map_option toWorkerStatus (map_of (r_workerStates r) (resolveWorkerNameLenient name r))"

record CommandInfo =
  ci_worker :: string
  ci_name :: string
  ci_description :: string
  ci_payloadKind :: string
  ci_dangerous :: bool
  ci_idempotent :: bool
  ci_attributes :: "attribute list"

definition command_info :: "commandRegistration \<Rightarrow> CommandInfo" where
  "command_info c =
     \<lparr>ci_worker = cr_worker c, ci_name = cr_name c, ci_description = cr_description c,
      ci_payloadKind = cr_payloadKind c, ci_dangerous = cr_dangerous c,
      ci_idempotent = cr_idempotent c,
      ci_attributes = cloneCommandAttributes (cr_attributes c)\<rparr>"

text \<open>\<open>sort.Strings\<close>: the byte order of strings. The result is indexed in the map again.\<close>

fun string_le :: "string \<Rightarrow> string \<Rightarrow> bool" where
  "string_le [] ys = True"
| "string_le (x # xs) [] = False"
| "string_le (x # xs) (y # ys) =
     (of_char x < (of_char y :: nat) \<or> x = y \<and> string_le xs ys)"

fun insert_name :: "string \<Rightarrow> string list \<Rightarrow> string list" where
  "insert_name x [] = [x]"
| "insert_name x (y # ys) = (if string_le x y then x # y # ys else y # insert_name x ys)"

definition sort_names :: "string list \<Rightarrow> string list" where
  "sort_names xs = foldr insert_name xs []"

definition Commands :: "string \<Rightarrow> 'a runtime_scheme \<Rightarrow> CommandInfo list option" where
  "Commands worker r =
     (let n = resolveWorkerNameLenient worker r;
          m = get_commands r n
      in if map_of (r_registrations r) n = None then None
         else Some (map command_info
                (List.map_filter (\<lambda>k. map_of m k) (sort_names (map fst m)))))"

end
