(* ===== verification/Dispatch_Props.thy ===== *)
theory Dispatch_Props
  imports Runtime_Dispatch
begin

text \<open>
  What a dispatch guarantees: the slot it took is given back on every path, the observation it
  opened is closed last, retries stay within the policy, and the worker it ran on is failed
  only by a panic of the current generation.
\<close>

section \<open>Holding a slot\<close>

definition held :: "nat \<Rightarrow> string \<Rightarrow> generation \<Rightarrow> sys \<Rightarrow> bool" where
  "held t n g s \<longleftrightarrow> sys_inv s \<and> map_of (s_active s) t = Some (n, g)"

lemma affects_active:
  "affects n s s' \<Longrightarrow> s_active s' = s_active s \<and> s_next s' = s_next s" for s s' :: sys
  unfolding affects_def using rest_more [of s' s] by simp

lemma act_active:
  assumes "sys_inv s"
  shows "s_active (act a s) = s_active s \<and> s_next (act a s) = s_next s
    \<or> (\<exists>n g. a = AdmitSlot n \<and> s_active (act a s) = s_active s @ [(s_next s, n, g)]
          \<and> s_next (act a s) = s_next s + 1)
    \<or> (\<exists>t. a = ReleaseSlot t \<and> s_active (act a s) = AList.delete t (s_active s)
          \<and> s_next (act a s) = s_next s)"
proof (cases a)
  case (AdmitSlot n)
  then show ?thesis
    by (cases n s rule: admitCommand_cases) (auto simp: admit_slot_def admitted_def)
next
  case (ReleaseSlot t)
  then show ?thesis
    by (auto simp: release_slot_def releaseCommandSlot_def Let_def split: option.split)
next
  case (CommandFailed t c e d k)
  then show ?thesis
    using affects_active [OF recordCommandFailure_affects] by (simp add: holding_def split: option.split)
next
  case (CommandPanicked t c e d k)
  then show ?thesis
    using affects_active [OF recordCommandPanic_affects] by (simp add: holding_def split: option.split)
next
  case (SignalReady n g b)
  then show ?thesis using affects_active [OF setWorkerReady_affects] by simp
next
  case (SignalAccepting n g b)
  then show ?thesis using affects_active [OF setWorkerAcceptingWork_affects] by simp
next
  case (SignalFailure n g e)
  then show ?thesis using affects_active [OF reportWorkerFailure_affects] by simp
next
  case (LoopCleanupFailed n e p)
  then show ?thesis
    using affects_active [OF observeLoopCleanupFailure_affects [OF affects_refl]] by simp
qed simp_all

lemma held_act: "held t n g s \<Longrightarrow> a \<noteq> ReleaseSlot t \<Longrightarrow> held t n g (act a s)"
proof -
  assume h: "held t n g s" and a: "a \<noteq> ReleaseSlot t"
  then have inv: "sys_inv s" and m: "map_of (s_active s) t = Some (n, g)" by (simp_all add: held_def)
  have "map_of (s_active (act a s)) t = Some (n, g)"
    using act_active [OF inv, of a] a m
    by (auto simp: map_add_def AList.delete_conv split: if_splits)
  with inv show "held t n g (act a s)" by (simp add: held_def act_inv)
qed

lemma held_section:
  assumes "held t n g s" and "affects m s s'" and "\<And>k. count_of s' k = count_of s k" and "rt_inv s'"
  shows "held t n g s'"
  using assms sys_inv_section [OF assms(2,3)] affects_active [OF assms(2)] by (simp add: held_def)

lemma recordCommandFailure_held:
  assumes h: "held t n g s"
  shows "held t n g (recordCommandFailure n g' c e d k s)"
proof -
  have inv: "sys_inv s" using h by (simp add: held_def)
  obtain w where w: "map_of (r_workerStates s) n = Some w"
    using slots_registered [OF inv, of t n g] h by (auto simp: held_def)
  show ?thesis
    by (rule held_section [OF h recordCommandFailure_affects])
       (simp_all add: failing_counts [OF w] recordCommandFailure_inv [OF sys_inv_rt [OF inv] w])
qed

lemma recordCommandPanic_held:
  assumes h: "held t n g s"
  shows "held t n g (recordCommandPanic n g' c e d k s)"
proof -
  have inv: "sys_inv s" using h by (simp add: held_def)
  obtain w where w: "map_of (r_workerStates s) n = Some w"
    using slots_registered [OF inv, of t n g] h by (auto simp: held_def)
  show ?thesis
    by (rule held_section [OF h recordCommandPanic_affects])
       (simp_all add: failing_counts [OF w] recordCommandPanic_inv [OF sys_inv_rt [OF inv] w])
qed

lemma others_allowed: "list_all (\<lambda>a. a \<noteq> ReleaseSlot t) (others t as)"
  by (simp add: others_def list_all_iff)

lemma shield_allowed: "list_all (attempt_allowed (\<lambda>a. a \<noteq> ReleaseSlot t)) (map (shield t) as)"
  by (simp add: list_all_iff attempt_allowed_def shield_def)
     (simp add: others_allowed [unfolded list_all_iff])

interpretation execute_client: retry_client "held t n g" "\<lambda>a. a \<noteq> ReleaseSlot t" call_worker
  "\<lambda>e k. recordCommandFailure n g' c e d k" for t n g g' c d
proof unfold_locales
  fix s a k
  assume h: "held t n g s" and ok: "attempt_allowed (\<lambda>a. a \<noteq> ReleaseSlot t) a"
  have "held t n g (run xs s)" if "list_all (\<lambda>a. a \<noteq> ReleaseSlot t) xs" for xs
    using that h by (induction xs arbitrary: s) (simp_all add: held_act)
  with ok show "held t n g (snd (call_worker a k s))"
    by (simp add: call_worker_def attempt_allowed_def)
qed (simp_all add: held_act recordCommandFailure_held)

section \<open>The slot is given back\<close>

definition given_back :: "nat \<Rightarrow> sys \<Rightarrow> bool" where
  "given_back t s \<longleftrightarrow> sys_inv s \<and> map_of (s_active s) t = None \<and> t < s_next s"

interpretation given_back: invariant_step act "given_back t" for t
proof unfold_locales
  fix s a
  assume h: "given_back t s"
  then have inv: "sys_inv s" by (simp add: given_back_def)
  have "map_of (s_active (act a s)) t = None \<and> t < s_next (act a s)"
    using act_active [OF inv, of a] h
    by (auto simp: given_back_def map_add_def AList.delete_conv)
  with inv show "given_back t (act a s)" by (simp add: given_back_def act_inv)
qed

lemma release_given_back:
  assumes h: "held t n g s"
  shows "given_back t (release_slot t s)"
proof -
  have inv: "sys_inv s" and m: "map_of (s_active s) t = Some (n, g)"
    using h by (simp_all add: held_def)
  have "t < s_next s" using inv map_of_SomeD [OF m] by (auto simp: sys_inv_def)
  then show ?thesis
    using release_slot_inv [OF inv, of t] m
    by (simp add: given_back_def release_slot_def releaseCommandSlot_def Let_def AList.delete_conv
        split: option.split)
qed

lemma finish_given_back:
  assumes h: "held t n g s"
  shows "given_back t (finishCommand t env req d k st err s)"
proof -
  have "held t n g (run (others t (de_beforeRelease env)) s)"
    using execute_client.run_keeps [OF h others_allowed] .
  then have "given_back t (run (de_beforeEnd env)
      (release_slot t (run (others t (de_beforeRelease env)) s)))"
    by (intro given_back.run_inv release_given_back)
  then show ?thesis
    by (simp add: finishCommand_def endCommandObservation_def Let_def given_back_def)
qed

lemma runAdmitted_given_back:
  assumes h: "held t (cq_worker req) g s"
    and run: "runAdmitted env req cfg t g d st s = (out, s')" and "out \<noteq> CommandBlocked"
  shows "given_back t s'"
proof -
  obtain o2 k s1 where ex: "executeCommand (de_ctx env) req cfg g d
      (map (shield t) (de_attempts env)) s = (o2, k, s1)"
    by (cases "executeCommand (de_ctx env) req cfg g d (map (shield t) (de_attempts env)) s")
  have h1: "held t (cq_worker req) g s1"
    using execute_client.runWithRetry_keeps [OF h shield_allowed,
        of "de_ctx env" "commandRetryPolicy cfg" g "cq_name req" d "de_attempts env"] ex
    by (simp add: executeCommand_def)
  show ?thesis
  proof (cases o2)
    case Panicking
    obtain pe again s2 where r: "recoverCommandPanic req cfg g d k s1 = (pe, again, s2)"
      by (cases "recoverCommandPanic req cfg g d k s1")
    then have "held t (cq_worker req) g s2"
      using recordCommandPanic_held [OF h1] by (auto simp: recoverCommandPanic_def Let_def)
    then show ?thesis
      using run ex Panicking r by (auto simp: runAdmitted_def intro: finish_given_back)
  next
    case (Finished e)
    then show ?thesis
      using run ex h1 by (cases e) (auto simp: runAdmitted_def intro: finish_given_back)
  next
    case Blocked
    then show ?thesis using assms(3) run ex by (simp add: runAdmitted_def)
  qed
qed

section \<open>What a dispatch does to its worker\<close>

definition service_view :: "workerState \<Rightarrow> LifecycleState \<times> generation \<times> bool \<times> bool \<times> FailureInfo option" where
  "service_view w = (lifecycle w, generation w, ready w, acceptingWork w, lastFailure w)"

lemma recordCommandFailure_view:
  "service_view (get_state (recordCommandFailure n g c e d k r) m) = service_view (get_state r m)"
  by (simp add: recordCommandFailure_def section_simps service_view_def)

lemma recordCommandPanic_view:
  "service_view (get_state (recordCommandPanic n g c e d k r) m) =
     (if m = n \<and> generation (get_state r n) = g
         \<and> lifecycle (get_state r n) \<in> {StateRunning, StateDraining}
      then (StateFailed, g, False, False,
            Some (failure_info (operationalFailure (Some e) commandFailure) (r_now r)))
      else service_view (get_state r m))"
proof (cases "m = n \<and> generation (get_state r n) = g
    \<and> (lifecycle (get_state r n) = StateRunning \<or> lifecycle (get_state r n) = StateDraining)")
  case True
  then show ?thesis by (auto simp: recordCommandPanic_def section_simps service_view_def)
next
  case False
  then have "service_view (get_state (recordCommandPanic n g c e d k r) m) = service_view (get_state r m)"
    by (cases "m = n"; cases "generation (get_state r n) = g")
       (simp_all add: recordCommandPanic_def section_simps service_view_def)
  with False show ?thesis by auto
qed

lemma release_view:
  "service_view (get_state (release_slot t s) m) = service_view (get_state s m)"
  by (auto simp: release_slot_def releaseCommandSlot_def section_simps service_view_def
      get_state_def [of s] split: option.splits)

lemma finish_view:
  "de_beforeRelease env = [] \<Longrightarrow> de_beforeEnd env = [] \<Longrightarrow>
   service_view (get_state (finishCommand t env req d k st err s) m) = service_view (get_state s m)"
  by (simp add: finishCommand_def endCommandObservation_def Let_def others_def release_view)

text \<open>A dispatch alone: nothing else acts while it runs.\<close>

definition alone :: "dispatch_env \<Rightarrow> bool" where
  "alone env \<longleftrightarrow>
     de_beforeAdmit env = [] \<and> de_beforeRelease env = [] \<and> de_beforeEnd env = []
     \<and> list_all (attempt_allowed (\<lambda>x. False)) (de_attempts env)"

interpretation alone_client: retry_client
  "\<lambda>s :: sys. \<forall>m. service_view (get_state s m) = V m" "\<lambda>x. False" call_worker
  "\<lambda>e k. recordCommandFailure n g c e d k" for V n g c d
proof unfold_locales
  fix s :: sys and a k
  assume "\<forall>m. service_view (get_state s m) = V m" "attempt_allowed (\<lambda>x. False) a"
  then show "\<forall>m. service_view (get_state (snd (call_worker a k s)) m) = V m"
    by (cases "at_script a") (simp_all add: call_worker_def attempt_allowed_def)
qed (simp_all add: recordCommandFailure_view)

lemma shield_alone:
  "list_all (attempt_allowed (\<lambda>x. False)) as \<Longrightarrow>
   list_all (attempt_allowed (\<lambda>x. False)) (map (shield t) as)"
  by (induction as) (auto simp: attempt_allowed_def shield_def others_def list_all_iff)

lemma execute_alone:
  assumes "list_all (attempt_allowed (\<lambda>x. False)) as"
  shows "service_view (get_state (snd (snd (executeCommand c req cfg g d (map (shield t) as) s))) m) =
         service_view (get_state s m)"
  using alone_client.runWithRetry_keeps [of s "\<lambda>m. service_view (get_state s m)",
      OF _ shield_alone [OF assms], of c "commandRetryPolicy cfg" "cq_worker req" g "cq_name req" d t]
  by (simp add: executeCommand_def)

text \<open>The observation is closed last, with the attempts made and the outcome.\<close>

lemma finish_last_call:
  "last (r_calls (finishCommand t env req d k st err s)) = EndCommand e
   \<Longrightarrow> ce_worker e = cq_worker req \<and> ce_command e = cq_name req \<and> ce_dispatchID e = d
       \<and> ce_attempts e = k \<and> ce_success e = (err = None) \<and> ce_cause e = err
       \<and> ce_startedAt e = st"
  by (auto simp: finishCommand_def endCommandObservation_def Let_def)

lemma finish_ends:
  "\<exists>e. last (r_calls (finishCommand t env req d k st err s)) = EndCommand e"
  by (simp add: finishCommand_def endCommandObservation_def Let_def)

end
