(* ===== verification/Reachable.thy ===== *)
theory Reachable
  imports Dispatch_Props
begin

text \<open>
  The runtime as a transition system: every state a program can bring a runtime to, through
  \<open>New\<close>, \<open>Register\<close>, the lifecycle operations, \<open>Dispatch\<close> and any interleaved actions; and the
  critical sections as steps of the lifecycle automaton.
\<close>

section \<open>Reachable states\<close>

definition fresh_system :: "runtime \<Rightarrow> sys" where
  "fresh_system r = runtime.extend r (sys.fields [] 0 [] [])"

inductive reachable :: "sys \<Rightarrow> bool" where
  new: "NewRuntime name opts = Inr r \<Longrightarrow> reachable (fresh_system r)"
| acting: "reachable s \<Longrightarrow> reachable (act a s)"
| registering: "reachable s \<Longrightarrow> r_gate s \<Longrightarrow> Register reg wopts s = (e, s') \<Longrightarrow> reachable s'"
| starting: "reachable s \<Longrightarrow> Start c pre as name s = (out, s') \<Longrightarrow> reachable s'"
| stopping: "reachable s \<Longrightarrow> Stop c pre as name s = (out, s') \<Longrightarrow> reachable s'"
| draining: "reachable s \<Longrightarrow> Drain c pre name s = (out, s') \<Longrightarrow> reachable s'"
| starting_all: "reachable s \<Longrightarrow> StartAll c pre env s = (out, s') \<Longrightarrow> reachable s'"
| draining_all: "reachable s \<Longrightarrow> DrainAll c pre env s = (out, s') \<Longrightarrow> reachable s'"
| draining_each: "reachable s \<Longrightarrow> DrainAllBestEffort c pre env s = (out, s') \<Longrightarrow> reachable s'"
| stopping_all: "reachable s \<Longrightarrow> StopAll c pre env s = (out, s') \<Longrightarrow> reachable s'"
| shutting_down: "reachable s \<Longrightarrow> Shutdown c pre senv s = (out, s') \<Longrightarrow> reachable s'"
| dispatching: "reachable s \<Longrightarrow> Dispatch denv req s = (dout, s') \<Longrightarrow> reachable s'"

lemma fresh_system_fields [simp]:
  "r_registrations (fresh_system r) = r_registrations r" "r_workerOrder (fresh_system r) = r_workerOrder r"
  "r_workerConfigs (fresh_system r) = r_workerConfigs r" "r_commands (fresh_system r) = r_commands r"
  "r_workerStates (fresh_system r) = r_workerStates r" "r_status (fresh_system r) = r_status r"
  "r_identity (fresh_system r) = r_identity r" "r_config (fresh_system r) = r_config r"
  "r_gate (fresh_system r) = r_gate r" "r_admissionClosed (fresh_system r) = r_admissionClosed r"
  "s_active (fresh_system r) = []" "s_next (fresh_system r) = 0" "s_done (fresh_system r) = []"
  "s_output (fresh_system r) = []"
  by (simp_all add: fresh_system_def runtime.defs sys.defs)

lemma fresh_system_inv:
  assumes "NewRuntime name opts = Inr r"
  shows "sys_inv (fresh_system r)"
proof -
  note f = NewRuntime_fields [OF assms]
  have "rt_inv (fresh_system r) = rt_inv r" by (rule rt_inv_cong) simp_all
  then have "rt_inv (fresh_system r)" using NewRuntime_inv [OF assms] by simp
  then show ?thesis by (simp add: sys_inv_def f)
qed

lemma Register_fields:
  assumes "Register reg opts r = (None, r')"
  defines "q \<equiv> qualifyWorkerName (r_identity r) (sp_name reg)"
  shows "r_workerStates r' = gm_set q (new_workerState q (sp_name reg)) (r_workerStates r)"
    "r_workerOrder r' = r_workerOrder r @ [q]" "runtime.more r' = runtime.more r"
    "r_config r' = r_config r" "rs_inFlight (r_status r') = rs_inFlight (r_status r)"
    "map_of (r_registrations r) q = None"
    "m \<noteq> q \<Longrightarrow> get_config r' m = get_config r m"
  using assms unfolding q_def
  by (auto simp: Register_def Let_def get_config_def split: option.splits sum.splits if_splits)

lemma Register_sys_inv:
  fixes s :: sys
  assumes inv: "sys_inv s" and reg: "Register spec opts s = (e, s')"
  shows "sys_inv s'"
proof (cases e)
  case (Some x)
  with reg have "s' = s" using Register_rejected by blast
  with inv show ?thesis by simp
next
  case None
  let ?q = "qualifyWorkerName (r_identity s) (sp_name spec)"
  note f = Register_fields [OF reg [unfolded None]]
  have rt: "rt_inv s" using inv by (rule sys_inv_rt)
  have rt': "rt_inv s'" by (rule Register_inv [OF rt reg [unfolded None]])
  have act: "s_active s' = s_active s" "s_next s' = s_next s"
    using f(3) by (cases s; cases s'; simp)+
  have fresh: "?q \<notin> set (r_workerOrder s)"
    using f(6) rt_inv_registered(2) [OF rt, of ?q] by blast
  have none: "map_of (r_workerStates s) ?q = None"
    using rt_inv_registered(1) [OF rt, of ?q] fresh by blast
  have states: "r_workerStates s' = r_workerStates s @ [(?q, new_workerState ?q (sp_name spec))]"
    using f(1) gm_set_absent [OF none] by simp
  have sl: "slots m s' = slots m s" for m by (simp add: slots_def act)
  have "slots ?q s = 0"
    using inv fresh by (auto simp: slots_def sys_inv_def filter_empty_conv)
  then have new: "inFlight (new_workerState ?q (sp_name spec)) = int (slots ?q s)"
    by (simp add: new_workerState_def zero_workerState_def)
  have cfg: "get_config s' n = get_config s n" if "(n, w) \<in> set (r_workerStates s)" for n w
  proof (rule f(7))
    have "map_of (r_workerStates s) n \<noteq> None"
      using that by (auto simp: map_of_eq_None_iff intro: image_eqI [of _ _ "(n, w)"])
    with none show "n \<noteq> ?q" by auto
  qed
  have "\<forall>(n, w) \<in> set (r_workerStates s'). inFlight w = int (slots n s')"
    using inv new by (auto simp: states sl sys_inv_def)
  moreover have "\<forall>(n, w) \<in> set (r_workerStates s'). wc_commandConcurrency (get_config s' n) > 0
      \<longrightarrow> inFlight w \<le> wc_commandConcurrency (get_config s' n)"
    using inv by (auto simp: states sys_inv_def cfg new_workerState_def zero_workerState_def)
  ultimately show ?thesis
    using inv rt' unfolding sys_inv_def act f(2,4,5) by auto
qed

lemma endObservation_inv [simp]: "sys_inv (endCommandObservation w c d k st e s) = sys_inv s"
  by (simp add: endCommandObservation_def Let_def)

lemma runAdmitted_inv:
  assumes h: "held t (cq_worker req) g s" and run: "runAdmitted env req cfg t g d st s = (out, s')"
  shows "sys_inv s'"
proof (cases "out = CommandBlocked")
  case False
  from runAdmitted_given_back [OF h run False] show ?thesis by (simp add: given_back_def)
next
  case True
  obtain o2 k s1 where ex: "executeCommand (de_ctx env) req cfg g d
      (map (shield t) (de_attempts env)) s = (o2, k, s1)"
    by (cases "executeCommand (de_ctx env) req cfg g d (map (shield t) (de_attempts env)) s")
  have "held t (cq_worker req) g s1"
    using execute_client.runWithRetry_keeps [OF h shield_allowed,
        of "de_ctx env" "commandRetryPolicy cfg" g "cq_name req" d "de_attempts env"] ex
    by (simp add: executeCommand_def)
  moreover have "s' = s1"
    using run ex True by (auto simp: runAdmitted_def split: outcome.splits option.splits
        prod.splits if_splits)
  ultimately show ?thesis by (simp add: held_def)
qed

lemma admit_slot_held:
  assumes inv: "sys_inv s" and ad: "admit_slot n s = (Inr (t, g), s')"
  shows "held t n g s' \<and> t = s_next s"
proof (cases n s rule: admitCommand_cases)
  case (refused e)
  with ad show ?thesis by (simp add: admit_slot_def)
next
  case (admitted w)
  have "sys_inv s'" using admit_slot_inv [OF inv, of n] ad by simp
  moreover have "map_of (s_active s) (s_next s) = None"
    using inv by (fastforce simp: sys_inv_def map_of_eq_None_iff)
  ultimately show ?thesis
    using ad admitted(2) by (auto simp: admit_slot_def admitted_def held_def map_add_def)
qed

lemma Dispatch_inv:
  assumes inv: "sys_inv s" and run: "Dispatch env req s = (out, s')"
  shows "sys_inv s'"
proof (cases "normalizeCommandRequest req (r_now s) s")
  case (Inl e)
  with run inv show ?thesis by (simp add: Dispatch_def)
next
  case (Inr req1)
  note n = this
  show ?thesis
  proof (cases "lookupCommandTarget req1 s")
    case (Inl e)
    with run inv n show ?thesis by (simp add: Dispatch_def)
  next
    case (Inr p)
    obtain cfg reg where p: "p = (cfg, reg)" by (cases p)
    let ?req = "req1\<lparr>cq_worker := cr_worker reg, cq_name := cr_name reg\<rparr>"
    obtain d s1 where d: "nextCommandDispatchID s = (d, s1)" by (cases "nextCommandDispatchID s")
    let ?s2 = "startCommandObservation (cr_worker reg) (cr_name reg) d (r_now s) s1"
    have "sys_inv s1" using inv d by (auto simp: nextCommandDispatchID_def Let_def)
    then have i2: "sys_inv (run (de_beforeAdmit env) ?s2)"
      by (simp add: startCommandObservation_def)
    obtain a s3 where a: "admit_slot (cr_worker reg) (run (de_beforeAdmit env) ?s2) = (a, s3)"
      by (cases "admit_slot (cr_worker reg) (run (de_beforeAdmit env) ?s2)")
    show ?thesis
    proof (cases a)
      case (Inl e)
      have "sys_inv s3" using admit_slot_inv [OF i2, of "cr_worker reg"] a by simp
      with run n Inr p d a Inl show ?thesis by (auto simp: Dispatch_def Let_def)
    next
      case slot: (Inr tg)
      obtain t g where tg: "tg = (t, g)" by (cases tg)
      have "held t (cr_worker reg) g s3" using admit_slot_held [OF i2] a slot tg by simp
      moreover have "runAdmitted env ?req cfg t g d (r_now s) s3 = (out, s')"
        using run n Inr p d a slot tg by (simp add: Dispatch_def Let_def)
      ultimately show ?thesis using runAdmitted_inv [of t ?req] by simp
    qed
  qed
qed

lemma reachable_sys_inv: "reachable s \<Longrightarrow> sys_inv s"
proof (induction rule: reachable.induct)
  case (starting s c pre as name out s')
  then show ?case using start_op.gated by (simp add: Start_def)
next
  case (stopping s c pre as name out s')
  then show ?case using stop_op.gated by (simp add: Stop_def)
next
  case (draining s c pre name out s')
  then show ?case using drain_op.gated by (simp add: Drain_def)
next
  case (starting_all s c pre env out s')
  then show ?case using startAll_op.gated by (simp add: StartAll_def)
next
  case (draining_all s c pre env out s')
  then show ?case using drainAll_op.gated by (simp add: DrainAll_def)
next
  case (draining_each s c pre env out s')
  then show ?case using drainEach_op.gated by (simp add: DrainAllBestEffort_def)
next
  case (stopping_all s c pre env out s')
  then show ?case using stopAll_op.gated by (simp add: StopAll_def)
next
  case (shutting_down s c pre senv out s')
  then show ?case using shutdown_op.gated by (simp add: Shutdown_def)
qed (auto intro: fresh_system_inv act_inv Register_sys_inv Dispatch_inv)

section \<open>Critical sections and the lifecycle automaton\<close>

text \<open>The steps a runtime is made of: an action, or a section that a lifecycle operation runs,
  under the condition it runs it in. The last five run between the begin and the completion
  of the operation on their worker.\<close>

inductive section_step :: "sys \<Rightarrow> sys \<Rightarrow> bool" where
  action_step: "section_step s (act a s)"
| begin_start: "section_step s (snd (beginWorkerStart n s))"
| begin_stop: "section_step s (snd (beginWorkerStop n s))"
| begin_drain: "section_step s (snd (beginWorkerDrain n s))"
| complete_start: "section_step s (snd (completeWorkerStart n g rdy acc s))"
| complete_stop:
    "section_step s (snd (completeWorkerTransition n g StateStopping StateStopped False False s))"
| fail: "in_operation n s \<Longrightarrow> section_step s (failWorker n g e panicked s)"
| fail_cleanup: "in_operation n s \<Longrightarrow> section_step s (failLoopCleanup n g e s)"
| record_status: "in_operation n s \<Longrightarrow> section_step s (recordWorkerFailureStatus n g e s)"

lemma may_fail_moves: "may_fail w w' \<Longrightarrow> worker_moves w w'"
  by (auto simp: may_fail_def worker_moves_def)

lemma affects_moves:
  assumes "affects n s s'" and "worker_moves (get_state s n) (get_state s' n)"
  shows "worker_moves (get_state s m) (get_state s' m)"
  using assms affects_other [OF assms(1), of m] by (cases "m = n") simp_all

lemma section_step_moves:
  assumes step: "section_step s s'" and inv: "sys_inv s"
  shows "worker_moves (get_state s m) (get_state s' m)"
  using step
proof (cases rule: section_step.cases)
  case (action_step a)
  then show ?thesis using act_may_fail [OF inv, of m a] by (simp add: may_fail_moves)
next
  case (begin_start n)
  then show ?thesis using affects_moves [OF beginWorkerStart_affects beginWorkerStart_moves] by simp
next
  case (begin_stop n)
  then show ?thesis using affects_moves [OF beginWorkerStop_affects beginWorkerStop_moves] by simp
next
  case (begin_drain n)
  then show ?thesis using affects_moves [OF beginWorkerDrain_affects beginWorkerDrain_moves] by simp
next
  case (complete_start n g rdy acc)
  then show ?thesis
    using affects_moves [OF completeWorkerStart_affects completeWorkerStart_moves] by simp
next
  case (complete_stop n g)
  then show ?thesis
    using affects_moves [OF completeWorkerTransition_affects completeWorkerTransition_moves] by simp
next
  case (fail n g e p)
  then show ?thesis using affects_moves [OF failWorker_affects failWorker_moves] by simp
next
  case (fail_cleanup n g e)
  then show ?thesis using affects_moves [OF failLoopCleanup_affects failLoopCleanup_moves] by simp
next
  case (record_status n g e)
  then show ?thesis
    using affects_moves [OF recordWorkerFailureStatus_affects recordWorkerFailureStatus_moves]
    by simp
qed

end
