(* ===== verification/Example_Runtime.thy ===== *)
theory Example_Runtime
  imports Reachable
begin

text \<open>
  A concrete runtime for the witnesses: \<open>New("c")\<close>, two registered workers \<open>a\<close> and \<open>b\<close>, the
  first with a command \<open>ping\<close> whose concurrency limit is 1, and the states it reaches by
  starting and dispatching.
\<close>

definition ex_runtime :: runtime where
  "ex_runtime =
     \<lparr>r_gate = True, r_identity = ''c'', r_config = defaultRuntimeConfig, r_registrations = [],
      r_workerOrder = [], r_workerConfigs = [], r_commands = [], r_workerStates = [],
      r_dispatchSeq = 0,
      r_status = \<lparr>rs_name = ''c'', rs_state = StateRegistered, rs_ready = False,
                  rs_inFlight = 0, rs_workers = 0, rs_lastTransition = None\<rparr>,
      r_admissionClosed = False, r_now = 0, r_calls = []\<rparr>"

definition ex_spec :: "string \<Rightarrow> WorkerSpec" where
  "ex_spec n = \<lparr>sp_name = n, sp_description = '''', sp_worker = Some 1\<rparr>"

definition ex_ping :: CommandSpec where
  "ex_ping = \<lparr>csp_name = ''ping'', csp_description = '''', csp_payloadKind = '''',
             csp_dangerous = False, csp_idempotent = True, csp_attributes = [],
             csp_handler = Some 1\<rparr>"

definition ex_opts :: "WorkerOption option list" where
  "ex_opts = [Some (WithCommandSpec ex_ping), Some (WithWorkerCommandConcurrency 1)]"

definition ex_config :: workerConfig where
  "ex_config = defaultWorkerConfig\<lparr>wc_commands := [ex_ping], wc_commandConcurrency := 1\<rparr>"

definition ex_command :: commandRegistration where
  "ex_command = \<lparr>cr_worker = ''c/a'', cr_name = ''ping'', cr_description = '''',
                cr_payloadKind = '''', cr_dangerous = False, cr_idempotent = True,
                cr_attributes = [], cr_handler = 1\<rparr>"

text \<open>The runtime with both workers, given the records of the two.\<close>

definition ex_with :: "workerState \<Rightarrow> workerState \<Rightarrow> RuntimeStatus \<Rightarrow> observation list \<Rightarrow> sys" where
  "ex_with a b status calls =
     \<lparr>r_gate = True, r_identity = ''c'', r_config = defaultRuntimeConfig,
      r_registrations = [(''c/a'', ex_spec ''a''), (''c/b'', ex_spec ''b'')],
      r_workerOrder = [''c/a'', ''c/b''],
      r_workerConfigs = [(''c/a'', ex_config), (''c/b'', defaultWorkerConfig)],
      r_commands = [(''c/a'', [(''ping'', ex_command)]), (''c/b'', [])],
      r_workerStates = [(''c/a'', a), (''c/b'', b)],
      r_dispatchSeq = 0, r_status = status,
      r_admissionClosed = False, r_now = 0, r_calls = calls,
      s_active = [], s_next = 0, s_done = [], s_output = []\<rparr>"

definition ex_registered :: sys where
  "ex_registered =
     ex_with (new_workerState ''c/a'' ''a'') (new_workerState ''c/b'' ''b'')
       \<lparr>rs_name = ''c'', rs_state = StateRegistered, rs_ready = False,
        rs_inFlight = 0, rs_workers = 2, rs_lastTransition = None\<rparr> []"

text \<open>The runtime between its two registrations.\<close>

definition ex_one :: sys where
  "ex_one =
     \<lparr>r_gate = True, r_identity = ''c'', r_config = defaultRuntimeConfig,
      r_registrations = [(''c/a'', ex_spec ''a'')], r_workerOrder = [''c/a''],
      r_workerConfigs = [(''c/a'', ex_config)], r_commands = [(''c/a'', [(''ping'', ex_command)])],
      r_workerStates = [(''c/a'', new_workerState ''c/a'' ''a'')], r_dispatchSeq = 0,
      r_status = \<lparr>rs_name = ''c'', rs_state = StateRegistered, rs_ready = False,
                  rs_inFlight = 0, rs_workers = 1, rs_lastTransition = None\<rparr>,
      r_admissionClosed = False, r_now = 0, r_calls = [],
      s_active = [], s_next = 0, s_done = [], s_output = []\<rparr>"

definition returns_nil :: attempt where
  "returns_nil = \<lparr>at_script = [], at_result = Returns None, at_after = [], at_wait = [],
                 at_timer = True\<rparr>"

definition ex_running :: sys where
  "ex_running = snd (Start 0 [] [returns_nil] ''c/a'' ex_registered)"

section \<open>They are reachable\<close>

lemma ident_a: "is_identifier ''a''" "is_identifier ''b''" "is_identifier ''c''"
  "is_identifier ''ping''"
  by (simp_all add: is_identifier_def ident_char_def)

lemma ex_new: "NewRuntime ''c'' [] = Inr ex_runtime"
  using ident_a
  by (simp add: NewRuntime_def ValidateRuntimeName_def validateIdentifier_accepts apply_options_def
      runtimeConfig_validate_def defaultRuntimeConfig_def workerConfig_validate_def
      defaultWorkerConfig_def second_def validReadinessPolicy_def validPanicPolicy_def
      validFailurePolicy_def ex_runtime_def)

lemma ping_valid: "ValidateCommandName ''ping'' = None"
  unfolding valid_command_name using ident_a(4) by (intro exI [of _ "[''ping'']"]) simp

lemmas ex_defs = ex_spec_def ex_opts_def ex_ping_def ex_command_def ex_config_def ex_with_def
  ex_registered_def ex_runtime_def fresh_system_def runtime.defs sys.defs

lemmas status_defs = recomputeStatusLocked_def statusFactsLocked_def initialFacts_def
  deriveRuntimeLifecycleState_def deriveRuntimeReadiness_def
  deriveRuntimeLifecycleTransition_def addFacts_def addLifecycleFacts_def
  new_workerState_def zero_workerState_def get_config_def

lemmas config_defs = apply_options_def WithCommandSpec_def WithWorkerCommandConcurrency_def
  workerConfig_validate_def defaultRuntimeConfig_def defaultWorkerConfig_def second_def
  validPanicPolicy_def validFailurePolicy_def bindWorkerCommands_def commands_map_def
  cloneCommandAttributes_def qualifyWorkerName_def

lemma ex_registered_reachable: "reachable ex_registered"
proof -
  let ?s0 = "fresh_system ex_runtime"
  have s0: "reachable ?s0" by (rule reachable.new [OF ex_new])
  have v: "validateIdentifier ''a'' f = None" "validateIdentifier ''b'' f = None" for f
    using ident_a by (simp_all add: validateIdentifier_accepts)
  have one: "Register (ex_spec ''a'') ex_opts ?s0 = (None, ex_one)"
    by (simp add: Register_def v ping_valid Let_def ex_defs ex_one_def config_defs status_defs)
  have two: "Register (ex_spec ''b'') [] ex_one = (None, ex_registered)"
    by (simp add: Register_def v Let_def ex_defs ex_one_def config_defs status_defs)
  have "reachable ex_one"
    by (rule reachable.registering [OF s0 _ one]) (simp add: ex_runtime_def)
  then show ?thesis by (rule reachable.registering [OF _ _ two]) (simp add: ex_one_def)
qed

section \<open>Running them\<close>

lemma ex_registered_inv: "sys_inv ex_registered"
  by (rule reachable_sys_inv [OF ex_registered_reachable])

lemma ex_resolve: "resolveWorkerName ''c'' ''c/a'' = Inr ''c/a''" "resolveWorkerName ''c'' ''c/b'' = Inr ''c/b''"
  using resolveWorkerName_qualified [OF ident_a(3) ident_a(1), of "''c''"]
    resolveWorkerName_qualified [OF ident_a(3) ident_a(2), of "''c''"]
  by (simp_all add: qualifyWorkerName_def)

lemma ex_look:
  "lookupWorker ''c/a'' ex_registered = Inr (''c/a'', Some 1, ex_config)"
  by (simp add: lookupWorker_def resolveWorkerNameStrict_def ex_registered_def ex_with_def
      ex_resolve get_config_def ex_spec_def)

lemma ex_state: "map_of (r_workerStates ex_registered) ''c/a'' = Some (new_workerState ''c/a'' ''a'')"
  by (simp add: ex_registered_def ex_with_def)

lemmas run_defs = start_def beginWorkerStart_def section_simps runWithRetry_def call_worker_def
  returns_nil_def completeWorkerStart_def commitWorkerStateLocked_def set_worker_def moved_to_def
  observing_defs observe_def

lemma ex_start:
  "fst (start 0 [returns_nil] ''c/a'' ex_registered) = Finished None"
  unfolding start_def ex_look
  by (simp add: beginWorkerStart_def section_simps runWithRetry_def call_worker_def
      returns_nil_def completeWorkerStart_def ex_state, simp add: new_workerState_def zero_workerState_def)

definition ex_closed :: sys where
  "ex_closed = ex_registered\<lparr>r_gate := False\<rparr>"

lemma ex_closed_look:
  "lookupWorker ''c/a'' ex_closed = Inr (''c/a'', Some 1, ex_config)"
  "map_of (r_workerStates ex_closed) ''c/a'' = Some (new_workerState ''c/a'' ''a'')"
  by (simp_all add: ex_closed_def lookupWorker_def resolveWorkerNameStrict_def get_config_def
      ex_registered_def ex_with_def ex_resolve ex_spec_def)

lemma ex_closed_start:
  "fst (start 0 [returns_nil] ''c/a'' ex_closed) = Finished None"
  "get_state (snd (start 0 [returns_nil] ''c/a'' ex_closed)) ''c/a'' =
     (new_workerState ''c/a'' ''a'')
       \<lparr>generation := 1, lifecycle := StateRunning, ready := True, acceptingWork := True,
        lastTransition := Some \<lparr>lt_from = StateStarting, lt_to = StateRunning, lt_at = 0\<rparr>\<rparr>"
proof -
  define s1 where "s1 = snd (beginWorkerStart ''c/a'' ex_closed)"
  have "fst (beginWorkerStart ''c/a'' ex_closed) = Inr 1"
    by (simp add: beginWorkerStart_def section_simps ex_closed_look(2))
       (simp add: new_workerState_def zero_workerState_def)
  then have b: "beginWorkerStart ''c/a'' ex_closed = (Inr 1, s1)"
    by (cases "beginWorkerStart ''c/a'' ex_closed") (simp add: s1_def)
  have now0: "r_now ex_closed = 0" by (simp add: ex_closed_def ex_registered_def ex_with_def)
  have g1: "get_state s1 ''c/a'' = (new_workerState ''c/a'' ''a'')
       \<lparr>generation := 1, lifecycle := StateStarting,
        lastTransition := Some \<lparr>lt_from = StateRegistered, lt_to = StateStarting, lt_at = 0\<rparr>\<rparr>"
    by (simp add: s1_def beginWorkerStart_def section_simps ex_closed_look(2) now0)
       (simp add: new_workerState_def zero_workerState_def moved_to_def)
  have now: "r_now s1 = 0"
    using b beginWorkerStart_affects [of "''c/a''" ex_closed] rest_eqD(10)
    by (fastforce simp: affects_def now0)
  have run: "start 0 [returns_nil] ''c/a'' ex_closed =
      (case completeWorkerStart ''c/a'' 1 True True s1 of (err, s3) \<Rightarrow> (Finished err, s3))"
    unfolding start_def ex_closed_look
    by (simp add: b runWithRetry_def call_worker_def returns_nil_def ex_config_def
        defaultWorkerConfig_def)
  show "fst (start 0 [returns_nil] ''c/a'' ex_closed) = Finished None"
    unfolding run
    by (simp add: completeWorkerStart_def section_simps g1 new_workerState_def zero_workerState_def)
  show "get_state (snd (start 0 [returns_nil] ''c/a'' ex_closed)) ''c/a'' =
     (new_workerState ''c/a'' ''a'')
       \<lparr>generation := 1, lifecycle := StateRunning, ready := True, acceptingWork := True,
        lastTransition := Some \<lparr>lt_from = StateStarting, lt_to = StateRunning, lt_at = 0\<rparr>\<rparr>"
    unfolding run
    by (simp add: completeWorkerStart_def section_simps g1 new_workerState_def
        zero_workerState_def moved_to_def now)
qed

lemma ex_running_eq:
  "ex_running = (snd (start 0 [returns_nil] ''c/a'' ex_closed))\<lparr>r_gate := True\<rparr>"
  "Start 0 [] [returns_nil] ''c/a'' ex_registered = (Finished None, ex_running)"
proof -
  have acq: "acquireLifecycle 0 [] ex_registered = (Acquired, ex_closed)"
    by (simp add: acquireLifecycle_def ctx_Err_def ex_registered_def ex_with_def ex_closed_def)
  have "Start 0 [] [returns_nil] ''c/a'' ex_registered =
      (Finished None, (snd (start 0 [returns_nil] ''c/a'' ex_closed))\<lparr>r_gate := True\<rparr>)"
    using ex_closed_start(1)
    by (cases "start 0 [returns_nil] ''c/a'' ex_closed") (simp add: Start_def runLifecycle_def acq)
  then show "ex_running = (snd (start 0 [returns_nil] ''c/a'' ex_closed))\<lparr>r_gate := True\<rparr>"
    "Start 0 [] [returns_nil] ''c/a'' ex_registered = (Finished None, ex_running)"
    by (simp_all add: ex_running_def)
qed

lemma ex_running_reachable: "reachable ex_running"
  by (rule reachable.starting [OF ex_registered_reachable ex_running_eq(2)])

definition ex_a :: workerState where
  "ex_a = (new_workerState ''c/a'' ''a'')
     \<lparr>generation := 1, lifecycle := StateRunning, ready := True, acceptingWork := True,
      lastTransition := Some \<lparr>lt_from = StateStarting, lt_to = StateRunning, lt_at = 0\<rparr>\<rparr>"

lemma ex_running_frozen: "frozen ex_running = frozen ex_registered"
proof -
  have inv: "sys_inv ex_closed" using ex_registered_inv by (simp add: ex_closed_def)
  have "bulk_frame ex_closed (snd (start 0 [returns_nil] ''c/a'' ex_closed))"
    by (rule start_bulk [OF inv])
  then have "frozen (snd (start 0 [returns_nil] ''c/a'' ex_closed)) = frozen ex_closed"
    by (simp add: bulk_frame_def)
  then show ?thesis
    by (simp add: ex_running_eq(1) frozen_def ex_closed_def ex_registered_def ex_with_def)
qed

lemma ex_running_state: "map_of (r_workerStates ex_running) ''c/a'' = Some ex_a"
proof -
  have "''c/a'' \<in> set (r_workerOrder ex_running)"
    using ex_running_frozen by (simp add: frozen_def ex_registered_def ex_with_def)
  from state_present [OF sys_inv_rt [OF reachable_sys_inv [OF ex_running_reachable]] this]
  show ?thesis using ex_closed_start(2) by (simp add: ex_running_eq(1) ex_a_def)
qed

lemma ex_running_look: "lookupWorker ''c/a'' ex_running = Inr (''c/a'', Some 1, ex_config)"
  using lookupWorker_frozen [OF ex_running_frozen] ex_look by simp

end
