(* ===== verification/Runtime_Claims.thy ===== *)
theory Runtime_Claims
  imports Example_Runtime
begin

text \<open>
  The properties of the runtime, each for every reachable state and every environment, with a
  concrete instance of each.
\<close>

section \<open>Invariants of every reachable state\<close>

text \<open>C1: in every state a program can reach, the four maps of the runtime (registrations,
  configurations, commands and worker states) have the registered workers as their keys, each once
  and in the order of registration, every worker record is well formed (ready or accepting work only while starting or
  running, a failed worker has a failure, the last transition is an edge into the current
  state), the aggregate status is the one its workers determine, and the runtime's in-flight
  count is the sum of the workers', each of which is the number of command slots held.\<close>

theorem reachable_consistent:
  assumes "reachable s"
  shows "distinct (r_workerOrder s) \<and> map fst (r_registrations s) = r_workerOrder s
    \<and> map fst (r_workerConfigs s) = r_workerOrder s \<and> map fst (r_commands s) = r_workerOrder s
    \<and> map fst (r_workerStates s) = r_workerOrder s
    \<and> (\<forall>(n, w) \<in> set (r_workerStates s). worker_ok n w \<and> inFlight w = int (slots n s))
    \<and> rs_state (r_status s) = deriveRuntimeLifecycleState s (statusFactsLocked s)
    \<and> rs_ready (r_status s) = deriveRuntimeReadiness s (statusFactsLocked s)
    \<and> rs_inFlight (r_status s) = sum_list (map (inFlight \<circ> snd) (r_workerStates s))"
proof -
  have inv: "sys_inv s" using assms by (rule reachable_sys_inv)
  have rt: "rt_inv s" using inv by (rule sys_inv_rt)
  have "\<forall>(n, w) \<in> set (r_workerStates s). worker_ok n w \<and> inFlight w = int (slots n s)"
    using inv rt by (auto simp: sys_inv_def rt_inv_def)
  with rt rt_inv_fresh [OF rt] show ?thesis by (simp add: rt_inv_def status_fresh_def)
qed

theorem reachable_consistent_witness:
  "rs_inFlight (r_status ex_registered) = 0 \<and> distinct (r_workerOrder ex_registered)"
  using reachable_consistent [OF ex_registered_reachable]
  by (simp add: ex_registered_def ex_with_def new_workerState_def zero_workerState_def)

text \<open>C8: the concurrency limits hold in every reachable state, whatever the interleaving of
  dispatches: the runtime's and each worker's commands in flight never exceed a positive
  limit, and neither counter is negative.\<close>

theorem limits_respected:
  assumes "reachable s" and "map_of (r_workerStates s) n = Some w"
  shows "0 \<le> inFlight w \<and> 0 \<le> rs_inFlight (r_status s)
    \<and> (0 < wc_commandConcurrency (get_config s n)
         \<longrightarrow> inFlight w \<le> wc_commandConcurrency (get_config s n))
    \<and> (0 < rc_commandConcurrency (r_config s)
         \<longrightarrow> rs_inFlight (r_status s) \<le> rc_commandConcurrency (r_config s))"
proof -
  have inv: "sys_inv s" using assms(1) by (rule reachable_sys_inv)
  have "0 \<le> sum_list (map (inFlight \<circ> snd) (r_workerStates s))"
    using inv by (intro sum_list_nonneg) (auto simp: sys_inv_def)
  then have "0 \<le> rs_inFlight (r_status s)" using sys_inv_rt [OF inv] by (simp add: rt_inv_def)
  then show ?thesis
    using sys_inv_slots [OF inv assms(2)] sys_inv_limit [OF inv assms(2)] inv
    by (simp add: sys_inv_def)
qed

theorem limits_respected_witness:
  "wc_commandConcurrency (get_config ex_registered ''c/a'') = 1
   \<and> inFlight (new_workerState ''c/a'' ''a'') \<le> 1 \<and> 0 \<le> rs_inFlight (r_status ex_registered)"
proof -
  have "wc_commandConcurrency (get_config ex_registered ''c/a'') = 1"
    by (simp add: ex_registered_def ex_with_def get_config_def ex_config_def)
  with limits_respected [OF ex_registered_reachable ex_state] show ?thesis by simp
qed

text \<open>C12: the runtime refines the lifecycle automaton. Every critical section, of a lifecycle
  operation or of any concurrent code, leaves each worker's lifecycle and generation alone or
  moves it along an edge of the automaton, and the generation grows exactly on entering
  starting.\<close>

theorem sections_follow_automaton:
  assumes "reachable s" and "section_step s s'"
  shows "lifecycle (get_state s' m) = lifecycle (get_state s m)
           \<and> generation (get_state s' m) = generation (get_state s m)
       \<or> lifecycle_edge (lifecycle (get_state s m)) (lifecycle (get_state s' m))
           \<and> generation (get_state s' m) =
               generation (get_state s m)
               + (if lifecycle (get_state s' m) = StateStarting then 1 else 0)"
  using section_step_moves [OF assms(2) reachable_sys_inv [OF assms(1)], of m]
  by (auto simp: worker_moves_def)

theorem sections_follow_automaton_witness:
  "lifecycle (get_state (snd (beginWorkerStart ''c/a'' ex_registered)) ''c/a'') = StateStarting
   \<and> generation (get_state (snd (beginWorkerStart ''c/a'' ex_registered)) ''c/a'') = 1"
proof -
  have l: "lifecycle (get_state (snd (beginWorkerStart ''c/a'' ex_registered)) ''c/a'') = StateStarting"
    by (simp add: beginWorkerStart_def section_simps ex_state)
       (simp add: new_workerState_def zero_workerState_def)
  with sections_follow_automaton [OF ex_registered_reachable section_step.begin_start, of "''c/a''" "''c/a''"]
  show ?thesis by (simp add: ex_state new_workerState_def zero_workerState_def)
qed

section \<open>Generations\<close>

text \<open>A handle of an earlier generation is inert. Each of its three signals is refused and
  changes nothing.\<close>

lemma stale_handle_rejected:
  assumes "map_of (r_workerStates r) n = Some w" and "generation w \<noteq> g"
  shows "setWorkerReady n g b r = (Some (staleWorkerGenerationError n g (generation w)), r)
    \<and> setWorkerAcceptingWork n g b r = (Some (staleWorkerGenerationError n g (generation w)), r)
    \<and> reportWorkerFailure n g (Some e) r = (Some (staleWorkerGenerationError n g (generation w)), r)"
  using assms by (simp add: setWorkerReady_def setWorkerAcceptingWork_def reportWorkerFailure_def Let_def)

section \<open>Start and Stop\<close>

text \<open>What reports a failure of the generation that is starting: \<open>ReportFailure\<close> with an error, through a
  handle of that generation. The runtime remembers it until the start completes.\<close>

definition failure_reports :: "string \<Rightarrow> generation \<Rightarrow> action list \<Rightarrow> bool" where
  "failure_reports n g as \<longleftrightarrow> (\<exists>e. SignalFailure n g (Some e) \<in> set as)"

lemma reported_self:
  "failureReportedDuringStart (get_state (snd (setWorkerReady n g b r)) n) =
     failureReportedDuringStart (get_state r n)"
  "failureReportedDuringStart (get_state (snd (setWorkerAcceptingWork n g b r)) n) =
     failureReportedDuringStart (get_state r n)"
  "failureReportedDuringStart (get_state (recordCommandFailure n g c e d k r) n) =
     failureReportedDuringStart (get_state r n)"
  "lifecycle (get_state r n) = StateStarting \<Longrightarrow>
     failureReportedDuringStart (get_state (recordCommandPanic n g c e d k r) n) =
     failureReportedDuringStart (get_state r n)"
  "failureReportedDuringStart (get_state (recordWorkerFailureStatus n g e' r) n) =
     failureReportedDuringStart (get_state r n)"
  by (auto simp: setWorkerReady_def setWorkerAcceptingWork_def recordCommandFailure_def
      recordCommandPanic_def recordWorkerFailureStatus_def section_simps split: option.split)

lemma reported_by_handle:
  assumes "map_of (r_workerStates r) n = Some w" and "lifecycle (get_state r n) = StateStarting"
  shows "failureReportedDuringStart (get_state (snd (reportWorkerFailure n h e r)) n) \<longleftrightarrow>
    failureReportedDuringStart (get_state r n) \<or> h = generation (get_state r n) \<and> e \<noteq> None"
  using assms by (auto simp: reportWorkerFailure_def section_simps)

lemma reported_any:
  "failureReportedDuringStart (get_state (snd (setWorkerReady m g b r)) n) =
     failureReportedDuringStart (get_state r n)"
  "failureReportedDuringStart (get_state (snd (setWorkerAcceptingWork m g b r)) n) =
     failureReportedDuringStart (get_state r n)"
  "failureReportedDuringStart (get_state (recordCommandFailure m g c e d k r) n) =
     failureReportedDuringStart (get_state r n)"
  "lifecycle (get_state r n) = StateStarting \<Longrightarrow>
     failureReportedDuringStart (get_state (recordCommandPanic m g c e d k r) n) =
     failureReportedDuringStart (get_state r n)"
  "m \<noteq> n \<Longrightarrow> failureReportedDuringStart (get_state (snd (reportWorkerFailure m h e' r)) n) =
     failureReportedDuringStart (get_state r n)"
  using affects_other [OF setWorkerReady_affects, of n m g b r]
    affects_other [OF setWorkerAcceptingWork_affects, of n m g b r]
    affects_other [OF recordCommandFailure_affects, of n m g c e d k r]
    affects_other [OF recordCommandPanic_affects, of n m g c e d k r]
    affects_other [OF reportWorkerFailure_affects, of n m h e' r]
  by (cases "m = n"; simp add: reported_self)+

lemma act_reported:
  assumes u: "under_way n StateStarting g s0 s"
  shows "failureReportedDuringStart (get_state (act a s) n) \<longleftrightarrow>
    failureReportedDuringStart (get_state s n) \<or> failure_reports n g [a]"
proof -
  obtain w where w: "map_of (r_workerStates s) n = Some w" using under_way_present [OF u] ..
  have o: "lifecycle (get_state s n) = StateStarting" "generation (get_state s n) = g" "sys_inv s"
    using u by (simp_all add: under_way_def operating_def op_frame_def)
  show ?thesis
  proof (cases a)
    case (SignalFailure m h e)
    then show ?thesis
      using o reported_by_handle [OF w o(1), of h e]
      by (cases "m = n") (auto simp: failure_reports_def reported_any)
  next
    case (AdmitSlot m)
    then show ?thesis by (auto simp: failure_reports_def admit_state split: sum.split)
  next
    case (ReleaseSlot t)
    then show ?thesis by (simp add: failure_reports_def release_state [OF o(3)])
  next
    case (LoopCleanupFailed m e p)
    then show ?thesis by (simp add: get_state_def failure_reports_def)
  next
    case (Observed x)
    then show ?thesis by (simp add: get_state_def failure_reports_def)
  qed (use o(1) in \<open>simp_all add: failure_reports_def reported_any holding_def split: option.split\<close>)
qed

abbreviation starting_unreported :: "string \<Rightarrow> generation \<Rightarrow> sys \<Rightarrow> sys \<Rightarrow> bool" where
  "starting_unreported n g s0 s \<equiv>
     under_way n StateStarting g s0 s \<and> \<not> failureReportedDuringStart (get_state s n)"

abbreviation starting_reported :: "string \<Rightarrow> generation \<Rightarrow> sys \<Rightarrow> sys \<Rightarrow> bool" where
  "starting_reported n g s0 s \<equiv>
     under_way n StateStarting g s0 s \<and> failureReportedDuringStart (get_state s n)"

lemma recordStart_reported:
  "failureReportedDuringStart (get_state (recordStartFailure n g e k s) n) =
     failureReportedDuringStart (get_state s n)"
  by (simp add: recordStartFailure_def reported_self)

lemma run_reported:
  "under_way n StateStarting g s0 s \<Longrightarrow> failureReportedDuringStart (get_state (run xs s) n) \<longleftrightarrow>
    failureReportedDuringStart (get_state s n) \<or> failure_reports n g xs"
  by (induction xs arbitrary: s)
     (auto simp: act_reported under_way.step_inv failure_reports_def)

lemma unreported_list: "list_all (\<lambda>x. \<not> failure_reports n g [x]) xs \<longleftrightarrow> \<not> failure_reports n g xs"
  by (auto simp: list_all_iff failure_reports_def)

interpretation unreported: retry_client "starting_unreported n g s0" "\<lambda>x. \<not> failure_reports n g [x]"
  call_worker "recordStartFailure n g" for n g s0
  by unfold_locales
     (auto simp: act_reported under_way.step_inv call_worker_def under_way.run_inv run_reported
       recordStart_reported start_client.onFailure_keeps attempt_allowed_def unreported_list)

interpretation reported: retry_client "starting_reported n g s0" "\<lambda>x. True"
  call_worker "recordStartFailure n g" for n g s0
  by unfold_locales
     (auto simp: act_reported under_way.step_inv call_worker_def under_way.run_inv run_reported
       recordStart_reported start_client.onFailure_keeps)

text \<open>So the end of a start that returned nil is decided by the reports of its attempts.\<close>

definition attempt_reports :: "string \<Rightarrow> generation \<Rightarrow> attempt \<Rightarrow> bool" where
  "attempt_reports n g a \<longleftrightarrow> failure_reports n g (at_script a @ at_after a @ at_wait a)"

lemma completeWorkerStart_decided:
  assumes u: "under_way n StateStarting g s0 s" and s': "s' = snd (completeWorkerStart n g a b s)"
  shows "if failureReportedDuringStart (get_state s n) then failed_at n g s' else running_at n g s'"
proof -
  obtain w where w: "map_of (r_workerStates s) n = Some w" using under_way_present [OF u] ..
  have "lifecycle w = StateStarting" "generation w = g"
    using u w by (simp_all add: under_way_def operating_def)
  moreover have "failureReportedDuringStart w \<Longrightarrow> lastFailure w \<noteq> None"
    using worker_ok_facts(4) [OF rt_inv_worker [OF conjunct2 [OF under_way_inv [OF u]] w]] by simp
  ultimately show ?thesis
    using w by (auto simp: s' running_at_def failed_at_def completeWorkerStart_def section_simps)
qed

lemma first_script:
  "runWithRetry c p call_worker f (a\<lparr>at_script := []\<rparr> # as) (run (at_script a) s) =
   runWithRetry c p call_worker f (a # as) s"
proof -
  have "waitBeforeRetry c d (a\<lparr>at_script := []\<rparr>) s1 = waitBeforeRetry c d a s1" for d s1
    by (simp add: waitBeforeRetry_def select_timer_def)
  then show ?thesis 
    by (simp add: runWithRetry_def call_worker_def section_simps split: op_result.split option.split)
qed

lemma start_decided:
  assumes inv: "sys_inv s" and look: "lookupWorker name s = Inr (n, wk, cfg)"
    and w: "map_of (r_workerStates s) n = Some w" and l: "startable (lifecycle w)"
    and run: "start c as name s = (Finished None, s')"
  defines "g \<equiv> generation w + 1"
  shows "running_at n g s' \<and> \<not> failure_reports n g (at_script (hd as))
    \<or> failed_at n g s' \<and> (\<exists>a \<in> set as. attempt_reports n g a)"
proof -
  obtain s1 where b: "beginWorkerStart n s = (Inr g, s1)" and u1: "under_way n StateStarting g s s1"
    using beginWorkerStart_begins [OF inv w l] unfolding g_def .
  have f1: "\<not> failureReportedDuringStart (get_state s1 n)"
    using arg_cong [OF b, of snd] w l by (auto simp: beginWorkerStart_def section_simps)
  obtain out2 k s2 where loop:
    "runWithRetry c (startRetryPolicy cfg) call_worker (recordStartFailure n g) as s1 = (out2, k, s2)"
    by (cases "runWithRetry c (startRetryPolicy cfg) call_worker (recordStartFailure n g) as s1")
  have u2: "under_way n StateStarting g s s2"
    using start_client.runWithRetry_keeps [OF u1, of as c "startRetryPolicy cfg"] loop by simp
  have out2: "out2 = Finished None" and s': "s' = snd (completeWorkerStart n g (readyOnStart cfg) (wc_acceptingWork cfg) s2)"
    using run unfolding start_def look by (auto simp: b loop recoverLifecyclePanic_def Let_def
        split: outcome.splits option.splits if_splits prod.splits)
  obtain a as' where as: "as = a # as'"
    using loop out2 by (cases as) (auto simp: runWithRetry_def)
  have none: "(\<exists>a \<in> set as. attempt_reports n g a)" if "failureReportedDuringStart (get_state s2 n)"
  proof (rule ccontr)
    assume "\<not> ?thesis"
    then have "list_all (attempt_allowed (\<lambda>x. \<not> failure_reports n g [x])) as"
      by (auto simp: list_all_iff attempt_allowed_def attempt_reports_def failure_reports_def)
    with unreported.runWithRetry_keeps [of n g s s1 as c "startRetryPolicy cfg"] u1 f1 loop that
    show False by simp
  qed
  have first: "failureReportedDuringStart (get_state s2 n)" if "failure_reports n g (at_script a)"
  proof -
    have "starting_reported n g s (run (at_script a) s1)"
      using that by (simp add: run_reported [OF u1] under_way.run_inv [OF u1])
    from reported.runWithRetry_keeps [OF this, of "a\<lparr>at_script := []\<rparr> # as'" c "startRetryPolicy cfg"]
    show ?thesis using loop by (simp add: as first_script)
  qed
  show ?thesis
    using completeWorkerStart_decided [OF u2 s'] none first
    by (auto simp: as split: if_splits)
qed

text \<open>C2: the contract of \<open>start\<close> on a worker that may be started, for every behaviour of
  \<open>Worker.Start\<close>, its retries and everything that runs meanwhile. It returns nil in two cases only. Either
  the worker is running on a new generation with its failure cleared, and nothing had reported a
  failure of that generation during the first attempt's call. Or it is failed on the new
  generation, and a failure of that generation was reported, through its handle, during one of
  the attempts; a failure left over from an earlier generation never decides. It returns
  an error only with the worker failed, unready and refusing work; it panics only under
  the crash policy; no other worker is started or stopped, and the invariant holds.\<close>

theorem start_contract:
  assumes "reachable s" and "lookupWorker name s = Inr (n, wk, cfg)"
    and "map_of (r_workerStates s) n = Some w"
    and "lifecycle w \<in> {StateRegistered, StateStopped, StateFailed}"
    and "start c as name s = (out, s')"
  shows "sys_inv s'
    \<and> (case out of
         Finished None \<Rightarrow>
           running_at n (generation w + 1) s'
             \<and> \<not> failure_reports n (generation w + 1) (at_script (hd as))
           \<or> failed_at n (generation w + 1) s'
             \<and> (\<exists>a \<in> set as. attempt_reports n (generation w + 1) a)
       | Finished (Some e) \<Rightarrow> failed_at n (generation w + 1) s'
       | Panicking \<Rightarrow> failed_at n (generation w + 1) s' \<and> panicPolicy cfg = PanicPolicyCrash
       | Blocked \<Rightarrow> lifecycle (get_state s' n) = StateStarting)
    \<and> (\<forall>m. m \<noteq> n \<longrightarrow> may_fail (get_state s m) (get_state s' m))"
  using start_ends [OF reachable_sys_inv [OF assms(1)] assms(2-)]
    start_decided [OF reachable_sys_inv [OF assms(1)] assms(2-4), of c as s'] assms(5)
  by (auto simp: op_frame_def ended_start_def operating_def split: outcome.splits option.splits)

theorem start_contract_witness:
  "running_at ''c/a'' 1 (snd (start 0 [returns_nil] ''c/a'' ex_registered))"
proof -
  obtain out s' where run: "start 0 [returns_nil] ''c/a'' ex_registered = (out, s')"
    by (cases "start 0 [returns_nil] ''c/a'' ex_registered")
  have l: "lifecycle (new_workerState ''c/a'' ''a'') \<in> {StateRegistered, StateStopped, StateFailed}"
    by (simp add: new_workerState_def)
  have "out = Finished None" using ex_start run by simp
  with start_contract [OF ex_registered_reachable ex_look ex_state l run] run show ?thesis
    by (simp add: new_workerState_def zero_workerState_def attempt_reports_def failure_reports_def returns_nil_def)
qed

end
