(* ===== verification/Settled.thy ===== *)
theory Settled
  imports Reachable
begin

text \<open>
  Two facts about the whole program. A dispatch acts on the runtime only through the actions
  every proof allows the environment, so the operations proved against arbitrary actions are
  proved against concurrent dispatches. And a lifecycle operation that returns or panics leaves
  no worker between two states: with the lifecycle gate free, no worker is starting or stopping.
\<close>

section \<open>A dispatch is a sequence of actions\<close>

definition acts_from :: "sys \<Rightarrow> sys \<Rightarrow> bool" where
  "acts_from s0 s \<longleftrightarrow> (\<exists>as. s = run as s0)"

lemma acts_refl [simp]: "acts_from s s"
  unfolding acts_from_def by (intro exI [of _ "[]"]) simp

lemma acts_run: "acts_from s0 s \<Longrightarrow> acts_from s0 (run as s)"
  unfolding acts_from_def by (auto simp flip: fold_append intro: exI [of _ "_ @ as"])
     (metis comp_apply fold_append)

lemma acts_act: "acts_from s0 s \<Longrightarrow> acts_from s0 (act a s)"
  using acts_run [of s0 s "[a]"] by simp

lemma failure_is_act:
  "held t n g s \<Longrightarrow> recordCommandFailure n g c e d k s = act (CommandFailed t c e d k) s"
  "held t n g s \<Longrightarrow> recordCommandPanic n g c e d k s = act (CommandPanicked t c e d k) s"
  by (simp_all add: held_def holding_def)

interpretation dispatch_client: retry_client "\<lambda>s. held t n g s \<and> acts_from s0 s"
  "\<lambda>a. a \<noteq> ReleaseSlot t" call_worker "\<lambda>e k. recordCommandFailure n g c e d k" for t n g s0 c d
proof unfold_locales
  fix s a k
  assume h: "held t n g s \<and> acts_from s0 s" "attempt_allowed (\<lambda>a. a \<noteq> ReleaseSlot t) a"
  then show "held t n g (snd (call_worker a k s)) \<and> acts_from s0 (snd (call_worker a k s))"
    using execute_client.operation_keeps by (simp add: call_worker_def acts_run)
next
  fix s e k
  assume h: "held t n g s \<and> acts_from s0 s"
  then have "acts_from s0 (act (CommandFailed t c e d k) s)" by (intro acts_act) simp
  with h show "held t n g (recordCommandFailure n g c e d k s)
      \<and> acts_from s0 (recordCommandFailure n g c e d k s)"
    by (simp only: failure_is_act [of t n g s c e d k] recordCommandFailure_held)
       (metis failure_is_act(1) recordCommandFailure_held)
qed (simp_all add: held_act acts_act)

lemma end_acts: "acts_from s0 s \<Longrightarrow> acts_from s0 (endCommandObservation w c d k st e s)"
  unfolding endCommandObservation_def Let_def act.simps(9) [symmetric] by (rule acts_act)

lemma finish_acts:
  assumes "acts_from s0 s"
  shows "acts_from s0 (finishCommand t env req d k st e s)"
  unfolding finishCommand_def act.simps(6) [symmetric]
  by (intro end_acts acts_run acts_act assms)

lemma runAdmitted_acts:
  assumes h: "held t (cq_worker req) g s" and a: "acts_from s0 s"
    and run: "runAdmitted env req cfg t g d st s = (out, s')"
  shows "acts_from s0 s'"
proof -
  obtain o2 k s1 where ex: "executeCommand (de_ctx env) req cfg g d
      (map (shield t) (de_attempts env)) s = (o2, k, s1)"
    by (cases "executeCommand (de_ctx env) req cfg g d (map (shield t) (de_attempts env)) s")
  have h1: "held t (cq_worker req) g s1" and a1: "acts_from s0 s1"
    using dispatch_client.runWithRetry_keeps [OF conjI [OF h a] shield_allowed,
        of "de_ctx env" "commandRetryPolicy cfg" "cq_name req" d "de_attempts env"] ex
    by (simp_all add: executeCommand_def)
  show ?thesis
  proof (cases o2)
    case Panicking
    obtain pe again s2 where r: "recoverCommandPanic req cfg g d k s1 = (pe, again, s2)"
      by (cases "recoverCommandPanic req cfg g d k s1")
    then have "s2 = act (CommandPanicked t (cq_name req) pe d k) s1"
      using failure_is_act(2) [OF h1] by (auto simp: recoverCommandPanic_def Let_def simp del: act.simps)
    then have "acts_from s0 s2" by (simp only: acts_act [OF a1])
    with run ex Panicking r show ?thesis by (auto simp: runAdmitted_def intro: finish_acts)
  next
    case (Finished e)
    with run ex a1 show ?thesis by (cases e) (auto simp: runAdmitted_def intro: finish_acts)
  next
    case Blocked
    with run ex a1 show ?thesis by (simp add: runAdmitted_def)
  qed
qed

lemma Dispatch_acts:
  assumes inv: "sys_inv s" and run: "Dispatch env req s = (out, s')"
  shows "acts_from s s'"
proof (cases "normalizeCommandRequest req (r_now s) s")
  case (Inl e)
  with run show ?thesis by (simp add: Dispatch_def)
next
  case (Inr req1)
  note n = this
  show ?thesis
  proof (cases "lookupCommandTarget req1 s")
    case (Inl e)
    with run n show ?thesis by (simp add: Dispatch_def)
  next
    case (Inr p)
    obtain cfg reg where p: "p = (cfg, reg)" by (cases p)
    let ?req = "req1\<lparr>cq_worker := cr_worker reg, cq_name := cr_name reg\<rparr>"
    obtain d s1 where d: "nextCommandDispatchID s = (d, s1)" by (cases "nextCommandDispatchID s")
    then have s1: "s1 = act NextDispatchID s" by (auto simp: nextCommandDispatchID_def Let_def)
    let ?s2 = "startCommandObservation (cr_worker reg) (cr_name reg) d (r_now s) s1"
    have "acts_from s ?s2"
      unfolding startCommandObservation_def act.simps(9) [symmetric] s1 by (intro acts_act acts_refl)
    then have a2: "acts_from s (run (de_beforeAdmit env) ?s2)" by (rule acts_run)
    have i2: "sys_inv (run (de_beforeAdmit env) ?s2)"
      using inv d by (auto simp: startCommandObservation_def nextCommandDispatchID_def Let_def)
    obtain a s3 where ad: "admit_slot (cr_worker reg) (run (de_beforeAdmit env) ?s2) = (a, s3)"
      by (cases "admit_slot (cr_worker reg) (run (de_beforeAdmit env) ?s2)")
    have a3: "acts_from s s3" using acts_act [OF a2, of "AdmitSlot (cr_worker reg)"] ad by simp
    show ?thesis
    proof (cases a)
      case (Inl e)
      with run n Inr p d ad a3 show ?thesis by (auto simp: Dispatch_def Let_def intro: end_acts)
    next
      case slot: (Inr tg)
      obtain t g where tg: "tg = (t, g)" by (cases tg)
      have "held t (cr_worker reg) g s3" using admit_slot_held [OF i2] ad slot tg by simp
      moreover have "runAdmitted env ?req cfg t g d (r_now s) s3 = (out, s')"
        using run n Inr p d ad slot tg by (simp add: Dispatch_def Let_def)
      ultimately show ?thesis using runAdmitted_acts [of t ?req, OF _ a3] by simp
    qed
  qed
qed


lemma Dispatch_idle: "sys_inv s \<Longrightarrow> Dispatch env req s = (out, s') \<Longrightarrow> idle_frame s s'"
  using Dispatch_acts run_idle by (fastforce simp: acts_from_def)

section \<open>No worker is left between two states\<close>

definition settled :: "'a runtime_scheme \<Rightarrow> bool" where
  "settled s \<longleftrightarrow> (\<forall>m. lifecycle (get_state s m) \<notin> {StateStarting, StateStopping})"

lemma settled_may_fail:
  "may_fail w w' \<Longrightarrow> lifecycle w \<notin> {StateStarting, StateStopping}
   \<Longrightarrow> lifecycle w' \<notin> {StateStarting, StateStopping}"
  by (auto simp: may_fail_def)

lemma settled_later:
  assumes "settled s" and "\<And>m. m \<noteq> n \<Longrightarrow> may_fail (get_state s m) (get_state s' m)"
    and "lifecycle (get_state s' n) \<notin> {StateStarting, StateStopping}"
  shows "settled s'"
proof -
  have "lifecycle (get_state s' m) \<notin> {StateStarting, StateStopping}" for m
    using assms settled_may_fail by (cases "m = n") (simp, unfold settled_def, blast)
  then show ?thesis by (simp add: settled_def)
qed

lemma settled_idle: "idle_frame s s' \<Longrightarrow> settled s \<Longrightarrow> settled s'"
proof -
  assume "idle_frame s s'" "settled s"
  then have "may_fail (get_state s m) (get_state s' m)"
    "lifecycle (get_state s m) \<notin> {StateStarting, StateStopping}" for m
    by (simp_all add: idle_frame_def settled_def)
  then show "settled s'" unfolding settled_def using settled_may_fail by blast
qed

lemma settled_run: "sys_inv s \<Longrightarrow> settled s \<Longrightarrow> settled (run as s)"
  using settled_idle [OF run_idle] by blast

lemma settled_gates [simp]:
  "settled (s\<lparr>r_gate := b\<rparr>) = settled s" "settled (s\<lparr>r_admissionClosed := c\<rparr>) = settled s"
  by (simp_all add: settled_def get_state_def)

text \<open>What every operation behind the gate promises on top of its frame.\<close>

locale settling_operation = lifecycle_operation +
  assumes settles: "sys_inv s \<Longrightarrow> settled s \<Longrightarrow> fst (operation s) \<noteq> Blocked
      \<Longrightarrow> settled (snd (operation s))"
    and keeps_gate: "sys_inv s \<Longrightarrow> r_gate (snd (operation s)) = r_gate s"
begin

lemma gated_settles:
  assumes inv: "sys_inv s" and st: "r_gate s \<Longrightarrow> settled s"
    and call: "runLifecycle c pre operation s = (out, s')" and gate: "r_gate s'"
  shows "settled s'"
proof -
  have g: "r_gate (run pre s) = r_gate s"
    using frozen.run_view [OF inv, of pre] by (simp add: frozen_def)
  obtain a s1 where acq: "acquireLifecycle c pre s = (a, s1)" by (cases "acquireLifecycle c pre s")
  show ?thesis
  proof (cases "a = Acquired")
    case False
    then have "s' = s1" using call acq by (auto simp: runLifecycle_def split: acquired.splits)
    with not_acquired_state [OF acq False] have "s' = s \<or> s' = run pre s" by simp
    with gate g st settled_run [OF inv] show ?thesis by auto
  next
    case True
    with acquired_state acq obtain s0 where s0: "s0 = run pre s" "r_gate s0"
      "s1 = s0\<lparr>r_gate := False\<rparr>" by blast
    have i1: "sys_inv s1" using inv s0 by simp
    have t1: "settled s1" using settled_run [OF inv, of pre] st g s0 by simp
    obtain o2 s2 where op: "operation s1 = (o2, s2)" by (cases "operation s1")
    show ?thesis
    proof (cases "o2 = Blocked")
      case True
      then have "s' = s2" using call acq \<open>a = Acquired\<close> op by (simp add: runLifecycle_def)
      moreover have "\<not> r_gate s2" using keeps_gate [OF i1] op s0 by simp
      ultimately show ?thesis using gate by simp
    next
      case False
      then have "s' = s2\<lparr>r_gate := True\<rparr>"
        using call acq \<open>a = Acquired\<close> op by (auto simp: runLifecycle_def split: outcome.splits)
      with settles [OF i1 t1] op False show ?thesis by simp
    qed
  qed
qed

end

lemma bulk_settling:
  assumes "\<And>s. sys_inv s \<Longrightarrow> bulk_frame s (snd (op s))"
    and "\<And>s. sys_inv s \<Longrightarrow> settled s \<Longrightarrow> fst (op s) \<noteq> Blocked \<Longrightarrow> settled (snd (op s))"
  shows "settling_operation op"
  using assms by unfold_locales (auto simp: bulk_frame_def frozen_def)

lemma closed_settling:
  assumes "\<And>s. sys_inv s \<Longrightarrow> r_admissionClosed s \<Longrightarrow> bulk_frame s (snd (op s))"
    and "\<And>s. sys_inv s \<Longrightarrow> settled s \<Longrightarrow> fst (op s) \<noteq> Blocked
      \<Longrightarrow> r_admissionClosed s \<Longrightarrow> settled (snd (op s))"
  shows "settling_operation (runWithCommandAdmissionClosed op)"
proof (rule settling_operation.intro [OF closed_operation [OF assms(1)]], assumption, assumption,
    unfold_locales)
  fix s :: sys assume inv: "sys_inv s"
  let ?s = "s\<lparr>r_admissionClosed := True\<rparr>"
  obtain out s1 where op: "op ?s = (out, s1)" by (cases "op ?s")
  have i: "sys_inv ?s" using inv by simp
  have "bulk_frame ?s s1" using assms(1) [OF i] op by simp
  then show "r_gate (snd (runWithCommandAdmissionClosed op s)) = r_gate s"
    using op by (simp add: runWithCommandAdmissionClosed_def Let_def bulk_frame_def frozen_def
        split: outcome.split)
  assume "settled s" "fst (runWithCommandAdmissionClosed op s) \<noteq> Blocked"
  then show "settled (snd (runWithCommandAdmissionClosed op s))"
    using op assms(2) [OF i] by (auto simp: runWithCommandAdmissionClosed_def Let_def split: outcome.splits)
qed

section \<open>The operations settle\<close>

lemma start_settles:
  assumes inv: "sys_inv s" and st: "settled s" and run: "start c as name s = (out, s')"
    and ended: "out \<noteq> Blocked"
  shows "settled s'"
proof (cases "\<exists>n wk cfg w. lookupWorker name s = Inr (n, wk, cfg)
    \<and> map_of (r_workerStates s) n = Some w \<and> startable (lifecycle w)")
  case True
  then obtain n wk cfg w where l: "lookupWorker name s = Inr (n, wk, cfg)"
    "map_of (r_workerStates s) n = Some w" "startable (lifecycle w)" by blast
  note e = start_ends [OF inv l run]
  show ?thesis
    by (rule settled_later [OF st, of n])
      (use e ended in \<open>auto simp: op_frame_def ended_start_def running_at_def failed_at_def Let_def
         split: outcome.splits option.splits\<close>)
next
  case False
  with start_refused [OF False, of c as] run st show ?thesis by auto
qed

lemma stop_settles:
  assumes inv: "sys_inv s" and st: "settled s" and run: "stop as name s = (out, s')"
    and ended: "out \<noteq> Blocked"
  shows "settled s'"
proof (cases "\<exists>n wk cfg w. lookupWorker name s = Inr (n, wk, cfg)
    \<and> map_of (r_workerStates s) n = Some w \<and> stoppable (lifecycle w)")
  case True
  then obtain n wk cfg w where l: "lookupWorker name s = Inr (n, wk, cfg)"
    "map_of (r_workerStates s) n = Some w" "stoppable (lifecycle w)" by blast
  note e = stop_ends [OF inv l run]
  show ?thesis
    by (rule settled_later [OF st, of n])
      (use e ended in \<open>auto simp: op_frame_def ended_stop_def stopped_at_def failed_at_def Let_def
         split: outcome.splits option.splits\<close>)
next
  case False
  with stop_refused [OF False, of as] run st show ?thesis by auto
qed

lemma drain_settles: "settled s \<Longrightarrow> settled (snd (drain name s))"
  by (auto simp: drain_def beginWorkerDrain_def section_simps settled_def split: sum.split option.split)

lemma startAllFrom_settles:
  "sys_inv s \<Longrightarrow> settled s \<Longrightarrow> startAllFrom c env ws s = (out, s') \<Longrightarrow> out \<noteq> Blocked \<Longrightarrow> settled s'"
proof (induction ws arbitrary: s)
  case (Cons p ws)
  obtain n l where p: "p = (n, l)" by (cases p)
  let ?s0 = "run (oe_before (env n)) s"
  have i0: "sys_inv ?s0" using Cons.prems(1) by simp
  have t0: "settled ?s0" by (rule settled_run [OF Cons.prems(1,2)])
  obtain o1 s1 where st: "start c (oe_attempts (env n)) n ?s0 = (o1, s1)"
    by (cases "start c (oe_attempts (env n)) n ?s0")
  have i1: "sys_inv s1" using start_op.keeps [OF i0] st by (metis snd_conv)
  have t1: "o1 \<noteq> Blocked \<Longrightarrow> settled s1" by (rule start_settles [OF i0 t0 st])
  show ?case
    using Cons.prems(3,4) Cons.IH [OF i0 t0] Cons.IH [OF i1 t1] t0 t1 st
    by (auto simp: p Let_def split: if_splits outcome.splits option.splits)
qed simp

lemma stopEach_settles:
  "sys_inv s \<Longrightarrow> settled s \<Longrightarrow> stopEach env ws errs s = (out, s') \<Longrightarrow> out \<noteq> Blocked \<Longrightarrow> settled s'"
proof (induction ws arbitrary: s errs)
  case (Cons p ws)
  obtain n l where p: "p = (n, l)" by (cases p)
  let ?s0 = "run (oe_before (env n)) s"
  have i0: "sys_inv ?s0" using Cons.prems(1) by simp
  have t0: "settled ?s0" by (rule settled_run [OF Cons.prems(1,2)])
  obtain o1 s1 where st: "stop (oe_attempts (env n)) n ?s0 = (o1, s1)"
    by (cases "stop (oe_attempts (env n)) n ?s0")
  have i1: "sys_inv s1" using stop_op.keeps [OF i0] st by (metis snd_conv)
  have t1: "o1 \<noteq> Blocked \<Longrightarrow> settled s1" by (rule stop_settles [OF i0 t0 st])
  show ?case
    using Cons.prems(3,4) Cons.IH [OF i0 t0] Cons.IH [OF i1 t1] t0 t1 st
    by (auto simp: p Let_def split: if_splits outcome.splits option.splits)
qed simp

lemma drainAllFrom_settles:
  "sys_inv s \<Longrightarrow> settled s \<Longrightarrow> settled (snd (drainAllFrom env ws s))"
proof (induction ws arbitrary: s)
  case (Cons p ws)
  obtain n l where p: "p = (n, l)" by (cases p)
  let ?s0 = "run (oe_before (env n)) s"
  have i0: "sys_inv ?s0" using Cons.prems(1) by simp
  have t0: "settled ?s0" by (rule settled_run [OF Cons.prems(1,2)])
  have i1: "sys_inv (snd (drain n ?s0))" using drain_bulk [OF i0] by (simp add: bulk_frame_def)
  have t1: "settled (snd (drain n ?s0))" by (rule drain_settles [OF t0])
  show ?case
    using Cons.IH [OF i0 t0] Cons.IH [OF i1 t1] t0 t1
    by (auto simp: p Let_def split: prod.split option.split)
qed simp

lemma drainEach_settles:
  "sys_inv s \<Longrightarrow> settled s \<Longrightarrow>
   sys_inv (snd (drainEach env ws errs s)) \<and> settled (snd (drainEach env ws errs s))"
proof (induction ws arbitrary: s errs)
  case (Cons p ws)
  obtain n l where p: "p = (n, l)" by (cases p)
  let ?s0 = "run (oe_before (env n)) s"
  have i0: "sys_inv ?s0" using Cons.prems(1) by simp
  have t0: "settled ?s0" by (rule settled_run [OF Cons.prems(1,2)])
  have i1: "sys_inv (snd (drain n ?s0))" using drain_bulk [OF i0] by (simp add: bulk_frame_def)
  have t1: "settled (snd (drain n ?s0))" by (rule drain_settles [OF t0])
  show ?case
    using Cons.IH [OF i0 t0] Cons.IH [OF i1 t1]
    by (auto simp: p Let_def split: prod.split option.split)
qed simp

lemma shutdown_settles:
  assumes inv: "sys_inv s" and closed: "r_admissionClosed s" and st: "settled s"
    and run: "shutdown c env s = (out, s')" and ended: "out \<noteq> Blocked"
  shows "settled s'"
proof -
  obtain errs s1 where d: "drainEach (sh_drain env) (registeredWorkerLifecycles s) [] s = (errs, s1)"
    by (cases "drainEach (sh_drain env) (registeredWorkerLifecycles s) [] s")
  let ?s2 = "run (sh_afterDrain env) s1"
  have i1: "sys_inv s1" and t1: "settled s1" using drainEach_settles [OF inv st] d by (metis snd_conv)+
  have i2: "sys_inv ?s2" and t2: "settled ?s2" using i1 settled_run [OF i1 t1] by simp_all
  obtain w s3 where wt: "WaitAllIdle c (sh_polls env) ?s2 = (w, s3)"
    by (cases "WaitAllIdle c (sh_polls env) ?s2")
  have "idle_frame ?s2 s3" using WaitAllIdle_spec [OF i2 wt] by simp
  then have i3: "sys_inv s3" and t3: "settled s3"
    using settled_idle [OF _ t2] by (simp_all add: idle_frame_def bulk_frame_def)
  let ?s4 = "run (sh_afterWait env) s3"
  have i4: "sys_inv ?s4" and t4: "settled ?s4" using i3 settled_run [OF i3 t3] by simp_all
  obtain o5 s5 where st5: "stopAll (sh_stop env) ?s4 = (o5, s5)" by (cases "stopAll (sh_stop env) ?s4")
  have t5: "o5 \<noteq> Blocked \<Longrightarrow> settled s5"
    using stopEach_settles [OF i4 t4] st5 by (simp add: stopAll_def)
  show ?thesis
    using run ended t2 t3 t4 t5
    by (auto simp: shutdown_def drainAllBestEffort_def d Let_def wt st5
        split: option.splits outcome.splits)
qed

interpretation start_settling: settling_operation "start c as name" for c as name
  by (rule bulk_settling [OF start_bulk]) (auto intro: start_settles [OF _ _ prod.collapse [symmetric]])

interpretation stop_settling: settling_operation "stop as name" for as name
  by (rule bulk_settling [OF stop_bulk]) (auto intro: stop_settles [OF _ _ prod.collapse [symmetric]])

interpretation drain_settling:
  settling_operation "\<lambda>s. case drain name s of (e, s1) \<Rightarrow> (Finished e, s1)" for name
  by (rule bulk_settling) (use drain_bulk drain_settles in \<open>simp_all add: case_prod_beta\<close>)

interpretation startAll_settling: settling_operation "startAll c env" for c env
  by (rule bulk_settling [OF startAll_bulk])
    (auto simp: startAll_def intro: startAllFrom_settles [OF _ _ prod.collapse [symmetric]])

interpretation drainAll_settling: settling_operation "drainAll env" for env
  by (rule bulk_settling)
    (use drainAllFrom_bulk drainAllFrom_settles in \<open>simp_all add: drainAll_def case_prod_beta\<close>)

interpretation drainEach_settling:
  settling_operation "\<lambda>s. case drainAllBestEffort env s of (e, s1) \<Rightarrow> (Finished e, s1)" for env
  by (rule bulk_settling)
    (use drainEach_bulk drainEach_settles in \<open>simp_all add: drainAllBestEffort_def case_prod_beta\<close>)

interpretation stopAll_settling:
  settling_operation "runWithCommandAdmissionClosed (stopAll env)" for env
  by (rule closed_settling [OF stopAll_bulk])
    (auto simp: stopAll_def intro: stopEach_settles [OF _ _ prod.collapse [symmetric]])

interpretation shutdown_settling:
  settling_operation "runWithCommandAdmissionClosed (shutdown c env)" for c env
  by (rule closed_settling [OF shutdown_bulk])
    (auto intro: shutdown_settles [OF _ _ _ prod.collapse [symmetric]])

lemma Register_settled:
  assumes "Register spec opts s = (e, s')" and "settled s"
  shows "settled s'"
proof (cases e)
  case (Some x)
  with assms have "s' = s" using Register_rejected by blast
  with assms(2) show ?thesis by simp
next
  case None
  note f = Register_fields [OF assms(1) [unfolded None]]
  have "lifecycle (get_state s' m) \<notin> {StateStarting, StateStopping}" for m
    using assms(2) by (auto simp: get_state_def f(1) settled_def new_workerState_def split: option.splits if_splits)
  then show ?thesis by (simp add: settled_def)
qed

lemma idle_gate: "idle_frame s s' \<Longrightarrow> r_gate s' = r_gate s"
  by (simp add: idle_frame_def bulk_frame_def frozen_def)

lemma reachable_settled: "reachable s \<Longrightarrow> r_gate s \<Longrightarrow> settled s"
proof (induction rule: reachable.induct)
  case (new name opts r)
  then show ?case using NewRuntime_fields [OF new(1)]
    by (simp add: settled_def get_state_def zero_workerState_def)
next
  case (acting s a)
  have "idle_frame s (act a s)" using run_idle [OF reachable_sys_inv [OF acting.hyps], of "[a]"] by simp
  with acting idle_gate settled_idle show ?case by blast
next
  case (registering s reg wopts e s')
  then show ?case by (auto intro: Register_settled)
next
  case (starting s c pre as name out s')
  then show ?case using start_settling.gated_settles [OF reachable_sys_inv] by (simp add: Start_def)
next
  case (stopping s c pre as name out s')
  then show ?case using stop_settling.gated_settles [OF reachable_sys_inv] by (simp add: Stop_def)
next
  case (draining s c pre name out s')
  then show ?case using drain_settling.gated_settles [OF reachable_sys_inv] by (simp add: Drain_def)
next
  case (starting_all s c pre env out s')
  then show ?case using startAll_settling.gated_settles [OF reachable_sys_inv] by (simp add: StartAll_def)
next
  case (draining_all s c pre env out s')
  then show ?case using drainAll_settling.gated_settles [OF reachable_sys_inv] by (simp add: DrainAll_def)
next
  case (draining_each s c pre env out s')
  then show ?case using drainEach_settling.gated_settles [OF reachable_sys_inv]
    by (simp add: DrainAllBestEffort_def)
next
  case (stopping_all s c pre env out s')
  then show ?case using stopAll_settling.gated_settles [OF reachable_sys_inv] by (simp add: StopAll_def)
next
  case (shutting_down s c pre senv out s')
  then show ?case using shutdown_settling.gated_settles [OF reachable_sys_inv] by (simp add: Shutdown_def)
next
  case (dispatching s denv req dout s')
  have "idle_frame s s'" by (rule Dispatch_idle [OF reachable_sys_inv [OF dispatching(1)] dispatching(2)])
  with dispatching idle_gate settled_idle show ?case by blast
qed

end
