(* ===== verification/Operation_Claims.thy ===== *)
theory Operation_Claims
  imports Example_Runtime Settled
begin

text \<open>
  The properties of the public lifecycle operations beyond \<open>Start\<close>: what \<open>Stop\<close>, \<open>StartAll\<close>,
  \<open>StopAll\<close> and \<open>Shutdown\<close> leave behind, that every operation gives its gates back, and that
  retries end within the policy's attempts.
\<close>

section \<open>Stop\<close>

text \<open>C3: the contract of \<open>stop\<close> on a worker that may be stopped, for every behaviour of
  \<open>Worker.Stop\<close> and everything that runs meanwhile. Nil means stopped, unready and refusing
  work; an error means failed; it panics only under the crash policy. The generation stays, and
  no other worker is started or stopped.\<close>

theorem stop_contract:
  assumes "reachable s" and "lookupWorker name s = Inr (n, wk, cfg)"
    and "map_of (r_workerStates s) n = Some w"
    and "lifecycle w \<in> {StateRunning, StateDraining, StateFailed}"
    and "stop as name s = (out, s')"
  shows "sys_inv s'
    \<and> (case out of
         Finished None \<Rightarrow> stopped_at n (generation w) s'
       | Finished (Some e) \<Rightarrow> failed_at n (generation w) s'
       | Panicking \<Rightarrow> failed_at n (generation w) s' \<and> panicPolicy cfg = PanicPolicyCrash
       | Blocked \<Rightarrow> lifecycle (get_state s' n) = StateStopping)
    \<and> (\<forall>m. m \<noteq> n \<longrightarrow> may_fail (get_state s m) (get_state s' m))"
  using stop_ends [OF reachable_sys_inv [OF assms(1)] assms(2-)]
  by (auto simp: op_frame_def ended_stop_def operating_def split: outcome.splits option.splits)

theorem stop_contract_witness:
  "lifecycle (get_state (snd (stop [] ''c/a'' ex_running)) ''c/a'') = StateStopping"
proof -
  obtain out s' where run: "stop [] ''c/a'' ex_running = (out, s')"
    by (cases "stop [] ''c/a'' ex_running")
  have l: "lifecycle ex_a \<in> {StateRunning, StateDraining, StateFailed}" by (simp add: ex_a_def)
  obtain s1 where "beginWorkerStop ''c/a'' ex_running = (Inr (generation ex_a), s1)"
    using beginWorkerStop_begins [OF reachable_sys_inv [OF ex_running_reachable] ex_running_state l] by blast
  then have "out = Blocked" using run by (simp add: stop_def ex_running_look)
  with stop_contract [OF ex_running_reachable ex_running_look ex_running_state l run] run
  show ?thesis by simp
qed

section \<open>All workers\<close>

lemma acquired:
  assumes "reachable s" and "acquireLifecycle c pre s = (Acquired, s0)"
  shows "sys_inv s0" and "s0 = (run pre s)\<lparr>r_gate := False\<rparr>"
proof -
  show eq: "s0 = (run pre s)\<lparr>r_gate := False\<rparr>" using start_op.acquired_state [OF assms(2)] by blast
  show "sys_inv s0" using reachable_sys_inv [OF assms(1)] by (simp add: eq)
qed

lemma ran_under_gate:
  assumes "acquireLifecycle c pre s = (Acquired, s0)" and "runLifecycle c pre op s = (out, s')"
    and "op s0 = (o1, s1)" and "out \<noteq> Blocked"
  shows "out = o1 \<and> s' = s1\<lparr>r_gate := True\<rparr>"
  using assms by (auto simp: runLifecycle_def split: outcome.splits)

lemma registered_snapshot:
  "(n, l) \<in> set (registeredWorkerLifecycles s) \<longleftrightarrow>
     n \<in> set (r_workerOrder s) \<and> l = lifecycle (get_state s n)"
  by (auto simp: registeredWorkerLifecycles_def)

text \<open>C10: \<open>StartAll\<close> fails fast. If it returns nil, every worker registered is running or has
  failed by a report of its own. If it returns an error or panics, it broke off at one worker:
  those before it in registration order are running or have failed, those after it were not
  touched.\<close>

theorem StartAll_fail_fast:
  assumes "reachable s" and "acquireLifecycle c pre s = (Acquired, s0)"
    and "StartAll c pre env s = (out, s')" and "out \<noteq> Blocked"
  shows "if out = Finished None
    then \<forall>n \<in> set (r_workerOrder s0). lifecycle (get_state s' n) \<in> {StateRunning, StateFailed}
    else \<exists>xs n ys. r_workerOrder s0 = xs @ n # ys
      \<and> lifecycle (get_state s' n) \<notin> {StateRunning, StateRegistered, StateStopped}
      \<and> (\<forall>m \<in> set xs. lifecycle (get_state s' m) \<in> {StateRunning, StateFailed})
      \<and> (\<forall>m \<in> set ys. may_fail (get_state s0 m) (get_state s' m))"
proof -
  note inv = acquired(1) [OF assms(1,2)]
  obtain o1 s1 where op: "startAll c env s0 = (o1, s1)" by (cases "startAll c env s0")
  have out: "out = o1" "s' = s1\<lparr>r_gate := True\<rparr>"
    using ran_under_gate [OF assms(2) assms(3) [unfolded StartAll_def] op assms(4)] by simp_all
  have each: "started_each (registeredWorkerLifecycles s0) o1 s0 s1"
    using startAllFrom_spec [OF inv snapshot_taken(1) [OF sys_inv_rt [OF inv]]] op
    by (simp add: startAll_def)
  have same: "get_state s' = get_state s1" by (simp add: fun_eq_iff out get_state_def)
  show ?thesis
  proof (cases "out = Finished None")
    case True
    with each out show ?thesis
      by (auto simp: started_each_def start_result_def registered_snapshot same)
  next
    case False
    with each out obtain xs n l ys where ws: "registeredWorkerLifecycles s0 = xs @ (n, l) # ys"
      and at: "lifecycle (get_state s1 n) \<notin> {StateRunning, StateRegistered, StateStopped}"
      and bef: "\<forall>(m, k) \<in> set xs. start_result k (get_state s1 m)"
      and aft: "\<forall>(m, k) \<in> set ys. may_fail (get_state s0 m) (get_state s1 m)"
      by (auto simp: started_each_def interrupted_def)
    have "r_workerOrder s0 = map fst (registeredWorkerLifecycles s0)"
      by (simp add: registeredWorkerLifecycles_def comp_def)
    then have "r_workerOrder s0 = map fst xs @ n # map fst ys" by (simp add: ws)
    moreover have "\<forall>m \<in> set (map fst xs). lifecycle (get_state s' m) \<in> {StateRunning, StateFailed}"
      using bef by (auto simp: same start_result_def)
    moreover have "\<forall>m \<in> set (map fst ys). may_fail (get_state s0 m) (get_state s' m)"
      using aft by (auto simp: same)
    moreover have "lifecycle (get_state s' n) \<notin> {StateRunning, StateRegistered, StateStopped}"
      using at by (simp add: same)
    ultimately show ?thesis using False by (subst if_not_P) blast+
  qed
qed

lemma ex_acquired: "acquireLifecycle 0 [] ex_registered = (Acquired, ex_closed)"
  by (simp add: acquireLifecycle_def ctx_Err_def ex_registered_def ex_with_def ex_closed_def)


text \<open>An environment in which every call returns nil at once.\<close>

definition quiet :: "string \<Rightarrow> op_env" where
  "quiet n = \<lparr>oe_before = [], oe_attempts = [returns_nil]\<rparr>"

definition panicking :: "string \<Rightarrow> op_env" where
  "panicking n = \<lparr>oe_before = [], oe_attempts = [returns_nil\<lparr>at_result := Panics\<rparr>]\<rparr>"

lemma ex_closed_all:
  "registeredWorkerLifecycles ex_closed = [(''c/a'', StateRegistered), (''c/b'', StateRegistered)]"
  "registeredWorkerLifecycles (ex_closed\<lparr>r_admissionClosed := True\<rparr>) =
     [(''c/a'', StateRegistered), (''c/b'', StateRegistered)]"
  "r_workerOrder ex_closed = [''c/a'', ''c/b'']"
  "ctx_Err c (ex_closed\<lparr>r_admissionClosed := True\<rparr>) = None"
  "runtimeIdle (ex_closed\<lparr>r_admissionClosed := True\<rparr>)"
  by (simp_all add: registeredWorkerLifecycles_def ex_closed_def ex_registered_def ex_with_def
      get_state_def new_workerState_def ctx_Err_def runtimeIdle_def)

theorem StartAll_fail_fast_witness:
  "\<exists>n \<in> {''c/a'', ''c/b''}. lifecycle (get_state (snd (StartAll 0 [] panicking ex_registered)) n)
     \<notin> {StateRunning, StateRegistered, StateStopped}"
proof -
  let ?e = "newRecoveredPanicError (''starting'' @ '' worker '' @ go_quote ''c/a'')"
  have "startable (lifecycle (new_workerState ''c/a'' ''a''))" by (simp add: new_workerState_def)
  then obtain s1 g where "beginWorkerStart ''c/a'' ex_closed = (Inr g, s1)"
    using beginWorkerStart_begins [OF acquired(1) [OF ex_registered_reachable ex_acquired]
        ex_closed_look(2)] by metis
  then obtain s2 where "start 0 [returns_nil\<lparr>at_result := Panics\<rparr>] ''c/a'' ex_closed = (Finished (Some ?e), s2)"
    by (simp add: start_def ex_closed_look runWithRetry_def call_worker_def returns_nil_def
        recoverLifecyclePanic_def ex_config_def defaultWorkerConfig_def Let_def)
  then have "startAll 0 panicking ex_closed = (Finished (Some ?e), s2)"
    by (simp add: startAll_def ex_closed_all panicking_def)
  then obtain s' where run: "StartAll 0 [] panicking ex_registered = (Finished (Some ?e), s')"
    by (simp add: StartAll_def runLifecycle_def ex_acquired)
  have "\<exists>xs n ys. [''c/a'', ''c/b''] = xs @ n # ys
      \<and> lifecycle (get_state s' n) \<notin> {StateRunning, StateRegistered, StateStopped}"
    using StartAll_fail_fast [OF ex_registered_reachable ex_acquired run] unfolding ex_closed_all by auto
  then show ?thesis by (auto simp: run Cons_eq_append_conv)
qed

section \<open>StopAll and Shutdown\<close>

lemma closed_around:
  assumes "runWithCommandAdmissionClosed op s = (o1, s1)" and "o1 \<noteq> Blocked"
  obtains s2 where "op (s\<lparr>r_admissionClosed := True\<rparr>) = (o1, s2)"
    "s1 = s2\<lparr>r_admissionClosed := r_admissionClosed s\<rparr>"
  using assms by (auto simp: runWithCommandAdmissionClosed_def Let_def split: prod.splits outcome.splits)

lemma get_gates [simp]:
  "get_state (s\<lparr>r_gate := b\<rparr>) = get_state s" "get_state (s\<lparr>r_admissionClosed := c\<rparr>) = get_state s"
  by (simp_all add: fun_eq_iff get_state_def)

lemma stopAll_finished:
  assumes inv: "sys_inv s" and run: "stopAll env s = (Finished eo, s')"
  shows "\<forall>n \<in> set (r_workerOrder s). lifecycle (get_state s' n) \<notin> {StateRunning, StateDraining}"
    and "eo = None \<longleftrightarrow>
      (\<forall>n \<in> set (r_workerOrder s). lifecycle (get_state s' n) \<notin> {StateFailed, StateStarting})"
proof -
  obtain es where es: "eo = errors_join (map Some es)"
    and res: "\<forall>(n, l) \<in> set (registeredWorkerLifecycles s). stop_result l (get_state s' n)"
    and clean: "es = [] \<longleftrightarrow> (\<forall>(n, l) \<in> set (registeredWorkerLifecycles s). stop_clean l (get_state s' n))"
    using stopAll_each [OF inv run] by (auto simp: stopped_each_def)
  show "\<forall>n \<in> set (r_workerOrder s). lifecycle (get_state s' n) \<notin> {StateRunning, StateDraining}"
    using res by (fastforce simp: registered_snapshot stop_result_def split: if_splits)
  have "stop_clean l (get_state s' n) \<longleftrightarrow> lifecycle (get_state s' n) \<notin> {StateFailed, StateStarting}"
    if "(n, l) \<in> set (registeredWorkerLifecycles s)" for n l
    using that res by (fastforce simp: stop_clean_def stop_result_def split: if_splits)
  then have "es = [] \<longleftrightarrow>
      (\<forall>(n, l) \<in> set (registeredWorkerLifecycles s).
         lifecycle (get_state s' n) \<notin> {StateFailed, StateStarting})"
    unfolding clean by (intro ball_cong) auto
  moreover have "eo = None \<longleftrightarrow> es = []" using errors_join_None [of es] by (simp add: es)
  ultimately show "eo = None \<longleftrightarrow>
      (\<forall>n \<in> set (r_workerOrder s). lifecycle (get_state s' n) \<notin> {StateFailed, StateStarting})"
    by (auto simp: registered_snapshot)
qed

lemma acquired_settled:
  assumes "reachable s" and "acquireLifecycle c pre s = (Acquired, s0)"
  shows "settled s0"
proof -
  have "r_gate (run pre s)" "s0 = (run pre s)\<lparr>r_gate := False\<rparr>"
    using start_op.acquired_state [OF assms(2)] by blast+
  moreover have "reachable (run pre s)"
    using assms(1) by (induction pre arbitrary: s) (auto intro: reachable.acting)
  ultimately show ?thesis using reachable_settled by simp
qed

text \<open>Every worker in one of the given states; and a runtime that is down.\<close>

definition all_in :: "LifecycleState set \<Rightarrow> sys \<Rightarrow> bool" where
  "all_in A s \<longleftrightarrow> (\<forall>n \<in> set (r_workerOrder s). lifecycle (get_state s n) \<in> A)"

definition down :: "sys \<Rightarrow> bool" where
  "down s \<longleftrightarrow> rs_inFlight (r_status s) = 0 \<and> s_active s = []
     \<and> all_in {StateRegistered, StateStopped} s"

lemma all_in_gates [simp]:
  "all_in A (s\<lparr>r_gate := b\<rparr>) = all_in A s" "all_in A (s\<lparr>r_admissionClosed := c\<rparr>) = all_in A s"
  "down (s\<lparr>r_gate := b\<rparr>) = down s" "down (s\<lparr>r_admissionClosed := c\<rparr>) = down s"
  by (simp_all add: all_in_def down_def)

lemma stopAll_order:
  assumes "sys_inv s" and "stopAll env s = (out, s')"
  shows "r_workerOrder s' = r_workerOrder s"
proof -
  have b: "bulk_frame s s'" using stopAll_bulk [OF assms(1), of env] assms(2) by simp
  show ?thesis by (rule bulk_order [OF b])
qed




lemma shutdown_down:
  assumes i: "sys_inv s" and cl: "r_admissionClosed s" and "settled s"
    and run: "shutdown c env s = (Finished None, s')"
  shows "down s'"
proof (cases rule: shutdown_cases [OF i cl run])
  case (2 errs s4 stopped)
  have settled: "settled s'" by (intro shutdown_settles [OF i _ _ run]) (simp_all add: assms)
  have f4: "sys_inv s4" "r_admissionClosed s4"
    using 2(1) cl by (simp_all add: bulk_frame_def frozen_def)
  have st: "stopped = Finished None"
  proof (cases stopped)
    case (Finished eo)
    with 2(5) have "errors_join (map Some (append_err eo errs)) = None" by simp
    then have "append_err eo errs = []" using errors_join_None by blast
    with Finished show ?thesis by (cases eo) (simp_all add: append_err_def)
  qed (use 2(5) in simp_all)
  have b: "bulk_frame s4 s'" using stopAll_bulk [OF f4(1), of "sh_stop env"] 2(4) by simp
  have none: "s_active s' = []" by (rule closed_stays_empty [OF b f4(2) 2(3)])
  then have "runtimeIdle s'" using b by (intro no_slots_idle) (simp_all add: bulk_frame_def)
  moreover have "lifecycle (get_state s' n) \<in> {StateRegistered, StateStopped}"
    if "n \<in> set (r_workerOrder s')" for n
    using stopAll_finished [OF f4(1) 2(4) [unfolded st]] that settled stopAll_order [OF f4(1) 2(4)]
    by (cases "lifecycle (get_state s' n)") (auto simp: settled_def)
  ultimately show ?thesis using none by (simp add: runtimeIdle_def down_def all_in_def)
qed auto

lemma Shutdown_down:
  assumes "reachable s" and "Shutdown c pre env s = (Finished None, s')"
  shows "down s'"
proof -
  let ?op = "runWithCommandAdmissionClosed (shutdown c env)"
  note call = assms(2) [unfolded Shutdown_def]
  obtain s0 where acq: "acquireLifecycle c pre s = (Acquired, s0)"
    using call by (auto simp: runLifecycle_def split: prod.splits acquired.splits)
  obtain o1 s1 where op: "?op s0 = (o1, s1)" by (cases "?op s0")
  have out: "Finished None = o1" "s' = s1\<lparr>r_gate := True\<rparr>"
    using ran_under_gate [OF acq call op] by simp_all
  then obtain s2 where s2: "shutdown c env (s0\<lparr>r_admissionClosed := True\<rparr>) = (Finished None, s2)"
    "s1 = s2\<lparr>r_admissionClosed := r_admissionClosed s0\<rparr>"
    using closed_around [OF op] by auto
  have "down s2"
    using acquired(1) [OF assms(1) acq] acquired_settled [OF assms(1) acq]
    by (intro shutdown_down [OF _ _ _ s2(1)]) simp_all
  then show ?thesis by (simp add: out(2) s2(2))
qed

text \<open>C4: what nil out of \<open>Shutdown\<close> means. The commands in flight have all ended, none holds a
  slot, and every worker is stopped or was never started. Whatever it returns, the gates are as
  it found them, so a runtime that was shut down can be started again.\<close>

theorem Shutdown_nil_means_down:
  assumes "reachable s" and "Shutdown c pre env s = (out, s')" and "out \<noteq> Blocked"
  shows "(out = Finished None \<longrightarrow> rs_inFlight (r_status s') = 0 \<and> s_active s' = []
      \<and> (\<forall>n \<in> set (r_workerOrder s').
           lifecycle (get_state s' n) \<in> {StateRegistered, StateStopped}))
    \<and> frozen s' = frozen s"
  using Shutdown_down [OF assms(1), of c pre env s'] assms(2,3)
    shutdown_op.gated [OF reachable_sys_inv [OF assms(1)] assms(2) [unfolded Shutdown_def]]
  by (auto simp: down_def all_in_def)

theorem Shutdown_nil_means_down_witness:
  "fst (Shutdown 0 [] \<lparr>sh_drain = quiet, sh_afterDrain = [], sh_polls = [], sh_afterWait = [],
      sh_stop = quiet\<rparr> ex_registered) = Finished None
   \<and> s_active (snd (Shutdown 0 [] \<lparr>sh_drain = quiet, sh_afterDrain = [], sh_polls = [],
      sh_afterWait = [], sh_stop = quiet\<rparr> ex_registered)) = []"
proof -
  let ?env = "\<lparr>sh_drain = quiet, sh_afterDrain = [], sh_polls = [], sh_afterWait = [], sh_stop = quiet\<rparr>"
  have "shutdown 0 ?env (ex_closed\<lparr>r_admissionClosed := True\<rparr>) =
      (Finished None, ex_closed\<lparr>r_admissionClosed := True\<rparr>)"
    by (simp add: shutdown_def Let_def drainAllBestEffort_def ex_closed_all quiet_def errors_join_def
        append_err_def stopAll_def)
  then obtain s' where run: "Shutdown 0 [] ?env ex_registered = (Finished None, s')"
    by (simp add: Shutdown_def runLifecycle_def ex_acquired runWithCommandAdmissionClosed_def Let_def)
  from Shutdown_nil_means_down [OF ex_registered_reachable run] run show ?thesis by simp
qed


section \<open>The program as a whole\<close>

text \<open>C5: no operation leaves a worker between two states. In every reachable state in which the
  lifecycle gate is free, no worker is starting or stopping: whatever failed, panicked or timed
  out, each operation that has returned has brought its workers to a state they can be started
  or stopped from again.\<close>

theorem gate_free_settled:
  assumes "reachable s" and "r_gate s"
  shows "lifecycle (get_state s n) \<notin> {StateStarting, StateStopping}"
  using reachable_settled [OF assms] by (simp add: settled_def)

theorem gate_free_settled_witness:
  "lifecycle (get_state ex_running ''c/a'') \<notin> {StateStarting, StateStopping}"
proof (rule gate_free_settled [OF ex_running_reachable])
  show "r_gate ex_running" by (simp add: ex_running_eq(1))
qed

text \<open>C13: a dispatch is one of the environments the lifecycle operations are proved against. All
  it does to the runtime, on every path, is a sequence of the environment's actions; so it
  leaves the gates and every registration alone, and no worker is started or stopped by it.\<close>

theorem dispatch_is_environment:
  assumes "reachable s" and "Dispatch env req s = (out, s')"
  shows "(\<exists>as. s' = run as s) \<and> frozen s' = frozen s
    \<and> (\<forall>m. may_fail (get_state s m) (get_state s' m))"
  using Dispatch_acts [OF reachable_sys_inv [OF assms(1)] assms(2)]
    Dispatch_idle [OF reachable_sys_inv [OF assms(1)] assms(2)]
  by (simp add: acts_from_def idle_frame_def bulk_frame_def)

definition ex_request :: CommandRequest where
  "ex_request = \<lparr>cq_worker = ''c/a'', cq_name = ''ping'', cq_payload = '''', cq_requestedAt = None\<rparr>"

text \<open>A dispatch alone, with the one attempt of its handler.\<close>

definition ex_dispatch :: "attempt \<Rightarrow> dispatch_env" where
  "ex_dispatch a = \<lparr>de_ctx = 0, de_beforeAdmit = [], de_attempts = [a],
     de_value = (\<lambda>_. \<lparr>res_message = ''pong'', res_payload = ''''\<rparr>), de_beforeRelease = [],
     de_beforeEnd = []\<rparr>"

theorem dispatch_is_environment_witness:
  "may_fail ex_a (get_state (snd (Dispatch (ex_dispatch returns_nil) ex_request ex_running)) ''c/a'')"
proof -
  obtain out s' where d: "Dispatch (ex_dispatch returns_nil) ex_request ex_running = (out, s')"
    by (cases "Dispatch (ex_dispatch returns_nil) ex_request ex_running")
  have "may_fail (get_state ex_running ''c/a'') (get_state s' ''c/a'')"
    using dispatch_is_environment [OF ex_running_reachable d] by blast
  moreover have "get_state ex_running ''c/a'' = ex_a" by (simp add: get_state_def ex_running_state)
  ultimately show ?thesis by (simp add: d)
qed

end
