(* ===== verification/Dispatch_Claims.thy ===== *)
theory Dispatch_Claims
  imports Operation_Claims
begin

text \<open>
  More properties of the runtime: what a command can and cannot do to its worker, its
  observation, how many attempts a retry policy lets through, and a corner of the aggregate
  state in which the code and the documentation differ.
\<close>

section \<open>The aggregate state of simple populations\<close>

lemma no_worker: "\<forall>(n, w) \<in> set (r_workerStates r). \<not> P n w \<Longrightarrow> some_worker r P = False"
  by auto

lemma derived_progress:
  assumes "\<forall>(n, w) \<in> set (r_workerStates r). lifecycle w \<notin> {StateFailed, StateStarting, StateDraining}"
  shows "some_worker r (\<lambda>n w. lifecycle w = StateStopping)
      \<Longrightarrow> deriveRuntimeLifecycleState r (statusFactsLocked r) = StateStopping"
    and "\<not> some_worker r (\<lambda>n w. lifecycle w = StateStopping)
      \<Longrightarrow> some_worker r (\<lambda>n w. lifecycle w = StateRunning)
      \<Longrightarrow> deriveRuntimeLifecycleState r (statusFactsLocked r) = StateRunning"
    and "\<not> some_worker r (\<lambda>n w. lifecycle w \<in> {StateStopping, StateRunning})
      \<Longrightarrow> some_worker r (\<lambda>n w. lifecycle w = StateRegistered)
      \<Longrightarrow> some_worker r (\<lambda>n w. lifecycle w = StateStopped)
      \<Longrightarrow> deriveRuntimeLifecycleState r (statusFactsLocked r) = rs_state (r_status r)"
proof -
  have none: "some_worker r (fatal_worker r) = False"
    "some_worker r (\<lambda>n w. lifecycle w = StateFailed) = False"
    "some_worker r (\<lambda>n w. lifecycle w = StateStarting) = False"
    "some_worker r (\<lambda>n w. lifecycle w = StateDraining) = False"
    by (rule no_worker, use assms in \<open>fastforce simp: fatal_worker_def\<close>)+
  have ne: "some_worker r P \<Longrightarrow> r_workerStates r \<noteq> []" for P by auto
  note simps = derived_state_eq none if_False
  show "some_worker r (\<lambda>n w. lifecycle w = StateStopping)
      \<Longrightarrow> deriveRuntimeLifecycleState r (statusFactsLocked r) = StateStopping"
    unfolding simps by (simp only: ne if_True if_False)
  show "\<not> some_worker r (\<lambda>n w. lifecycle w = StateStopping)
      \<Longrightarrow> some_worker r (\<lambda>n w. lifecycle w = StateRunning)
      \<Longrightarrow> deriveRuntimeLifecycleState r (statusFactsLocked r) = StateRunning"
    unfolding simps by (simp only: ne if_True if_False)
  assume h: "\<not> some_worker r (\<lambda>n w. lifecycle w \<in> {StateStopping, StateRunning})"
    "some_worker r (\<lambda>n w. lifecycle w = StateRegistered)"
    "some_worker r (\<lambda>n w. lifecycle w = StateStopped)"
  have "some_worker r (\<lambda>n w. lifecycle w = StateStopping) = False"
    "some_worker r (\<lambda>n w. lifecycle w = StateRunning) = False"
    by (rule no_worker, use h(1) in fastforce)+
  moreover have "every_worker r (\<lambda>n w. lifecycle w = StateStopped) = False"
    "every_worker r (\<lambda>n w. lifecycle w = StateRegistered) = False"
    using h(2,3) by fastforce+
  ultimately show "deriveRuntimeLifecycleState r (statusFactsLocked r) = rs_state (r_status r)"
    unfolding simps by (simp only: ne [OF h(2)] if_False)
qed

section \<open>A concrete running state\<close>

lemma ex_running_entries:
  "set (r_workerStates ex_running) = {(''c/a'', ex_a), (''c/b'', get_state ex_running ''c/b'')}"
  "lifecycle (get_state ex_running ''c/b'') = StateRegistered" "r_workerOrder ex_running = [''c/a'', ''c/b'']"
proof -
  show ord: "r_workerOrder ex_running = [''c/a'', ''c/b'']"
    using ex_running_frozen by (simp add: frozen_def ex_registered_def ex_with_def)
  have a: "get_state ex_running ''c/a'' = ex_a" by (simp add: get_state_def ex_running_state)
  show "set (r_workerStates ex_running) = {(''c/a'', ex_a), (''c/b'', get_state ex_running ''c/b'')}"
    by (simp add: worker_entries [OF sys_inv_rt [OF reachable_sys_inv [OF ex_running_reachable]]] ord a)
  have inv: "sys_inv ex_closed" using acquired(1) [OF ex_registered_reachable ex_acquired] .
  have l: "startable (lifecycle (new_workerState ''c/a'' ''a''))" by (simp add: new_workerState_def)
  obtain out s' where run: "start 0 [returns_nil] ''c/a'' ex_closed = (out, s')"
    by (cases "start 0 [returns_nil] ''c/a'' ex_closed")
  have "may_fail (get_state ex_closed ''c/b'') (get_state s' ''c/b'')"
    using start_ends [OF inv ex_closed_look(1,2) l run] by (simp add: op_frame_def)
  moreover have "get_state ex_running = get_state s'" using run by (simp add: ex_running_eq(1))
  moreover have "lifecycle (get_state ex_closed ''c/b'') = StateRegistered"
    by (simp add: ex_closed_def ex_registered_def ex_with_def get_state_def new_workerState_def)
  ultimately show "lifecycle (get_state ex_running ''c/b'') = StateRegistered"
    by (simp add: may_fail_def)
qed

lemma ex_running_status:
  "rs_state (r_status ex_running) = StateRunning" "rs_inFlight (r_status ex_running) = 0"
  "s_active ex_running = []"
proof -
  have inv: "sys_inv ex_running" by (rule reachable_sys_inv [OF ex_running_reachable])
  have "rs_state (r_status ex_running) = deriveRuntimeLifecycleState ex_running (statusFactsLocked ex_running)"
    using rt_inv_fresh [OF sys_inv_rt [OF inv]] by (simp add: status_fresh_def)
  also have "\<dots> = StateRunning"
    by (rule derived_progress(2)) (simp_all add: ex_running_entries ex_a_def)
  finally show "rs_state (r_status ex_running) = StateRunning" .
  have "startable (lifecycle (new_workerState ''c/a'' ''a''))" by (simp add: new_workerState_def)
  then obtain g s1 where b: "beginWorkerStart ''c/a'' ex_closed = (Inr g, s1)"
    using beginWorkerStart_begins [OF acquired(1) [OF ex_registered_reachable ex_acquired]
        ex_closed_look(2)] by metis
  have "start 0 [returns_nil] ''c/a'' ex_closed =
      (case completeWorkerStart ''c/a'' g True True s1 of (err, s3) \<Rightarrow> (Finished err, s3))"
    unfolding start_def ex_closed_look
    by (simp add: b runWithRetry_def call_worker_def returns_nil_def ex_config_def defaultWorkerConfig_def)
  then have "snd (start 0 [returns_nil] ''c/a'' ex_closed) = snd (completeWorkerStart ''c/a'' g True True s1)"
    by (simp add: case_prod_beta)
  then have "s_active ex_running = s_active (snd (completeWorkerStart ''c/a'' g True True s1))"
    by (simp only: ex_running_eq(1)) simp
  also have "\<dots> = s_active s1" using affects_active [OF completeWorkerStart_affects] by blast
  also have "s_active s1 = s_active (snd (beginWorkerStart ''c/a'' ex_closed))" by (simp only: b snd_conv)
  also have "\<dots> = s_active ex_closed" using affects_active [OF beginWorkerStart_affects] by blast
  also have "\<dots> = []" by (simp add: ex_closed_def ex_registered_def ex_with_def)
  finally show "s_active ex_running = []" .
  from no_slots_idle [OF inv this] show "rs_inFlight (r_status ex_running) = 0"
    by (simp add: runtimeIdle_def)
qed

section \<open>The aggregate state after a stop\<close>

lemma stop_nil_from:
  assumes inv: "sys_inv s" and look: "lookupWorker name s = Inr (n, wk, cfg)"
    and w: "map_of (r_workerStates s) n = Some w" and l: "stoppable (lifecycle w)"
    and run: "stop as name s = (Finished None, s')"
  obtains s2 where "under_way n StateStopping (generation w) s s2"
    "completeWorkerTransition n (generation w) StateStopping StateStopped False False s2 = (None, s')"
proof -
  obtain s1 where b: "beginWorkerStop n s = (Inr (generation w), s1)"
    and u1: "under_way n StateStopping (generation w) s s1"
    using beginWorkerStop_begins [OF inv w l] .
  note step = run [unfolded stop_def look, simplified, unfolded b, simplified]
  obtain a as' where as: "as = a # as'" using step by (cases as) simp_all
  have u2: "under_way n StateStopping (generation w) s (run (at_script a) s1)"
    using under_way.run_inv [OF u1] .
  have "completeWorkerTransition n (generation w) StateStopping StateStopped False False
      (run (at_script a) s1) = (None, s')"
    using step by (auto simp: as call_worker_def recoverLifecyclePanic_def Let_def
        split: op_result.splits option.splits prod.splits if_splits)
  with u2 show thesis by (rule that)
qed

lemma complete_stop_state:
  assumes u: "under_way n StateStopping g s0 s" and n: "n \<in> set (r_workerOrder s)"
    and run: "completeWorkerTransition n g StateStopping StateStopped False False s = (None, s')"
    and others: "\<And>m. m \<in> set (r_workerOrder s) \<Longrightarrow> m \<noteq> n
        \<Longrightarrow> lifecycle (get_state s m) \<in> {StateRegistered, StateStopped}"
    and m: "m \<in> set (r_workerOrder s)" "m \<noteq> n" "lifecycle (get_state s m) = StateRegistered"
  shows "rs_state (r_status s') = StateStopping"
proof -
  let ?w = "(moved_to StateStopped (r_now s) (get_state s n))\<lparr>ready := False, acceptingWork := False,
      readySetDuringStart := False, acceptingWorkSetDuringStart := False\<rparr>"
  let ?r = "set_worker n ?w s"
  have rt: "rt_inv s" and op: "operating n StateStopping g s"
    using under_way_inv [OF u] u by (simp_all add: under_way_def)
  have st: "r_status s' = r_status (recomputeStatusLocked ?r)" "r_workerStates s' = r_workerStates ?r"
    using run op by (auto simp: completeWorkerTransition_def section_simps operating_def
        commitWorkerStateLocked_def)
  have ends: "op_frame n s0 s'" "stopped_at n g s'"
    using completeWorkerTransition_ends [OF u] run by simp_all
  have aff: "affects n s s'"
    using completeWorkerTransition_affects run by (metis snd_conv)
  have ord: "r_workerOrder s' = r_workerOrder s" using affects_frozen [OF aff] by (rule frozen_order)
  have now: "lifecycle (get_state s' n) = StateStopped"
    "\<And>k. k \<noteq> n \<Longrightarrow> get_state s' k = get_state s k"
    using ends affects_other [OF aff] by (simp_all add: stopped_at_def Let_def)
  have prev: "rs_state (r_status s) = StateStopping"
  proof -
    have e: "set (r_workerStates s) = (\<lambda>k. (k, get_state s k)) ` set (r_workerOrder s)"
      by (rule worker_entries [OF rt])
    have "deriveRuntimeLifecycleState s (statusFactsLocked s) = StateStopping"
    proof (rule derived_progress(1))
      show "some_worker s (\<lambda>n w. lifecycle w = StateStopping)"
        unfolding e using op n by (force simp: operating_def)
      show "\<forall>(n, w) \<in> set (r_workerStates s). lifecycle w \<notin> {StateFailed, StateStarting, StateDraining}"
        unfolding e using op others by (force simp: operating_def)
    qed
    with rt_inv_fresh [OF rt] show ?thesis by (simp add: status_fresh_def)
  qed
  have entries: "set (r_workerStates ?r) = (\<lambda>k. (k, get_state s' k)) ` set (r_workerOrder s)"
    using worker_entries [of s'] ends(1) by (simp add: st ord op_frame_def sys_inv_rt)
  have "rs_state (r_status s') = deriveRuntimeLifecycleState ?r (statusFactsLocked ?r)"
    by (simp add: st recomputeStatusLocked_def Let_def)
  also have "\<dots> = rs_state (r_status s)"
  proof -
    have "deriveRuntimeLifecycleState ?r (statusFactsLocked ?r) = rs_state (r_status ?r)"
    proof (rule derived_progress(3))
      show "some_worker ?r (\<lambda>n w. lifecycle w = StateStopped)" unfolding entries using n now by force
      show "some_worker ?r (\<lambda>n w. lifecycle w = StateRegistered)" unfolding entries using m now by force
      have "lifecycle (get_state s' k) \<in> {StateRegistered, StateStopped}"
        if "k \<in> set (r_workerOrder s)" for k
        using others [OF that] now by (cases "k = n") simp_all
      then show "\<forall>(n, w) \<in> set (r_workerStates ?r).
            lifecycle w \<notin> {StateFailed, StateStarting, StateDraining}"
          "\<not> some_worker ?r (\<lambda>n w. lifecycle w \<in> {StateStopping, StateRunning})"
        unfolding entries by fastforce+
    qed
    then show ?thesis by (simp add: set_worker_def)
  qed
  finally show ?thesis by (simp add: prev)
qed


text \<open>C36: the aggregate state can stay \<open>stopping\<close> with nothing stopping. When \<open>Stop\<close> succeeds on
  the last active worker while some other worker was never started, every worker is stopped or
  registered and the aggregate state keeps its previous value, \<open>stopping\<close>, whatever runs
  beside it.\<close>

theorem stop_leaves_stopping:
  assumes "reachable s" and "lookupWorker name s = Inr (n, wk, cfg)"
    and "map_of (r_workerStates s) n = Some w"
    and "lifecycle w \<in> {StateRunning, StateDraining, StateFailed}"
    and "\<forall>m \<in> set (r_workerOrder s). m \<noteq> n \<longrightarrow> lifecycle (get_state s m) \<in> {StateRegistered, StateStopped}"
    and "\<exists>m \<in> set (r_workerOrder s). m \<noteq> n \<and> lifecycle (get_state s m) = StateRegistered"
    and "stop as name s = (Finished None, s')"
  shows "rs_state (r_status s') = StateStopping
    \<and> (\<forall>m \<in> set (r_workerOrder s'). lifecycle (get_state s' m) \<in> {StateRegistered, StateStopped})"
proof -
  have inv: "sys_inv s" using assms(1) by (rule reachable_sys_inv)
  obtain s2 where u: "under_way n StateStopping (generation w) s s2" and
    run: "completeWorkerTransition n (generation w) StateStopping StateStopped False False s2 = (None, s')"
    using stop_nil_from [OF inv assms(2-4,7)] .
  have fr: "op_frame n s s2" "op_frame n s s'" and fin: "stopped_at n (generation w) s'"
    using u completeWorkerTransition_ends [OF u] run by (simp_all add: under_way_def)
  have ord: "r_workerOrder s2 = r_workerOrder s" "r_workerOrder s' = r_workerOrder s"
    by (rule bulk_order [OF op_bulk [OF fr(1)]], rule bulk_order [OF op_bulk [OF fr(2)]])
  have keep: "\<And>m. m \<noteq> n \<Longrightarrow> may_fail (get_state s m) (get_state s2 m)"
      "\<And>m. m \<noteq> n \<Longrightarrow> may_fail (get_state s m) (get_state s' m)"
    using fr by (simp_all add: op_frame_def)
  have n: "n \<in> set (r_workerOrder s)"
    using rt_inv_registered(1) [OF sys_inv_rt [OF inv], of n] assms(3) by simp
  obtain m where m: "m \<in> set (r_workerOrder s)" "m \<noteq> n" "lifecycle (get_state s m) = StateRegistered"
    using assms(6) by blast
  have others: "lifecycle (get_state s2 k) \<in> {StateRegistered, StateStopped}"
      "lifecycle (get_state s' k) \<in> {StateRegistered, StateStopped}"
    if "k \<in> set (r_workerOrder s)" "k \<noteq> n" for k
    using keep [OF that(2)] assms(5) that by (fastforce simp: may_fail_def)+
  have "rs_state (r_status s') = StateStopping"
    using m keep(1) [OF m(2)] others(1) n ord(1)
    by (intro complete_stop_state [OF u _ run, of m]) (simp_all add: may_fail_def)
  moreover have "lifecycle (get_state s' k) \<in> {StateRegistered, StateStopped}"
    if "k \<in> set (r_workerOrder s)" for k
    using others(2) [OF that] fin by (cases "k = n") (simp_all add: stopped_at_def Let_def)
  ultimately show ?thesis by (simp add: ord)
qed

theorem stop_leaves_stopping_witness:
  "fst (stop [returns_nil] ''c/a'' ex_running) = Finished None
   \<and> rs_state (r_status (snd (stop [returns_nil] ''c/a'' ex_running))) = StateStopping"
proof -
  have l: "lifecycle ex_a \<in> {StateRunning, StateDraining, StateFailed}" by (simp add: ex_a_def)
  obtain s1 where b: "beginWorkerStop ''c/a'' ex_running = (Inr (generation ex_a), s1)"
    and u: "under_way ''c/a'' StateStopping (generation ex_a) ex_running s1"
    using beginWorkerStop_begins [OF reachable_sys_inv [OF ex_running_reachable] ex_running_state l] .
  obtain s2 where "completeWorkerTransition ''c/a'' (generation ex_a) StateStopping StateStopped
      False False s1 = (None, s2)"
    using completeWorkerTransition_ends [OF u] by (metis prod.collapse)
  with b have run: "stop [returns_nil] ''c/a'' ex_running = (Finished None, s2)"
    by (simp add: stop_def ex_running_look call_worker_def returns_nil_def)
  have "rs_state (r_status s2) = StateStopping"
    using stop_leaves_stopping [OF ex_running_reachable ex_running_look ex_running_state l _ _ run]
    by (simp add: ex_running_entries)
  with run show ?thesis by simp
qed

section \<open>Commands\<close>

definition closed_by :: "CommandEndEvent \<Rightarrow> string \<Rightarrow> time \<Rightarrow> error option \<Rightarrow> sys \<Rightarrow> bool" where
  "closed_by e d st err s \<longleftrightarrow>
     last (r_calls s) = EndCommand e \<and> ce_dispatchID e = d \<and> ce_startedAt e = st
     \<and> ce_success e = (err = None) \<and> ce_cause e = err"

lemma ended_closed: "\<exists>e. closed_by e d st err (endCommandObservation w c d k st err s)"
  by (rule exI [of _ "\<lparr>ce_runtime = r_identity s, ce_worker = w, ce_command = c, ce_dispatchID = d,
      ce_attempts = k, ce_startedAt = st, ce_endedAt = r_now s, ce_duration = int (r_now s) - int st,
      ce_success = (err = None), ce_code = f_code (operationalFailure err commandFailure),
      ce_message = f_message (operationalFailure err commandFailure), ce_cause = err\<rparr>"])
    (simp add: endCommandObservation_def Let_def observe_def closed_by_def)

lemma finish_closed: "\<exists>e. closed_by e d st err (finishCommand t env req d k st err s)"
  unfolding finishCommand_def by (rule ended_closed)

lemma runAdmitted_closed:
  assumes run: "runAdmitted env req cfg t g d st s = (out, s')" and ended: "out \<noteq> CommandBlocked"
  shows "\<exists>e err. closed_by e d st err s' \<and> (err = None \<longleftrightarrow> (\<exists>v. out = CommandOk v))
    \<and> (\<forall>x. out = CommandErr x \<longrightarrow> err = Some x)"
proof -
  obtain o2 k s1 where ex: "executeCommand (de_ctx env) req cfg g d
      (map (shield t) (de_attempts env)) s = (o2, k, s1)"
    by (cases "executeCommand (de_ctx env) req cfg g d (map (shield t) (de_attempts env)) s")
  show ?thesis
  proof (cases o2)
    case Panicking
    obtain pe again s2 where r: "recoverCommandPanic req cfg g d k s1 = (pe, again, s2)"
      by (cases "recoverCommandPanic req cfg g d k s1")
    obtain e where "closed_by e d st (Some pe) s'"
      using run ex Panicking r finish_closed by (fastforce simp: runAdmitted_def)
    moreover have "out = (if again then CommandPanic else CommandErr pe)"
      using run ex Panicking r by (simp add: runAdmitted_def)
    ultimately show ?thesis by (intro exI [of _ e] exI [of _ "Some pe"]) simp
  next
    case (Finished err)
    obtain e where "closed_by e d st err s'"
      using run ex Finished finish_closed by (cases err) (fastforce simp: runAdmitted_def)+
    moreover have "case err of None \<Rightarrow> \<exists>v. out = CommandOk v | Some x \<Rightarrow> out = CommandErr x"
      using run ex Finished by (cases err) (auto simp: runAdmitted_def)
    ultimately show ?thesis
      by (intro exI [of _ e] exI [of _ err]) (auto split: option.splits)
  next
    case Blocked
    with run ex ended show ?thesis by (simp add: runAdmitted_def)
  qed
qed

text \<open>C22: the observation of a dispatch is closed last and truthfully. Whatever happens from the
  lookup of the command on, refusal, retries and panics included, the last event of a dispatch
  that returns or panics ends the observation it opened: with its dispatch ID and start time,
  success exactly when it returns a result, and the error it returns as the cause.\<close>

theorem observation_closed_last:
  assumes "normalizeCommandRequest req (r_now s) s = Inr req1"
    and "lookupCommandTarget req1 s = Inr (cfg, reg)"
    and "Dispatch env req s = (out, s')" and "out \<noteq> CommandBlocked"
  shows "\<exists>e. last (r_calls s') = EndCommand e
    \<and> ce_dispatchID e = fst (nextCommandDispatchID s) \<and> ce_startedAt e = r_now s
    \<and> (ce_success e \<longleftrightarrow> (\<exists>v. out = CommandOk v))
    \<and> (\<forall>x. out = CommandErr x \<longrightarrow> ce_cause e = Some x)"
proof -
  let ?w = "cr_worker reg" let ?req = "req1\<lparr>cq_worker := ?w, cq_name := cr_name reg\<rparr>"
  obtain d s1 where d: "nextCommandDispatchID s = (d, s1)" by (cases "nextCommandDispatchID s")
  let ?s2 = "run (de_beforeAdmit env) (startCommandObservation ?w (cr_name reg) d (r_now s) s1)"
  obtain a s3 where ad: "admit_slot ?w ?s2 = (a, s3)" by (cases "admit_slot ?w ?s2")
  have "\<exists>e err. closed_by e d (r_now s) err s' \<and> (err = None \<longleftrightarrow> (\<exists>v. out = CommandOk v))
      \<and> (\<forall>x. out = CommandErr x \<longrightarrow> err = Some x)"
  proof (cases a)
    case (Inl x)
    have out: "out = CommandErr x"
      and s': "s' = endCommandObservation ?w (cr_name reg) d 0 (r_now s) (Some x) s3"
      using assms d ad Inl by (auto simp: Dispatch_def Let_def)
    obtain e where "closed_by e d (r_now s) (Some x) s'" unfolding s' using ended_closed by blast
    with out show ?thesis by (intro exI [of _ e] exI [of _ "Some x"]) simp
  next
    case (Inr tg)
    obtain t g where tg: "tg = (t, g)" by (cases tg)
    have "runAdmitted env ?req cfg t g d (r_now s) s3 = (out, s')"
      using assms d ad Inr tg by (simp add: Dispatch_def Let_def)
    from runAdmitted_closed [OF this assms(4)] show ?thesis .
  qed
  then show ?thesis by (auto simp: closed_by_def d)
qed


lemma ex_running_static:
  "r_identity ex_running = ''c''" "r_admissionClosed ex_running = False"
  "r_config ex_running = defaultRuntimeConfig" "get_config ex_running ''c/a'' = ex_config"
  "map_of (r_registrations ex_running) ''c/a'' = Some (ex_spec ''a'')"
  "get_commands ex_running ''c/a'' = [(''ping'', ex_command)]"
proof -
  have f: "r_identity ex_running = r_identity ex_registered"
    "r_admissionClosed ex_running = r_admissionClosed ex_registered"
    "r_config ex_running = r_config ex_registered"
    "r_workerConfigs ex_running = r_workerConfigs ex_registered"
    "r_registrations ex_running = r_registrations ex_registered"
    "r_commands ex_running = r_commands ex_registered"
    using ex_running_frozen by (simp_all add: frozen_def)
  show "r_identity ex_running = ''c''" "r_admissionClosed ex_running = False"
    "r_config ex_running = defaultRuntimeConfig" "get_config ex_running ''c/a'' = ex_config"
    "map_of (r_registrations ex_running) ''c/a'' = Some (ex_spec ''a'')"
    "get_commands ex_running ''c/a'' = [(''ping'', ex_command)]"
    unfolding get_config_def get_commands_def f by (simp_all add: ex_registered_def ex_with_def)
qed

lemma ex_admissible: "admissible ''c/a'' ex_a ex_running"
  by (simp add: admissible_def ex_running_static ex_running_status ex_running_state)
     (simp add: ex_a_def ex_config_def defaultRuntimeConfig_def new_workerState_def zero_workerState_def)

lemma ex_target:
  obtains req1 where "normalizeCommandRequest ex_request (r_now ex_running) ex_running = Inr req1"
    "cq_worker req1 = ''c/a''" "cq_name req1 = ''ping''"
    "lookupCommandTarget req1 ex_running = Inr (ex_config, ex_command)"
  by (auto simp: normalizeCommandRequest_def lookupCommandTarget_def ex_request_def
      ex_running_static ex_resolve ping_valid Let_def)

lemma ex_executed:
  "executeCommand c req ex_config g d (map (shield t) [returns_nil]) s = (Finished None, 1, s)"
  by (simp add: executeCommand_def runWithRetry_def call_worker_def shield_def returns_nil_def others_def)

text \<open>C9: a dispatch gives back the slot it took on every path that returns or panics, whatever
  runs beside it, and its token is never used again.\<close>

theorem slot_given_back:
  assumes "reachable s" and "admit_slot (cq_worker req) s = (Inr (t, g), s1)"
    and "runAdmitted env req cfg t g d st s1 = (out, s')" and "out \<noteq> CommandBlocked"
  shows "map_of (s_active s1) t = Some (cq_worker req, g) \<and> map_of (s_active s') t = None
    \<and> t < s_next s' \<and> sys_inv s'"
proof -
  have h: "held t (cq_worker req) g s1"
    using admit_slot_held [OF reachable_sys_inv [OF assms(1)] assms(2)] by blast
  with runAdmitted_given_back [OF h assms(3,4)] show ?thesis by (simp add: held_def given_back_def)
qed

theorem slot_given_back_witness:
  "\<exists>t g s1 s'. admit_slot ''c/a'' ex_running = (Inr (t, g), s1)
     \<and> map_of (s_active s1) t = Some (''c/a'', g) \<and> map_of (s_active s') t = None
     \<and> runAdmitted (ex_dispatch returns_nil) ex_request ex_config t g '''' 0 s1 =
         (CommandOk \<lparr>res_message = ''pong'', res_payload = ''''\<rparr>, s')"
proof -
  obtain t g s1 where ad: "admit_slot ''c/a'' ex_running = (Inr (t, g), s1)"
    using admitCommand_admissible [OF ex_admissible] by (simp add: admit_slot_def)
  obtain s' where run: "runAdmitted (ex_dispatch returns_nil) ex_request ex_config t g '''' 0 s1 =
      (CommandOk \<lparr>res_message = ''pong'', res_payload = ''''\<rparr>, s')"
    using ex_executed by (simp add: runAdmitted_def ex_dispatch_def)
  have w: "admit_slot (cq_worker ex_request) ex_running = (Inr (t, g), s1)"
    using ad by (simp add: ex_request_def)
  from slot_given_back [OF ex_running_reachable w run] ad run show ?thesis
    by (auto simp: ex_request_def)
qed

theorem observation_closed_last_witness:
  "\<exists>e. last (r_calls (snd (Dispatch (ex_dispatch returns_nil) ex_request ex_running))) = EndCommand e
     \<and> ce_success e"
proof -
  obtain req1 where n: "normalizeCommandRequest ex_request (r_now ex_running) ex_running = Inr req1"
    and c: "cq_worker req1 = ''c/a''" "cq_name req1 = ''ping''"
    and l: "lookupCommandTarget req1 ex_running = Inr (ex_config, ex_command)"
    using ex_target .
  let ?s1 = "startCommandObservation ''c/a'' ''ping'' (fst (nextCommandDispatchID ex_running))
      (r_now ex_running) (snd (nextCommandDispatchID ex_running))"
  have same: "admissible ''c/a'' ex_a ?s1"
    using ex_admissible
    by (simp add: admissible_def startCommandObservation_def observe_def nextCommandDispatchID_def
        Let_def get_config_def)
  obtain t g s3 where ad: "admit_slot ''c/a'' ?s1 = (Inr (t, g), s3)"
    using admitCommand_admissible [OF same] by (simp add: admit_slot_def)
  have "fst (Dispatch (ex_dispatch returns_nil) ex_request ex_running) =
      CommandOk \<lparr>res_message = ''pong'', res_payload = ''''\<rparr>"
    using ad ex_executed
    by (simp add: Dispatch_def n l ex_command_def ex_dispatch_def runAdmitted_def Let_def case_prod_beta)
  then obtain s' where d: "Dispatch (ex_dispatch returns_nil) ex_request ex_running =
      (CommandOk \<lparr>res_message = ''pong'', res_payload = ''''\<rparr>, s')"
    by (cases "Dispatch (ex_dispatch returns_nil) ex_request ex_running") simp
  from observation_closed_last [OF n l d] d show ?thesis by auto
qed


section \<open>What a command can do to its worker\<close>

lemma panicking_attempt:
  "fst (retryLoop c p call_worker f k as s) = Panicking \<Longrightarrow> \<exists>a \<in> set as. at_result a = Panics"
proof (induction as arbitrary: k s)
  case (Cons a as)
  then show ?case
    by (auto simp: call_worker_def Let_def waitBeforeRetry_def select_timer_def
        split: op_result.splits option.splits prod.splits if_splits outcome.splits)
qed simp

lemma runAdmitted_view:
  assumes al: "alone env" and run: "runAdmitted env req cfg t g d st s = (out, s')"
  shows "service_view (get_state s' m) = service_view (get_state s m)
    \<or> m = cq_worker req \<and> (\<exists>a \<in> set (de_attempts env). at_result a = Panics)
      \<and> lifecycle (get_state s m) \<in> {StateRunning, StateDraining}
      \<and> lifecycle (get_state s' m) = StateFailed \<and> generation (get_state s' m) = generation (get_state s m)
      \<and> \<not> ready (get_state s' m) \<and> \<not> acceptingWork (get_state s' m)"
proof -
  note quiet = al [unfolded alone_def]
  let ?ex = "executeCommand (de_ctx env) req cfg g d (map (shield t) (de_attempts env)) s"
  obtain o2 k s1 where ex: "?ex = (o2, k, s1)" by (cases ?ex)
  have v1: "service_view (get_state s1 n) = service_view (get_state s n)" for n
    using execute_alone [of "de_attempts env" "de_ctx env" req cfg g d t s n] quiet ex by simp
  have fv: "service_view (get_state (finishCommand t env req d k st e x) n) = service_view (get_state x n)"
    for e x n using finish_view quiet by blast
  show ?thesis
  proof (cases o2)
    case Panicking
    obtain pe again s2 where r: "recoverCommandPanic req cfg g d k s1 = (pe, again, s2)"
      by (cases "recoverCommandPanic req cfg g d k s1")
    have s': "s' = finishCommand t env req d k st (Some pe) s2"
      using run ex Panicking r by (simp add: runAdmitted_def)
    have h: "fst ?ex = Panicking" using ex Panicking by simp
    have "\<exists>a \<in> set (map (shield t) (de_attempts env)). at_result a = Panics"
      by (rule panicking_attempt [OF h [unfolded executeCommand_def runWithRetry_def]])
    then have p: "\<exists>a \<in> set (de_attempts env). at_result a = Panics" by (auto simp: shield_def)
    have "s2 = recordCommandPanic (cq_worker req) g (cq_name req) pe d k s1"
      using r by (auto simp: recoverCommandPanic_def Let_def)
    then have "service_view (get_state s' m) =
        (if m = cq_worker req \<and> generation (get_state s1 (cq_worker req)) = g
            \<and> lifecycle (get_state s1 (cq_worker req)) \<in> {StateRunning, StateDraining}
         then (StateFailed, g, False, False,
               Some (failure_info (operationalFailure (Some pe) commandFailure) (r_now s1)))
         else service_view (get_state s m))"
      by (simp only: s' fv recordCommandPanic_view v1)
    then show ?thesis using p v1 [of m] by (auto simp: service_view_def split: if_splits)
  next
    case (Finished err)
    with run ex fv v1 show ?thesis by (cases err) (auto simp: runAdmitted_def)
  next
    case Blocked
    with run ex v1 show ?thesis by (simp add: runAdmitted_def)
  qed
qed

text \<open>Opening the observation and asking for a slot change nothing of what a worker shows.\<close>

lemma admission_view:
  assumes "nextCommandDispatchID s = (d, s1)"
    and ad: "admit_slot n (startCommandObservation n c d t s1) = (a, s3)"
  shows "service_view (get_state s3 k) = service_view (get_state s k)"
proof -
  let ?s2 = "startCommandObservation n c d t s1"
  have v2: "get_state ?s2 k = get_state s k" for k
    using assms(1) by (auto simp: startCommandObservation_def observe_def nextCommandDispatchID_def
        Let_def get_state_def)
  show ?thesis
  proof (cases n ?s2 rule: admitCommand_cases)
    case (refused e)
    with ad v2 show ?thesis by (simp add: admit_slot_def)
  next
    case (admitted w)
    then have w: "map_of (r_workerStates ?s2) n = Some w" by (simp add: admissible_def)
    have "service_view (get_state (admitted n w ?s2) k) = service_view (get_state ?s2 k)"
      using w by (auto simp: admitted_def section_simps service_view_def get_state_def [of ?s2])
    with admitted ad v2 show ?thesis by (auto simp: admit_slot_def get_state_def)
  qed
qed

lemma target_resolved:
  assumes "sys_inv s" and n: "normalizeCommandRequest req at s = Inr req1"
    and "lookupCommandTarget req1 s = Inr (cfg, reg)"
  shows "resolveWorkerName (r_identity s) (cq_worker req) = Inr (cr_worker reg)"
proof -
  have "resolveWorkerName (r_identity s) (cq_worker req) = Inr (cq_worker req1)"
    using n by (auto simp: normalizeCommandRequest_def Let_def split: sum.splits option.splits if_splits)
  moreover have "map_of (get_commands s (cq_worker req1)) (cq_name req1) = Some reg"
    using assms(3) by (auto simp: lookupCommandTarget_def split: option.splits if_splits)
  then have "cr_worker reg = cq_worker req1"
    using sys_inv_rt [OF assms(1)]
    by (fastforce simp: get_commands_def rt_inv_def registry_ok_def dest!: map_of_SomeD split: option.splits)
  ultimately show ?thesis by simp
qed

text \<open>C21: a command that fails does not fail its worker. While nothing else acts (\<open>alone\<close>), a dispatch,
  whatever its handler returns and however often it is retried, leaves the lifecycle, the
  generation, the readiness, the acceptance of work and the last failure of every worker alone.
  Only a panic of the handler changes any of these, and then only for the worker the request
  names: if it was running or draining, that worker fails, unready and refusing work, on its
  generation.\<close>

theorem command_failure_isolated:
  assumes "reachable s" and "alone env" and "Dispatch env req s = (out, s')"
  shows "service_view (get_state s' m) = service_view (get_state s m)
    \<or> (\<exists>a \<in> set (de_attempts env). at_result a = Panics)
      \<and> resolveWorkerName (r_identity s) (cq_worker req) = Inr m
      \<and> lifecycle (get_state s m) \<in> {StateRunning, StateDraining}
      \<and> lifecycle (get_state s' m) = StateFailed \<and> generation (get_state s' m) = generation (get_state s m)
      \<and> \<not> ready (get_state s' m) \<and> \<not> acceptingWork (get_state s' m)
      \<and> (\<forall>k. k \<noteq> m \<longrightarrow> service_view (get_state s' k) = service_view (get_state s k))"
proof (cases "normalizeCommandRequest req (r_now s) s")
  case (Inl e)
  with assms show ?thesis by (simp add: Dispatch_def)
next
  case n: (Inr req1)
  show ?thesis
  proof (cases "lookupCommandTarget req1 s")
    case (Inl e)
    with assms n show ?thesis by (simp add: Dispatch_def)
  next
    case (Inr p)
    obtain cfg reg where p: "p = (cfg, reg)" by (cases p)
    note target = target_resolved [OF reachable_sys_inv [OF assms(1)] n Inr [unfolded p]]
    let ?req = "req1\<lparr>cq_worker := cr_worker reg, cq_name := cr_name reg\<rparr>"
    obtain d s1 where d: "nextCommandDispatchID s = (d, s1)" by (cases "nextCommandDispatchID s")
    obtain a s3 where ad: "admit_slot (cr_worker reg)
        (startCommandObservation (cr_worker reg) (cr_name reg) d (r_now s) s1) = (a, s3)" by fastforce
    note v3 = admission_view [OF d ad]
    show ?thesis
    proof (cases a)
      case (Inl e)
      have "s' = endCommandObservation (cr_worker reg) (cr_name reg) d 0 (r_now s) (Some e) s3"
        using assms n Inr p d ad Inl by (auto simp: Dispatch_def Let_def alone_def)
      with v3 show ?thesis by (simp add: endCommandObservation_def Let_def)
    next
      case slot: (Inr tg)
      obtain t g where tg: "tg = (t, g)" by (cases tg)
      have run: "runAdmitted env ?req cfg t g d (r_now s) s3 = (out, s')"
        using assms n Inr p d ad slot tg by (simp add: Dispatch_def Let_def alone_def)
      note view = runAdmitted_view [OF assms(2) run]
      show ?thesis
        using view [of m] view v3 target by (auto simp: service_view_def)
    qed
  qed
qed

theorem command_failure_isolated_witness:
  "lifecycle (get_state (snd (Dispatch
     (ex_dispatch (returns_nil\<lparr>at_result := Returns (Some (Sentinel ErrInvalidWorkerState))\<rparr>))
     ex_request ex_running)) ''c/a'') = StateRunning"
proof -
  let ?env = "ex_dispatch (returns_nil\<lparr>at_result := Returns (Some (Sentinel ErrInvalidWorkerState))\<rparr>)"
  obtain out s' where d: "Dispatch ?env ex_request ex_running = (out, s')"
    by (cases "Dispatch ?env ex_request ex_running")
  have "alone ?env"
    by (simp add: alone_def ex_dispatch_def attempt_allowed_def returns_nil_def)
  then have "service_view (get_state s' ''c/a'') = service_view (get_state ex_running ''c/a'')"
    using command_failure_isolated [OF ex_running_reachable _ d, of "''c/a''"] by (auto simp: ex_dispatch_def returns_nil_def)
  moreover have "get_state ex_running ''c/a'' = ex_a" by (simp add: get_state_def ex_running_state)
  ultimately show ?thesis by (simp add: d service_view_def ex_a_def)
qed


section \<open>Retries\<close>

text \<open>C23: retries end. Under a policy made from a \<open>retry.Config\<close>, \<open>start\<close> calls \<open>Worker.Start\<close> at
  most \<open>max 1 MaxAttempts\<close> times, whatever the attempts return, and it does return once that many
  attempts return and the waits between them elapse.\<close>

theorem start_attempts_bounded:
  assumes "lookupWorker name s = Inr (n, wk, cfg)" and "startRetryPolicy cfg = Some (New rc)"
  defines "m \<equiv> nat (max 1 (MaxAttempts rc))"
  shows "start c as name s = start c (take m as) name s
    \<and> (m \<le> length as \<longrightarrow> (\<forall>a \<in> set as. at_timer a) \<longrightarrow> fst (start c as name s) \<noteq> Blocked)"
proof -
  have m: "int m \<ge> max 1 (MaxAttempts rc) - 1 + 1" "1 \<le> m" by (simp_all add: m_def)
  have same: "runWithRetry c (startRetryPolicy cfg) call_worker f as r =
      runWithRetry c (startRetryPolicy cfg) call_worker f (take m as) r" for f r
    unfolding runWithRetry_def assms(2) option.case by (rule config_policy.loop_attempts [OF m])
  have ends: "fst (runWithRetry c (startRetryPolicy cfg) call_worker f as r) \<noteq> Blocked"
    if "m \<le> length as" "\<forall>a \<in> set as. at_timer a" for f r
    unfolding runWithRetry_def assms(2) option.case
    by (rule config_policy.loop_returns) (use that m in auto)
  have "fst (start c as name s) \<noteq> Blocked" if "m \<le> length as" "\<forall>a \<in> set as. at_timer a"
    using ends [OF that]
    by (auto simp: start_def assms(1) recoverLifecyclePanic_def Let_def
        split: sum.split prod.splits outcome.splits option.splits) (metis fst_conv)+
  moreover have "start c as name s = start c (take m as) name s"
    unfolding start_def assms(1) sum.case prod.case by (subst same) (rule refl)
  ultimately show ?thesis by blast
qed

definition ex_retry :: retry_config where
  "ex_retry = \<lparr>MaxAttempts = 2, Backoff = None, Jitter = None, Retryable = None\<rparr>"

definition ex_retrying :: sys where
  "ex_retrying = ex_registered
     \<lparr>r_workerConfigs := [(''c/a'', ex_config\<lparr>startRetryPolicy := Some (New ex_retry)\<rparr>)]\<rparr>"

theorem start_attempts_bounded_witness:
  "start 0 [returns_nil, returns_nil, returns_nil] ''c/a'' ex_retrying =
     start 0 [returns_nil, returns_nil] ''c/a'' ex_retrying
   \<and> fst (start 0 [returns_nil, returns_nil] ''c/a'' ex_retrying) \<noteq> Blocked"
proof -
  have look: "lookupWorker ''c/a'' ex_retrying =
      Inr (''c/a'', Some 1, ex_config\<lparr>startRetryPolicy := Some (New ex_retry)\<rparr>)"
    by (simp add: lookupWorker_def resolveWorkerNameStrict_def ex_retrying_def ex_registered_def
        ex_with_def ex_resolve get_config_def ex_spec_def)
  have p: "startRetryPolicy (ex_config\<lparr>startRetryPolicy := Some (New ex_retry)\<rparr>) = Some (New ex_retry)"
    by simp
  have m: "nat (max 1 (MaxAttempts ex_retry)) = 2" by (simp add: ex_retry_def)
  show ?thesis
    using start_attempts_bounded [OF look p, of 0 "[returns_nil, returns_nil, returns_nil]"]
      start_attempts_bounded [OF look p, of 0 "[returns_nil, returns_nil]"]
    unfolding m by (simp add: returns_nil_def numeral_2_eq_2)
qed

end
