(* ===== verification/Loop_Worker.thy ===== *)
theory Loop_Worker
  imports Runtime_Dispatch
begin

text \<open>
  \<open>loop.go\<close>: the \<open>LoopWorker\<close>, a worker that runs a long-lived function in a goroutine of its
  own. One definition per method, over the struct; a method that takes the mutex is one atomic
  step. The relation \<open>loop_step\<close> is the program: any number of goroutines, each at a program
  point (\<open>pc\<close>), interleaved at those steps.

  The loop function, the two hooks and the results of the calls on the runtime handle are the
  environment's: they return nil, any error, or panic. A goroutine is a number; a loop's \<open>done\<close>
  channel and its context carry the number of its goroutine. \<open>lw_calls\<close> lists the calls made on
  runtime handles, as actions of the runtime's system.
\<close>

section \<open>The struct\<close>

type_synonym handle = "string \<times> generation"

datatype loopWorkerState = loopIdle | loopStarting | loopRunning | loopStopping | loopStopped

definition loopWorkerState_String :: "loopWorkerState \<Rightarrow> string" where
  "loopWorkerState_String s = (case s of
     loopIdle \<Rightarrow> ''idle'' | loopStarting \<Rightarrow> ''starting'' | loopRunning \<Rightarrow> ''running''
   | loopStopping \<Rightarrow> ''stopping'' | loopStopped \<Rightarrow> ''stopped'')"

record loopWorkerConfig =
  lc_onStart :: bool
  lc_onStop :: bool
  lc_autoReady :: bool

text \<open>The flags say which of the functions are non-nil. The attempts are a heap:
  \<open>lw_attempts ! a\<close> is whether the \<open>done\<close> channel of attempt \<open>a\<close> is closed, and its error.\<close>

record LoopWorker =
  lw_loop :: bool
  lw_onStart :: bool
  lw_onStop :: bool
  lw_autoReady :: bool
  lw_state :: loopWorkerState
  lw_cancel :: "nat option"
  lw_done :: "nat option"
  lw_runtime :: "handle option"
  lw_stopHookRunning :: bool
  lw_stopHookComplete :: bool
  lw_stopHookAttempt :: "nat option"
  lw_attempts :: "(bool \<times> error option) list"

section \<open>Construction\<close>

type_synonym LoopWorkerOption = "loopWorkerConfig \<Rightarrow> loopWorkerConfig"

definition WithLoopStart :: "bool \<Rightarrow> LoopWorkerOption" where
  "WithLoopStart fn = (\<lambda>cfg. cfg\<lparr>lc_onStart := fn\<rparr>)"

definition WithLoopStop :: "bool \<Rightarrow> LoopWorkerOption" where
  "WithLoopStop fn = (\<lambda>cfg. cfg\<lparr>lc_onStop := fn\<rparr>)"

definition WithLoopAutoReady :: "bool \<Rightarrow> LoopWorkerOption" where
  "WithLoopAutoReady enabled = (\<lambda>cfg. cfg\<lparr>lc_autoReady := enabled\<rparr>)"

definition NewLoopWorker :: "bool \<Rightarrow> LoopWorkerOption option list \<Rightarrow> LoopWorker" where
  "NewLoopWorker loop opts =
     (let cfg = apply_options opts \<lparr>lc_onStart = False, lc_onStop = False, lc_autoReady = True\<rparr>
      in \<lparr>lw_loop = loop, lw_onStart = lc_onStart cfg, lw_onStop = lc_onStop cfg,
          lw_autoReady = lc_autoReady cfg, lw_state = loopIdle, lw_cancel = None,
          lw_done = None, lw_runtime = None, lw_stopHookRunning = False,
          lw_stopHookComplete = False, lw_stopHookAttempt = None, lw_attempts = []\<rparr>)"

section \<open>The methods under the mutex\<close>

definition LoopWorker_beginStart ::
  "'a LoopWorker_scheme \<Rightarrow> error option \<times> 'a LoopWorker_scheme" where
  "LoopWorker_beginStart w =
     (if \<not> lw_stopHookComplete w \<and> (lw_stopHookAttempt w \<noteq> None \<or> lw_state w = loopStopped)
      then (newLoopCleanupError
              (Some (Errorf ''%w: state=%s cleanup=pending''
                       [FStr (loopWorkerState_String (lw_state w))] [Sentinel ErrLoopWorkerActive])), w)
      else if lw_state w = loopStarting \<or> lw_state w = loopRunning \<or> lw_state w = loopStopping
      then (Some (Errorf ''%w: state=%s'' [FStr (loopWorkerState_String (lw_state w))]
                    [Sentinel ErrLoopWorkerActive]), w)
      else (None, w\<lparr>lw_state := loopStarting, lw_stopHookRunning := False,
                    lw_stopHookComplete := False, lw_stopHookAttempt := None\<rparr>))"

definition LoopWorker_finishStart ::
  "handle \<Rightarrow> nat \<Rightarrow> 'a LoopWorker_scheme \<Rightarrow> 'a LoopWorker_scheme" where
  "LoopWorker_finishStart h i w =
     w\<lparr>lw_runtime := Some h, lw_cancel := Some i, lw_done := Some i, lw_state := loopRunning\<rparr>"

definition LoopWorker_finishFailedStart ::
  "'a LoopWorker_scheme \<Rightarrow> 'a LoopWorker_scheme" where
  "LoopWorker_finishFailedStart w = w\<lparr>lw_state := loopIdle\<rparr>"

text \<open>\<open>Some (cancel, done)\<close> when the loop is to be cancelled and awaited (\<open>ok\<close>).\<close>

definition LoopWorker_beginStop ::
  "'a LoopWorker_scheme \<Rightarrow> (nat \<times> nat) option \<times> handle option \<times> 'a LoopWorker_scheme" where
  "LoopWorker_beginStop w =
     (case (lw_cancel w, lw_done w) of
        (Some c, Some d) \<Rightarrow>
          (if lw_state w = loopRunning
           then (Some (c, d), lw_runtime w, w\<lparr>lw_state := loopStopping\<rparr>)
           else if lw_state w = loopStopping then (Some (c, d), lw_runtime w, w)
           else (None, lw_runtime w, w))
      | _ \<Rightarrow> (None, lw_runtime w, w))"

definition LoopWorker_markStopping :: "nat \<Rightarrow> 'a LoopWorker_scheme \<Rightarrow> 'a LoopWorker_scheme" where
  "LoopWorker_markStopping i w =
     (if lw_done w = Some i then w\<lparr>lw_state := loopStopping\<rparr> else w)"

text \<open>The section of \<open>runLoop\<close> after the loop function has returned: was a stop requested?\<close>

definition LoopWorker_loopExited ::
  "nat \<Rightarrow> bool \<Rightarrow> 'a LoopWorker_scheme \<Rightarrow> bool \<times> 'a LoopWorker_scheme" where
  "LoopWorker_loopExited i cancelled w =
     (let stopRequested = (lw_state w = loopStopping \<and> cancelled)
      in (stopRequested,
          if lw_done w = Some i \<and> \<not> stopRequested then w\<lparr>lw_state := loopStopping\<rparr> else w))"

text \<open>\<open>None\<close> is a panic out of \<open>errors.Is\<close>. A cancelled loop context reports \<open>Canceled\<close>.\<close>

definition intentionalLoopStop :: "error option \<Rightarrow> sentinel option \<Rightarrow> bool option" where
  "intentionalLoopStop loopErr contextErr =
     (case contextErr of
        None \<Rightarrow> Some False
      | Some c \<Rightarrow> (case loopErr of None \<Rightarrow> Some True | Some e \<Rightarrow> errors_is c e))"

definition LoopWorker_finishLoop :: "nat \<Rightarrow> 'a LoopWorker_scheme \<Rightarrow> 'a LoopWorker_scheme" where
  "LoopWorker_finishLoop i w =
     (if lw_done w = Some i
      then w\<lparr>lw_cancel := None, lw_done := None, lw_runtime := None, lw_state := loopStopped\<rparr>
      else w)"

text \<open>A nil attempt is never waited for: \<open>None\<close> would be that dereference.\<close>

definition LoopWorker_beginStopHook ::
  "'a LoopWorker_scheme \<Rightarrow> (nat option \<times> bool) \<times> 'a LoopWorker_scheme" where
  "LoopWorker_beginStopHook w =
     (if lw_stopHookComplete w then ((lw_stopHookAttempt w, False), w)
      else if lw_stopHookRunning w then ((lw_stopHookAttempt w, False), w)
      else let a = length (lw_attempts w)
           in ((Some a, True),
               w\<lparr>lw_attempts := lw_attempts w @ [(False, None)], lw_stopHookAttempt := Some a,
                 lw_stopHookRunning := True\<rparr>))"

definition LoopWorker_finishStopHook ::
  "nat \<Rightarrow> error option \<Rightarrow> 'a LoopWorker_scheme \<Rightarrow> 'a LoopWorker_scheme" where
  "LoopWorker_finishStopHook a err w =
     (if lw_stopHookAttempt w = Some a \<and> lw_stopHookRunning w
      then w\<lparr>lw_attempts := (lw_attempts w)[a := (True, err)], lw_stopHookRunning := False,
             lw_stopHookComplete := (err = None)\<rparr>
      else w)"

definition cleanup_panicked :: error where
  "cleanup_panicked = LoopCleanupError (Sentinel ErrLoopCleanupPanicked)"

section \<open>Goroutines\<close>

text \<open>Who runs the stop hook, and what it does with the result: \<open>Start\<close> after a failed ready
  signal, \<open>Stop\<close>, or the loop's own goroutine after a failure.\<close>

datatype hook_caller = ForStart handle error | ForStop handle | ForLoop handle error

datatype pc =
    NotStarted
  | StartOnStart handle
  | StartUnready handle
  | StartLaunch handle
  | StartReady handle nat
  | StartMark handle nat error
  | StartCancel handle nat error
  | StartAwait handle nat error
  | StartDone op_result
  | StopCancel "handle option" "handle option" nat nat
  | StopAwait "handle option" "handle option" nat
  | StopRuntime "handle option" "handle option"
  | StopDone op_result
  | HookEnter hook_caller
  | HookWait hook_caller nat
  | HookRun hook_caller nat
  | LoopRunning handle
  | LoopReturned handle "error option"
  | LoopReport handle error
  | LoopCleanup handle error error bool
  | LoopFinish "(handle \<times> error) option"
  | LoopClose "(handle \<times> error) option"
  | LoopEnded "(handle \<times> error) option"

record loop_world = LoopWorker +
  lw_closed :: "nat list"
  lw_cancelled :: "nat list"
  lw_pc :: "nat \<Rightarrow> pc"
  lw_calls :: "action list"
  lw_dirty :: bool
  lw_crashed :: bool

text \<open>\<open>lw_dirty\<close> is a ghost: a loop has been launched since a cleanup last succeeded.\<close>

definition new_world :: "bool \<Rightarrow> LoopWorkerOption option list \<Rightarrow> loop_world" where
  "new_world loop opts =
     LoopWorker.extend (NewLoopWorker loop opts)
       \<lparr>lw_closed = [], lw_cancelled = [], lw_pc = (\<lambda>_. NotStarted), lw_calls = [],
        lw_dirty = False, lw_crashed = False\<rparr>"

definition goto :: "nat \<Rightarrow> pc \<Rightarrow> loop_world \<Rightarrow> loop_world" where
  "goto t p s = s\<lparr>lw_pc := (lw_pc s)(t := p)\<rparr>"

definition emit :: "action \<Rightarrow> loop_world \<Rightarrow> loop_world" where
  "emit a s = s\<lparr>lw_calls := lw_calls s @ [a]\<rparr>"

definition crash :: "loop_world \<Rightarrow> loop_world" where
  "crash s = s\<lparr>lw_crashed := True\<rparr>"

definition ready_signal :: "handle \<Rightarrow> bool \<Rightarrow> action" where
  "ready_signal h b = SignalReady (fst h) (snd h) b"

definition failure_signal :: "handle \<Rightarrow> error \<Rightarrow> action" where
  "failure_signal h e = SignalFailure (fst h) (snd h) (Some e)"

text \<open>The checks of \<open>Start\<close> before it begins; the context may carry no handle.\<close>

definition LoopWorker_Start ::
  "handle option \<Rightarrow> 'a LoopWorker_scheme \<Rightarrow> (error + handle) \<times> 'a LoopWorker_scheme" where
  "LoopWorker_Start ctxHandle w =
     (if \<not> lw_loop w then (Inl (errors_new ''loop worker loop must not be nil''), w)
      else case ctxHandle of
        None \<Rightarrow> (Inl (errors_new ''worker runtime handle unavailable''), w)
      | Some h \<Rightarrow>
          (case LoopWorker_beginStart w of
             (Some e, w1) \<Rightarrow> (Inl e, w1)
           | (None, w1) \<Rightarrow> (Inr h, w1)))"

text \<open>What follows the stop hook.\<close>

fun after_hook :: "hook_caller \<Rightarrow> op_result \<Rightarrow> pc" where
  "after_hook (ForStart h e) (Returns r) =
     StartDone (Returns (case r of None \<Rightarrow> Some e | Some x \<Rightarrow> errors_join [Some e, Some x]))"
| "after_hook (ForStart h e) Panics = StartDone Panics"
| "after_hook (ForStop h) r = StopDone r"
| "after_hook (ForLoop h e) (Returns r) =
     (case r of None \<Rightarrow> LoopFinish (Some (h, e)) | Some x \<Rightarrow> LoopCleanup h e x False)"
| "after_hook (ForLoop h e) Panics = LoopCleanup h e cleanup_panicked True"

text \<open>\<open>runLoop\<close> once the loop function has returned \<open>err\<close>.\<close>

definition after_loop :: "handle \<Rightarrow> bool \<Rightarrow> error option \<Rightarrow> pc option" where
  "after_loop h stopRequested err =
     (let failed = LoopReport h (case err of None \<Rightarrow> Sentinel ErrLoopExitedUnexpectedly | Some e \<Rightarrow> e)
      in if stopRequested
         then (case intentionalLoopStop err (Some CtxCanceled) of
                 None \<Rightarrow> None
               | Some True \<Rightarrow> Some (LoopFinish None)
               | Some False \<Rightarrow> Some failed)
         else Some failed)"

text \<open>Goroutines inside a call of \<open>Start\<close> or \<open>Stop\<close>.\<close>

fun in_start :: "pc \<Rightarrow> bool" where
  "in_start (StartOnStart h) = True" | "in_start (StartUnready h) = True"
| "in_start (StartLaunch h) = True" | "in_start (StartReady h i) = True"
| "in_start (StartMark h i e) = True" | "in_start (StartCancel h i e) = True"
| "in_start (StartAwait h i e) = True"
| "in_start (HookEnter (ForStart h e)) = True" | "in_start (HookWait (ForStart h e) a) = True"
| "in_start (HookRun (ForStart h e) a) = True"
| "in_start p = False"

fun in_stop :: "pc \<Rightarrow> bool" where
  "in_stop (StopCancel c r d i) = True" | "in_stop (StopAwait c r d) = True"
| "in_stop (StopRuntime c r) = True"
| "in_stop (HookEnter (ForStop h)) = True" | "in_stop (HookWait (ForStop h) a) = True"
| "in_stop (HookRun (ForStop h) a) = True"
| "in_stop p = False"

section \<open>The program\<close>

text \<open>Callers: the runtime serializes \<open>Start\<close> with every other lifecycle call; calls of \<open>Stop\<close>
  may overlap. \<open>crashes n\<close> is \<open>crashOnLoopCleanupPanic\<close> of the handle of worker \<open>n\<close>. A \<open>select\<close>
  with a context takes the context's case with its error, at any time.\<close>

inductive loop_step :: "(string \<Rightarrow> bool) \<Rightarrow> loop_world \<Rightarrow> loop_world \<Rightarrow> bool" for crashes where
  start_refused:
    "\<lbrakk>\<not> lw_crashed s; lw_pc s t = NotStarted; \<forall>u. \<not> in_start (lw_pc s u) \<and> \<not> in_stop (lw_pc s u);
      LoopWorker_Start c s = (Inl e, s1)\<rbrakk>
     \<Longrightarrow> loop_step crashes s (goto t (StartDone (Returns (Some e))) s1)"
| start_begun:
    "\<lbrakk>\<not> lw_crashed s; lw_pc s t = NotStarted; \<forall>u. \<not> in_start (lw_pc s u) \<and> \<not> in_stop (lw_pc s u);
      LoopWorker_Start c s = (Inr h, s1)\<rbrakk>
     \<Longrightarrow> loop_step crashes s (goto t (if lw_onStart s then StartOnStart h else StartUnready h) s1)"
| start_hook_failed:
    "\<lbrakk>\<not> lw_crashed s; lw_pc s t = StartOnStart h\<rbrakk>
     \<Longrightarrow> loop_step crashes s
           (goto t (StartDone (Returns (Some e))) (LoopWorker_finishFailedStart s))"
| start_hook_panicked:
    "\<lbrakk>\<not> lw_crashed s; lw_pc s t = StartOnStart h\<rbrakk>
     \<Longrightarrow> loop_step crashes s (goto t (StartDone Panics) (LoopWorker_finishFailedStart s))"
| start_hook_ok:
    "\<lbrakk>\<not> lw_crashed s; lw_pc s t = StartOnStart h\<rbrakk>
     \<Longrightarrow> loop_step crashes s (goto t (StartUnready h) s)"
| start_unready_skipped:
    "\<lbrakk>\<not> lw_crashed s; lw_pc s t = StartUnready h; lw_autoReady s\<rbrakk>
     \<Longrightarrow> loop_step crashes s (goto t (StartLaunch h) s)"
| start_unready_ok:
    "\<lbrakk>\<not> lw_crashed s; lw_pc s t = StartUnready h; \<not> lw_autoReady s\<rbrakk>
     \<Longrightarrow> loop_step crashes s (goto t (StartLaunch h) (emit (ready_signal h False) s))"
| start_unready_failed:
    "\<lbrakk>\<not> lw_crashed s; lw_pc s t = StartUnready h; \<not> lw_autoReady s\<rbrakk>
     \<Longrightarrow> loop_step crashes s
           (goto t (StartDone (Returns (Some e)))
             (LoopWorker_finishFailedStart (emit (ready_signal h False) s)))"
| start_launch:
    "\<lbrakk>\<not> lw_crashed s; lw_pc s t = StartLaunch h; lw_pc s i = NotStarted\<rbrakk>
     \<Longrightarrow> loop_step crashes s
           (goto t (if lw_autoReady s then StartReady h i else StartDone (Returns None))
             (goto i (LoopRunning h) ((LoopWorker_finishStart h i s)\<lparr>lw_dirty := True\<rparr>)))"
| start_ready_ok:
    "\<lbrakk>\<not> lw_crashed s; lw_pc s t = StartReady h i\<rbrakk>
     \<Longrightarrow> loop_step crashes s (goto t (StartDone (Returns None)) (emit (ready_signal h True) s))"
| start_ready_failed:
    "\<lbrakk>\<not> lw_crashed s; lw_pc s t = StartReady h i\<rbrakk>
     \<Longrightarrow> loop_step crashes s (goto t (StartMark h i e) (emit (ready_signal h True) s))"
| start_mark:
    "\<lbrakk>\<not> lw_crashed s; lw_pc s t = StartMark h i e\<rbrakk>
     \<Longrightarrow> loop_step crashes s (goto t (StartCancel h i e) (LoopWorker_markStopping i s))"
| start_cancel:
    "\<lbrakk>\<not> lw_crashed s; lw_pc s t = StartCancel h i e\<rbrakk>
     \<Longrightarrow> loop_step crashes s
           (goto t (StartAwait h i e) (s\<lparr>lw_cancelled := i # lw_cancelled s\<rparr>))"
| start_exited:
    "\<lbrakk>\<not> lw_crashed s; lw_pc s t = StartAwait h i e; i \<in> set (lw_closed s)\<rbrakk>
     \<Longrightarrow> loop_step crashes s (goto t (HookEnter (ForStart h e)) s)"
| start_gave_up:
    "\<lbrakk>\<not> lw_crashed s; lw_pc s t = StartAwait h i e\<rbrakk>
     \<Longrightarrow> loop_step crashes s
           (goto t (StartDone (Returns (Some (Errorf ''mark loop worker ready: %w'' [] [e])))) s)"
| stop_begun:
    "\<lbrakk>\<not> lw_crashed s; lw_pc s t = NotStarted; \<forall>u. \<not> in_start (lw_pc s u);
      LoopWorker_beginStop s = (Some (i, d), r, s1)\<rbrakk>
     \<Longrightarrow> loop_step crashes s (goto t (StopCancel c r d i) s1)"
| stop_inactive:
    "\<lbrakk>\<not> lw_crashed s; lw_pc s t = NotStarted; \<forall>u. \<not> in_start (lw_pc s u);
      LoopWorker_beginStop s = (None, r, s1)\<rbrakk>
     \<Longrightarrow> loop_step crashes s (goto t (StopRuntime c r) s1)"
| stop_cancel:
    "\<lbrakk>\<not> lw_crashed s; lw_pc s t = StopCancel c r d i\<rbrakk>
     \<Longrightarrow> loop_step crashes s (goto t (StopAwait c r d) (s\<lparr>lw_cancelled := i # lw_cancelled s\<rparr>))"
| stop_exited:
    "\<lbrakk>\<not> lw_crashed s; lw_pc s t = StopAwait c r d; d \<in> set (lw_closed s)\<rbrakk>
     \<Longrightarrow> loop_step crashes s (goto t (StopRuntime c r) s)"
| stop_gave_up:
    "\<lbrakk>\<not> lw_crashed s; lw_pc s t = StopAwait c r d\<rbrakk>
     \<Longrightarrow> loop_step crashes s (goto t (StopDone (Returns (Some e))) s)"
| stop_no_handle:
    "\<lbrakk>\<not> lw_crashed s; lw_pc s t = StopRuntime None None\<rbrakk>
     \<Longrightarrow> loop_step crashes s
           (goto t (StopDone (Returns (Some (errors_new ''worker runtime handle unavailable'')))) s)"
| stop_handle:
    "\<lbrakk>\<not> lw_crashed s; lw_pc s t = StopRuntime c r; (case r of None \<Rightarrow> c | Some h \<Rightarrow> r) = Some h\<rbrakk>
     \<Longrightarrow> loop_step crashes s (goto t (HookEnter (ForStop h)) s)"
| hook_entered:
    "\<lbrakk>\<not> lw_crashed s; lw_pc s t = HookEnter k;
      LoopWorker_beginStopHook s = ((Some a, b), s1)\<rbrakk>
     \<Longrightarrow> loop_step crashes s (goto t (if b then HookRun k a else HookWait k a) s1)"
| hook_nil_attempt:
    "\<lbrakk>\<not> lw_crashed s; lw_pc s t = HookEnter k; LoopWorker_beginStopHook s = ((None, b), s1)\<rbrakk>
     \<Longrightarrow> loop_step crashes s (crash s1)"
| hook_joined:
    "\<lbrakk>\<not> lw_crashed s; lw_pc s t = HookWait k a; fst (lw_attempts s ! a)\<rbrakk>
     \<Longrightarrow> loop_step crashes s (goto t (after_hook k (Returns (snd (lw_attempts s ! a)))) s)"
| hook_gave_up:
    "\<lbrakk>\<not> lw_crashed s; lw_pc s t = HookWait k a\<rbrakk>
     \<Longrightarrow> loop_step crashes s (goto t (after_hook k (Returns (Some e))) s)"
| hook_ok:
    "\<lbrakk>\<not> lw_crashed s; lw_pc s t = HookRun k a\<rbrakk>
     \<Longrightarrow> loop_step crashes s
           (goto t (after_hook k (Returns None))
             ((LoopWorker_finishStopHook a None s)\<lparr>lw_dirty := False\<rparr>))"
| hook_failed:
    "\<lbrakk>\<not> lw_crashed s; lw_pc s t = HookRun k a; lw_onStop s; newLoopCleanupError (Some e) = Some x\<rbrakk>
     \<Longrightarrow> loop_step crashes s
           (goto t (after_hook k (Returns (Some x))) (LoopWorker_finishStopHook a (Some x) s))"
| hook_panicked:
    "\<lbrakk>\<not> lw_crashed s; lw_pc s t = HookRun k a; lw_onStop s\<rbrakk>
     \<Longrightarrow> loop_step crashes s
           (goto t (after_hook k Panics)
             (LoopWorker_finishStopHook a (Some cleanup_panicked) s))"
| loop_returned:
    "\<lbrakk>\<not> lw_crashed s; lw_pc s t = LoopRunning h\<rbrakk>
     \<Longrightarrow> loop_step crashes s (goto t (LoopReturned h err) s)"
| loop_panicked:
    "\<lbrakk>\<not> lw_crashed s; lw_pc s t = LoopRunning h\<rbrakk> \<Longrightarrow> loop_step crashes s (crash s)"
| loop_classified:
    "\<lbrakk>\<not> lw_crashed s; lw_pc s t = LoopReturned h err;
      LoopWorker_loopExited t (t \<in> set (lw_cancelled s)) s = (stopRequested, s1);
      after_loop h stopRequested err = Some p\<rbrakk>
     \<Longrightarrow> loop_step crashes s (goto t p s1)"
| loop_unclassified:
    "\<lbrakk>\<not> lw_crashed s; lw_pc s t = LoopReturned h err;
      LoopWorker_loopExited t (t \<in> set (lw_cancelled s)) s = (stopRequested, s1);
      after_loop h stopRequested err = None\<rbrakk>
     \<Longrightarrow> loop_step crashes s (crash s1)"
| loop_reported:
    "\<lbrakk>\<not> lw_crashed s; lw_pc s t = LoopReport h e\<rbrakk>
     \<Longrightarrow> loop_step crashes s (goto t (HookEnter (ForLoop h e)) (emit (failure_signal h e) s))"
| loop_cleanup_reported:
    "\<lbrakk>\<not> lw_crashed s; lw_pc s t = LoopCleanup h e x panicked\<rbrakk>
     \<Longrightarrow> loop_step crashes s
           (let s1 = emit (LoopCleanupFailed (fst h) (Some x) panicked) s
            in if panicked \<and> crashes (fst h) then crash s1
               else goto t (LoopFinish (Some (h, e))) s1)"
| loop_finished:
    "\<lbrakk>\<not> lw_crashed s; lw_pc s t = LoopFinish x\<rbrakk>
     \<Longrightarrow> loop_step crashes s (goto t (LoopClose x) (LoopWorker_finishLoop t s))"
| loop_closed:
    "\<lbrakk>\<not> lw_crashed s; lw_pc s t = LoopClose x\<rbrakk>
     \<Longrightarrow> loop_step crashes s (goto t (LoopEnded x) (s\<lparr>lw_closed := t # lw_closed s\<rparr>))"

inductive loop_reachable ::
  "(string \<Rightarrow> bool) \<Rightarrow> bool \<Rightarrow> LoopWorkerOption option list \<Rightarrow> loop_world \<Rightarrow> bool"
  for crashes loop opts where
  new: "loop_reachable crashes loop opts (new_world loop opts)"
| step: "\<lbrakk>loop_reachable crashes loop opts s; loop_step crashes s s'\<rbrakk>
         \<Longrightarrow> loop_reachable crashes loop opts s'"

end
