(* ===== verification/Loop_Props.thy ===== *)
theory Loop_Props
  imports Loop_Worker
begin

text \<open>
  The invariant of the \<open>LoopWorker\<close>'s program and what follows from it: one loop at a time, one
  cleanup at a time and never beside the loop, no waiter left behind, no channel closed twice,
  and what nil out of \<open>Stop\<close> means.
\<close>

section \<open>Program points\<close>

text \<open>A loop goroutine that has not yet given up the struct.\<close>

fun alive :: "pc \<Rightarrow> bool" where
  "alive (LoopRunning h) = True" | "alive (LoopReturned h err) = True"
| "alive (LoopReport h e) = True" | "alive (LoopCleanup h e x p) = True"
| "alive (LoopFinish x) = True"
| "alive (HookEnter (ForLoop h e)) = True" | "alive (HookWait (ForLoop h e) a) = True"
| "alive (HookRun (ForLoop h e) a) = True"
| "alive p = False"

text \<open>Its function has returned and its exit has been classified.\<close>

fun winding :: "pc \<Rightarrow> bool" where
  "winding (LoopReport h e) = True" | "winding (LoopCleanup h e x p) = True"
| "winding (LoopFinish x) = True"
| "winding (HookEnter (ForLoop h e)) = True" | "winding (HookWait (ForLoop h e) a) = True"
| "winding (HookRun (ForLoop h e) a) = True"
| "winding p = False"

fun pre_launch :: "pc \<Rightarrow> bool" where
  "pre_launch (StartOnStart h) = True" | "pre_launch (StartUnready h) = True"
| "pre_launch (StartLaunch h) = True" | "pre_launch p = False"

text \<open>A caller that goes on to the stop hook, or is in it.\<close>

fun past_loop :: "pc \<Rightarrow> bool" where
  "past_loop (StopRuntime c r) = True"
| "past_loop (HookEnter (ForStop h)) = True" | "past_loop (HookWait (ForStop h) a) = True"
| "past_loop (HookRun (ForStop h) a) = True"
| "past_loop (HookEnter (ForStart h e)) = True" | "past_loop (HookWait (ForStart h e) a) = True"
| "past_loop (HookRun (ForStart h e) a) = True"
| "past_loop p = False"

text \<open>The loop a caller launched, or is stopping.\<close>

fun awaits :: "pc \<Rightarrow> nat option" where
  "awaits (StopCancel c r d i) = Some d" | "awaits (StopAwait c r d) = Some d"
| "awaits (StartReady h i) = Some i" | "awaits (StartMark h i e) = Some i"
| "awaits (StartCancel h i e) = Some i" | "awaits (StartAwait h i e) = Some i"
| "awaits p = None"

fun hooking :: "pc \<Rightarrow> nat option" where
  "hooking (HookRun k a) = Some a" | "hooking p = None"

fun waiting :: "pc \<Rightarrow> nat option" where
  "waiting (HookWait k a) = Some a" | "waiting p = None"

fun ended :: "pc \<Rightarrow> bool" where
  "ended (LoopEnded x) = True" | "ended p = False"

text \<open>The failure a loop goroutine has reported, and a loop that exited on request.\<close>

fun reported :: "pc \<Rightarrow> (handle \<times> error) option" where
  "reported (LoopCleanup h e x p) = Some (h, e)" | "reported (LoopFinish x) = x"
| "reported (LoopClose x) = x" | "reported (LoopEnded x) = x"
| "reported (HookEnter (ForLoop h e)) = Some (h, e)"
| "reported (HookWait (ForLoop h e) a) = Some (h, e)"
| "reported (HookRun (ForLoop h e) a) = Some (h, e)"
| "reported p = None"

fun quiet_exit :: "pc \<Rightarrow> bool" where
  "quiet_exit (LoopFinish None) = True" | "quiet_exit (LoopClose None) = True"
| "quiet_exit (LoopEnded None) = True" | "quiet_exit p = False"

section \<open>The invariant\<close>

definition loops_ok :: "loop_world \<Rightarrow> bool" where
  "loops_ok s \<longleftrightarrow>
     (\<forall>t. alive (lw_pc s t) \<longleftrightarrow> lw_done s = Some t)
     \<and> lw_cancel s = lw_done s
     \<and> (lw_done s \<noteq> None \<longleftrightarrow> lw_state s = loopRunning \<or> lw_state s = loopStopping)
     \<and> (\<forall>t. winding (lw_pc s t) \<longrightarrow> lw_state s = loopStopping)
     \<and> (\<forall>t. past_loop (lw_pc s t) \<longrightarrow> lw_done s = None)
     \<and> (\<forall>t d. awaits (lw_pc s t) = Some d \<longrightarrow> lw_done s = None \<or> lw_done s = Some d)
     \<and> (\<forall>t. t \<in> set (lw_closed s) \<longleftrightarrow> ended (lw_pc s t))
     \<and> distinct (lw_closed s)"

definition callers_ok :: "loop_world \<Rightarrow> bool" where
  "callers_ok s \<longleftrightarrow>
     (\<forall>t u. in_start (lw_pc s t) \<and> (in_start (lw_pc s u) \<or> in_stop (lw_pc s u)) \<longrightarrow> t = u)
     \<and> (lw_state s = loopStarting \<longleftrightarrow> (\<exists>t. pre_launch (lw_pc s t)))
     \<and> (lw_state s = loopStarting
          \<longrightarrow> \<not> lw_stopHookComplete s \<and> lw_stopHookAttempt s = None \<and> \<not> lw_dirty s)"

definition hooks_ok :: "loop_world \<Rightarrow> bool" where
  "hooks_ok s \<longleftrightarrow>
     (\<forall>t a. hooking (lw_pc s t) = Some a \<longrightarrow> lw_stopHookRunning s \<and> lw_stopHookAttempt s = Some a)
     \<and> (lw_stopHookRunning s \<longrightarrow> (\<exists>t. hooking (lw_pc s t) \<noteq> None))
     \<and> (\<forall>t u. hooking (lw_pc s t) \<noteq> None \<and> hooking (lw_pc s u) \<noteq> None \<longrightarrow> t = u)
     \<and> (lw_stopHookRunning s \<longrightarrow> \<not> lw_stopHookComplete s)
     \<and> (lw_stopHookRunning s \<or> lw_stopHookComplete s \<longrightarrow> lw_stopHookAttempt s \<noteq> None)
     \<and> (\<forall>a. lw_stopHookAttempt s = Some a \<longrightarrow>
            a < length (lw_attempts s)
            \<and> fst (lw_attempts s ! a) = (\<not> lw_stopHookRunning s)
            \<and> (lw_stopHookComplete s \<longrightarrow> snd (lw_attempts s ! a) = None))
     \<and> (\<forall>t a. waiting (lw_pc s t) = Some a \<longrightarrow>
            a < length (lw_attempts s)
            \<and> (lw_attempts s ! a = (True, None) \<longrightarrow> lw_stopHookComplete s)
            \<and> (\<not> fst (lw_attempts s ! a) \<longrightarrow>
                 lw_stopHookAttempt s = Some a \<and> lw_stopHookRunning s))
     \<and> (lw_dirty s \<longrightarrow> \<not> lw_stopHookComplete s \<and> lw_state s \<notin> {loopIdle, loopStarting})"

definition exits_ok :: "loop_world \<Rightarrow> bool" where
  "exits_ok s \<longleftrightarrow>
     (\<forall>t h e. reported (lw_pc s t) = Some (h, e) \<longrightarrow> failure_signal h e \<in> set (lw_calls s))
     \<and> (\<forall>t. quiet_exit (lw_pc s t) \<longrightarrow> t \<in> set (lw_cancelled s))"

definition loop_inv :: "loop_world \<Rightarrow> bool" where
  "loop_inv s \<longleftrightarrow> loops_ok s \<and> callers_ok s \<and> hooks_ok s \<and> exits_ok s"

lemmas loop_inv_defs = loop_inv_def loops_ok_def callers_ok_def hooks_ok_def exits_ok_def

lemmas loop_ops = goto_def emit_def crash_def Let_def LoopWorker_finishFailedStart_def
  LoopWorker_finishStart_def LoopWorker_markStopping_def LoopWorker_finishLoop_def
  LoopWorker_finishStopHook_def

lemma hook_kind:
  "in_start (HookRun k a) \<or> in_stop (HookRun k a) \<or> winding (HookRun k a)"
  "in_start (HookWait k a) \<or> in_stop (HookWait k a) \<or> winding (HookWait k a)"
  by (cases k; simp)+

lemma hooking_kind: "hooking p = Some a \<Longrightarrow> in_start p \<or> in_stop p \<or> winding p"
  using hook_kind(1) by (cases p) auto

lemma waiting_kind: "waiting p = Some a \<Longrightarrow> in_start p \<or> in_stop p \<or> winding p"
  using hook_kind(2) by (cases p) auto

lemma pre_launch_kind: "pre_launch p \<Longrightarrow> in_start p"
  by (cases p) auto

lemma winding_alive: "winding p \<Longrightarrow> alive p"
  by (cases p rule: winding.cases) auto

lemma past_kind: "past_loop p \<Longrightarrow> in_start p \<or> in_stop p"
  by (cases p rule: past_loop.cases) auto

lemma awaits_kind: "awaits p = Some d \<Longrightarrow> in_start p \<or> in_stop p"
  by (cases p rule: awaits.cases) auto

lemma loop_inv_new: "loop_inv (new_world loop opts)"
  by (simp add: loop_inv_defs new_world_def NewLoopWorker_def LoopWorker.extend_def Let_def)


section \<open>One goroutine moves\<close>

lemma loops_okI:
  assumes "\<And>t. alive (lw_pc s t) \<longleftrightarrow> lw_done s = Some t" "lw_cancel s = lw_done s"
    "lw_done s \<noteq> None \<longleftrightarrow> lw_state s = loopRunning \<or> lw_state s = loopStopping"
    "\<And>t. winding (lw_pc s t) \<Longrightarrow> lw_state s = loopStopping"
    "\<And>t. past_loop (lw_pc s t) \<Longrightarrow> lw_done s = None"
    "\<And>t d. awaits (lw_pc s t) = Some d \<Longrightarrow> lw_done s = None \<or> lw_done s = Some d"
    "\<And>t. t \<in> set (lw_closed s) \<longleftrightarrow> ended (lw_pc s t)" "distinct (lw_closed s)"
  shows "loops_ok s"
  using assms unfolding loops_ok_def by blast

lemma loops_okD:
  assumes "loops_ok s"
  shows "alive (lw_pc s t) \<longleftrightarrow> lw_done s = Some t" "lw_cancel s = lw_done s"
    "lw_done s \<noteq> None \<longleftrightarrow> lw_state s = loopRunning \<or> lw_state s = loopStopping"
    "winding (lw_pc s t) \<Longrightarrow> lw_state s = loopStopping"
    "past_loop (lw_pc s t) \<Longrightarrow> lw_done s = None"
    "awaits (lw_pc s t) = Some d \<Longrightarrow> lw_done s = None \<or> lw_done s = Some d"
    "t \<in> set (lw_closed s) \<longleftrightarrow> ended (lw_pc s t)" "distinct (lw_closed s)"
  using assms unfolding loops_ok_def by blast+

lemma goto_loops:
  assumes ok: "loops_ok s"
    and same: "lw_done s' = lw_done s" "lw_cancel s' = lw_cancel s" "lw_closed s' = lw_closed s"
      "lw_pc s' = lw_pc s"
      "lw_state s' = lw_state s \<or> lw_done s \<noteq> None \<and> lw_state s' = loopStopping
       \<or> lw_done s = None \<and> lw_state s' \<notin> {loopRunning, loopStopping}"
    and p: "alive p = alive (lw_pc s t)" "winding p \<Longrightarrow> winding (lw_pc s t) \<or> lw_state s' = loopStopping"
      "past_loop p \<Longrightarrow> lw_done s = None"
      "awaits p = None \<or> awaits p = awaits (lw_pc s t) \<or> awaits p = lw_done s"
      "ended p = ended (lw_pc s t)"
  shows "loops_ok (goto t p s')"
proof -
  have w: "lw_state s' = loopStopping" if "winding (lw_pc s u)" for u
  proof -
    have "lw_state s = loopStopping" using loops_okD(4) [OF ok that] .
    moreover have "lw_done s \<noteq> None" using calculation loops_okD(3) [OF ok] by simp
    ultimately show ?thesis using same(5) by auto
  qed
  note D = loops_okD [OF ok]
  show ?thesis
  proof (rule loops_okI)
    show "winding (lw_pc (goto t p s') u) \<Longrightarrow> lw_state (goto t p s') = loopStopping" for u
      using w p(2) by (auto simp: goto_def same split: if_splits)
    show "past_loop (lw_pc (goto t p s') u) \<Longrightarrow> lw_done (goto t p s') = None" for u
      using p(3) D(5) by (auto simp: goto_def same split: if_splits)
    show "awaits (lw_pc (goto t p s') u) = Some d
          \<Longrightarrow> lw_done (goto t p s') = None \<or> lw_done (goto t p s') = Some d" for u d
      using p(4) D(6) [of u d] D(6) [of t d] by (auto simp: goto_def same split: if_splits)
    show "lw_done (goto t p s') \<noteq> None
      \<longleftrightarrow> lw_state (goto t p s') = loopRunning \<or> lw_state (goto t p s') = loopStopping"
      using same(5) D(3) by (auto simp: goto_def same)
  qed (use p D in \<open>simp_all add: goto_def same\<close>)
qed

lemma goto_callers:
  assumes ok: "callers_ok s" and same: "lw_pc s' = lw_pc s"
    and p: "in_start p \<Longrightarrow> in_start (lw_pc s t) \<or> (\<forall>u. \<not> in_start (lw_pc s u) \<and> \<not> in_stop (lw_pc s u))"
      "in_stop p \<Longrightarrow> in_stop (lw_pc s t) \<or> (\<forall>u. \<not> in_start (lw_pc s u))"
      "lw_state s' = loopStarting \<longleftrightarrow>
         pre_launch p \<or> lw_state s = loopStarting \<and> \<not> pre_launch (lw_pc s t)"
      "lw_state s' = loopStarting
         \<Longrightarrow> \<not> lw_stopHookComplete s' \<and> lw_stopHookAttempt s' = None \<and> \<not> lw_dirty s'"
  shows "callers_ok (goto t p s')"
proof -
  have one: "u = v" if "in_start (lw_pc s u)" "in_start (lw_pc s v) \<or> in_stop (lw_pc s v)" for u v
    using ok that unfolding callers_ok_def by blast
  have starting: "lw_state s = loopStarting \<longleftrightarrow> (\<exists>t. pre_launch (lw_pc s t))"
    using ok unfolding callers_ok_def by blast
  have "u = v" if "in_start (lw_pc (goto t p s') u)"
      "in_start (lw_pc (goto t p s') v) \<or> in_stop (lw_pc (goto t p s') v)" for u v
    using that one p(1,2) by (auto simp: goto_def same split: if_splits)
  moreover have "(\<exists>u. pre_launch (lw_pc (goto t p s') u)) \<longleftrightarrow>
      pre_launch p \<or> lw_state s = loopStarting \<and> \<not> pre_launch (lw_pc s t)"
    (is "?l \<longleftrightarrow> ?r")
  proof
    assume ?l
    then obtain u where u: "pre_launch (if u = t then p else lw_pc s u)"
      by (auto simp: goto_def same)
    show ?r
    proof (cases "u = t")
      case False
      with u have u': "pre_launch (lw_pc s u)" by simp
      with False one pre_launch_kind have "\<not> pre_launch (lw_pc s t)" by blast
      with u' starting show ?thesis by blast
    qed (use u in simp)
  next
    assume ?r
    then show ?l
    proof
      assume "lw_state s = loopStarting \<and> \<not> pre_launch (lw_pc s t)"
      then obtain u where "pre_launch (lw_pc s u)" "u \<noteq> t" using starting by blast
      then show ?thesis by (intro exI [of _ u]) (simp add: goto_def same)
    qed (intro exI [of _ t], simp add: goto_def)
  qed
  moreover have fields: "lw_state (goto t p s') = lw_state s'"
    "lw_stopHookComplete (goto t p s') = lw_stopHookComplete s'"
    "lw_stopHookAttempt (goto t p s') = lw_stopHookAttempt s'"
    "lw_dirty (goto t p s') = lw_dirty s'"
    by (simp_all add: goto_def)
  ultimately show ?thesis
    using p(3,4) unfolding callers_ok_def fields by blast
qed

lemma hooks_okD:
  assumes "hooks_ok s"
  shows "hooking (lw_pc s t) = Some a \<Longrightarrow> lw_stopHookRunning s \<and> lw_stopHookAttempt s = Some a"
    "lw_stopHookRunning s \<Longrightarrow> \<exists>t. hooking (lw_pc s t) \<noteq> None"
    "hooking (lw_pc s t) \<noteq> None \<Longrightarrow> hooking (lw_pc s u) \<noteq> None \<Longrightarrow> t = u"
    "lw_stopHookRunning s \<Longrightarrow> \<not> lw_stopHookComplete s"
    "lw_stopHookRunning s \<or> lw_stopHookComplete s \<Longrightarrow> lw_stopHookAttempt s \<noteq> None"
    "lw_stopHookAttempt s = Some a \<Longrightarrow>
            a < length (lw_attempts s)
            \<and> fst (lw_attempts s ! a) = (\<not> lw_stopHookRunning s)
            \<and> (lw_stopHookComplete s \<longrightarrow> snd (lw_attempts s ! a) = None)"
    "waiting (lw_pc s t) = Some a \<Longrightarrow>
            a < length (lw_attempts s)
            \<and> (lw_attempts s ! a = (True, None) \<longrightarrow> lw_stopHookComplete s)
            \<and> (\<not> fst (lw_attempts s ! a) \<longrightarrow>
                 lw_stopHookAttempt s = Some a \<and> lw_stopHookRunning s)"
    "lw_dirty s \<Longrightarrow> \<not> lw_stopHookComplete s \<and> lw_state s \<notin> {loopIdle, loopStarting}"
  using assms unfolding hooks_ok_def by blast+

lemma hooks_okI:
  assumes "\<And>t a. hooking (lw_pc s t) = Some a
             \<Longrightarrow> lw_stopHookRunning s \<and> lw_stopHookAttempt s = Some a"
    "lw_stopHookRunning s \<Longrightarrow> \<exists>t. hooking (lw_pc s t) \<noteq> None"
    "\<And>t u. hooking (lw_pc s t) \<noteq> None \<Longrightarrow> hooking (lw_pc s u) \<noteq> None \<Longrightarrow> t = u"
    "lw_stopHookRunning s \<Longrightarrow> \<not> lw_stopHookComplete s"
    "lw_stopHookRunning s \<or> lw_stopHookComplete s \<Longrightarrow> lw_stopHookAttempt s \<noteq> None"
    "\<And>a. lw_stopHookAttempt s = Some a \<Longrightarrow>
            a < length (lw_attempts s)
            \<and> fst (lw_attempts s ! a) = (\<not> lw_stopHookRunning s)
            \<and> (lw_stopHookComplete s \<longrightarrow> snd (lw_attempts s ! a) = None)"
    "\<And>t a. waiting (lw_pc s t) = Some a \<Longrightarrow>
            a < length (lw_attempts s)
            \<and> (lw_attempts s ! a = (True, None) \<longrightarrow> lw_stopHookComplete s)
            \<and> (\<not> fst (lw_attempts s ! a) \<longrightarrow>
                 lw_stopHookAttempt s = Some a \<and> lw_stopHookRunning s)"
    "lw_dirty s \<Longrightarrow> \<not> lw_stopHookComplete s \<and> lw_state s \<notin> {loopIdle, loopStarting}"
  shows "hooks_ok s"
  using assms unfolding hooks_ok_def by blast

lemma goto_hooks:
  assumes ok: "hooks_ok s"
    and same: "lw_pc s' = lw_pc s" "lw_stopHookRunning s' = lw_stopHookRunning s"
      "lw_stopHookComplete s' = lw_stopHookComplete s"
      "lw_stopHookAttempt s' = lw_stopHookAttempt s" "lw_attempts s' = lw_attempts s"
      "lw_dirty s' = lw_dirty s"
    and p: "hooking (lw_pc s t) = None" "hooking p = None"
      "\<And>a. waiting p = Some a \<Longrightarrow> waiting (lw_pc s t) = Some a
         \<or> lw_stopHookAttempt s = Some a \<and> (lw_stopHookRunning s \<or> lw_stopHookComplete s)"
      "lw_dirty s \<Longrightarrow> lw_state s' = lw_state s \<or> lw_state s' \<notin> {loopIdle, loopStarting}"
  shows "hooks_ok (goto t p s')"
proof -
  note D = hooks_okD [OF ok]
  have other: "hooking (lw_pc (goto t p s') u) = hooking (lw_pc s u)" for u
    using p(1,2) by (simp add: goto_def same)
  have wait: "a < length (lw_attempts s)
        \<and> (lw_attempts s ! a = (True, None) \<longrightarrow> lw_stopHookComplete s)
        \<and> (\<not> fst (lw_attempts s ! a) \<longrightarrow> lw_stopHookAttempt s = Some a \<and> lw_stopHookRunning s)"
    if "waiting (lw_pc (goto t p s') u) = Some a" for u a
  proof (cases "waiting (lw_pc s u) = Some a")
    case True
    then show ?thesis by (rule D(7))
  next
    case False
    then have "lw_stopHookAttempt s = Some a" "lw_stopHookRunning s \<or> lw_stopHookComplete s"
      using that p(3) by (auto simp: goto_def same split: if_splits)
    then show ?thesis using D(6) by auto
  qed
  have fields: "lw_stopHookRunning (goto t p s') = lw_stopHookRunning s"
    "lw_stopHookComplete (goto t p s') = lw_stopHookComplete s"
    "lw_stopHookAttempt (goto t p s') = lw_stopHookAttempt s"
    "lw_attempts (goto t p s') = lw_attempts s"
    by (simp_all add: goto_def same)
  show ?thesis
    unfolding hooks_ok_def fields other
  proof (intro conjI allI impI)
    show "lw_dirty (goto t p s') \<Longrightarrow> \<not> lw_stopHookComplete s"
      using D(8) by (simp add: goto_def same)
    show "lw_dirty (goto t p s') \<Longrightarrow> lw_state (goto t p s') \<notin> {loopIdle, loopStarting}"
      using D(8) p(4) by (auto simp: goto_def same)
  qed (use D wait in blast)+
qed

lemma goto_exits:
  assumes ok: "exits_ok s" and same: "lw_pc s' = lw_pc s"
      "set (lw_calls s) \<subseteq> set (lw_calls s')" "set (lw_cancelled s) \<subseteq> set (lw_cancelled s')"
    and p: "\<And>h e. reported p = Some (h, e) \<Longrightarrow>
        reported (lw_pc s t) = Some (h, e) \<or> failure_signal h e \<in> set (lw_calls s')"
      "quiet_exit p \<Longrightarrow> quiet_exit (lw_pc s t) \<or> t \<in> set (lw_cancelled s')"
  shows "exits_ok (goto t p s')"
  using assms unfolding exits_ok_def goto_def by (auto 0 4 split: if_splits)

lemma loop_inv_parts:
  assumes "loop_inv s"
  shows "loops_ok s" "callers_ok s" "hooks_ok s" "exits_ok s"
  using assms by (simp_all add: loop_inv_def)

lemma emit_simps [simp]:
  "lw_calls (emit a s) = lw_calls s @ [a]" "lw_cancelled (emit a s) = lw_cancelled s"
  "lw_pc (emit a s) = lw_pc s" "lw_state (emit a s) = lw_state s"
  "lw_autoReady (emit a s) = lw_autoReady s" "lw_crashed (emit a s) = lw_crashed s"
  "lw_done (emit a s) = lw_done s" "lw_cancel (emit a s) = lw_cancel s"
  "lw_closed (emit a s) = lw_closed s" "lw_dirty (emit a s) = lw_dirty s"
  "lw_stopHookRunning (emit a s) = lw_stopHookRunning s"
  "lw_stopHookComplete (emit a s) = lw_stopHookComplete s"
  "lw_stopHookAttempt (emit a s) = lw_stopHookAttempt s" "lw_attempts (emit a s) = lw_attempts s"
  by (simp_all add: emit_def)

lemma emit_inv:
  assumes "loop_inv s" shows "loop_inv (emit a s)"
proof -
  have "loops_ok (emit a s)" "callers_ok (emit a s)" "hooks_ok (emit a s)"
    using loop_inv_parts [OF assms]
    unfolding loops_ok_def callers_ok_def hooks_ok_def emit_simps by blast+
  moreover have "exits_ok (emit a s)"
    using loop_inv_parts(4) [OF assms] unfolding exits_ok_def emit_simps by auto
  ultimately show ?thesis by (simp add: loop_inv_def)
qed

text \<open>A step that only moves a goroutine, and may call the handle or cancel a context.\<close>

definition same_struct :: "loop_world \<Rightarrow> loop_world \<Rightarrow> bool" where
  "same_struct s s' \<longleftrightarrow>
     LoopWorker.truncate s' = LoopWorker.truncate s \<and> lw_closed s' = lw_closed s
     \<and> lw_pc s' = lw_pc s \<and> lw_dirty s' = lw_dirty s
     \<and> set (lw_calls s) \<subseteq> set (lw_calls s') \<and> set (lw_cancelled s) \<subseteq> set (lw_cancelled s')"

lemma same_struct_fields:
  assumes "same_struct s s'"
  shows "lw_state s' = lw_state s" "lw_cancel s' = lw_cancel s" "lw_done s' = lw_done s"
    "lw_stopHookRunning s' = lw_stopHookRunning s" "lw_stopHookComplete s' = lw_stopHookComplete s"
    "lw_stopHookAttempt s' = lw_stopHookAttempt s" "lw_attempts s' = lw_attempts s"
    "lw_closed s' = lw_closed s" "lw_pc s' = lw_pc s" "lw_dirty s' = lw_dirty s"
    "set (lw_calls s) \<subseteq> set (lw_calls s')" "set (lw_cancelled s) \<subseteq> set (lw_cancelled s')"
  using assms by (cases s; cases s'; simp add: same_struct_def LoopWorker.defs)+

lemma same_structs [simp]:
  "same_struct s s" "same_struct s (emit a s)"
  "same_struct s (s\<lparr>lw_cancelled := i # lw_cancelled s\<rparr>)"
  by (auto simp: same_struct_def emit_def LoopWorker.defs)

lemma goto_plain:
  assumes inv: "loop_inv s" and same: "same_struct s s'"
    and p: "alive p = alive (lw_pc s t)" "winding p \<Longrightarrow> winding (lw_pc s t)"
      "past_loop p \<Longrightarrow> lw_done s = None"
      "awaits p = None \<or> awaits p = awaits (lw_pc s t)" "ended p = ended (lw_pc s t)"
      "in_start p \<Longrightarrow> in_start (lw_pc s t)"
      "in_stop p \<Longrightarrow> in_stop (lw_pc s t) \<or> (\<forall>u. \<not> in_start (lw_pc s u))"
      "pre_launch p = pre_launch (lw_pc s t)"
      "hooking (lw_pc s t) = None" "hooking p = None"
      "waiting p = None \<or> waiting p = waiting (lw_pc s t)"
      "\<And>h e. reported p = Some (h, e) \<Longrightarrow>
        reported (lw_pc s t) = Some (h, e) \<or> failure_signal h e \<in> set (lw_calls s')"
      "quiet_exit p \<Longrightarrow> quiet_exit (lw_pc s t)"
  shows "loop_inv (goto t p s')"
proof -
  note parts = loop_inv_parts [OF inv] and f = same_struct_fields [OF same]
  have "loops_ok (goto t p s')"
    by (rule goto_loops [OF parts(1)]) (use f p in auto)
  moreover have "callers_ok (goto t p s')"
  proof (rule goto_callers [OF parts(2) f(9)])
    show "lw_state s' = loopStarting \<longleftrightarrow>
        pre_launch p \<or> lw_state s = loopStarting \<and> \<not> pre_launch (lw_pc s t)"
      using parts(2) f(1) p(8) unfolding callers_ok_def by auto
    show "lw_state s' = loopStarting \<Longrightarrow>
        \<not> lw_stopHookComplete s' \<and> lw_stopHookAttempt s' = None \<and> \<not> lw_dirty s'"
      using parts(2) f unfolding callers_ok_def by simp
  qed (use p in auto)
  moreover have "hooks_ok (goto t p s')"
    by (rule goto_hooks [OF parts(3) f(9,4,5,6,7,10)]) (use f p in auto)
  moreover have "exits_ok (goto t p s')"
    by (rule goto_exits [OF parts(4) f(9,11,12)]) (use p in auto)
  ultimately show ?thesis by (simp add: loop_inv_def)
qed

lemma after_hook_kinds:
  "alive (after_hook k r) = alive (HookEnter k)" "winding (after_hook k r) \<Longrightarrow> winding (HookEnter k)"
  "\<not> past_loop (after_hook k r)" "awaits (after_hook k r) = None" "\<not> ended (after_hook k r)"
  "\<not> in_start (after_hook k r)" "\<not> in_stop (after_hook k r)" "\<not> pre_launch (after_hook k r)"
  "hooking (after_hook k r) = None" "waiting (after_hook k r) = None"
  "reported (after_hook k r) = reported (HookEnter k)" "\<not> quiet_exit (after_hook k r)"
  by (cases k; cases r; simp split: option.split)+

lemma hook_points [simp]:
  "alive (HookRun k a) = alive (HookEnter k)" "alive (HookWait k a) = alive (HookEnter k)"
  "winding (HookRun k a) = winding (HookEnter k)" "winding (HookWait k a) = winding (HookEnter k)"
  "reported (HookRun k a) = reported (HookEnter k)" "reported (HookWait k a) = reported (HookEnter k)"
  "past_loop (HookRun k a) = past_loop (HookEnter k)" "past_loop (HookWait k a) = past_loop (HookEnter k)"
  "in_start (HookRun k a) = in_start (HookEnter k)" "in_start (HookWait k a) = in_start (HookEnter k)"
  "in_stop (HookRun k a) = in_stop (HookEnter k)" "in_stop (HookWait k a) = in_stop (HookEnter k)"
  by (cases k; simp)+

lemma pre_launch_state:
  assumes "callers_ok s" and "pre_launch (lw_pc s t)"
  shows "lw_state s = loopStarting"
  using assms unfolding callers_ok_def by blast

lemma awaited_closed:
  assumes inv: "loop_inv s" and "awaits (lw_pc s t) = Some d" and "d \<in> set (lw_closed s)"
  shows "lw_done s = None"
proof -
  note ok = loop_inv_parts(1) [OF inv]
  have "ended (lw_pc s d)" using loops_okD(7) [OF ok] assms(3) by blast
  then have "\<not> alive (lw_pc s d)" by (cases "lw_pc s d") auto
  then show ?thesis using loops_okD(1,6) [OF ok] assms(2) by blast
qed

lemma hook_wait_ends:
  assumes "loop_inv s" and "lw_pc s t = HookWait k b"
  shows "loop_inv (goto t (after_hook k r) s)"
  by (rule goto_plain [OF assms(1)])
     (use assms(2) after_hook_kinds(2) [of k r] in \<open>auto simp: after_hook_kinds(1,3-12)\<close>)

lemma plain_steps:
  assumes inv: "loop_inv s"
  shows "lw_pc s t = NotStarted \<Longrightarrow> loop_inv (goto t (StartDone r) s)"
    "lw_pc s t = StartOnStart h \<Longrightarrow> loop_inv (goto t (StartUnready h) s)"
    "lw_pc s t = StartUnready h \<Longrightarrow> loop_inv (goto t (StartLaunch h) s)"
    "lw_pc s t = StartUnready h \<Longrightarrow> loop_inv (goto t (StartLaunch h) (emit a s))"
    "lw_pc s t = StartReady h i \<Longrightarrow> loop_inv (goto t (StartDone r) (emit a s))"
    "lw_pc s t = StartReady h i \<Longrightarrow> loop_inv (goto t (StartMark h i e) (emit a s))"
    "lw_pc s t = StartCancel h i e
       \<Longrightarrow> loop_inv (goto t (StartAwait h i e) (s\<lparr>lw_cancelled := j # lw_cancelled s\<rparr>))"
    "lw_pc s t = StartAwait h i e \<Longrightarrow> loop_inv (goto t (StartDone r) s)"
    "lw_pc s t = StopCancel c rt d i
       \<Longrightarrow> loop_inv (goto t (StopAwait c rt d) (s\<lparr>lw_cancelled := j # lw_cancelled s\<rparr>))"
    "lw_pc s t = StopAwait c rt d \<Longrightarrow> loop_inv (goto t (StopDone r) s)"
    "lw_pc s t = StopRuntime c rt \<Longrightarrow> loop_inv (goto t (StopDone r) s)"
    "lw_pc s t = LoopRunning h \<Longrightarrow> loop_inv (goto t (LoopReturned h err) s)"
    "lw_pc s t = LoopReport h e \<Longrightarrow> loop_inv (goto t (HookEnter (ForLoop h e)) (emit (failure_signal h e) s))"
    "lw_pc s t = LoopCleanup h e x q \<Longrightarrow> loop_inv (goto t (LoopFinish (Some (h, e))) (emit a s))"
  by (rule goto_plain [OF inv]; simp)+

section \<open>The steps that change the struct\<close>

lemma quiet_no_hook:
  assumes inv: "loop_inv s" and quiet: "\<forall>u. \<not> in_start (lw_pc s u) \<and> \<not> in_stop (lw_pc s u)"
    and none: "lw_done s = None"
  shows "hooking (lw_pc s t) = None" "waiting (lw_pc s t) = None"
proof -
  have "\<not> winding (lw_pc s t)"
    using loops_okD(1) [OF loop_inv_parts(1) [OF inv], of t] none winding_alive by auto
  then show "hooking (lw_pc s t) = None" "waiting (lw_pc s t) = None"
    using quiet hooking_kind [of "lw_pc s t"] waiting_kind [of "lw_pc s t"]
    by (metis not_None_eq)+
qed

lemma start_begun_inv:
  assumes inv: "loop_inv s" and pc: "lw_pc s t = NotStarted"
    and quiet: "\<forall>u. \<not> in_start (lw_pc s u) \<and> \<not> in_stop (lw_pc s u)"
    and begun: "LoopWorker_beginStart s = (None, s1)"
    and p: "p = StartOnStart h \<or> p = StartUnready h"
  shows "loop_inv (goto t p s1)" "\<not> lw_dirty s"
proof -
  note parts = loop_inv_parts [OF inv]
  have s1: "s1 = s\<lparr>lw_state := loopStarting, lw_stopHookRunning := False,
                    lw_stopHookComplete := False, lw_stopHookAttempt := None\<rparr>"
    and free: "lw_state s \<notin> {loopStarting, loopRunning, loopStopping}"
    and clean: "lw_stopHookComplete s \<or> lw_stopHookAttempt s = None \<and> lw_state s \<noteq> loopStopped"
    using begun by (auto simp: LoopWorker_beginStart_def newLoopCleanupError_def split: if_splits)
  have none: "lw_done s = None" using loops_okD(3) [OF parts(1)] free by auto
  show dirty: "\<not> lw_dirty s"
    using hooks_okD(8) [OF parts(3)] clean free by (cases "lw_state s") auto
  note idle = quiet_no_hook [OF inv quiet none]
  have "loops_ok (goto t p s1)"
    by (rule goto_loops [OF parts(1)]) (use s1 none p pc in auto)
  moreover have "callers_ok (goto t p s1)"
    by (rule goto_callers [OF parts(2)]) (use s1 quiet dirty p in auto)
  moreover have "hooks_ok (goto t p s1)"
    using idle p dirty by (auto simp: hooks_ok_def goto_def s1 split: if_splits)
  moreover have "exits_ok (goto t p s1)"
    by (rule goto_exits [OF parts(4)]) (use s1 p in auto)
  ultimately show "loop_inv (goto t p s1)" by (simp add: loop_inv_def)
qed

lemma start_failed_inv:
  assumes inv: "loop_inv s" and pc: "pre_launch (lw_pc s t)" and same: "same_struct s s'"
  shows "loop_inv (goto t (StartDone r) (LoopWorker_finishFailedStart s'))"
proof -
  let ?s = "LoopWorker_finishFailedStart s'"
  note parts = loop_inv_parts [OF inv] and f = same_struct_fields [OF same]
  have st: "lw_state s = loopStarting" by (rule pre_launch_state [OF parts(2) pc])
  have none: "lw_done s = None" using loops_okD(3) [OF parts(1)] st by auto
  have q: "\<not> alive (lw_pc s t)" "\<not> ended (lw_pc s t)" "hooking (lw_pc s t) = None"
    using pc by (cases "lw_pc s t"; simp)+
  have g: "lw_pc ?s = lw_pc s" "lw_done ?s = lw_done s" "lw_cancel ?s = lw_cancel s"
    "lw_closed ?s = lw_closed s" "lw_state ?s = loopIdle" "lw_dirty ?s = lw_dirty s"
    "lw_stopHookRunning ?s = lw_stopHookRunning s" "lw_stopHookComplete ?s = lw_stopHookComplete s"
    "lw_stopHookAttempt ?s = lw_stopHookAttempt s" "lw_attempts ?s = lw_attempts s"
    "lw_calls ?s = lw_calls s'" "lw_cancelled ?s = lw_cancelled s'"
    using f by (simp_all add: LoopWorker_finishFailedStart_def)
  have dirty: "\<not> lw_dirty s" using parts(2) st by (simp add: callers_ok_def)
  have "loops_ok (goto t (StartDone r) ?s)"
    by (rule goto_loops [OF parts(1) g(2,3,4,1)]) (use g none q in auto)
  moreover have "callers_ok (goto t (StartDone r) ?s)"
    by (rule goto_callers [OF parts(2) g(1)]) (use g pc in auto)
  moreover have "hooks_ok (goto t (StartDone r) ?s)"
    by (rule goto_hooks [OF parts(3) g(1,7,8,9,10,6)]) (use q dirty in auto)
  moreover have "exits_ok (goto t (StartDone r) ?s)"
    by (rule goto_exits [OF parts(4) g(1)]) (use g f in auto)
  ultimately show ?thesis by (simp add: loop_inv_def)
qed

lemma launch_inv:
  assumes inv: "loop_inv s" and pc: "lw_pc s t = StartLaunch h" and i: "lw_pc s i = NotStarted"
    and p: "p = StartReady h i \<or> p = StartDone (Returns None)"
  shows "loop_inv (goto t p (goto i (LoopRunning h) ((LoopWorker_finishStart h i s)\<lparr>lw_dirty := True\<rparr>)))"
    (is "loop_inv ?s")
proof -
  note parts = loop_inv_parts [OF inv]
  have st: "lw_state s = loopStarting" using pre_launch_state [OF parts(2), of t] pc by simp
  have none: "lw_done s = None" using loops_okD(3) [OF parts(1)] st by auto
  have ti: "t \<noteq> i" using pc i by auto
  have only: "\<not> in_start (lw_pc s u)" "\<not> in_stop (lw_pc s u)" if "u \<noteq> t" for u
    using parts(2) that pc unfolding callers_ok_def by (metis in_start.simps(3))+
  have dead: "\<not> alive (lw_pc s u)" for u using loops_okD(1) [OF parts(1)] none by auto
  have st': "\<not> lw_stopHookComplete s" "lw_stopHookAttempt s = None"
    using parts(2) st by (simp_all add: callers_ok_def)
  have run: "\<not> lw_stopHookRunning s" using hooks_okD(5) [OF parts(3)] st'(2) by auto
  have kinds: "\<not> winding (lw_pc s u)" "hooking (lw_pc s u) = None" "waiting (lw_pc s u) = None"
    "u \<noteq> t \<Longrightarrow> \<not> past_loop (lw_pc s u)" "u \<noteq> t \<Longrightarrow> awaits (lw_pc s u) = None"
    "u \<noteq> t \<Longrightarrow> \<not> pre_launch (lw_pc s u)" for u
  proof -
    show w: "\<not> winding (lw_pc s u)" using dead winding_alive by blast
    show "u \<noteq> t \<Longrightarrow> \<not> past_loop (lw_pc s u)" using only past_kind by blast
    show "u \<noteq> t \<Longrightarrow> awaits (lw_pc s u) = None" using only awaits_kind by (metis not_None_eq)
    show "u \<noteq> t \<Longrightarrow> \<not> pre_launch (lw_pc s u)" using only pre_launch_kind by blast
    show "hooking (lw_pc s u) = None" "waiting (lw_pc s u) = None"
      using hooking_kind [of "lw_pc s u"] waiting_kind [of "lw_pc s u"] only [of u] w pc
      by (cases "u = t"; cases "hooking (lw_pc s u)"; cases "waiting (lw_pc s u)"; simp)+
  qed
  have pcs: "lw_pc ?s u = (if u = t then p else if u = i then LoopRunning h else lw_pc s u)" for u
    by (simp add: goto_def LoopWorker_finishStart_def)
  have f: "lw_done ?s = Some i" "lw_cancel ?s = Some i" "lw_state ?s = loopRunning" "lw_dirty ?s"
    "lw_closed ?s = lw_closed s" "lw_stopHookComplete ?s = lw_stopHookComplete s"
    "lw_stopHookRunning ?s = lw_stopHookRunning s" "lw_stopHookAttempt ?s = lw_stopHookAttempt s"
    "lw_calls ?s = lw_calls s" "lw_cancelled ?s = lw_cancelled s"
    by (simp_all add: goto_def LoopWorker_finishStart_def)
  have "loops_ok ?s"
    by (rule loops_okI; unfold pcs f)
       (use p ti dead kinds loops_okD(7,8) [OF parts(1)] pc i in \<open>auto split: if_splits\<close>)
  moreover have "callers_ok ?s"
    using p only kinds(6) ti by (auto simp: callers_ok_def pcs f)
  moreover have "hooks_ok ?s"
    using p kinds run st' by (auto simp: hooks_ok_def pcs f)
  moreover have "exits_ok ?s"
    using p parts(4) by (auto simp: exits_ok_def pcs f)
  ultimately show ?thesis by (simp add: loop_inv_def)
qed


lemma stopping_inv:
  assumes inv: "loop_inv s" and dn: "lw_done s \<noteq> None"
    and s1: "s1 = s \<or> s1 = s\<lparr>lw_state := loopStopping\<rparr>"
    and p: "alive p = alive (lw_pc s t)" "winding p \<Longrightarrow> lw_state s1 = loopStopping"
      "\<not> past_loop p" "awaits p = None \<or> awaits p = awaits (lw_pc s t) \<or> awaits p = lw_done s"
      "ended p = ended (lw_pc s t)"
      "in_start p \<Longrightarrow> in_start (lw_pc s t)"
      "in_stop p \<Longrightarrow> in_stop (lw_pc s t) \<or> (\<forall>u. \<not> in_start (lw_pc s u))"
      "\<not> pre_launch p" "\<not> pre_launch (lw_pc s t)"
      "hooking (lw_pc s t) = None" "hooking p = None" "waiting p = None"
      "reported p = None"
      "quiet_exit p \<Longrightarrow> t \<in> set (lw_cancelled s)"
  shows "loop_inv (goto t p s1)"
proof -
  note parts = loop_inv_parts [OF inv]
  have st: "lw_state s = loopRunning \<or> lw_state s = loopStopping"
    using loops_okD(3) [OF parts(1)] dn by simp
  have f: "lw_pc s1 = lw_pc s" "lw_done s1 = lw_done s" "lw_cancel s1 = lw_cancel s"
    "lw_closed s1 = lw_closed s" "lw_dirty s1 = lw_dirty s"
    "lw_stopHookRunning s1 = lw_stopHookRunning s" "lw_stopHookComplete s1 = lw_stopHookComplete s"
    "lw_stopHookAttempt s1 = lw_stopHookAttempt s" "lw_attempts s1 = lw_attempts s"
    "lw_calls s1 = lw_calls s" "lw_cancelled s1 = lw_cancelled s"
    "lw_state s1 = lw_state s \<or> lw_state s1 = loopStopping"
    using s1 by auto
  have "loops_ok (goto t p s1)"
    by (rule goto_loops [OF parts(1) f(2,3,4,1)]) (use f(12) p dn in auto)
  moreover have "callers_ok (goto t p s1)"
    by (rule goto_callers [OF parts(2) f(1)]) (use f(12) p st in auto)
  moreover have "hooks_ok (goto t p s1)"
    by (rule goto_hooks [OF parts(3) f(1,6,7,8,9,5)]) (use f(12) p st in auto)
  moreover have "exits_ok (goto t p s1)"
    by (rule goto_exits [OF parts(4) f(1)]) (use f p in auto)
  ultimately show ?thesis by (simp add: loop_inv_def)
qed

lemma stop_begun_inv:
  assumes inv: "loop_inv s" and pc: "lw_pc s t = NotStarted"
    and quiet: "\<forall>u. \<not> in_start (lw_pc s u)"
    and begun: "LoopWorker_beginStop s = (Some (i, d), r, s1)"
  shows "loop_inv (goto t (StopCancel c r d i) s1)" "lw_done s = Some d" "i = d"
proof -
  have dn: "lw_done s = Some d" and i: "lw_cancel s = Some i"
    and s1: "s1 = s \<or> s1 = s\<lparr>lw_state := loopStopping\<rparr>"
    using begun by (auto simp: LoopWorker_beginStop_def split: option.splits if_splits)
  then show "lw_done s = Some d" "i = d"
    using loops_okD(2) [OF loop_inv_parts(1) [OF inv]] by auto
  show "loop_inv (goto t (StopCancel c r d i) s1)"
    by (rule stopping_inv [OF inv _ s1]) (use dn quiet pc in auto)
qed

lemma stop_inactive_none:
  assumes inv: "loop_inv s" and "LoopWorker_beginStop s = (None, r, s1)"
  shows "lw_done s = None" "s1 = s"
  using assms(2) loops_okD(2,3) [OF loop_inv_parts(1) [OF inv]]
  by (auto simp: LoopWorker_beginStop_def split: option.splits if_splits)

lemma mark_inv:
  assumes inv: "loop_inv s" and pc: "lw_pc s t = StartMark h i e"
  shows "loop_inv (goto t (StartCancel h i e) (LoopWorker_markStopping i s))"
proof (cases "lw_done s = Some i")
  case True
  then show ?thesis
    by (intro stopping_inv [OF inv]) (use pc in \<open>auto simp: LoopWorker_markStopping_def\<close>)
next
  case False
  then have "LoopWorker_markStopping i s = s" by (simp add: LoopWorker_markStopping_def)
  then show ?thesis using pc by (simp, intro goto_plain [OF inv]) auto
qed

lemma classified_inv:
  assumes inv: "loop_inv s" and pc: "lw_pc s t = LoopReturned h err"
    and exited: "LoopWorker_loopExited t (t \<in> set (lw_cancelled s)) s = (req, s1)"
    and after: "after_loop h req err = Some p"
  shows "loop_inv (goto t p s1)"
proof -
  note parts = loop_inv_parts [OF inv]
  have dn: "lw_done s = Some t" using loops_okD(1) [OF parts(1), of t] pc by simp
  have req: "req \<longleftrightarrow> lw_state s = loopStopping \<and> t \<in> set (lw_cancelled s)"
    and s1: "s1 = (if req then s else s\<lparr>lw_state := loopStopping\<rparr>)"
    using exited dn by (auto simp: LoopWorker_loopExited_def Let_def)
  have p: "p = LoopFinish None \<and> req \<or> (\<exists>e. p = LoopReport h e)"
    using after by (auto simp: after_loop_def Let_def split: if_splits option.splits bool.splits)
  have st: "lw_state s1 = loopStopping" and s1': "s1 = s \<or> s1 = s\<lparr>lw_state := loopStopping\<rparr>"
    using req s1 by (cases req; simp)+
  from p show ?thesis
  proof (elim disjE conjE exE)
    assume "p = LoopFinish None" "req"
    then show ?thesis
      by (intro stopping_inv [OF inv _ s1']) (simp_all add: dn pc req [symmetric] st, simp add: req)
  next
    fix e assume "p = LoopReport h e"
    then show ?thesis by (intro stopping_inv [OF inv _ s1']) (simp_all add: dn pc st)
  qed
qed

lemma crash_fields [simp]:
  "lw_pc (crash s) = lw_pc s" "lw_done (crash s) = lw_done s" "lw_cancel (crash s) = lw_cancel s"
  "lw_state (crash s) = lw_state s" "lw_closed (crash s) = lw_closed s"
  "lw_dirty (crash s) = lw_dirty s" "lw_stopHookRunning (crash s) = lw_stopHookRunning s"
  "lw_stopHookComplete (crash s) = lw_stopHookComplete s"
  "lw_stopHookAttempt (crash s) = lw_stopHookAttempt s" "lw_attempts (crash s) = lw_attempts s"
  "lw_calls (crash s) = lw_calls s" "lw_cancelled (crash s) = lw_cancelled s"
  by (simp_all add: crash_def)

lemma crash_inv: "loop_inv s \<Longrightarrow> loop_inv (crash s)"
  unfolding loop_inv_defs crash_fields .

lemma unclassified_same:
  assumes "LoopWorker_loopExited t c s = (req, s1)" and "after_loop h req err = None"
  shows "s1 = s"
  using assms by (auto simp: LoopWorker_loopExited_def after_loop_def Let_def split: if_splits)


lemma hook_entered_inv:
  assumes inv: "loop_inv s" and pc: "lw_pc s t = HookEnter k"
    and entered: "LoopWorker_beginStopHook s = ((Some a, b), s1)"
  shows "loop_inv (goto t (if b then HookRun k a else HookWait k a) s1)"
proof -
  note parts = loop_inv_parts [OF inv]
  note H = hooks_okD [OF parts(3)]
  show ?thesis
  proof (cases b)
    case False
    then have s1: "s1 = s" and a: "lw_stopHookAttempt s = Some a"
      "lw_stopHookRunning s \<or> lw_stopHookComplete s"
      using entered by (auto simp: LoopWorker_beginStopHook_def Let_def split: if_splits)
    have "loops_ok (goto t (HookWait k a) s)"
      by (rule goto_loops [OF parts(1)])
         (use pc loops_okD(5) [OF parts(1), of t] loops_okD(4) [OF parts(1), of t]
           in auto)
    moreover have "callers_ok (goto t (HookWait k a) s)"
      by (rule goto_callers [OF parts(2)])
         (use pc parts(2) in \<open>auto simp: callers_ok_def\<close>)
    moreover have "hooks_ok (goto t (HookWait k a) s)"
      by (rule goto_hooks [OF parts(3)]) (use pc a in auto)
    moreover have "exits_ok (goto t (HookWait k a) s)"
      by (rule goto_exits [OF parts(4)]) (use pc in auto)
    ultimately show ?thesis using False s1 by (simp add: loop_inv_def)
  next
    case True
    then have idle: "\<not> lw_stopHookComplete s" "\<not> lw_stopHookRunning s"
      and a: "a = length (lw_attempts s)"
      and s1: "s1 = s\<lparr>lw_attempts := lw_attempts s @ [(False, None)], lw_stopHookAttempt := Some a,
                 lw_stopHookRunning := True\<rparr>"
      using entered by (auto simp: LoopWorker_beginStopHook_def Let_def split: if_splits)
    have f: "lw_pc s1 = lw_pc s" "lw_done s1 = lw_done s" "lw_cancel s1 = lw_cancel s"
      "lw_closed s1 = lw_closed s" "lw_state s1 = lw_state s" "lw_dirty s1 = lw_dirty s"
      "lw_calls s1 = lw_calls s" "lw_cancelled s1 = lw_cancelled s"
      by (simp_all add: s1)
    have none: "hooking (lw_pc s u) = None" for u using H(1) [of u] idle(2) by (cases "hooking (lw_pc s u)") auto
    have st: "lw_state s \<noteq> loopStarting"
    proof
      assume "lw_state s = loopStarting"
      then obtain u where "pre_launch (lw_pc s u)" using parts(2) unfolding callers_ok_def by blast
      moreover have "in_start (lw_pc s t) \<or> in_stop (lw_pc s t) \<or> winding (lw_pc s t)"
        using hook_kind(2) [of k 0] by (simp add: pc)
      ultimately show False
        using parts(2) loops_okD(4) [OF parts(1), of t] \<open>lw_state s = loopStarting\<close>
          pre_launch_kind [of "lw_pc s u"] pc
        unfolding callers_ok_def by (cases "u = t") auto
    qed
    have "loops_ok (goto t (HookRun k a) s1)"
      by (rule goto_loops [OF parts(1) f(2,3,4,1)])
         (use f pc loops_okD(5) [OF parts(1), of t] loops_okD(4) [OF parts(1), of t]
           in auto)
    moreover have "callers_ok (goto t (HookRun k a) s1)"
      by (rule goto_callers [OF parts(2) f(1)])
         (use pc st f in auto)
    moreover have "hooks_ok (goto t (HookRun k a) s1)"
    proof (rule hooks_okI)
      fix u c assume "waiting (lw_pc (goto t (HookRun k a) s1) u) = Some c"
      then have "waiting (lw_pc s u) = Some c" by (auto simp: goto_def f split: if_splits)
      from H(7) [OF this] show "c < length (lw_attempts (goto t (HookRun k a) s1)) \<and>
        (lw_attempts (goto t (HookRun k a) s1) ! c = (True, None)
           \<longrightarrow> lw_stopHookComplete (goto t (HookRun k a) s1)) \<and>
        (\<not> fst (lw_attempts (goto t (HookRun k a) s1) ! c)
           \<longrightarrow> lw_stopHookAttempt (goto t (HookRun k a) s1) = Some c
               \<and> lw_stopHookRunning (goto t (HookRun k a) s1))"
        using idle by (auto simp: goto_def s1 nth_append)
    qed (use none H(8) idle a in \<open>auto simp: goto_def s1 nth_append split: if_splits\<close>)
    moreover have "exits_ok (goto t (HookRun k a) s1)"
      by (rule goto_exits [OF parts(4) f(1)]) (use f pc in auto)
    ultimately show ?thesis using True by (simp add: loop_inv_def)
  qed
qed

lemma hook_ended_inv:
  assumes inv: "loop_inv s" and pc: "lw_pc s t = HookRun k a"
    and dirty: "d \<Longrightarrow> lw_dirty s \<and> err \<noteq> None"
  shows "loop_inv (goto t (after_hook k r) ((LoopWorker_finishStopHook a err s)\<lparr>lw_dirty := d\<rparr>))"
    (is "loop_inv (goto t ?p ?s)")
    "lw_stopHookComplete ((LoopWorker_finishStopHook a err s)\<lparr>lw_dirty := d\<rparr>) \<longleftrightarrow> err = None"
    "lw_done ((LoopWorker_finishStopHook a err s)\<lparr>lw_dirty := d\<rparr>) = lw_done s"
proof -
  note parts = loop_inv_parts [OF inv]
  note H = hooks_okD [OF parts(3)]
  have run: "lw_stopHookRunning s" and at: "lw_stopHookAttempt s = Some a" using H(1) [of t a] pc by auto
  have len: "a < length (lw_attempts s)" using H(6) [OF at] by simp
  have f: "lw_pc ?s = lw_pc s" "lw_done ?s = lw_done s" "lw_cancel ?s = lw_cancel s"
    "lw_closed ?s = lw_closed s" "lw_state ?s = lw_state s" "lw_dirty ?s = d"
    "\<not> lw_stopHookRunning ?s" "lw_stopHookComplete ?s \<longleftrightarrow> err = None"
    "lw_stopHookAttempt ?s = Some a" "lw_attempts ?s = (lw_attempts s)[a := (True, err)]"
    "lw_calls ?s = lw_calls s" "lw_cancelled ?s = lw_cancelled s"
    using run at by (simp_all add: LoopWorker_finishStopHook_def)
  have g: "lw_pc w = lw_pc s" "lw_state w = lw_state s" "\<not> lw_stopHookRunning w"
    "lw_stopHookComplete w \<longleftrightarrow> err = None" "lw_stopHookAttempt w = Some a"
    "lw_attempts w = (lw_attempts s)[a := (True, err)]"
    if "w = LoopWorker_finishStopHook a err s" for w
    using run at by (simp_all add: that LoopWorker_finishStopHook_def)
  note f = f g [OF refl]
  show "lw_stopHookComplete ?s \<longleftrightarrow> err = None" "lw_done ?s = lw_done s" by (rule f)+
  have st: "lw_state s \<noteq> loopStarting" using parts(2) at by (auto simp: callers_ok_def)
  note K = after_hook_kinds(1,3-12) [of k r] after_hook_kinds(2) [of k r]
  have "loops_ok (goto t ?p ?s)"
    by (rule goto_loops [OF parts(1) f(2,3,4,1)]) (use f pc K in auto)
  moreover have "callers_ok (goto t ?p ?s)"
    by (rule goto_callers [OF parts(2) f(1)]) (use f pc st K in auto)
  moreover have "hooks_ok (goto t ?p ?s)"
  proof (rule hooks_okI)
    have "hooking (lw_pc (goto t ?p ?s) u) = None" for u
    proof (cases "u = t")
      case False
      then have "hooking (lw_pc s u) = None" using H(3) [of t u] pc by force
      with False show ?thesis by (simp add: goto_def f)
    qed (simp add: goto_def K)
    then show "hooking (lw_pc (goto t ?p ?s) u) = Some b
        \<Longrightarrow> lw_stopHookRunning (goto t ?p ?s) \<and> lw_stopHookAttempt (goto t ?p ?s) = Some b"
      "hooking (lw_pc (goto t ?p ?s) u) \<noteq> None \<Longrightarrow> hooking (lw_pc (goto t ?p ?s) v) \<noteq> None \<Longrightarrow> u = v"
      for u v b by simp_all
    fix u c assume "waiting (lw_pc (goto t ?p ?s) u) = Some c"
    then have "waiting (lw_pc s u) = Some c" using K by (auto simp: goto_def f split: if_splits)
    from H(7) [OF this] show "c < length (lw_attempts (goto t ?p ?s)) \<and>
        (lw_attempts (goto t ?p ?s) ! c = (True, None) \<longrightarrow> lw_stopHookComplete (goto t ?p ?s)) \<and>
        (\<not> fst (lw_attempts (goto t ?p ?s) ! c)
           \<longrightarrow> lw_stopHookAttempt (goto t ?p ?s) = Some c \<and> lw_stopHookRunning (goto t ?p ?s))"
      using H(4) [OF run] at len run
      by (cases "c = a") (auto simp: goto_def LoopWorker_finishStopHook_def)
  next
    show "lw_dirty (goto t ?p ?s)
        \<Longrightarrow> \<not> lw_stopHookComplete (goto t ?p ?s) \<and> lw_state (goto t ?p ?s) \<notin> {loopIdle, loopStarting}"
      using H(8) H(4) [OF run] dirty by (auto simp: goto_def f)
  qed (use len in \<open>simp_all add: goto_def LoopWorker_finishStopHook_def run at\<close>)
  moreover have "exits_ok (goto t ?p ?s)"
    by (rule goto_exits [OF parts(4) f(1)]) (use f pc K in auto)
  ultimately show "loop_inv (goto t ?p ?s)" by (simp add: loop_inv_def)
qed

lemma finish_keeps_dirty:
  "(LoopWorker_finishStopHook a err s)\<lparr>lw_dirty := lw_dirty s\<rparr> = LoopWorker_finishStopHook a err s"
  by (simp add: LoopWorker_finishStopHook_def)

lemma finished_inv:
  assumes inv: "loop_inv s" and pc: "lw_pc s t = LoopFinish x"
  shows "loop_inv (goto t (LoopClose x) (LoopWorker_finishLoop t s))" (is "loop_inv (goto t _ ?s)")
proof -
  note parts = loop_inv_parts [OF inv]
  note D = loops_okD [OF parts(1)]
  have dn: "lw_done s = Some t" using D(1) [of t] pc by simp
  have st: "lw_state s = loopStopping" using D(4) [of t] pc by simp
  have f: "lw_pc ?s = lw_pc s" "lw_done ?s = None" "lw_cancel ?s = None" "lw_state ?s = loopStopped"
    "lw_closed ?s = lw_closed s" "lw_dirty ?s = lw_dirty s"
    "lw_stopHookRunning ?s = lw_stopHookRunning s" "lw_stopHookComplete ?s = lw_stopHookComplete s"
    "lw_stopHookAttempt ?s = lw_stopHookAttempt s" "lw_attempts ?s = lw_attempts s"
    "lw_calls ?s = lw_calls s" "lw_cancelled ?s = lw_cancelled s"
    using dn by (simp_all add: LoopWorker_finishLoop_def)
  have pcs: "lw_pc (goto t (LoopClose x) ?s) u = (if u = t then LoopClose x else lw_pc s u)" for u
    by (simp add: goto_def f)
  have g: "lw_done (goto t (LoopClose x) ?s) = None" "lw_cancel (goto t (LoopClose x) ?s) = None"
    "lw_state (goto t (LoopClose x) ?s) = loopStopped"
    "lw_closed (goto t (LoopClose x) ?s) = lw_closed s"
    by (simp_all add: goto_def f)
  have other: "\<not> alive (lw_pc s u)" if "u \<noteq> t" for u using D(1) [of u] dn that by simp
  have "loops_ok (goto t (LoopClose x) ?s)"
    by (rule loops_okI; unfold pcs g)
       (use other winding_alive D(7,8) pc in \<open>auto split: if_splits\<close>)
  moreover have "callers_ok (goto t (LoopClose x) ?s)"
    by (rule goto_callers [OF parts(2) f(1)]) (use f pc st in auto)
  moreover have "hooks_ok (goto t (LoopClose x) ?s)"
    by (rule goto_hooks [OF parts(3) f(1,7,8,9,10,6)]) (use f pc in auto)
  moreover have "exits_ok (goto t (LoopClose x) ?s)"
    by (cases x; rule goto_exits [OF parts(4) f(1)]) (use f pc in auto)
  ultimately show ?thesis by (simp add: loop_inv_def)
qed

lemma closed_inv:
  assumes inv: "loop_inv s" and pc: "lw_pc s t = LoopClose x"
  shows "loop_inv (goto t (LoopEnded x) (s\<lparr>lw_closed := t # lw_closed s\<rparr>))" (is "loop_inv (goto t _ ?s)")
    "t \<notin> set (lw_closed s)"
proof -
  note parts = loop_inv_parts [OF inv]
  note D = loops_okD [OF parts(1)]
  show fresh: "t \<notin> set (lw_closed s)" using D(7) [of t] pc by simp
  have pcs: "lw_pc (goto t (LoopEnded x) ?s) u = (if u = t then LoopEnded x else lw_pc s u)" for u
    by (simp add: goto_def)
  have g: "lw_done (goto t (LoopEnded x) ?s) = lw_done s" "lw_cancel (goto t (LoopEnded x) ?s) = lw_cancel s"
    "lw_state (goto t (LoopEnded x) ?s) = lw_state s"
    "lw_closed (goto t (LoopEnded x) ?s) = t # lw_closed s"
    by (simp_all add: goto_def)
  have "loops_ok (goto t (LoopEnded x) ?s)"
  proof (rule loops_okI; unfold pcs g)
    show "alive (if u = t then LoopEnded x else lw_pc s u) \<longleftrightarrow> lw_done s = Some u" for u
      using D(1) [of u] pc by auto
    show "u \<in> set (t # lw_closed s) \<longleftrightarrow> ended (if u = t then LoopEnded x else lw_pc s u)" for u
      using D(7) [of u] by auto
  qed (use D(2-6,8) fresh in \<open>auto split: if_splits\<close>)
  moreover have "callers_ok (goto t (LoopEnded x) ?s)"
    by (rule goto_callers [OF parts(2)]) (use pc parts(2) in \<open>auto simp: callers_ok_def\<close>)
  moreover have "hooks_ok (goto t (LoopEnded x) ?s)"
    by (rule goto_hooks [OF parts(3)]) (use pc in auto)
  moreover have "exits_ok (goto t (LoopEnded x) ?s)"
    by (cases x; rule goto_exits [OF parts(4)]) (use pc in auto)
  ultimately show "loop_inv (goto t (LoopEnded x) ?s)" by (simp add: loop_inv_def)
qed


section \<open>Every step keeps the invariant\<close>

lemma nil_attempt_impossible:
  assumes "loop_inv s" shows "LoopWorker_beginStopHook s \<noteq> ((None, b), s1)"
  using hooks_okD(5) [OF loop_inv_parts(3) [OF assms]]
  by (auto simp: LoopWorker_beginStopHook_def Let_def split: if_splits)

lemma loop_inv_step:
  assumes "loop_step crashes s s'" and inv: "loop_inv s"
  shows "loop_inv s'"
  using assms(1)
proof cases
  case (start_refused t c e s1)
  then have "s1 = s"
    by (auto simp: LoopWorker_Start_def LoopWorker_beginStart_def split: if_splits option.splits)
  with start_refused plain_steps(1) [OF inv] show ?thesis by simp
next
  case (start_begun t c h s1)
  then have "LoopWorker_beginStart s = (None, s1)"
    by (auto simp: LoopWorker_Start_def split: if_splits option.splits prod.splits)
  from start_begun_inv(1) [OF inv start_begun(3,4) this] start_begun(1) show ?thesis by simp
next
  case (start_hook_failed t h e)
  then show ?thesis using start_failed_inv [OF inv, of t s] by simp
next
  case (start_hook_panicked t h)
  then show ?thesis using start_failed_inv [OF inv, of t s] by simp
next
  case (start_unready_failed t h e)
  then show ?thesis using start_failed_inv [OF inv, of t "emit (ready_signal h False) s"] by simp
next
  case (start_launch t h i)
  then show ?thesis using launch_inv [OF inv start_launch(3,4)] by simp
next
  case (start_mark t h i e)
  then show ?thesis using mark_inv [OF inv] by simp
next
  case (start_exited t h i e)
  have "lw_done s = None"
    by (rule awaited_closed [OF inv _ start_exited(4), of t]) (simp add: start_exited)
  then show ?thesis
    unfolding start_exited(1) by (intro goto_plain [OF inv]) (simp_all add: start_exited)
next
  case (stop_begun t i d r s1 c)
  then show ?thesis using stop_begun_inv(1) [OF inv stop_begun(3,4,5)] by simp
next
  case (stop_inactive t r s1 c)
  then show ?thesis
    using stop_inactive_none [OF inv stop_inactive(5)]
    by (simp, intro goto_plain [OF inv]) simp_all
next
  case (stop_exited t c r d)
  have "lw_done s = None"
    by (rule awaited_closed [OF inv _ stop_exited(4), of t]) (simp add: stop_exited)
  then show ?thesis
    unfolding stop_exited(1) by (intro goto_plain [OF inv]) (simp_all add: stop_exited)
next
  case (stop_handle t c r h)
  have "lw_done s = None"
    using loops_okD(5) [OF loop_inv_parts(1) [OF inv], of t] stop_handle by simp
  then show ?thesis
    unfolding stop_handle(1) by (intro goto_plain [OF inv]) (simp_all add: stop_handle)
next
  case (hook_entered t k a b s1)
  then show ?thesis using hook_entered_inv [OF inv] by simp
next
  case (hook_nil_attempt t k b s1)
  then show ?thesis using nil_attempt_impossible [OF inv] by blast
next
  case (hook_joined t k a)
  then show ?thesis using hook_wait_ends [OF inv] by simp
next
  case (hook_gave_up t k a e)
  then show ?thesis using hook_wait_ends [OF inv] by simp
next
  case (hook_ok t k a)
  then show ?thesis using hook_ended_inv(1) [OF inv hook_ok(3), of False None] by simp
next
  case (hook_failed t k a e x)
  then show ?thesis using hook_ended_inv(1) [OF inv hook_failed(3), of "lw_dirty s" "Some x"]
    by (simp add: finish_keeps_dirty)
next
  case (hook_panicked t k a)
  then show ?thesis
    using hook_ended_inv(1) [OF inv hook_panicked(3), of "lw_dirty s" "Some cleanup_panicked"]
    by (simp add: finish_keeps_dirty)
next
  case (loop_panicked t h)
  then show ?thesis using crash_inv [OF inv] by simp
next
  case (loop_classified t h err req s1 p)
  then show ?thesis using classified_inv [OF inv] by simp
next
  case (loop_unclassified t h err req s1)
  then show ?thesis using crash_inv [OF inv] unclassified_same [OF loop_unclassified(4,5)] by simp
next
  case (loop_cleanup_reported t h e x panicked)
  then show ?thesis
    using plain_steps(14) [OF inv] crash_inv [OF emit_inv [OF inv]] by (simp add: Let_def)
next
  case (loop_finished t x)
  then show ?thesis using finished_inv [OF inv] by simp
next
  case (loop_closed t x)
  then show ?thesis using closed_inv(1) [OF inv] by simp
qed (use plain_steps [OF inv] in simp_all)

lemma loop_reachable_inv:
  "loop_reachable crashes loop opts s \<Longrightarrow> loop_inv s"
  by (induction rule: loop_reachable.induct) (auto intro: loop_inv_new loop_inv_step)

end
