(* ===== verification/Loop_Claims.thy ===== *)
theory Loop_Claims
  imports Loop_Props
begin

text \<open>
  The properties of the \<open>LoopWorker\<close> in every reachable state of its program, with a run of one
  loop from \<open>Start\<close> to \<open>Stop\<close> as the instance of each.
\<close>

section \<open>Facts about steps\<close>

fun is_loop :: "pc \<Rightarrow> bool" where
  "is_loop (LoopClose x) = True" | "is_loop (LoopEnded x) = True" | "is_loop p = alive p"

lemma alive_is_loop: "alive p \<Longrightarrow> is_loop p"
  by (cases p) auto

lemma hook_is_loop [simp]:
  "is_loop (HookRun k a) = alive (HookEnter k)" "is_loop (HookWait k a) = alive (HookEnter k)"
  "is_loop (HookEnter k) = alive (HookEnter k)"
  by simp_all

lemma after_hook_is_loop [simp]: "is_loop (after_hook k r) = alive (HookEnter k)"
  by (cases k; cases r; simp split: option.split)

lemma goto_pc [simp]: "lw_pc (goto t p s) = (lw_pc s)(t := p)"
  by (simp add: goto_def)

lemma op_pcs [simp]:
  "lw_pc (LoopWorker_finishFailedStart s) = lw_pc s" "lw_pc (LoopWorker_finishStart h i s) = lw_pc s"
  "lw_pc (LoopWorker_markStopping i s) = lw_pc s" "lw_pc (LoopWorker_finishLoop i s) = lw_pc s"
  "lw_pc (LoopWorker_finishStopHook a err s) = lw_pc s"
  by (simp_all add: LoopWorker_finishFailedStart_def LoopWorker_finishStart_def
      LoopWorker_markStopping_def LoopWorker_finishLoop_def LoopWorker_finishStopHook_def)

lemma section_pcs:
  "LoopWorker_Start c s = (x, s1) \<Longrightarrow> lw_pc s1 = lw_pc s"
  "LoopWorker_beginStop s = (y, r, s1) \<Longrightarrow> lw_pc s1 = lw_pc s"
  "LoopWorker_beginStopHook s = (z, s1) \<Longrightarrow> lw_pc s1 = lw_pc s"
  "LoopWorker_loopExited t b s = (q, s1) \<Longrightarrow> lw_pc s1 = lw_pc s"
  by (auto simp: LoopWorker_Start_def LoopWorker_beginStart_def LoopWorker_beginStop_def
      LoopWorker_beginStopHook_def LoopWorker_loopExited_def Let_def split: if_splits option.splits)

lemma after_loop_alive: "after_loop h req err = Some p \<Longrightarrow> alive p"
  by (auto simp: after_loop_def Let_def split: if_splits option.splits bool.splits)

lemma is_loop_step:
  assumes "loop_step crashes s s'" and "is_loop (lw_pc s u)"
  shows "is_loop (lw_pc s' u)"
  using assms(1)
proof cases
  case (loop_classified t h err req s1 p)
  then show ?thesis
    using assms(2) section_pcs(4) [OF loop_classified(4)] after_loop_alive [OF loop_classified(5)]
      alive_is_loop by auto
qed (use assms(2) in \<open>auto simp: Let_def dest!: section_pcs\<close>)

lemma awaits_step:
  assumes "loop_step crashes s s'" and "loop_inv s" and "awaits (lw_pc s' u) = Some d"
  shows "awaits (lw_pc s u) = Some d \<or> is_loop (lw_pc s' d)"
  using assms(1)
proof cases
  case (stop_begun t i d' r s1 c)
  have "lw_done s = Some d'" by (rule stop_begun_inv(2) [OF assms(2) stop_begun(3,4,5)])
  then have "is_loop (lw_pc s d')"
    using loops_okD(1) [OF loop_inv_parts(1) [OF assms(2)], of d'] alive_is_loop by simp
  then have "is_loop (lw_pc s' d')" by (rule is_loop_step [OF assms(1)])
  then show ?thesis
    using assms(3) stop_begun section_pcs(2) [OF stop_begun(5)] by (auto split: if_splits)
next
  case (loop_classified t h err req s1 p)
  then show ?thesis
    using assms(3) section_pcs(4) [OF loop_classified(4)]
    by (auto simp: after_loop_def Let_def split: if_splits option.splits bool.splits)
qed (use assms(3) in \<open>auto simp: Let_def after_hook_kinds split: if_splits dest!: section_pcs\<close>)

lemma awaited_is_loop:
  "loop_reachable crashes loop opts s \<Longrightarrow> awaits (lw_pc s t) = Some d \<Longrightarrow> is_loop (lw_pc s d)"
proof (induction arbitrary: t d rule: loop_reachable.induct)
  case new
  then show ?case by (simp add: new_world_def LoopWorker.extend_def)
next
  case (step s s')
  then show ?case
    using awaits_step [OF step(2) loop_reachable_inv [OF step(1)] step(4)] is_loop_step [OF step(2)]
    by blast
qed


section \<open>A run\<close>

definition ex_h :: handle where
  "ex_h = (''c/a'', 1)"

text \<open>Goroutine 0 calls \<open>Start\<close> and launches the loop 1; goroutine 2 calls \<open>Stop\<close>.\<close>

definition "ex_l0 = new_world True []"
definition "ex_l1 = goto 0 (StartUnready ex_h) (snd (LoopWorker_beginStart ex_l0))"
definition "ex_l2 = goto 0 (StartLaunch ex_h) ex_l1"
definition "ex_l3 = goto 0 (StartReady ex_h 1)
  (goto 1 (LoopRunning ex_h) ((LoopWorker_finishStart ex_h 1 ex_l2)\<lparr>lw_dirty := True\<rparr>))"
definition "ex_l4 = goto 0 (StartDone (Returns None)) (emit (ready_signal ex_h True) ex_l3)"
definition "ex_l5 = goto 2 (StopCancel None (Some ex_h) 1 1) (snd (snd (LoopWorker_beginStop ex_l4)))"
definition "ex_l6 = goto 2 (StopAwait None (Some ex_h) 1) (ex_l5\<lparr>lw_cancelled := 1 # lw_cancelled ex_l5\<rparr>)"
definition "ex_l7 = goto 1 (LoopReturned ex_h None) ex_l6"
definition "ex_l8 = goto 1 (LoopFinish None) ex_l7"
definition "ex_l9 = goto 1 (LoopClose None) (LoopWorker_finishLoop 1 ex_l8)"
definition "ex_l10 = goto 1 (LoopEnded None) (ex_l9\<lparr>lw_closed := 1 # lw_closed ex_l9\<rparr>)"
definition "ex_l11 = goto 2 (StopRuntime None (Some ex_h)) ex_l10"
definition "ex_l12 = goto 2 (HookEnter (ForStop ex_h)) ex_l11"
definition "ex_l13 = goto 2 (HookRun (ForStop ex_h) 0) (snd (LoopWorker_beginStopHook ex_l12))"
definition "ex_l14 = goto 2 (StopDone (Returns None))
  ((LoopWorker_finishStopHook 0 None ex_l13)\<lparr>lw_dirty := False\<rparr>)"

text \<open>The same loop failing on its own: it reports and cleans up in its own goroutine.\<close>

definition "ex_f5 = goto 1 (LoopReturned ex_h None) ex_l4"
definition "ex_f6 = goto 1 (LoopReport ex_h (Sentinel ErrLoopExitedUnexpectedly))
  (snd (LoopWorker_loopExited 1 False ex_f5))"
definition "ex_f7 = goto 1 (HookEnter (ForLoop ex_h (Sentinel ErrLoopExitedUnexpectedly)))
  (emit (failure_signal ex_h (Sentinel ErrLoopExitedUnexpectedly)) ex_f6)"
definition "ex_f8 = goto 1 (HookRun (ForLoop ex_h (Sentinel ErrLoopExitedUnexpectedly)) 0)
  (snd (LoopWorker_beginStopHook ex_f7))"

lemmas ex_l_defs = ex_l0_def ex_l1_def ex_l2_def ex_l3_def ex_l4_def ex_l5_def ex_l6_def ex_l7_def
  ex_l8_def ex_l9_def ex_l10_def ex_l11_def ex_l12_def ex_l13_def ex_l14_def
  ex_f5_def ex_f6_def ex_f7_def ex_f8_def

lemmas ex_l_ops = goto_def emit_def new_world_def NewLoopWorker_def LoopWorker.extend_def apply_options_def
  LoopWorker_Start_def LoopWorker_beginStart_def LoopWorker_finishStart_def LoopWorker_beginStop_def
  LoopWorker_finishLoop_def LoopWorker_beginStopHook_def LoopWorker_finishStopHook_def
  LoopWorker_loopExited_def Let_def

lemma ex_run:
  "loop_reachable (\<lambda>_. False) True [] ex_l4" "loop_reachable (\<lambda>_. False) True [] ex_l6"
  "loop_reachable (\<lambda>_. False) True [] ex_l10" "loop_reachable (\<lambda>_. False) True [] ex_l13"
  "loop_step (\<lambda>_. False) ex_l13 ex_l14"
proof -
  let ?R = "loop_reachable (\<lambda>_. False) True []"
  have "?R ex_l0" unfolding ex_l0_def by (rule loop_reachable.new)
  then have "?R ex_l1"
    unfolding ex_l1_def
    by (elim loop_reachable.step)
       (use loop_step.start_begun [of ex_l0 0 "Some ex_h" ex_h "snd (LoopWorker_beginStart ex_l0)"]
        in \<open>simp add: ex_l0_def ex_l_ops\<close>)
  then have "?R ex_l2"
    unfolding ex_l2_def
    by (elim loop_reachable.step) (rule loop_step.start_unready_skipped; simp add: ex_l_defs ex_l_ops)
  then have "?R ex_l3"
    unfolding ex_l3_def
    by (elim loop_reachable.step)
       (use loop_step.start_launch [of ex_l2 0 ex_h 1] in \<open>simp add: ex_l_defs ex_l_ops\<close>)
  then show l4: "?R ex_l4"
    unfolding ex_l4_def
    by (elim loop_reachable.step) (rule loop_step.start_ready_ok [of _ _ _ 1]; simp add: ex_l_defs ex_l_ops)
  have "?R ex_l5"
    unfolding ex_l5_def using l4
    by (elim loop_reachable.step) (rule loop_step.stop_begun; simp add: ex_l_defs ex_l_ops)
  then show l6: "?R ex_l6"
    unfolding ex_l6_def
    by (elim loop_reachable.step) (rule loop_step.stop_cancel; simp add: ex_l_defs ex_l_ops)
  have "?R ex_l7"
    unfolding ex_l7_def using l6
    by (elim loop_reachable.step) (rule loop_step.loop_returned [of _ _ ex_h]; simp add: ex_l_defs ex_l_ops)
  then have "?R ex_l8"
    unfolding ex_l8_def
    by (elim loop_reachable.step)
       (rule loop_step.loop_classified [of _ _ ex_h None True];
        simp add: ex_l_defs ex_l_ops after_loop_def intentionalLoopStop_def)
  then have "?R ex_l9"
    unfolding ex_l9_def
    by (elim loop_reachable.step) (rule loop_step.loop_finished; simp add: ex_l_defs ex_l_ops)
  then show l10: "?R ex_l10"
    unfolding ex_l10_def
    by (elim loop_reachable.step) (rule loop_step.loop_closed; simp add: ex_l_defs ex_l_ops)
  have "?R ex_l11"
    unfolding ex_l11_def using l10
    by (elim loop_reachable.step) (rule loop_step.stop_exited [of _ _ _ _ 1]; simp add: ex_l_defs ex_l_ops)
  then have "?R ex_l12"
    unfolding ex_l12_def
    by (elim loop_reachable.step)
       (rule loop_step.stop_handle [of _ _ None "Some ex_h"]; simp add: ex_l_defs ex_l_ops)
  then show "?R ex_l13"
    unfolding ex_l13_def
    by (elim loop_reachable.step)
       (use loop_step.hook_entered [of ex_l12 2 "ForStop ex_h" 0 True
          "snd (LoopWorker_beginStopHook ex_l12)"] in \<open>simp add: ex_l_defs ex_l_ops\<close>)
  show "loop_step (\<lambda>_. False) ex_l13 ex_l14"
    using loop_step.hook_ok [of ex_l13 2 "ForStop ex_h" 0] unfolding ex_l14_def
    by (simp add: ex_l13_def) (simp add: ex_l_defs ex_l_ops)
qed


lemma reached: "(loop_step crashes)\<^sup>*\<^sup>* s1 s \<Longrightarrow> loop_reachable crashes loop opts s1
  \<Longrightarrow> loop_reachable crashes loop opts s"
  by (induction rule: rtranclp_induct) (auto intro: loop_reachable.step)

lemma ex_failed_steps:
  "loop_reachable (\<lambda>_. False) True [] ex_f5" "(loop_step (\<lambda>_. False))\<^sup>*\<^sup>* ex_f5 ex_f8"
proof -
  let ?step = "loop_step (\<lambda>_. False)"
  show "loop_reachable (\<lambda>_. False) True [] ex_f5"
    unfolding ex_f5_def using ex_run(1)
    by (elim loop_reachable.step) (rule loop_step.loop_returned [of _ _ ex_h]; simp add: ex_l_defs ex_l_ops)
  have "?step ex_f5 ex_f6"
    unfolding ex_f6_def
    by (rule loop_step.loop_classified [of _ _ ex_h None False];
        simp add: ex_l_defs ex_l_ops after_loop_def)
  moreover have "?step ex_f6 ex_f7"
    unfolding ex_f7_def by (rule loop_step.loop_reported; simp add: ex_l_defs ex_l_ops)
  moreover have "?step ex_f7 ex_f8"
    unfolding ex_f8_def
    using loop_step.hook_entered [of ex_f7 1 "ForLoop ex_h (Sentinel ErrLoopExitedUnexpectedly)" 0
        True "snd (LoopWorker_beginStopHook ex_f7)"] by (simp add: ex_l_defs ex_l_ops)
  ultimately show "?step\<^sup>*\<^sup>* ex_f5 ex_f8" by (blast intro: rtranclp.rtrancl_into_rtrancl)
qed

lemma ex_failed_run: "loop_reachable (\<lambda>_. False) True [] ex_f8"
  by (rule reached [OF ex_failed_steps(2,1)])

section \<open>The exit of a loop\<close>

text \<open>What a goroutine whose loop function has returned \<open>err\<close> may be doing, given whether its
  exit was asked for and whether the failure has been reported: every exit on the way to closing
  the \<open>done\<close> channel.\<close>

definition exit_error :: "error option \<Rightarrow> error" where
  "exit_error err = (case err of None \<Rightarrow> Sentinel ErrLoopExitedUnexpectedly | Some e \<Rightarrow> e)"

fun tracked :: "handle \<Rightarrow> error option \<Rightarrow> bool \<Rightarrow> bool \<Rightarrow> pc \<Rightarrow> bool" where
  "tracked h err asked told (LoopReturned h' err') = (h' = h \<and> err' = err)"
| "tracked h err asked told (LoopReport h' e) = (h' = h \<and> e = exit_error err)"
| "tracked h err asked told (HookEnter (ForLoop h' e)) = (told \<and> h' = h \<and> e = exit_error err)"
| "tracked h err asked told (HookWait (ForLoop h' e) a) = (told \<and> h' = h \<and> e = exit_error err)"
| "tracked h err asked told (HookRun (ForLoop h' e) a) = (told \<and> h' = h \<and> e = exit_error err)"
| "tracked h err asked told (LoopCleanup h' e x p) = (told \<and> h' = h \<and> e = exit_error err)"
| "tracked h err asked told (LoopFinish x) =
     (case x of None \<Rightarrow> asked | Some y \<Rightarrow> told \<and> y = (h, exit_error err))"
| "tracked h err asked told (LoopClose x) =
     (case x of None \<Rightarrow> asked | Some y \<Rightarrow> told \<and> y = (h, exit_error err))"
| "tracked h err asked told (LoopEnded x) =
     (case x of None \<Rightarrow> asked | Some y \<Rightarrow> told \<and> y = (h, exit_error err))"
| "tracked h err asked told p = False"

definition asked_exit :: "error option \<Rightarrow> bool" where
  "asked_exit err \<longleftrightarrow> err = None \<or> (\<exists>e. err = Some e \<and> is_error e CtxCanceled)"

definition exit_tracked :: "nat \<Rightarrow> handle \<Rightarrow> error option \<Rightarrow> loop_world \<Rightarrow> loop_world \<Rightarrow> bool" where
  "exit_tracked t h err s1 s \<longleftrightarrow>
     (\<exists>later. lw_calls s = lw_calls s1 @ later
        \<and> tracked h err (asked_exit err \<and> t \<in> set (lw_cancelled s))
            (failure_signal h (exit_error err) \<in> set later) (lw_pc s t))"

lemma tracked_mono:
  "tracked h err a r p \<Longrightarrow> (a \<Longrightarrow> a') \<Longrightarrow> (r \<Longrightarrow> r') \<Longrightarrow> tracked h err a' r' p"
  by (induction h err a r p rule: tracked.induct) (auto split: option.splits)

lemma after_hook_tracked:
  "tracked h err a r (HookEnter k) \<Longrightarrow> tracked h err a r (after_hook k x)"
  by (cases k; cases x; auto split: option.split)

lemma hook_tracked [simp]:
  "tracked h err a r (HookRun k i) = tracked h err a r (HookEnter k)"
  "tracked h err a r (HookWait k i) = tracked h err a r (HookEnter k)"
  by (cases k; simp)+

lemma after_loop_tracked:
  "LoopWorker_loopExited t c s = (q, s1) \<Longrightarrow> after_loop h q err = Some p
   \<Longrightarrow> tracked h err (asked_exit err \<and> c) r p"
  by (auto simp: LoopWorker_loopExited_def after_loop_def intentionalLoopStop_def Let_def exit_error_def
      asked_exit_def split: if_splits option.splits bool.splits)

lemma op_fields [simp]:
  "lw_calls (LoopWorker_finishFailedStart s) = lw_calls s" "lw_cancelled (LoopWorker_finishFailedStart s) = lw_cancelled s"
  "lw_calls (LoopWorker_finishStart h i s) = lw_calls s" "lw_cancelled (LoopWorker_finishStart h i s) = lw_cancelled s"
  "lw_calls (LoopWorker_markStopping i s) = lw_calls s" "lw_cancelled (LoopWorker_markStopping i s) = lw_cancelled s"
  "lw_calls (LoopWorker_finishLoop i s) = lw_calls s" "lw_cancelled (LoopWorker_finishLoop i s) = lw_cancelled s"
  "lw_calls (LoopWorker_finishStopHook a err s) = lw_calls s" "lw_cancelled (LoopWorker_finishStopHook a err s) = lw_cancelled s"
  "lw_calls (goto t p s) = lw_calls s" "lw_cancelled (goto t p s) = lw_cancelled s"
  "lw_calls (crash s) = lw_calls s" "lw_cancelled (crash s) = lw_cancelled s"
  "lw_calls (emit x s) = lw_calls s @ [x]" "lw_cancelled (emit x s) = lw_cancelled s"
  "lw_pc (crash s) = lw_pc s" "lw_pc (emit x s) = lw_pc s"
  by (simp_all add: LoopWorker_finishFailedStart_def LoopWorker_finishStart_def goto_def crash_def emit_def
      LoopWorker_markStopping_def LoopWorker_finishLoop_def LoopWorker_finishStopHook_def)

lemma section_fields:
  "LoopWorker_Start c s = (x, s1) \<Longrightarrow> lw_calls s1 = lw_calls s \<and> lw_cancelled s1 = lw_cancelled s \<and> lw_pc s1 = lw_pc s"
  "LoopWorker_beginStop s = (y, r, s1) \<Longrightarrow> lw_calls s1 = lw_calls s \<and> lw_cancelled s1 = lw_cancelled s \<and> lw_pc s1 = lw_pc s"
  "LoopWorker_beginStopHook s = (z, s1) \<Longrightarrow> lw_calls s1 = lw_calls s \<and> lw_cancelled s1 = lw_cancelled s \<and> lw_pc s1 = lw_pc s"
  "LoopWorker_loopExited t b s = (q, s1) \<Longrightarrow> lw_calls s1 = lw_calls s \<and> lw_cancelled s1 = lw_cancelled s \<and> lw_pc s1 = lw_pc s"
  by (auto simp: LoopWorker_Start_def LoopWorker_beginStart_def LoopWorker_beginStop_def
      LoopWorker_beginStopHook_def LoopWorker_loopExited_def Let_def split: if_splits option.splits)

text \<open>What a step does to the exit of goroutine \<open>t\<close>.\<close>

lemma tracked_step:
  assumes "loop_step crashes s s'" and tr: "tracked h err (asked_exit err \<and> t \<in> set (lw_cancelled s)) r (lw_pc s t)"
  shows "\<exists>new. lw_calls s' = lw_calls s @ new
    \<and> tracked h err (asked_exit err \<and> t \<in> set (lw_cancelled s'))
        (r \<or> failure_signal h (exit_error err) \<in> set new) (lw_pc s' t)"
  using assms(1)
proof cases
  case (loop_classified u h' err' q s1 p)
  then show ?thesis
    using tr after_loop_tracked [OF loop_classified(4,5)] section_pcs(4) [OF loop_classified(4)]
      section_fields(4) [OF loop_classified(4)]
    by (auto intro: tracked_mono)
next
  case (hook_joined u k a)
  then show ?thesis using tr by (auto intro: after_hook_tracked tracked_mono)
next
  case (hook_gave_up u k a e)
  then show ?thesis using tr by (auto intro: after_hook_tracked tracked_mono)
next
  case (hook_ok u k a)
  then show ?thesis using tr by (auto intro: after_hook_tracked tracked_mono)
next
  case (hook_failed u k a e x)
  then show ?thesis using tr by (auto intro: after_hook_tracked tracked_mono)
next
  case (hook_panicked u k a)
  then show ?thesis using tr by (auto intro: after_hook_tracked tracked_mono)
qed (use tr in \<open>auto simp: Let_def dest!: section_fields intro: tracked_mono\<close>)

lemma tracked_run:
  assumes "(loop_step crashes)\<^sup>*\<^sup>* s1 s" and "lw_pc s1 t = LoopReturned h err"
  shows "exit_tracked t h err s1 s"
  using assms(1)
proof (induction rule: rtranclp_induct)
  case base
  then show ?case using assms(2) by (simp add: exit_tracked_def)
next
  case (step s s')
  obtain later where later: "lw_calls s = lw_calls s1 @ later"
    "tracked h err (asked_exit err \<and> t \<in> set (lw_cancelled s))
       (failure_signal h (exit_error err) \<in> set later) (lw_pc s t)"
    using step.IH by (auto simp: exit_tracked_def)
  then show ?case
    using tracked_step [OF step.hyps(2) later(2)] by (auto simp: exit_tracked_def)
qed

section \<open>Properties\<close>

text \<open>C15: mutual exclusion. In every reachable state at most one goroutine executes the loop
  function, at most one executes the cleanup hook, the two never overlap, and no \<open>done\<close> channel
  has been closed twice, however calls of \<open>Stop\<close>, the loop's exit and cleanup interleave.\<close>

theorem loop_exclusive:
  assumes "loop_reachable crashes loop opts s"
  shows "(lw_pc s t = LoopRunning h \<and> lw_pc s u = LoopRunning h' \<longrightarrow> t = u)
    \<and> (lw_pc s t = HookRun k a \<and> lw_pc s u = HookRun k' a' \<longrightarrow> t = u)
    \<and> \<not> (lw_pc s t = LoopRunning h \<and> lw_pc s u = HookRun k a)
    \<and> distinct (lw_closed s)"
proof -
  note parts = loop_inv_parts [OF loop_reachable_inv [OF assms]]
  note D = loops_okD [OF parts(1)]
  have "False" if r: "lw_pc s t = LoopRunning h" and k: "lw_pc s u = HookRun k a"
  proof (cases "past_loop (lw_pc s u)")
    case True
    then show ?thesis using D(5) [of u] D(1) [of t] r by simp
  next
    case False
    then have "winding (lw_pc s u)" using k by (cases k) auto
    then show ?thesis using D(1) [of u] D(1) [of t] winding_alive [of "lw_pc s u"] r k by auto
  qed
  moreover have "t = u" if "lw_pc s t = LoopRunning h" "lw_pc s u = LoopRunning h'"
    using D(1) [of t] D(1) [of u] that by simp
  moreover have "t = u" if "lw_pc s t = HookRun k a" "lw_pc s u = HookRun k' a'"
    using hooks_okD(3) [OF parts(3), of t u] that by simp
  ultimately show ?thesis using D(8) by blast
qed

theorem loop_exclusive_witness:
  "lw_pc ex_l4 1 = LoopRunning ex_h \<and> lw_pc ex_l4 2 \<noteq> HookRun (ForStop ex_h) 0"
  using loop_exclusive [OF ex_run(1), of 1 ex_h 2 ex_h "ForStop ex_h" 0]
  by (simp add: ex_l_defs ex_l_ops)

text \<open>C14: nil out of \<open>Stop\<close> means that the loop has exited and a cleanup attempt has succeeded
  since it was launched: the worker may be started again.\<close>

theorem stop_nil_means_clean:
  assumes "loop_reachable crashes loop opts s" and "loop_step crashes s s'"
    and "lw_pc s t \<noteq> StopDone (Returns None)" and "lw_pc s' t = StopDone (Returns None)"
  shows "lw_stopHookComplete s' \<and> lw_done s' = None \<and> \<not> lw_dirty s'
    \<and> (\<forall>u. \<not> alive (lw_pc s' u)) \<and> fst (LoopWorker_beginStart s') = None"
proof -
  have inv: "loop_inv s" by (rule loop_reachable_inv [OF assms(1)])
  have inv': "loop_inv s'" by (rule loop_inv_step [OF assms(2) inv])
  note parts = loop_inv_parts [OF inv] and parts' = loop_inv_parts [OF inv']
  have key: "lw_stopHookComplete s' \<and> lw_done s' = None"
    using assms(2)
  proof cases
    case (hook_joined u k a)
    then have k: "u = t" "\<exists>h. k = ForStop h" "snd (lw_attempts s ! a) = None"
      using assms(3,4) by (cases k; auto split: if_splits option.splits)+
    have "lw_attempts s ! a = (True, None)" using hook_joined k by (simp add: prod_eq_iff)
    then have "lw_stopHookComplete s" using hooks_okD(7) [OF parts(3), of u a] hook_joined by simp
    moreover have "lw_done s = None" using loops_okD(5) [OF parts(1), of u] hook_joined k by auto
    ultimately show ?thesis unfolding hook_joined(1) by (simp add: goto_def)
  next
    case (hook_ok u k a)
    then have k: "u = t" "\<exists>h. k = ForStop h"
      using assms(3,4) by (cases k; auto split: if_splits option.splits)+
    have "lw_done s = None" using loops_okD(5) [OF parts(1), of u] hook_ok k by auto
    then show ?thesis
      using hook_ended_inv(2,3) [OF inv hook_ok(3), of False None] unfolding hook_ok(1)
      by (simp add: goto_def)
  qed (use assms(3,4) in \<open>auto simp: Let_def after_loop_def split: if_splits option.splits bool.splits
         elim!: after_hook.elims dest!: section_pcs\<close>)
  moreover have "\<not> lw_dirty s'" using hooks_okD(8) [OF parts'(3)] key by auto
  moreover have "\<not> alive (lw_pc s' u)" for u using loops_okD(1) [OF parts'(1)] key by simp
  moreover have "lw_state s' \<noteq> loopStarting" using parts'(2) key by (auto simp: callers_ok_def)
  moreover have "lw_state s' \<notin> {loopRunning, loopStopping}" using loops_okD(3) [OF parts'(1)] key by auto
  ultimately show ?thesis by (auto simp: LoopWorker_beginStart_def)
qed

theorem stop_nil_means_clean_witness:
  "lw_stopHookComplete ex_l14 \<and> lw_done ex_l14 = None"
proof -
  have "lw_pc ex_l13 2 \<noteq> StopDone (Returns None)" "lw_pc ex_l14 2 = StopDone (Returns None)"
    by (simp_all add: ex_l13_def ex_l14_def)
  with stop_nil_means_clean [OF ex_run(4,5)] show ?thesis by blast
qed


text \<open>C18: \<open>Start\<close> stays blocked until the loop has exited and one cleanup attempt succeeds: while
  a launched loop has not been cleaned up, \<open>beginStart\<close> refuses with \<open>ErrLoopWorkerActive\<close> and
  changes nothing; when it accepts, no loop is alive.\<close>

theorem start_blocked_until_clean:
  assumes "loop_reachable crashes loop opts s"
  shows "(lw_dirty s \<longrightarrow>
      (\<exists>e. LoopWorker_beginStart s = (Some e, s) \<and> is_error e ErrLoopWorkerActive))
    \<and> (fst (LoopWorker_beginStart s) = None \<longrightarrow> \<not> lw_dirty s \<and> (\<forall>t. \<not> alive (lw_pc s t)))"
proof -
  note parts = loop_inv_parts [OF loop_reachable_inv [OF assms]]
  have refused: "\<exists>e. LoopWorker_beginStart s = (Some e, s) \<and> is_error e ErrLoopWorkerActive"
    if "lw_dirty s"
    using hooks_okD(8) [OF parts(3) that]
    by (cases "lw_state s") (auto simp: LoopWorker_beginStart_def newLoopCleanupError_def)
  moreover have "\<not> alive (lw_pc s t)" if "fst (LoopWorker_beginStart s) = None" for t
  proof -
    have "lw_state s \<notin> {loopRunning, loopStopping}"
      using that by (auto simp: LoopWorker_beginStart_def newLoopCleanupError_def split: if_splits)
    then have "lw_done s = None" using loops_okD(3) [OF parts(1)] by auto
    then show ?thesis using loops_okD(1) [OF parts(1), of t] by simp
  qed
  ultimately show ?thesis by fastforce
qed

theorem start_blocked_until_clean_witness:
  "\<exists>e. LoopWorker_beginStart ex_l13 = (Some e, ex_l13) \<and> is_error e ErrLoopWorkerActive"
  using start_blocked_until_clean [OF ex_run(4)] by (simp add: ex_l_defs ex_l_ops)

text \<open>C27: an unexpected exit is reported before completion is published. Let the loop function of
  goroutine \<open>t\<close> return \<open>err\<close>, under the handle \<open>h\<close> it was started with, and let its \<open>done\<close>
  channel be closed at any later point. If its context was cancelled and \<open>err\<close> is nil or
  the context's own error, the exit may pass as the one that was asked for. In every other case
  (no cancellation, an independent error after a cancellation, nil without one), \<open>ReportFailure\<close>
  of \<open>h\<close> has been called since the return, with \<open>err\<close>, or with \<open>ErrLoopExitedUnexpectedly\<close> for nil.\<close>

theorem exit_reported_before_done:
  assumes "loop_reachable crashes loop opts s1" and "lw_pc s1 t = LoopReturned h err"
    and "(loop_step crashes)\<^sup>*\<^sup>* s1 s" and "t \<in> set (lw_closed s)"
  shows "lw_pc s t = LoopEnded None \<and> t \<in> set (lw_cancelled s) \<and> asked_exit err
    \<or> lw_pc s t = LoopEnded (Some (h, exit_error err))
      \<and> (\<exists>later. lw_calls s = lw_calls s1 @ later \<and> failure_signal h (exit_error err) \<in> set later)"
proof -
  note parts = loop_inv_parts [OF loop_reachable_inv [OF reached [OF assms(3,1)]]]
  have "ended (lw_pc s t)" using loops_okD(7) [OF parts(1)] assms(4) by blast
  then obtain x where "lw_pc s t = LoopEnded x" by (cases "lw_pc s t") auto
  then show ?thesis
    using tracked_run [OF assms(3,2)] by (cases x) (auto simp: exit_tracked_def)
qed

text \<open>The loop that returns nil while nobody stops it: reported, cleaned up, and then closed.\<close>

theorem exit_reported_before_done_witness:
  "\<exists>s :: loop_world. 1 \<in> set (lw_closed s) \<and> failure_signal ex_h (Sentinel ErrLoopExitedUnexpectedly) \<in> set (lw_calls s)"
proof -
  let ?e = "Sentinel ErrLoopExitedUnexpectedly" and ?step = "loop_step (\<lambda>_. False)"
  define f9 where "f9 = goto 1 (LoopFinish (Some (ex_h, ?e)))
      ((LoopWorker_finishStopHook 0 None ex_f8)\<lparr>lw_dirty := False\<rparr>)"
  define f10 where "f10 = goto 1 (LoopClose (Some (ex_h, ?e))) (LoopWorker_finishLoop 1 f9)"
  define f11 where "f11 = goto 1 (LoopEnded (Some (ex_h, ?e))) (f10\<lparr>lw_closed := 1 # lw_closed f10\<rparr>)"
  have pc: "lw_pc ex_f5 1 = LoopReturned ex_h None" by (simp add: ex_f5_def)
  have 9: "?step ex_f8 f9"
    using loop_step.hook_ok [of ex_f8 1 "ForLoop ex_h ?e" 0 "\<lambda>_. False"] unfolding f9_def
    by (simp add: ex_f8_def) (simp add: ex_l_defs ex_l_ops)
  have 10: "?step f9 f10"
    unfolding f10_def by (rule loop_step.loop_finished) (simp_all add: f9_def ex_l_defs ex_l_ops)
  have 11: "?step f10 f11"
    unfolding f11_def by (rule loop_step.loop_closed) (simp_all add: f10_def f9_def ex_l_defs ex_l_ops)
  have "?step\<^sup>*\<^sup>* ex_f5 ex_f8" by (rule ex_failed_steps(2))
  with 9 10 11 have run: "?step\<^sup>*\<^sup>* ex_f5 f11" by (blast intro: rtranclp.rtrancl_into_rtrancl)
  have closed: "1 \<in> set (lw_closed f11)" by (simp add: f11_def goto_def)
  have "failure_signal ex_h ?e \<in> set (lw_calls f11)"
    using exit_reported_before_done [OF ex_failed_steps(1) pc run closed]
    by (auto simp: f11_def exit_error_def)
  with closed show ?thesis by blast
qed

text \<open>Which exits are failures. A returned loop is classified as a normal stop exactly when
  its context was cancelled while a stop was under way and it returned nil or the context's own
  error; any other return, nil included, is reported, with \<open>ErrLoopExitedUnexpectedly\<close> for nil.\<close>

lemma loop_exit_classified:
  assumes "LoopWorker_loopExited t (t \<in> set (lw_cancelled s)) s = (stopRequested, s')"
    and "after_loop h stopRequested err = Some p"
  shows "p = (if lw_state s = loopStopping \<and> t \<in> set (lw_cancelled s)
                 \<and> (err = None \<or> (\<exists>e. err = Some e \<and> is_error e CtxCanceled))
              then LoopFinish None
              else LoopReport h (case err of None \<Rightarrow> Sentinel ErrLoopExitedUnexpectedly | Some e \<Rightarrow> e))"
  using assms
  by (auto simp: LoopWorker_loopExited_def after_loop_def intentionalLoopStop_def Let_def
      split: option.splits bool.splits if_splits)

text \<open>No waiter is left behind. A call that waits for a loop's \<open>done\<close> channel waits for a
  goroutine that is there to close it, or it is closed; a goroutine that waits for a cleanup
  attempt waits for one that is running or finished; and no step dereferences a nil attempt.\<close>

lemma no_orphaned_waiter:
  assumes "loop_reachable crashes loop opts s"
  shows "(awaits (lw_pc s t) = Some d \<longrightarrow>
       alive (lw_pc s d) \<or> (\<exists>x. lw_pc s d = LoopClose x) \<or> d \<in> set (lw_closed s))
    \<and> (waiting (lw_pc s t) = Some a \<longrightarrow>
       fst (lw_attempts s ! a) \<or> (\<exists>u. hooking (lw_pc s u) = Some a))
    \<and> fst (fst (LoopWorker_beginStopHook s)) \<noteq> None"
proof -
  have inv: "loop_inv s" by (rule loop_reachable_inv [OF assms])
  note parts = loop_inv_parts [OF inv]
  note H = hooks_okD [OF parts(3)]
  have "alive (lw_pc s d) \<or> (\<exists>x. lw_pc s d = LoopClose x) \<or> d \<in> set (lw_closed s)"
    if "awaits (lw_pc s t) = Some d"
    using awaited_is_loop [OF assms that] loops_okD(7) [OF parts(1), of d]
    by (cases "lw_pc s d") auto
  moreover have "\<exists>u. hooking (lw_pc s u) = Some a"
    if "waiting (lw_pc s t) = Some a" "\<not> fst (lw_attempts s ! a)"
    using H(7) [OF that(1)] that(2) H(1,2) by fastforce
  moreover have "fst (fst (LoopWorker_beginStopHook s)) \<noteq> None"
    using H(5) by (auto simp: LoopWorker_beginStopHook_def Let_def)
  ultimately show ?thesis by blast
qed

end
