(* ===== verification/Loop_System.thy ===== *)
theory Loop_System
  imports Loop_Claims Example_Runtime
begin

text \<open>
  A \<open>LoopWorker\<close> and the runtime it is registered with, as one system: the calls the loop's
  goroutines make on their handles are actions on the runtime, interleaved with the runtime's
  own sections. The interface between the two is \<open>lw_calls\<close>, the list of the calls made so far.
\<close>

section \<open>The composed steps\<close>

inductive composed ::
  "(string \<Rightarrow> bool) \<Rightarrow> loop_world \<times> sys \<Rightarrow> loop_world \<times> sys \<Rightarrow> bool" for crashes where
  worker_step:
    "loop_step crashes w w' \<Longrightarrow> lw_calls w' = lw_calls w @ as
     \<Longrightarrow> composed crashes (w, s) (w', run as s)"
| runtime_step: "section_step s s' \<Longrightarrow> composed crashes (w, s) (w, s')"

text \<open>A path on which worker \<open>n\<close> stays in its generation \<open>g\<close>: it is not started again.\<close>

inductive while_generation ::
  "(string \<Rightarrow> bool) \<Rightarrow> string \<Rightarrow> generation \<Rightarrow> loop_world \<times> sys \<Rightarrow> loop_world \<times> sys \<Rightarrow> bool"
  for crashes n g c0 where
  here: "generation (get_state (snd c0) n) = g \<Longrightarrow> while_generation crashes n g c0 c0"
| further: "while_generation crashes n g c0 c \<Longrightarrow> composed crashes c c'
     \<Longrightarrow> generation (get_state (snd c') n) = g \<Longrightarrow> while_generation crashes n g c0 c'"

section \<open>Out of service\<close>

definition out_of_service :: "workerState \<Rightarrow> bool" where
  "out_of_service w \<longleftrightarrow>
     lifecycle w \<in> {StateFailed, StateStopping, StateStopped}
     \<or> lifecycle w = StateStarting \<and> failureReportedDuringStart w"

lemma out_of_service_refused:
  "out_of_service (get_state s n) \<Longrightarrow> \<exists>e. admitCommand n s = (Inl e, s)"
  by (rule admitCommand_refused) (auto simp: admissible_def out_of_service_def)

text \<open>A step of the automaton that keeps the generation keeps a worker out of service, except
  that the start under way could complete.\<close>

lemma moves_keep_out:
  assumes "worker_moves w w'" and "generation w' = generation w" and "out_of_service w"
    and "lifecycle w = StateStarting \<Longrightarrow> failureReportedDuringStart w \<Longrightarrow> out_of_service w'"
  shows "out_of_service w'"
  using assms by (cases "lifecycle w") (auto simp: worker_moves_def out_of_service_def)

definition reported_start :: "workerState \<Rightarrow> bool" where
  "reported_start w \<longleftrightarrow> lifecycle w = StateStarting \<and> failureReportedDuringStart w"

lemma section_keeps_report:
  assumes "affects n s s'" and "reported_start (get_state s n) \<Longrightarrow> out_of_service (get_state s' n)"
    and "reported_start (get_state s m)"
  shows "out_of_service (get_state s' m)"
  using assms affects_other [OF assms(1), of m]
  by (cases "m = n") (auto simp: reported_start_def out_of_service_def)

lemmas report_defs = reported_start_def out_of_service_def section_simps

lemma signals_keep_report:
  assumes "reported_start (get_state r n)"
  shows "out_of_service (get_state (snd (setWorkerReady n g b r)) n)"
    and "out_of_service (get_state (snd (setWorkerAcceptingWork n g b r)) n)"
    and "out_of_service (get_state (snd (reportWorkerFailure n g e r)) n)"
    and "out_of_service (get_state (recordCommandFailure n g c x d k r) n)"
    and "out_of_service (get_state (recordCommandPanic n g c x d k r) n)"
  using assms by (auto simp: setWorkerReady_def setWorkerAcceptingWork_def reportWorkerFailure_def
      recordCommandFailure_def recordCommandPanic_def report_defs split: option.split)

lemma sections_keep_report:
  assumes "reported_start (get_state r n)"
  shows "out_of_service (get_state (snd (beginWorkerStart n r)) n)"
    and "out_of_service (get_state (snd (beginWorkerStop n r)) n)"
    and "out_of_service (get_state (snd (beginWorkerDrain n r)) n)"
    and "out_of_service (get_state (snd (completeWorkerStart n g a b r)) n)"
    and "out_of_service (get_state (snd (completeWorkerTransition n g StateStopping StateStopped a b r)) n)"
    and "out_of_service (get_state (failWorker n g x p r) n)"
    and "out_of_service (get_state (failLoopCleanup n g x r) n)"
    and "out_of_service (get_state (recordWorkerFailureStatus n g x r) n)"
  using assms by (auto simp: beginWorkerStart_def beginWorkerStop_def beginWorkerDrain_def
      completeWorkerStart_def completeWorkerTransition_def failWorker_def failLoopCleanup_def
      recordWorkerFailureStatus_def report_defs split: option.split)

lemma act_keeps_report:
  assumes inv: "sys_inv s" and rep: "reported_start (get_state s m)"
  shows "out_of_service (get_state (act a s) m)"
proof (cases a)
  case (SignalReady n g b)
  then show ?thesis
    using section_keeps_report [OF setWorkerReady_affects signals_keep_report(1) rep] by simp
next
  case (SignalAccepting n g b)
  then show ?thesis
    using section_keeps_report [OF setWorkerAcceptingWork_affects signals_keep_report(2) rep] by simp
next
  case (SignalFailure n g e)
  then show ?thesis
    using section_keeps_report [OF reportWorkerFailure_affects signals_keep_report(3) rep] by simp
next
  case (AdmitSlot n)
  then show ?thesis using rep by (auto simp: admit_state report_defs split: sum.split)
next
  case (ReleaseSlot t)
  then show ?thesis using rep by (auto simp: release_state [OF inv] report_defs)
next
  case (CommandFailed t c e d k)
  then show ?thesis
    using rep section_keeps_report [OF recordCommandFailure_affects signals_keep_report(4) rep]
    by (auto simp: holding_def report_defs split: option.split)
next
  case (CommandPanicked t c e d k)
  then show ?thesis
    using rep section_keeps_report [OF recordCommandPanic_affects signals_keep_report(5) rep]
    by (auto simp: holding_def report_defs split: option.split)
qed (use rep in \<open>simp_all add: get_state_def report_defs\<close>)


lemma section_step_inv:
  assumes step: "section_step s s'" and inv: "sys_inv s"
  shows "sys_inv s'"
proof -
  note rt = sys_inv_rt [OF inv]
  show ?thesis using step
  proof (cases rule: section_step.cases)
    case (action_step a)
    then show ?thesis by (simp add: act_inv [OF inv])
  next
    case (begin_start n)
    then show ?thesis using inv by (simp add: sys_inv_section [of n s] beginWorkerStart_inv rt)
  next
    case (begin_stop n)
    then show ?thesis using inv by (simp add: sys_inv_section [of n s] beginWorkerStop_inv rt)
  next
    case (begin_drain n)
    then show ?thesis using inv by (simp add: sys_inv_section [of n s] beginWorkerDrain_inv rt)
  next
    case (complete_start n g rdy acc)
    then show ?thesis using inv by (simp add: sys_inv_section [of n s] completeWorkerStart_inv rt)
  next
    case (complete_stop n g)
    then show ?thesis using inv by (simp add: sys_inv_section [of n s] completeWorkerTransition_inv rt)
  next
    case (fail n g e p)
    from in_operation_present [OF this(2)] obtain w where "map_of (r_workerStates s) n = Some w" by blast
    with fail inv show ?thesis
      by (simp add: sys_inv_section [OF failWorker_affects] failing_counts failWorker_inv rt)
  next
    case (fail_cleanup n g e)
    from in_operation_present [OF this(2)] obtain w where "map_of (r_workerStates s) n = Some w" by blast
    with fail_cleanup inv show ?thesis
      by (simp add: sys_inv_section [OF failLoopCleanup_affects] failing_counts failLoopCleanup_inv rt)
  next
    case (record_status n g e)
    from in_operation_present [OF this(2)] obtain w where "map_of (r_workerStates s) n = Some w" by blast
    with record_status inv show ?thesis
      by (simp add: sys_inv_section [OF recordWorkerFailureStatus_affects] failing_counts
          recordWorkerFailureStatus_inv rt)
  qed
qed

text \<open>Every section keeps a worker out of service as long as it is not started again.\<close>

lemma section_step_out:
  assumes step: "section_step s s'" and inv: "sys_inv s"
    and same: "generation (get_state s' m) = generation (get_state s m)"
    and out: "out_of_service (get_state s m)"
  shows "out_of_service (get_state s' m)"
proof (rule moves_keep_out [OF section_step_moves [OF step inv] same out])
  assume "lifecycle (get_state s m) = StateStarting" "failureReportedDuringStart (get_state s m)"
  then have rep: "reported_start (get_state s m)" by (simp add: reported_start_def)
  note keep = section_keeps_report [OF _ _ rep]
  show "out_of_service (get_state s' m)"
    using step
    by (cases rule: section_step.cases)
       (use act_keeps_report [OF inv rep] in \<open>auto intro!: keep sections_keep_report\<close>)
qed

text \<open>What a section leaves of a worker that is there: it does not go back to registered.\<close>

lemma moves_not_registered:
  "worker_moves w w' \<Longrightarrow> lifecycle w \<noteq> StateRegistered \<Longrightarrow> lifecycle w' \<noteq> StateRegistered"
  by (cases "lifecycle w") (auto simp: worker_moves_def)

section \<open>What a loop's step tells the runtime\<close>

text \<open>A goroutine comes to have reported a failure only in the step that calls \<open>ReportFailure\<close>.\<close>

lemma after_loop_reported: "after_loop h req err = Some p \<Longrightarrow> reported p = None"
  by (auto simp: after_loop_def Let_def split: if_splits option.splits bool.splits)

lemma after_hook_reported:
  "reported (after_hook k res) = Some x \<Longrightarrow> \<exists>h e. k = ForLoop h e \<and> x = (h, e)"
  by (cases k; cases res) (auto split: option.splits)

lemma emit_fields [simp]:
  "lw_pc (emit a s) = lw_pc s" "lw_calls (emit a s) = lw_calls s @ [a]"
  by (simp_all add: emit_def)

lemma crash_calls [simp]: "lw_calls (crash s) = lw_calls s"
  by (simp_all add: crash_def)

lemma reported_step:
  assumes "loop_step crashes w w'" and "reported (lw_pc w' t) = Some (h, e)"
  shows "reported (lw_pc w t) = Some (h, e) \<or> lw_calls w' = lw_calls w @ [failure_signal h e]"
  using assms(1)
proof cases
  case (loop_classified u h' err req s1 p)
  then show ?thesis
    using assms(2) section_pcs(4) [OF loop_classified(4)] after_loop_reported [OF loop_classified(5)]
    by (auto split: if_splits)
qed (use assms(2) in \<open>auto simp: Let_def goto_def split: if_splits dest!: section_pcs after_hook_reported\<close>)


text \<open>The calls are only ever extended, so every step of the worker is a step of the whole.\<close>

lemma loop_step_calls: "loop_step crashes w w' \<Longrightarrow> \<exists>as. lw_calls w' = lw_calls w @ as"
  by (induction rule: loop_step.induct)
     (auto simp: Let_def goto_def LoopWorker_Start_def LoopWorker_beginStart_def
        LoopWorker_beginStop_def LoopWorker_beginStopHook_def LoopWorker_loopExited_def
        LoopWorker_finishFailedStart_def LoopWorker_finishStart_def LoopWorker_markStopping_def
        LoopWorker_finishLoop_def LoopWorker_finishStopHook_def split: if_splits option.splits)

section \<open>A failed loop and its worker\<close>

lemma run_out:
  assumes "sys_inv s" and "out_of_service (get_state s n)"
  shows "out_of_service (get_state (run as s) n)"
  using assms
proof (induction as arbitrary: s)
  case (Cons a as)
  have "generation (get_state (act a s) n) = generation (get_state s n)"
    using act_may_fail [OF Cons.prems(1), of n a] by (simp add: may_fail_def)
  then have "out_of_service (get_state (act a s) n)"
    by (rule section_step_out [OF section_step.action_step Cons.prems(1) _ Cons.prems(2)])
  then show ?case using Cons.IH [OF act_inv [OF Cons.prems(1)]] by simp
qed simp

lemma run_present:
  assumes "sys_inv s" and "lifecycle (get_state s n) \<noteq> StateRegistered"
  shows "lifecycle (get_state (run as s) n) \<noteq> StateRegistered"
  using assms
proof (induction as arbitrary: s)
  case (Cons a as)
  show ?case
    using Cons.IH [OF act_inv [OF Cons.prems(1)]] Cons.prems(2)
      moves_not_registered [OF may_fail_moves [OF act_may_fail [OF Cons.prems(1)]]] by simp
qed simp

text \<open>A report from the current generation takes the worker out of service in every state but
  the one it was registered in.\<close>

lemma report_takes_out:
  assumes "lifecycle (get_state s n) \<noteq> StateRegistered"
  shows "out_of_service (get_state (act (failure_signal (n, generation (get_state s n)) e) s) n)"
proof -
  obtain w where w: "map_of (r_workerStates s) n = Some w"
    using worker_present [OF assms] by blast
  then show ?thesis
    using assms by (cases "lifecycle w")
      (simp_all add: failure_signal_def reportWorkerFailure_def section_simps out_of_service_def)
qed

definition accounted :: "string \<Rightarrow> generation \<Rightarrow> loop_world \<times> sys \<Rightarrow> bool" where
  "accounted n g c \<longleftrightarrow>
     sys_inv (snd c) \<and> generation (get_state (snd c) n) = g
     \<and> lifecycle (get_state (snd c) n) \<noteq> StateRegistered
     \<and> (\<forall>t e. reported (lw_pc (fst c) t) = Some ((n, g), e) \<longrightarrow> out_of_service (get_state (snd c) n))"

lemma composed_accounted:
  assumes step: "composed crashes c c'" and acc: "accounted n g c"
    and gen: "generation (get_state (snd c') n) = g"
  shows "accounted n g c'"
  using step
proof cases
  case (worker_step w w' as s)
  have i: "sys_inv s" and p: "lifecycle (get_state s n) \<noteq> StateRegistered"
    and g: "generation (get_state s n) = g"
    using acc worker_step by (simp_all add: accounted_def)
  have "out_of_service (get_state (run as s) n)"
    if "reported (lw_pc w' t) = Some ((n, g), e)" for t e
  proof (cases "reported (lw_pc w t) = Some ((n, g), e)")
    case True
    then have "out_of_service (get_state s n)" using acc worker_step by (auto simp: accounted_def)
    then show ?thesis by (rule run_out [OF i])
  next
    case False
    then have "as = [failure_signal (n, g) e]"
      using reported_step [OF worker_step(3) that] worker_step(4) by simp
    then show ?thesis using report_takes_out [OF p] g by simp
  qed
  then show ?thesis
    using gen i p worker_step by (simp add: accounted_def run_present)
next
  case (runtime_step s s' w)
  have i: "sys_inv s" using acc runtime_step by (simp add: accounted_def)
  show ?thesis
    using acc gen runtime_step section_step_inv [OF runtime_step(3) i]
      moves_not_registered [OF section_step_moves [OF runtime_step(3) i], of n]
      section_step_out [OF runtime_step(3) i, of n]
    by (auto simp: accounted_def)
qed

lemma while_generation_starts:
  "while_generation crashes n g c0 c \<Longrightarrow> generation (get_state (snd c0) n) = g"
  by (induction rule: while_generation.induct)

lemma while_generation_accounted:
  "while_generation crashes n g c0 c \<Longrightarrow> accounted n g c0 \<Longrightarrow> accounted n g c"
  by (induction rule: while_generation.induct) (auto intro: composed_accounted)

text \<open>C16: a loop that failed leaves service. From any reachable runtime in which the worker has
  been started, and through any interleaving of the loop worker's goroutines with the runtime's
  sections and with every other caller, a worker whose loop has reported a failure in the
  present generation is failed, stopping, stopped, or failing its start, and no command is
  admitted to it, until it is started again.\<close>

theorem failed_loop_out_of_service:
  assumes "reachable s0" and "lifecycle (get_state s0 n) \<noteq> StateRegistered"
    and "\<forall>t e. reported (lw_pc w0 t) \<noteq> Some ((n, g), e)"
    and "while_generation crashes n g (w0, s0) (w, s)"
    and "reported (lw_pc w t) = Some ((n, g), e)"
  shows "out_of_service (get_state s n) \<and> (\<exists>err. admitCommand n s = (Inl err, s))"
proof -
  have "generation (get_state s0 n) = g" using while_generation_starts [OF assms(4)] by simp
  then have "accounted n g (w0, s0)"
    using assms(1-3) by (simp add: accounted_def reachable_sys_inv)
  then have "accounted n g (w, s)" by (rule while_generation_accounted [OF assms(4)])
  then have "out_of_service (get_state s n)" using assms(5) by (auto simp: accounted_def)
  then show ?thesis by (simp add: out_of_service_refused)
qed


theorem failed_loop_out_of_service_witness:
  "out_of_service (get_state (run [failure_signal ex_h (Sentinel ErrLoopExitedUnexpectedly)] ex_running) ''c/a'')"
proof -
  let ?e = "Sentinel ErrLoopExitedUnexpectedly"
  let ?s = "run [failure_signal ex_h ?e] ex_running"
  have a: "get_state ex_running ''c/a'' = ex_a" by (simp add: get_state_def ex_running_state)
  have "loop_step (\<lambda>_. False) ex_f6 ex_f7"
    unfolding ex_f7_def by (rule loop_step.loop_reported) (simp_all add: ex_l_defs ex_l_ops)
  then have step: "composed (\<lambda>_. False) (ex_f6, ex_running) (ex_f7, ?s)"
    by (rule composed.worker_step) (simp add: ex_f7_def goto_def)
  have "may_fail (get_state ex_running ''c/a'') (get_state ?s ''c/a'')"
    by (simp add: act_may_fail [OF reachable_sys_inv [OF ex_running_reachable]] del: act.simps)
  then have gen: "generation (get_state ?s ''c/a'') = 1" by (simp add: may_fail_def a ex_a_def)
  have path: "while_generation (\<lambda>_. False) ''c/a'' 1 (ex_f6, ex_running) (ex_f7, ?s)"
    by (rule while_generation.further [OF while_generation.here step])
       (use gen in \<open>simp_all add: a ex_a_def\<close>)
  have none: "\<forall>t x. reported (lw_pc ex_f6 t) \<noteq> Some ((''c/a'', 1), x)"
    by (simp add: ex_l_defs ex_l_ops)
  have "lifecycle (get_state ex_running ''c/a'') \<noteq> StateRegistered" by (simp add: a ex_a_def)
  from failed_loop_out_of_service [OF ex_running_reachable this none path, of 1 ?e]
  show ?thesis by (simp add: ex_f7_def goto_def ex_h_def)
qed

end
