(* ===== verification/Loop_Progress.thy ===== *)
theory Loop_Progress
  imports Loop_Claims
begin

text \<open>
  The \<open>LoopWorker\<close>'s program comes to an end: every goroutine takes a bounded number of steps,
  and as long as one has not finished, one can take a step without any context expiring.
\<close>

section \<open>Steps left\<close>

text \<open>The steps a goroutine may still take: 13 before it is called or launched, none after.\<close>

fun steps_left :: "pc \<Rightarrow> nat" where
  "steps_left NotStarted = 13"
| "steps_left (StartOnStart h) = 12" | "steps_left (StartUnready h) = 11"
| "steps_left (StartLaunch h) = 10" | "steps_left (StartReady h i) = 9"
| "steps_left (StartMark h i e) = 8" | "steps_left (StartCancel h i e) = 7"
| "steps_left (StartAwait h i e) = 6" | "steps_left (StartDone r) = 0"
| "steps_left (StopCancel c r d i) = 8" | "steps_left (StopAwait c r d) = 7"
| "steps_left (StopRuntime c r) = 6" | "steps_left (StopDone r) = 0"
| "steps_left (HookEnter k) = 5" | "steps_left (HookWait k a) = 4" | "steps_left (HookRun k a) = 4"
| "steps_left (LoopRunning h) = 8" | "steps_left (LoopReturned h err) = 7"
| "steps_left (LoopReport h e) = 6" | "steps_left (LoopCleanup h e x p) = 3"
| "steps_left (LoopFinish x) = 2" | "steps_left (LoopClose x) = 1" | "steps_left (LoopEnded x) = 0"

lemma steps_left_le: "steps_left p \<le> 13"
  by (cases p) simp_all

lemma steps_left_started: "steps_left p < 13 \<longleftrightarrow> p \<noteq> NotStarted"
  by (cases p) simp_all

lemma after_hook_left [simp]: "steps_left (after_hook k r) < 4"
  by (cases k; cases r) (simp_all split: option.split)

lemma after_loop_left: "after_loop h req err = Some p \<Longrightarrow> steps_left p < 7"
  by (auto simp: after_loop_def Let_def split: if_splits option.splits bool.splits)

text \<open>A step takes one from one goroutine, launches at most one, and gives to none; or it crashes
  the process.\<close>

definition advances :: "loop_world \<Rightarrow> loop_world \<Rightarrow> bool" where
  "advances s s' \<longleftrightarrow>
     (\<exists>t. steps_left (lw_pc s' t) < steps_left (lw_pc s t))
     \<and> (\<forall>u. steps_left (lw_pc s' u) \<le> steps_left (lw_pc s u))
     \<and> (\<exists>t i. \<forall>u. u \<noteq> t \<longrightarrow> u \<noteq> i \<longrightarrow> lw_pc s' u = lw_pc s u)"

lemma goto_advances:
  assumes "steps_left p < steps_left (lw_pc s t)" and "lw_pc s1 = lw_pc s"
  shows "advances s (goto t p s1)"
  using assms unfolding advances_def by (auto intro!: exI [of _ t])

lemma launch_advances:
  assumes "steps_left p < steps_left (lw_pc s t)" and "lw_pc s1 = lw_pc s" and "lw_pc s i = NotStarted"
  shows "advances s (goto t p (goto i (LoopRunning h) s1))"
  unfolding advances_def
proof (intro conjI exI allI impI)
  show "steps_left (lw_pc (goto t p (goto i (LoopRunning h) s1)) t) < steps_left (lw_pc s t)"
    using assms(1) by simp
qed (use assms in auto)

lemma step_advances:
  assumes "loop_step crashes s s'"
  shows "\<not> lw_crashed s \<and> (advances s s' \<or> lw_crashed s' \<and> lw_pc s' = lw_pc s)"
  using assms
proof cases
  case (start_launch t h i)
  then show ?thesis
    using launch_advances [of "if lw_autoReady s then StartReady h i else StartDone (Returns None)" s t
        "(LoopWorker_finishStart h i s)\<lparr>lw_dirty := True\<rparr>" i h] by simp
next
  case (loop_classified t h err req s1 p)
  then show ?thesis
    using goto_advances [of p s t s1] after_loop_left [OF loop_classified(5)]
      section_pcs(4) [OF loop_classified(4)] by simp
next
  case (loop_cleanup_reported t h e x panicked)
  then show ?thesis by (auto simp: Let_def crash_def emit_def intro!: goto_advances)
next
  case (hook_joined t k a)
  then show ?thesis using goto_advances [OF _ refl, of _ s t] after_hook_left by simp
next
  case (hook_gave_up t k a e)
  then show ?thesis using goto_advances [OF _ refl, of _ s t] after_hook_left by simp
next
  case (hook_ok t k a)
  then show ?thesis using goto_advances [of _ s t] after_hook_left by simp
next
  case (hook_failed t k a e x)
  then show ?thesis using goto_advances [of _ s t] after_hook_left by simp
next
  case (hook_panicked t k a)
  then show ?thesis using goto_advances [of _ s t] after_hook_left by simp
qed (auto simp: crash_def emit_def intro!: goto_advances dest: section_pcs split: if_splits)


section \<open>The number of steps\<close>

definition called :: "loop_world \<Rightarrow> nat set" where
  "called s = {t. lw_pc s t \<noteq> NotStarted}"

lemma advances_called:
  assumes "advances s s'"
  shows "called s \<subseteq> called s'" and "finite (called s) \<Longrightarrow> finite (called s')"
    and "\<exists>t \<in> called s'. steps_left (lw_pc s' t) < steps_left (lw_pc s t)"
proof -
  have le: "steps_left (lw_pc s' u) \<le> steps_left (lw_pc s u)" for u
    using assms by (simp add: advances_def)
  show sub: "called s \<subseteq> called s'"
    using le order_le_less_trans by (fastforce simp: called_def steps_left_started [symmetric])
  obtain t i where "\<forall>u. u \<noteq> t \<longrightarrow> u \<noteq> i \<longrightarrow> lw_pc s' u = lw_pc s u"
    using assms by (auto simp: advances_def)
  then have "called s' \<subseteq> insert t (insert i (called s))" by (auto simp: called_def)
  then show "finite (called s) \<Longrightarrow> finite (called s')" by (rule finite_subset) simp
  obtain t where "steps_left (lw_pc s' t) < steps_left (lw_pc s t)" using assms by (auto simp: advances_def)
  moreover from this have "t \<in> called s'"
    using steps_left_le [of "lw_pc s t"] by (simp add: called_def steps_left_started [symmetric])
  ultimately show "\<exists>t \<in> called s'. steps_left (lw_pc s' t) < steps_left (lw_pc s t)" by blast
qed

text \<open>Steps taken and steps left, over any set of goroutines that covers the called ones.\<close>

definition budget :: "nat \<Rightarrow> loop_world \<Rightarrow> bool" where
  "budget n s \<longleftrightarrow> finite (called s)
     \<and> (\<forall>U. finite U \<longrightarrow> called s \<subseteq> U \<longrightarrow>
          n + (\<Sum>u\<in>U. steps_left (lw_pc s u)) \<le> 13 * card U + (if lw_crashed s then 1 else 0))"

lemma budget_step:
  assumes b: "budget n s" and step: "loop_step crashes s s'"
  shows "budget (Suc n) s'"
proof -
  have live: "\<not> lw_crashed s" using step_advances [OF step] by blast
  consider "advances s s'" | "lw_crashed s'" "lw_pc s' = lw_pc s" using step_advances [OF step] by blast
  then show ?thesis
  proof cases
    case 1
    note C = advances_called [OF 1]
    have "Suc n + (\<Sum>u\<in>U. steps_left (lw_pc s' u)) \<le> 13 * card U" if U: "finite U" "called s' \<subseteq> U" for U
    proof -
      have "(\<Sum>u\<in>U. steps_left (lw_pc s' u)) < (\<Sum>u\<in>U. steps_left (lw_pc s u))"
        by (rule sum_strict_mono_ex1 [OF U(1)]) (use 1 C(3) U(2) in \<open>auto simp: advances_def\<close>)
      moreover have "n + (\<Sum>u\<in>U. steps_left (lw_pc s u)) \<le> 13 * card U"
        using b U C(1) live by (fastforce simp: budget_def)
      ultimately show ?thesis by simp
    qed
    moreover have "finite (called s')" using b C(2) by (simp add: budget_def)
    ultimately show ?thesis unfolding budget_def by (simp add: trans_le_add1)
  next
    case 2
    then show ?thesis using b live unfolding budget_def called_def by simp
  qed
qed

lemma run_budget: "(loop_step crashes ^^ n) (new_world loop opts) s \<Longrightarrow> budget n s"
proof (induction n arbitrary: s)
  case 0
  then have "s = new_world loop opts" by simp
  then show ?case by (simp add: budget_def called_def new_world_def LoopWorker.extend_def)
next
  case (Suc n)
  then show ?case by (meson budget_step relpowp_Suc_E)
qed

lemma run_reachable:
  "(loop_step crashes ^^ n) (new_world loop opts) s \<Longrightarrow> loop_reachable crashes loop opts s"
proof (induction n arbitrary: s)
  case 0
  then have "s = new_world loop opts" by simp
  then show ?case by (simp add: loop_reachable.new)
next
  case (Suc n)
  then show ?case by (meson loop_reachable.step relpowp_Suc_E)
qed

lemma run_steps_bounded:
  assumes "(loop_step crashes ^^ n) (new_world loop opts) s"
  shows "finite (called s)" and "n \<le> 13 * card (called s) + 1"
proof -
  have "budget n s" by (rule run_budget [OF assms])
  then show "finite (called s)" by (simp add: budget_def)
  with \<open>budget n s\<close> have "n + (\<Sum>u\<in>called s. steps_left (lw_pc s u)) \<le> 13 * card (called s) + 1"
    unfolding budget_def by (fastforce split: if_splits)
  then show "n \<le> 13 * card (called s) + 1" by simp
qed


section \<open>Somebody can always move\<close>

text \<open>A goroutine that is blocked until another one acts, or its context ends.\<close>

fun must_wait :: "loop_world \<Rightarrow> pc \<Rightarrow> bool" where
  "must_wait s (StartAwait h i e) = (i \<notin> set (lw_closed s))"
| "must_wait s (StopAwait c r d) = (d \<notin> set (lw_closed s))"
| "must_wait s (HookWait k a) = (\<not> fst (lw_attempts s ! a))"
| "must_wait s p = False"

text \<open>A goroutine that can take its next step, or brings the process down.\<close>

definition can_move :: "(string \<Rightarrow> bool) \<Rightarrow> loop_world \<Rightarrow> nat \<Rightarrow> bool" where
  "can_move crashes s t \<longleftrightarrow>
     (\<exists>s'. loop_step crashes s s'
       \<and> (steps_left (lw_pc s' t) < steps_left (lw_pc s t) \<or> lw_crashed s'))"

lemma can_moveI:
  "loop_step crashes s (goto t p s1) \<Longrightarrow> steps_left p < steps_left (lw_pc s t) \<Longrightarrow> can_move crashes s t"
  unfolding can_move_def by (intro exI [of _ "goto t p s1"]) simp

lemma can_crashI: "loop_step crashes s (crash s1) \<Longrightarrow> can_move crashes s t"
  unfolding can_move_def by (intro exI [of _ "crash s1"]) (simp add: crash_def)

text \<open>The steps of each phase.\<close>

lemma start_moves:
  assumes "\<not> lw_crashed s" and "finite (called s)" and "lw_pc s t = p" and "in_start p"
    and "\<not> must_wait s p" and "\<And>k. p \<noteq> HookEnter k" and "\<And>k a. p \<noteq> HookWait k a" and "\<And>k a. p \<noteq> HookRun k a"
  shows "can_move crashes s t"
proof (cases p)
  case (StartOnStart h)
  then show ?thesis using assms can_moveI [OF loop_step.start_hook_ok [OF assms(1)]] by simp
next
  case (StartUnready h)
  then show ?thesis
    using assms can_moveI [OF loop_step.start_unready_skipped [OF assms(1)]]
      can_moveI [OF loop_step.start_unready_ok [OF assms(1)]] by (cases "lw_autoReady s") simp_all
next
  case (StartLaunch h)
  obtain i where "i \<notin> called s" using ex_new_if_finite [OF infinite_UNIV_nat assms(2)] by blast
  then have "lw_pc s i = NotStarted" by (simp add: called_def)
  then show ?thesis using assms StartLaunch can_moveI [OF loop_step.start_launch [OF assms(1)], of t h i] by simp
next
  case (StartReady h i)
  then show ?thesis using assms can_moveI [OF loop_step.start_ready_ok [OF assms(1)]] by simp
next
  case (StartMark h i e)
  then show ?thesis using assms can_moveI [OF loop_step.start_mark [OF assms(1)]] by simp
next
  case (StartCancel h i e)
  then show ?thesis using assms can_moveI [OF loop_step.start_cancel [OF assms(1)]] by simp
next
  case (StartAwait h i e)
  then show ?thesis using assms can_moveI [OF loop_step.start_exited [OF assms(1)]] by simp
qed (use assms in auto)

lemma stop_moves:
  assumes "\<not> lw_crashed s" and "lw_pc s t = p" and "in_stop p"
    and "\<not> must_wait s p" and "\<And>k. p \<noteq> HookEnter k" and "\<And>k a. p \<noteq> HookWait k a" and "\<And>k a. p \<noteq> HookRun k a"
  shows "can_move crashes s t"
proof (cases p)
  case (StopCancel c r d i)
  then show ?thesis using assms can_moveI [OF loop_step.stop_cancel [OF assms(1)]] by simp
next
  case (StopAwait c r d)
  then show ?thesis using assms can_moveI [OF loop_step.stop_exited [OF assms(1)]] by simp
next
  case (StopRuntime c r)
  show ?thesis
  proof (cases "case r of None \<Rightarrow> c | Some h \<Rightarrow> r")
    case None
    then have "c = None" "r = None" by (simp_all split: option.splits)
    then show ?thesis
      using assms StopRuntime can_moveI [OF loop_step.stop_no_handle [OF assms(1)]] by simp
  next
    case (Some h)
    then show ?thesis
      using assms StopRuntime can_moveI [OF loop_step.stop_handle [OF assms(1) _ Some]] by simp
  qed
qed (use assms in auto)

lemma loop_moves:
  assumes "\<not> lw_crashed s" and "lw_pc s t = p" and "is_loop p"
    and "\<And>y. p \<noteq> LoopEnded y" and "\<And>k. p \<noteq> HookEnter k" and "\<And>k a. p \<noteq> HookWait k a" and "\<And>k a. p \<noteq> HookRun k a"
  shows "can_move crashes s t"
proof (cases p)
  case (LoopRunning h)
  show ?thesis
    by (rule can_moveI, rule loop_step.loop_returned [OF assms(1), where t = t and h = h and err = None])
       (use assms LoopRunning in simp_all)
next
  case (LoopReturned h err)
  obtain req s1 where ex: "LoopWorker_loopExited t (t \<in> set (lw_cancelled s)) s = (req, s1)" by fastforce
  show ?thesis
  proof (cases "after_loop h req err")
    case None
    show ?thesis
      by (rule can_crashI, rule loop_step.loop_unclassified [OF assms(1) _ ex None])
         (use assms LoopReturned in simp)
  next
    case (Some q)
    show ?thesis
      by (rule can_moveI, rule loop_step.loop_classified [OF assms(1) _ ex Some])
         (use assms LoopReturned after_loop_left [OF Some] in simp_all)
  qed
next
  case (LoopReport h e)
  then show ?thesis using assms can_moveI [OF loop_step.loop_reported [OF assms(1)]] by simp
next
  case (LoopCleanup h e x panicked)
  then have "loop_step crashes s
      (let s1 = emit (LoopCleanupFailed (fst h) (Some x) panicked) s
       in if panicked \<and> crashes (fst h) then crash s1 else goto t (LoopFinish (Some (h, e))) s1)"
    using assms by (intro loop_step.loop_cleanup_reported) simp_all
  then show ?thesis
    using assms LoopCleanup can_crashI can_moveI by (auto simp: Let_def split: if_splits)
next
  case (LoopFinish y)
  then show ?thesis using assms can_moveI [OF loop_step.loop_finished [OF assms(1)]] by simp
next
  case (LoopClose y)
  then show ?thesis using assms can_moveI [OF loop_step.loop_closed [OF assms(1)]] by simp
qed (use assms in auto)

lemma hook_moves:
  assumes "\<not> lw_crashed s" and "hooks_ok s"
  shows "lw_pc s t = HookEnter k \<Longrightarrow> can_move crashes s t"
    and "lw_pc s t = HookRun k a \<Longrightarrow> can_move crashes s t"
    and "lw_pc s t = HookWait k a \<Longrightarrow> fst (lw_attempts s ! a) \<Longrightarrow> can_move crashes s t"
proof -
  obtain y b s1 where h: "LoopWorker_beginStopHook s = ((y, b), s1)" by (cases "LoopWorker_beginStopHook s") auto
  then obtain a' where "y = Some a'"
    using hooks_okD(5) [OF assms(2)] by (auto simp: LoopWorker_beginStopHook_def Let_def split: if_splits)
  with h show "lw_pc s t = HookEnter k \<Longrightarrow> can_move crashes s t"
    using can_moveI [OF loop_step.hook_entered [OF assms(1)], of t k a' b s1] by (cases b) simp_all
  show "lw_pc s t = HookRun k a \<Longrightarrow> can_move crashes s t"
    using can_moveI [OF loop_step.hook_ok [OF assms(1)], of t k a] after_hook_left [of k "Returns None"] by simp
  show "lw_pc s t = HookWait k a \<Longrightarrow> fst (lw_attempts s ! a) \<Longrightarrow> can_move crashes s t"
    using can_moveI [OF loop_step.hook_joined [OF assms(1)], of t k a]
      after_hook_left [of k "Returns (snd (lw_attempts s ! a))"] by simp
qed


lemma unblocked_moves:
  assumes live: "\<not> lw_crashed s" and inv: "loop_inv s" and fin: "finite (called s)"
    and t: "t \<in> called s" "0 < steps_left (lw_pc s t)" "\<not> must_wait s (lw_pc s t)"
  shows "can_move crashes s t"
proof -
  note H = hook_moves [OF live loop_inv_parts(3) [OF inv], of t]
  have hooks: ?thesis if "lw_pc s t = HookEnter k \<or> lw_pc s t = HookWait k a \<or> lw_pc s t = HookRun k a" for k a
    using that H t(3) by auto
  consider "in_start (lw_pc s t)" | "in_stop (lw_pc s t)" | "is_loop (lw_pc s t)"
    using t by (cases "lw_pc s t"; cases "case lw_pc s t of HookEnter k \<Rightarrow> k | HookWait k a \<Rightarrow> k | HookRun k a \<Rightarrow> k")
       (auto simp: called_def)
  then show ?thesis
  proof cases
    case 1
    then show ?thesis using start_moves [OF live fin refl _ t(3)] hooks by blast
  next
    case 2
    then show ?thesis using stop_moves [OF live refl _ t(3)] hooks by blast
  next
    case 3
    then show ?thesis using loop_moves [OF live refl] hooks t(2) by fastforce
  qed
qed

text \<open>Who a blocked goroutine waits for is not blocked, or waits for one that is not.\<close>

lemma running_hook:
  assumes "loop_inv s" and "lw_pc s t = HookWait k a" and "\<not> fst (lw_attempts s ! a)"
  shows "\<exists>u. \<exists>k' a'. lw_pc s u = HookRun k' a'"
proof -
  note H = hooks_okD [OF loop_inv_parts(3) [OF assms(1)]]
  have "lw_stopHookRunning s" using H(7) [of t a] assms(2,3) by simp
  then obtain u where "hooking (lw_pc s u) \<noteq> None" using H(2) by blast
  then show ?thesis by (cases "lw_pc s u") auto
qed

lemma somebody_unblocked:
  assumes reach: "loop_reachable crashes loop opts s" and "t \<in> called s" and "0 < steps_left (lw_pc s t)"
  shows "\<exists>u \<in> called s. 0 < steps_left (lw_pc s u) \<and> \<not> must_wait s (lw_pc s u)"
proof -
  have inv: "loop_inv s" by (rule loop_reachable_inv [OF reach])
  have hook: ?thesis if "lw_pc s v = HookWait k a" "must_wait s (lw_pc s v)" for v k a
  proof -
    note w = that
    obtain u k' a' where "lw_pc s u = HookRun k' a'" using running_hook [OF inv, of v k a] w by auto
    then show ?thesis by (intro bexI [of _ u]) (simp_all add: called_def)
  qed
  have loop: ?thesis if d: "awaits (lw_pc s t) = Some d" "d \<notin> set (lw_closed s)" for d
  proof -
    have l: "is_loop (lw_pc s d)" by (rule awaited_is_loop [OF reach d(1)])
    have "\<not> ended (lw_pc s d)" using loops_okD(7) [OF loop_inv_parts(1) [OF inv]] d(2) by blast
    with l have "d \<in> called s" "0 < steps_left (lw_pc s d)"
      by (auto simp: called_def intro: gr0I elim!: steps_left.elims)
    moreover have "\<exists>k a. lw_pc s d = HookWait k a" if "must_wait s (lw_pc s d)"
      using that l by (cases "lw_pc s d") auto
    ultimately show ?thesis using hook by blast
  qed
  show ?thesis
  proof (cases "must_wait s (lw_pc s t)")
    case True
    then show ?thesis using hook loop by (cases "lw_pc s t") auto
  qed (use assms in blast)
qed

section \<open>The property\<close>

text \<open>C17: every call of \<open>Start\<close> and \<open>Stop\<close> and every loop comes to an end. In a run of the
  program, crashing or not, each goroutine takes at most 13 steps, one more step being the crash;
  and in every state in which a goroutine has not finished, some goroutine can take a step that
  is not a context giving up: nothing waits in a cycle, for a loop that has been forgotten, or
  for a cleanup attempt that nobody is making.\<close>

theorem loop_worker_finishes:
  assumes "(loop_step crashes ^^ n) (new_world loop opts) s"
  shows "finite (called s) \<and> n \<le> 13 * card (called s) + 1
    \<and> (\<not> lw_crashed s \<and> t \<in> called s \<and> 0 < steps_left (lw_pc s t) \<longrightarrow>
        (\<exists>u \<in> called s. \<not> must_wait s (lw_pc s u) \<and> can_move crashes s u))"
proof -
  note bounded = run_steps_bounded [OF assms]
  have reach: "loop_reachable crashes loop opts s" by (rule run_reachable [OF assms])
  have "\<exists>u \<in> called s. \<not> must_wait s (lw_pc s u) \<and> can_move crashes s u"
    if "\<not> lw_crashed s" "t \<in> called s" "0 < steps_left (lw_pc s t)"
    using somebody_unblocked [OF reach that(2,3)]
      unblocked_moves [OF that(1) loop_reachable_inv [OF reach] bounded(1)] by blast
  with bounded show ?thesis by blast
qed

lemma loop_reachable_run:
  "loop_reachable crashes loop opts s \<Longrightarrow> \<exists>n. (loop_step crashes ^^ n) (new_world loop opts) s"
proof (induction rule: loop_reachable.induct)
  case new
  then show ?case by (intro exI [of _ 0]) simp
next
  case (step s s')
  then show ?case by (meson relpowp_Suc_I)
qed

theorem loop_worker_finishes_witness:
  "\<exists>u \<in> called ex_l6. \<not> must_wait ex_l6 (lw_pc ex_l6 u) \<and> can_move (\<lambda>_. False) ex_l6 u"
proof -
  obtain n where "(loop_step (\<lambda>_. False) ^^ n) (new_world True []) ex_l6"
    using loop_reachable_run [OF ex_run(2)] by blast
  from loop_worker_finishes [OF this, of 2] show ?thesis
    by (simp add: called_def ex_l_defs ex_l_ops)
qed

end
