(* ===== verification/Float64.thy ===== *)
theory Float64
  imports Complex_Main
begin

text \<open>
  The part of Go's \<open>float64\<close> that package \<open>retry\<close> uses: IEEE 754 binary64 with rounding to
  nearest, ties to even. A finite value is the rational number it denotes; the two zeros are one,
  which the code cannot tell apart, because it never divides. The definitions compute.
\<close>

section \<open>Values and rounding\<close>

datatype float64 = NaN | Inf bool | Fin rat

text \<open>The sign of an infinity is whether it is negative.\<close>

definition rne :: "rat \<Rightarrow> int" where
  "rne x = (let n = \<lfloor>x\<rfloor>; d = x - of_int n
     in if d < 1 / 2 then n else if d > 1 / 2 then n + 1 else if even n then n else n + 1)"

text \<open>The exponent of the last bit of a 53-bit significand that reaches \<open>x\<close>, bounded below by the
  subnormals; there is none when \<open>x\<close> is too big.\<close>

definition exponents :: "int list" where
  "exponents = [- 1074..971]"

definition quantum :: "rat \<Rightarrow> int option" where
  "quantum x = find (\<lambda>e. \<bar>x\<bar> < 2 powi (e + 53)) exponents"

definition rnd :: "int \<Rightarrow> rat \<Rightarrow> rat" where
  "rnd e x = of_int (rne (x / 2 powi e)) * 2 powi e"

definition fl :: "rat \<Rightarrow> float64" where
  "fl x = (case quantum x of
     None \<Rightarrow> Inf (x < 0)
   | Some e \<Rightarrow> if \<bar>rnd e x\<bar> < 2 powi 1024 then Fin (rnd e x) else Inf (x < 0))"

section \<open>Operations\<close>

definition float_of_int :: "int \<Rightarrow> float64" where
  "float_of_int n = fl (of_int n)"

fun fmul :: "float64 \<Rightarrow> float64 \<Rightarrow> float64" where
  "fmul (Fin a) (Fin b) = fl (a * b)"
| "fmul NaN y = NaN"
| "fmul x NaN = NaN"
| "fmul (Inf s) (Inf t) = Inf (s \<noteq> t)"
| "fmul (Inf s) (Fin b) = (if b = 0 then NaN else Inf (s \<noteq> (b < 0)))"
| "fmul (Fin a) (Inf t) = (if a = 0 then NaN else Inf ((a < 0) \<noteq> t))"

fun fadd :: "float64 \<Rightarrow> float64 \<Rightarrow> float64" where
  "fadd (Fin a) (Fin b) = fl (a + b)"
| "fadd NaN y = NaN"
| "fadd x NaN = NaN"
| "fadd (Inf s) (Inf t) = (if s = t then Inf s else NaN)"
| "fadd (Inf s) (Fin b) = Inf s"
| "fadd (Fin a) (Inf t) = Inf t"

fun fneg :: "float64 \<Rightarrow> float64" where
  "fneg NaN = NaN"
| "fneg (Inf s) = Inf (\<not> s)"
| "fneg (Fin a) = Fin (- a)"

definition fsub :: "float64 \<Rightarrow> float64 \<Rightarrow> float64" where
  "fsub x y = fadd x (fneg y)"

text \<open>\<open>x * y + z\<close>, which a Go compiler may fuse into one operation with one rounding.\<close>

definition fmuladd :: "bool \<Rightarrow> float64 \<Rightarrow> float64 \<Rightarrow> float64 \<Rightarrow> float64" where
  "fmuladd fused x y z =
     (case (x, y, z) of
        (Fin a, Fin b, Fin c) \<Rightarrow> if fused then fl (a * b + c) else fadd (fmul x y) z
      | _ \<Rightarrow> fadd (fmul x y) z)"

fun fless :: "float64 \<Rightarrow> float64 \<Rightarrow> bool" where
  "fless (Fin a) (Fin b) \<longleftrightarrow> a < b"
| "fless NaN y \<longleftrightarrow> False"
| "fless x NaN \<longleftrightarrow> False"
| "fless (Inf s) (Inf t) \<longleftrightarrow> s \<and> \<not> t"
| "fless (Inf s) (Fin b) \<longleftrightarrow> s"
| "fless (Fin a) (Inf t) \<longleftrightarrow> \<not> t"

fun fle :: "float64 \<Rightarrow> float64 \<Rightarrow> bool" where
  "fle (Fin a) (Fin b) \<longleftrightarrow> a \<le> b"
| "fle NaN y \<longleftrightarrow> False"
| "fle x NaN \<longleftrightarrow> False"
| "fle (Inf s) (Inf t) \<longleftrightarrow> s \<or> \<not> t"
| "fle (Inf s) (Fin b) \<longleftrightarrow> s"
| "fle (Fin a) (Inf t) \<longleftrightarrow> \<not> t"

fun IsNaN :: "float64 \<Rightarrow> bool" where
  "IsNaN NaN = True" | "IsNaN _ = False"

text \<open>\<open>math.IsInf(x, 0)\<close>: either infinity.\<close>

fun IsInf :: "float64 \<Rightarrow> bool" where
  "IsInf (Inf _) = True" | "IsInf _ = False"

text \<open>Conversion to \<open>int64\<close> discards the fraction; out of range, its value depends on the
  implementation (\<open>wild\<close>).\<close>

definition truncate :: "rat \<Rightarrow> int" where
  "truncate q = (if q < 0 then \<lceil>q\<rceil> else \<lfloor>q\<rfloor>)"

definition int64_of_float :: "(float64 \<Rightarrow> int) \<Rightarrow> float64 \<Rightarrow> int" where
  "int64_of_float wild x =
     (case x of
        Fin q \<Rightarrow> if - (2 ^ 63) \<le> truncate q \<and> truncate q < 2 ^ 63 then truncate q else wild x
      | _ \<Rightarrow> wild x)"

section \<open>Rounding to an integer\<close>

lemma rne_of_int [simp]: "rne (of_int n) = n"
  by (simp add: rne_def)

lemma rne_floor: "\<lfloor>x\<rfloor> \<le> rne x" "rne x \<le> \<lfloor>x\<rfloor> + 1"
  by (simp_all add: rne_def Let_def)

lemma rne_near: "\<bar>of_int (rne x) - x\<bar> \<le> 1 / 2"
  using floor_correct [of x] unfolding rne_def Let_def abs_if
  by (cases "x - of_int \<lfloor>x\<rfloor> < 1 / 2"; cases "1 / 2 < x - of_int \<lfloor>x\<rfloor>"; simp; linarith)

lemma rne_mono:
  assumes "x \<le> y"
  shows "rne x \<le> rne y"
proof (cases "\<lfloor>x\<rfloor> = \<lfloor>y\<rfloor>")
  case True
  with assms show ?thesis by (auto simp: rne_def Let_def)
next
  case False
  with floor_mono [OF assms] have "\<lfloor>x\<rfloor> + 1 \<le> \<lfloor>y\<rfloor>" by linarith
  with rne_floor [of x] rne_floor [of y] show ?thesis by linarith
qed

section \<open>Rounding at a quantum\<close>

lemma powi_pos [simp]: "0 < (2 :: rat) powi e"
  by (simp add: zero_less_power_int)

lemma powi_le: "d \<le> e \<Longrightarrow> (2 :: rat) powi d \<le> 2 powi e"
  by (rule power_int_increasing) simp_all

lemma powi_split: "(2 :: rat) powi (e + d) = 2 powi e * 2 powi d"
  by (simp add: power_int_add)

lemma rnd_mono: "x \<le> y \<Longrightarrow> rnd e x \<le> rnd e y"
  unfolding rnd_def by (intro mult_right_mono) (simp_all add: rne_mono divide_right_mono less_imp_le)

lemma rnd_multiple [simp]: "rnd e (of_int m * 2 powi e) = of_int m * 2 powi e"
proof -
  have "of_int m * 2 powi e / 2 powi e = (of_int m :: rat)" using powi_pos [of e] by simp
  then show ?thesis by (simp add: rnd_def)
qed

lemma rnd_zero [simp]: "rnd e 0 = 0"
  using rnd_multiple [of e 0] by simp

lemma powi_multiple:
  assumes "d \<le> e"
  obtains m where "(2 :: rat) powi e = of_int m * 2 powi d"
proof
  have "(2 :: rat) powi e = 2 powi (e - d) * 2 powi d" using powi_split [of "e - d" d] by simp
  also have "2 powi (e - d) = (of_int (2 ^ nat (e - d)) :: rat)"
    using assms by (simp add: power_int_def)
  finally show "(2 :: rat) powi e = of_int (2 ^ nat (e - d)) * 2 powi d" .
qed

lemma rnd_powi [simp]: "d \<le> e \<Longrightarrow> rnd d (2 powi e) = 2 powi e"
  by (metis powi_multiple rnd_multiple)

lemma rnd_near: "\<bar>rnd e x - x\<bar> \<le> 2 powi e / 2"
proof -
  have "rnd e x - x = (of_int (rne (x / 2 powi e)) - x / 2 powi e) * 2 powi e"
    using powi_pos [of e] by (simp add: rnd_def algebra_simps)
  then have "\<bar>rnd e x - x\<bar> = \<bar>of_int (rne (x / 2 powi e)) - x / 2 powi e\<bar> * 2 powi e"
    by (simp add: abs_mult)
  also have "\<dots> \<le> 1 / 2 * 2 powi e" by (intro mult_right_mono rne_near) (simp add: less_imp_le)
  finally show ?thesis by simp
qed

section \<open>Rounding a number\<close>

lemma find_least:
  "find P [a..b] = Some e \<Longrightarrow> a \<le> e \<and> e \<le> b \<and> P e \<and> (\<forall>d. a \<le> d \<longrightarrow> d < e \<longrightarrow> \<not> P d)"
proof (induction a b rule: upto.induct)
  case (1 i j)
  show ?case
  proof (cases "i \<le> j")
    case False
    with "1.prems" show ?thesis by simp
  next
    case True
    show ?thesis
    proof (cases "P i")
      case True
      with "1.prems" \<open>i \<le> j\<close> show ?thesis by (simp add: upto_rec1)
    next
      case nP: False
      with "1.prems" True have "find P [i + 1..j] = Some e" by (simp add: upto_rec1)
      from "1.IH" [OF True this] nP show ?thesis
        by (metis add1_zle_eq dual_order.trans less_le_not_le order_less_le zless_add1_eq)
    qed
  qed
qed

lemma quantum_SomeD:
  assumes "quantum x = Some e"
  shows "- 1074 \<le> e" "e \<le> 971" "\<bar>x\<bar> < 2 powi (e + 53)"
    and "e \<noteq> - 1074 \<Longrightarrow> 2 powi (e + 52) \<le> \<bar>x\<bar>"
proof -
  note l = find_least [OF assms [unfolded quantum_def exponents_def]]
  show "- 1074 \<le> e" "e \<le> 971" "\<bar>x\<bar> < 2 powi (e + 53)" using l by simp_all
  assume "e \<noteq> - 1074"
  with l have "\<not> \<bar>x\<bar> < 2 powi (e - 1 + 53)" by (metis diff_less_eq less_add_one order_less_le zle_diff1_eq zless_imp_add1_zle)
  moreover have "e - 1 + 53 = e + 52" by simp
  ultimately show "2 powi (e + 52) \<le> \<bar>x\<bar>" by (simp only: not_less)
qed

lemma quantum_defined:
  assumes "\<bar>x\<bar> < 2 powi (e + 53)" and "- 1074 \<le> e" and "e \<le> 971"
  obtains d where "quantum x = Some d" "d \<le> e"
proof (cases "quantum x")
  case None
  moreover have "e \<in> set exponents" using assms(2,3) unfolding exponents_def set_upto by simp
  ultimately show thesis using assms(1) by (auto simp: quantum_def find_None_iff)
next
  case (Some d)
  with find_least [OF Some [unfolded quantum_def exponents_def]] assms have "d \<le> e" by (meson not_le)
  with Some that show thesis by blast
qed

lemma abs_of_int_le: "\<bar>m\<bar> \<le> 2 ^ k \<Longrightarrow> \<bar>of_int m :: rat\<bar> \<le> 2 ^ k"
  by (metis of_int_abs of_int_le_iff of_int_numeral of_int_power)

lemma fl_Fin:
  assumes "fl x = Fin a"
  obtains e where "quantum x = Some e" "a = rnd e x" "\<bar>a\<bar> < 2 powi 1024"
  using assms by (auto simp: fl_def split: option.splits if_splits)

text \<open>A multiple of a quantum with at most 53 bits is represented exactly.\<close>

lemma fl_multiple:
  assumes "\<bar>m\<bar> \<le> 2 ^ 53" and "- 1074 \<le> e" and "\<bar>of_int m * 2 powi e\<bar> < (2 :: rat) powi 1024"
  shows "fl (of_int m * 2 powi e) = Fin (of_int m * 2 powi e)"
proof -
  let ?a = "of_int m * 2 powi e :: rat"
  obtain d where d: "quantum ?a = Some d"
    using quantum_defined [of ?a 971] assms(3) by auto
  have "rnd d ?a = ?a"
  proof (cases "d \<le> e")
    case True
    obtain k where "(2 :: rat) powi e = of_int k * 2 powi d" using powi_multiple [OF True] .
    then have "?a = of_int (m * k) * 2 powi d" by simp
    then show ?thesis by (metis rnd_multiple)
  next
    case False
    with assms(2) have "d \<noteq> - 1074" by simp
    then have lo: "2 powi (d + 52) \<le> \<bar>?a\<bar>" by (rule quantum_SomeD(4) [OF d])
    have "\<bar>of_int m :: rat\<bar> \<le> 2 powi 53"
      using abs_of_int_le [OF assms(1)] by (simp add: power_int_def)
    then have "\<bar>?a\<bar> \<le> 2 powi 53 * 2 powi e" by (simp add: abs_mult)
    also have "\<dots> = 2 powi (e + 53)" by (simp add: powi_split)
    also have "\<dots> \<le> 2 powi (d + 52)" using False by (intro powi_le) simp
    finally have "\<bar>?a\<bar> = 2 powi (d + 52)" using lo by simp
    also have "\<dots> = of_int (2 ^ 52) * 2 powi d" by (simp add: powi_split)
    finally have "?a = of_int (2 ^ 52) * 2 powi d \<or> ?a = of_int (- (2 ^ 52)) * 2 powi d"
      by (auto simp: abs_if split: if_splits)
    then show ?thesis by (metis rnd_multiple)
  qed
  with d assms(3) show ?thesis by (simp add: fl_def)
qed

lemma float_of_int_exact:
  assumes "\<bar>n\<bar> \<le> 2 ^ 53"
  shows "float_of_int n = Fin (of_int n)"
proof -
  have "\<bar>of_int n :: rat\<bar> \<le> 2 ^ 53"
    by (rule abs_of_int_le [OF assms])
  also have "\<dots> < 2 powi 1024" by (simp add: power_int_def)
  finally show ?thesis using fl_multiple [of n 0] assms by (simp add: float_of_int_def)
qed

text \<open>Rounding is monotone.\<close>

lemma fl_mono:
  assumes "0 \<le> x" and "x \<le> y" and "fl y = Fin b"
  obtains a where "fl x = Fin a" "0 \<le> a" "a \<le> b"
proof -
  obtain f where f: "quantum y = Some f" "b = rnd f y" "\<bar>b\<bar> < 2 powi 1024" using fl_Fin [OF assms(3)] .
  have "\<bar>x\<bar> < 2 powi (f + 53)" using quantum_SomeD(3) [OF f(1)] assms by simp
  then obtain e where e: "quantum x = Some e" "e \<le> f"
    using quantum_defined [of x f] quantum_SomeD [OF f(1)] by metis
  have "rnd e x \<le> b"
  proof (cases "e = f")
    case True
    then show ?thesis using rnd_mono [OF assms(2), of f] f(2) by simp
  next
    case False
    with e(2) quantum_SomeD(1) [OF e(1)] have "f \<noteq> - 1074" by simp
    then have "2 powi (f + 52) \<le> y" using quantum_SomeD(4) [OF f(1)] assms by simp
    then have b: "2 powi (f + 52) \<le> b" using rnd_mono [of _ y f] f(2) rnd_powi [of f "f + 52"] by fastforce
    have "x \<le> 2 powi (e + 53)" using quantum_SomeD(3) [OF e(1)] assms(1) by simp
    then have "rnd e x \<le> 2 powi (e + 53)" using rnd_mono [of x _ e] rnd_powi [of e "e + 53"] by fastforce
    also have "\<dots> \<le> 2 powi (f + 52)" using False e(2) by (intro powi_le) simp
    finally show ?thesis using b by simp
  qed
  moreover have "0 \<le> rnd e x" using rnd_mono [OF assms(1), of e] by simp
  ultimately show thesis using e(1) f(3) by (intro that [of "rnd e x"]) (simp_all add: fl_def)
qed

lemma fl_int_below:
  assumes "\<bar>n\<bar> \<le> 2 ^ 53" and "0 \<le> n" and "of_int n \<le> x" and "fl x = Fin a"
  shows "of_int n \<le> a"
  using fl_mono [of "of_int n" x a] assms float_of_int_exact [of n] by (auto simp: float_of_int_def)

lemma fl_int_above:
  assumes "\<bar>n\<bar> \<le> 2 ^ 53" and "0 \<le> x" and "x \<le> of_int n"
  obtains a where "fl x = Fin a" "0 \<le> a" "a \<le> of_int n"
  using fl_mono [of x "of_int n" "of_int n"] assms float_of_int_exact [of n]
  by (auto simp: float_of_int_def)

text \<open>The results of rounding are its fixed points.\<close>

lemma fl_idem:
  assumes "0 \<le> x" and "fl x = Fin a"
  shows "fl a = Fin a"
proof -
  obtain e where e: "quantum x = Some e" "a = rnd e x" "\<bar>a\<bar> < 2 powi 1024" using fl_Fin [OF assms(2)] .
  let ?m = "rne (x / 2 powi e)"
  have "x / 2 powi e \<le> of_int (2 ^ 53)"
    using quantum_SomeD(3) [OF e(1)] assms(1) by (simp add: powi_split divide_le_eq mult.commute)
  then have "?m \<le> 2 ^ 53" using rne_mono rne_of_int by metis
  moreover have "0 \<le> ?m" using rne_mono [of 0 "x / 2 powi e"] rne_of_int [of 0] assms(1)
    by (simp add: less_imp_le)
  ultimately have "\<bar>?m\<bar> \<le> 2 ^ 53" by simp
  then show ?thesis
    using fl_multiple [of ?m e] quantum_SomeD(1) [OF e(1)] e(2,3) by (simp add: rnd_def)
qed

text \<open>A representable number below the rounding of \<open>y\<close> is not above \<open>y\<close>.\<close>

lemma below_fl:
  assumes "fl a = Fin a" and "0 \<le> a" and "0 \<le> y" and "\<not> fle (fl y) (Fin a)"
  shows "a \<le> y"
proof (rule ccontr)
  assume "\<not> a \<le> y"
  then obtain b where "fl y = Fin b" "b \<le> a" using fl_mono [of y a a] assms by (auto simp: not_le)
  with assms(4) show False by simp
qed

end
