(* ===== verification/Retry_Float.thy ===== *)
theory Retry_Float
  imports Retry Float64
begin

text \<open>
  The delays of package \<open>retry\<close> that are computed in \<open>float64\<close>: exponential backoff and the two
  random jitters.

  Arguments stand for what the language leaves open: \<open>wild\<close> is the implementation's value of an
  out-of-range conversion to an integer, \<open>fused\<close> whether the compiler fuses a multiplication with
  an addition, \<open>pow\<close> is \<open>math.Pow\<close>, and \<open>draw\<close> is what the (locked) random source returns in the
  call.
\<close>

section \<open>Exponential backoff\<close>

definition durationFromBackoffFloat :: "(float64 \<Rightarrow> int) \<Rightarrow> float64 \<Rightarrow> duration \<Rightarrow> duration" where
  "durationFromBackoffFloat wild delay limit =
     (if IsInf delay \<or> fle (float_of_int limit) delay then limit
      else if IsNaN delay \<or> fle delay (Fin 0) then 0
      else int64_of_float wild delay)"

definition Exponential ::
  "(float64 \<Rightarrow> int) \<Rightarrow> (float64 \<Rightarrow> float64 \<Rightarrow> float64) \<Rightarrow> duration \<Rightarrow> float64 \<Rightarrow> duration \<Rightarrow> backoff" where
  "Exponential wild pow initial0 multiplier0 max0 =
     (let initial = clampDuration initial0;
          mx = clampDuration max0;
          multiplier = (if IsNaN multiplier0 \<or> fless multiplier0 (Fin 1) then Fin 1 else multiplier0)
      in BackoffFunc (\<lambda>attempt0.
           let attempt = (if attempt0 < 1 then 1 else attempt0)
           in if initial = 0 then 0
              else let limit = (if mx > 0 then mx else maxDuration);
                       factor = pow multiplier (float_of_int (attempt - 1));
                       delay = fmul (float_of_int initial) factor
                   in durationFromBackoffFloat wild delay limit))"

section \<open>Jitters\<close>

definition durationFromFloat :: "(float64 \<Rightarrow> int) \<Rightarrow> float64 \<Rightarrow> duration" where
  "durationFromFloat wild delay =
     (if IsNaN delay \<or> fle delay (Fin 0) then 0
      else if IsInf delay \<or> fle (float_of_int maxDuration) delay then maxDuration
      else int64_of_float wild delay)"

definition FullWithRand :: "(float64 \<Rightarrow> int) \<Rightarrow> float64 \<Rightarrow> jitter" where
  "FullWithRand wild draw = JitterFunc (\<lambda>base0 _.
     let base = clampDuration base0
     in if base = 0 then 0 else durationFromFloat wild (fmul draw (float_of_int base)))"

definition SymmetricWithRand :: "(float64 \<Rightarrow> int) \<Rightarrow> bool \<Rightarrow> float64 \<Rightarrow> float64 \<Rightarrow> jitter" where
  "SymmetricWithRand wild fused fraction0 draw =
     (let fraction1 = (if IsNaN fraction0 \<or> fless fraction0 (Fin 0) then Fin 0 else fraction0);
          fraction = (if fless (Fin 1) fraction1 then Fin 1 else fraction1)
      in JitterFunc (\<lambda>base0 _.
           let base = clampDuration base0
           in if base = 0 then 0
              else let mn = fsub (Fin 1) fraction;
                       mx = fadd (Fin 1) fraction
                   in durationFromFloat wild
                        (fmul (float_of_int base) (fmuladd fused draw (fsub mx mn) mn))))"

text \<open>Without a source of the caller's, \<open>own\<close> is the draw of the jitter's private source.\<close>

definition Full :: "(float64 \<Rightarrow> int) \<Rightarrow> float64 \<Rightarrow> jitter" where
  "Full wild own = FullWithRand wild own"

definition Symmetric :: "(float64 \<Rightarrow> int) \<Rightarrow> bool \<Rightarrow> float64 \<Rightarrow> float64 \<Rightarrow> jitter" where
  "Symmetric wild fused fraction own = SymmetricWithRand wild fused fraction own"

section \<open>Conversions\<close>

lemma float_of_int64:
  assumes "0 \<le> n" and "int64 n"
  obtains a where "float_of_int n = Fin a" "0 \<le> a" "a \<le> 2 ^ 63"
proof -
  have "fl (2 ^ 63) = Fin (2 ^ 63)" using fl_multiple [of 1 63] by (simp add: power_int_def)
  moreover have "of_int n \<le> (2 ^ 63 :: rat)"
    using assms unfolding int64_def by (metis of_int_le_iff of_int_numeral of_int_power order_less_imp_le)
  ultimately show thesis
    using fl_mono [of "of_int n" "2 ^ 63" "2 ^ 63"] assms(1) that by (auto simp: float_of_int_def)
qed

lemma truncate_nonneg [simp]: "0 \<le> q \<Longrightarrow> 0 \<le> truncate q" "0 \<le> q \<Longrightarrow> of_int (truncate q) \<le> q"
  by (simp_all add: truncate_def)

lemma truncate_le: "0 \<le> q \<Longrightarrow> q \<le> of_int n \<Longrightarrow> truncate q \<le> n"
  by (metis floor_mono floor_of_int truncate_def not_less)

lemma truncate_ge: "0 \<le> n \<Longrightarrow> of_int n \<le> q \<Longrightarrow> n \<le> truncate q"
  by (auto simp: truncate_def le_floor_iff dest: order_trans [of 0])

text \<open>The conversion of a result of rounding that is below the rounding of \<open>n\<close> stays in range and
  does not exceed \<open>n\<close>.\<close>

lemma int64_of_below:
  assumes "fl q = Fin q" and "0 \<le> q" and "0 \<le> n" and "int64 n" and "\<not> fle (float_of_int n) (Fin q)"
  shows "int64_of_float wild (Fin q) = truncate q \<and> truncate q \<le> n"
proof -
  have "q \<le> of_int n" using below_fl [of q "of_int n"] assms by (simp add: float_of_int_def)
  then have "truncate q \<le> n" using truncate_le assms(2) by blast
  moreover have "0 \<le> truncate q" using assms(2) by simp
  ultimately show ?thesis using assms(4) by (simp add: int64_of_float_def int64_def)
qed

lemma int64_maxDuration [simp]: "int64 maxDuration" "0 \<le> maxDuration"
  by (simp_all add: maxDuration_def int64_def)

text \<open>Both conversions to a duration give a value between zero and the cap, and neither ever
  converts a value that does not fit.\<close>

definition rounded :: "float64 \<Rightarrow> bool" where
  "rounded x \<longleftrightarrow> (case x of Fin q \<Rightarrow> 0 \<le> q \<longrightarrow> fl q = Fin q | _ \<Rightarrow> True)"

lemma durationFromBackoffFloat_range:
  assumes "rounded x" and "0 \<le> limit" and "int64 limit"
  shows "0 \<le> durationFromBackoffFloat wild x limit \<and> durationFromBackoffFloat wild x limit \<le> limit
    \<and> durationFromBackoffFloat wild x limit = durationFromBackoffFloat wild' x limit"
proof (cases x)
  case (Fin q)
  show ?thesis
  proof (cases "fle (float_of_int limit) x \<or> q \<le> 0")
    case True
    then show ?thesis using assms(2) Fin by (auto simp: durationFromBackoffFloat_def)
  next
    case False
    with Fin assms have q: "fl q = Fin q" "0 \<le> q" "\<not> fle (float_of_int limit) (Fin q)"
      by (simp_all add: rounded_def)
    from int64_of_below [OF q(1,2) assms(2,3) q(3)] q(2) False Fin show ?thesis
      by (simp add: durationFromBackoffFloat_def)
  qed
qed (use assms in \<open>auto simp: durationFromBackoffFloat_def\<close>)


lemma rounded_fl [simp]: "rounded (fl x)"
proof (cases "fl x")
  case (Fin a)
  have "fl a = Fin a" if "0 \<le> a"
  proof (cases "0 \<le> x")
    case True
    then show ?thesis using fl_idem Fin by blast
  next
    case False
    from Fin obtain e where "a = rnd e x" using fl_Fin by blast
    then have "a \<le> 0" using rnd_mono [of x 0 e] False by simp
    with that show ?thesis using float_of_int_exact [of 0] by (simp add: float_of_int_def)
  qed
  with Fin show ?thesis by (simp add: rounded_def)
qed (simp_all add: rounded_def)

lemma rounded_special [simp]: "rounded NaN" "rounded (Inf s)"
  by (simp_all add: rounded_def)

lemma rounded_fmul [simp]: "rounded (fmul x y)"
  by (cases "(x, y)" rule: fmul.cases) simp_all

lemma float_of_zero [simp]: "float_of_int 0 = Fin 0"
  using float_of_int_exact [of 0] by simp

section \<open>What the delays promise\<close>

text \<open>The product that is converted.\<close>

definition exponential_product ::
  "(float64 \<Rightarrow> float64 \<Rightarrow> float64) \<Rightarrow> duration \<Rightarrow> float64 \<Rightarrow> int \<Rightarrow> float64" where
  "exponential_product pow initial multiplier attempt =
     fmul (float_of_int (clampDuration initial))
       (pow (if IsNaN multiplier \<or> fless multiplier (Fin 1) then Fin 1 else multiplier)
          (float_of_int (max 1 attempt - 1)))"

definition cap :: "duration \<Rightarrow> duration" where
  "cap mx = (if 0 < mx then mx else maxDuration)"

lemma cap_range [simp]: "0 \<le> cap mx" "int64 mx \<Longrightarrow> int64 (cap mx)"
  by (simp_all add: cap_def)

lemma Exponential_eq:
  "Exponential wild pow initial multiplier mx attempt =
     (if clampDuration initial = 0 then 0
      else clampDuration (durationFromBackoffFloat wild
        (exponential_product pow initial multiplier attempt) (cap mx)))"
  by (simp add: Exponential_def BackoffFunc_def Let_def clampDuration_def max_def exponential_product_def
      cap_def)

lemma rounded_product [simp]: "rounded (exponential_product pow initial multiplier attempt)"
  by (simp add: exponential_product_def)

lemma Exponential_range:
  assumes "int64 mx"
  shows "0 \<le> Exponential wild pow initial multiplier mx attempt
    \<and> Exponential wild pow initial multiplier mx attempt \<le> cap mx
    \<and> Exponential wild pow initial multiplier mx attempt =
        Exponential wild' pow initial multiplier mx attempt"
  using durationFromBackoffFloat_range [OF rounded_product cap_range(1) cap_range(2) [OF assms],
      of wild pow initial multiplier attempt wild']
  by (simp add: Exponential_eq)

lemma Exponential_first:
  assumes "int64 mx" and "pow (if IsNaN multiplier \<or> fless multiplier (Fin 1) then Fin 1
      else multiplier) (Fin 0) = Fin 1"
    and "attempt \<le> 1" and "initial < 2 ^ 53"
  shows "Exponential wild pow initial multiplier mx attempt = min (cap mx) (clampDuration initial)"
proof (cases "clampDuration initial = 0")
  case True
  then show ?thesis by (simp add: Exponential_eq min_absorb2 [OF cap_range(1)])
next
  case False
  let ?i = "clampDuration initial"
  have i: "\<bar>?i\<bar> \<le> 2 ^ 53" "0 < ?i" "?i < 2 ^ 53" using False assms(4) by (auto simp: clampDuration_def)
  have fi: "float_of_int ?i = Fin (of_int ?i)" by (rule float_of_int_exact [OF i(1)])
  have "float_of_int (max 1 attempt - 1) = Fin 0" using assms(3) by (simp add: max_def)
  moreover have "fl (of_int ?i) = Fin (of_int ?i)" using fi by (simp add: float_of_int_def)
  ultimately have x: "exponential_product pow initial multiplier attempt = Fin (of_int ?i)"
    by (simp only: exponential_product_def fi assms(2) fmul.simps mult_1_right)
  have "durationFromBackoffFloat wild (Fin (of_int ?i)) (cap mx) = min (cap mx) ?i"
  proof (cases "cap mx \<le> ?i")
    case True
    then obtain a where "float_of_int (cap mx) = Fin a" "a \<le> of_int ?i"
      using fl_mono [of "of_int (cap mx)" "of_int ?i" "of_int ?i"] fi by (auto simp: float_of_int_def)
    then show ?thesis using True by (simp add: durationFromBackoffFloat_def)
  next
    case c: False
    obtain a where a: "float_of_int (cap mx) = Fin a" using float_of_int64 [of "cap mx"] assms(1) by auto
    have "of_int (?i + 1) \<le> a"
      using fl_int_below [of "?i + 1" "of_int (cap mx)" a] a c i by (simp add: float_of_int_def)
    then show ?thesis
      using c i by (simp add: durationFromBackoffFloat_def a int64_of_float_def truncate_def)
  qed
  then show ?thesis using False by (simp add: Exponential_eq x min_def)
qed

text \<open>C38: exponential backoff stays within its cap, and starts at its initial delay when that is
  shorter than \<open>2\<^sup>5\<^sup>3\<close> nanoseconds (104 days). Whatever the multiplier, whatever \<open>math.Pow\<close>
  returns, infinities and NaN included, and whatever the initial delay, every delay lies between
  zero and the limit (the maximum if it is positive, the largest duration otherwise), and no value
  that does not fit is converted to an integer, so the result does not depend on the platform.
  When \<open>Pow(x, 0)\<close> is 1, as \<open>math.Pow\<close> documents, and the initial delay is below \<open>2\<^sup>5\<^sup>3\<close>, the first
  delay is the initial one, clamped at zero and capped. Initial delays from \<open>2\<^sup>5\<^sup>3\<close> on may be rounded to
  a neighbouring \<open>float64\<close>, and are claimed only to respect the limit.\<close>

theorem Exponential_bounded:
  assumes "int64 mx"
  defines "limit \<equiv> if 0 < mx then mx else maxDuration"
  shows "0 \<le> Exponential wild pow initial multiplier mx attempt
    \<and> Exponential wild pow initial multiplier mx attempt \<le> limit
    \<and> Exponential wild pow initial multiplier mx attempt =
        Exponential wild' pow initial multiplier mx attempt
    \<and> ((\<forall>x. pow x (Fin 0) = Fin 1) \<longrightarrow> attempt \<le> 1 \<longrightarrow> initial < 2 ^ 53 \<longrightarrow>
        Exponential wild pow initial multiplier mx attempt = min limit (clampDuration initial))"
  using Exponential_range [OF assms(1), of wild pow initial multiplier attempt wild']
    Exponential_first [OF assms(1), of pow multiplier attempt initial wild]
  unfolding limit_def by (simp add: cap_def)

theorem Exponential_bounded_witness:
  "Exponential (\<lambda>_. 0) (\<lambda>_ _. Fin 1) 100 (Fin 2) 1000 1 = 100"
proof -
  have h: "int64 1000" by (simp add: int64_def)
  show ?thesis
    using Exponential_bounded [OF h, of "\<lambda>_. 0" "\<lambda>_ _. Fin 1" 100 "Fin 2" 1] by (simp add: clampDuration_def)
qed

section \<open>Jitters\<close>

text \<open>A draw below one is at least one unit in the last place below it.\<close>

lemma below_one:
  assumes "fl r = Fin r" and "0 \<le> r" and "r < 1"
  shows "r \<le> 1 - 1 / 2 ^ 53"
proof (cases "r < 1 / 2")
  case True
  then show ?thesis by simp
next
  case False
  obtain e where e: "quantum r = Some e" "r = rnd e r" using assms(1) fl_Fin by metis
  have "\<not> e + 53 \<le> - 1"
    using quantum_SomeD(3) [OF e(1)] False assms(2) powi_le [of "e + 53" "- 1"]
    by (auto simp: power_int_minus)
  then have "- 53 \<le> e" by simp
  moreover have "e < - 52"
  proof (rule ccontr)
    assume "\<not> e < - 52"
    then have "e \<noteq> - 1074" "(2 :: rat) powi 0 \<le> 2 powi (e + 52)" by (simp, intro powi_le) simp
    with quantum_SomeD(4) [OF e(1)] assms(2,3) show False by simp
  qed
  ultimately have e53: "e = - 53" by simp
  define m where "m = rne (r / 2 powi e)"
  have p: "(2 :: rat) powi e = 1 / 2 ^ 53" by (simp add: e53 power_int_minus inverse_eq_divide)
  have "rnd e r = of_int m * (1 / 2 ^ 53)" by (simp only: rnd_def m_def p)
  with e(2) have r: "r = of_int m / 2 ^ 53" by (simp only: times_divide_eq_right mult_1_right)
  have "of_int m < (2 ^ 53 :: rat)" using assms(3) unfolding r by (simp add: divide_less_eq)
  then have "m < 2 ^ 53" by (metis of_int_less_iff of_int_numeral of_int_power)
  then have "of_int m \<le> (of_int (2 ^ 53 - 1) :: rat)" by (simp only: of_int_le_iff zle_diff1_eq)
  then have "of_int m \<le> (2 ^ 53 - 1 :: rat)" by simp
  then have "of_int m / 2 ^ 53 \<le> (2 ^ 53 - 1 :: rat) / 2 ^ 53" by (rule divide_right_mono) simp
  also have "\<dots> = 1 - 1 / 2 ^ 53" by (simp add: diff_divide_distrib)
  finally show ?thesis unfolding r .
qed

text \<open>Scaling an integer's float by such a draw makes it smaller.\<close>

lemma scaled_below:
  assumes B: "fl B = Fin B" "1 \<le> B" and r: "fl r = Fin r" "0 \<le> r" "r < 1"
  obtains z where "fl (r * B) = Fin z" "0 \<le> z" "z < B"
proof -
  have le: "r * B \<le> B" "0 \<le> r * B" using B(2) r(2,3) by (simp_all add: mult_le_cancel_right1)
  obtain z where z: "fl (r * B) = Fin z" "0 \<le> z" "z \<le> B" using fl_mono [OF le(2,1) B(1)] .
  have "z \<noteq> B"
  proof
    assume eq: "z = B"
    obtain e where e: "quantum (r * B) = Some e" "z = rnd e (r * B)" using fl_Fin [OF z(1)] by metis
    have "r * B \<le> (1 - 1 / 2 ^ 53) * B" using below_one [OF r] B(2) by (intro mult_right_mono) simp_all
    then have gap: "B / 2 ^ 53 \<le> B - r * B" by (simp add: algebra_simps)
    also have "\<dots> \<le> 2 powi e / 2" using rnd_near [of e "r * B"] e(2) eq le(1) by simp
    finally have "B \<le> 2 powi e / 2 * 2 ^ 53" by (simp add: divide_le_eq)
    also have "\<dots> = 2 powi (e + 52)" by (simp add: powi_split)
    finally have up: "B \<le> 2 powi (e + 52)" .
    show False
    proof (cases "e = - 1074")
      case True
      have "(2 :: rat) powi (e + 52) < 1"
        using power_int_strict_increasing [of "e + 52" 0 "2 :: rat"] True by simp
      with up B(2) show False by simp
    next
      case False
      then have "2 powi (e + 52) \<le> r * B" using quantum_SomeD(4) [OF e(1)] le(2) by simp
      with up have "B \<le> r * B" by (rule order_trans)
      moreover have "0 < B / 2 ^ 53" using B(2) by simp
      ultimately show False using gap by linarith
    qed
  qed
  with z that show thesis by simp
qed

text \<open>Full jitter stays inside the backoff window. For a draw in [0, 1), the jittered delay lies
  between zero and the base delay for every base that a duration can hold, although \<open>float64\<close>
  rounds large bases, up as well as down; up to \<open>2\<^sup>5\<^sup>3\<close> nanoseconds (104 days) it is even below the
  base. No conversion depends on the platform.\<close>

lemma Full_within_base:
  assumes "int64 base" and "0 < base" and "fl r = Fin r" and "0 \<le> r" and "r < 1"
  shows "0 \<le> FullWithRand wild (Fin r) base attempt \<and> FullWithRand wild (Fin r) base attempt \<le> base
    \<and> (base \<le> 2 ^ 53 \<longrightarrow> FullWithRand wild (Fin r) base attempt < base)
    \<and> FullWithRand wild (Fin r) base attempt = FullWithRand wild' (Fin r) base attempt"
proof -
  obtain B where B: "float_of_int base = Fin B" using float_of_int64 [of base] assms(1,2) by auto
  have B1: "1 \<le> B" using fl_int_below [of 1 "of_int base" B] B assms(2) by (simp add: float_of_int_def)
  have "fl B = Fin B" using fl_idem [of "of_int base" B] B assms(2) by (simp add: float_of_int_def)
  then obtain z where z: "fl (r * B) = Fin z" "0 \<le> z" "z < B" using scaled_below [OF _ B1 assms(3-5)] by metis
  have zz: "fl z = Fin z" using rounded_fl [of "r * B"] z by (simp add: rounded_def)
  have nb: "\<not> fle (float_of_int base) (Fin z)" using B z(3) by simp
  have base: "0 \<le> base" using assms(2) by simp
  note conv = int64_of_below [OF zz z(2) base assms(1) nb]
  obtain M where M: "float_of_int maxDuration = Fin M" using float_of_int64 [of maxDuration] by auto
  have "of_int base \<le> (of_int maxDuration :: rat)" using assms(1) by (simp add: int64_def maxDuration_def)
  then have "B \<le> M" using fl_mono [of "of_int base" "of_int maxDuration" M] B M base
    by (auto simp: float_of_int_def)
  then have "\<not> fle (float_of_int maxDuration) (Fin z)" using M z(3) by simp
  then have d: "FullWithRand w (Fin r) base attempt = truncate z" for w
    using conv [of w] z assms(2)
    by (simp add: FullWithRand_def JitterFunc_def Let_def B durationFromFloat_def truncate_def clampDuration_def)
  have "truncate z < base" if "base \<le> 2 ^ 53"
  proof -
    have "B = of_int base" using float_of_int_exact [of base] that base B by simp
    with truncate_nonneg(2) [OF z(2)] z(3) have "of_int (truncate z) < (of_int base :: rat)" by linarith
    then show ?thesis by simp
  qed
  with conv z(2) show ?thesis unfolding d by simp
qed

text \<open>The factor of symmetric jitter, fused or not.\<close>

lemma factor_between:
  assumes "fl (1 - f) = Fin (1 - f)" and "fl (1 + f) = Fin (1 + f)" and "fl (2 * f) = Fin (2 * f)"
    and "0 \<le> f" and "f \<le> 1" and "0 \<le> r" and "r < 1"
  obtains w where "fmuladd fused (Fin r) (Fin (2 * f)) (Fin (1 - f)) = Fin w" "1 - f \<le> w" "w \<le> 1 + f"
proof -
  have between: "\<exists>w. fl x = Fin w \<and> 1 - f \<le> w \<and> w \<le> 1 + f" if x: "1 - f \<le> x" "x \<le> 1 + f" for x
  proof -
    have "0 \<le> x" using x(1) assms(5) by simp
    then obtain w where w: "fl x = Fin w" "w \<le> 1 + f" using fl_mono [OF _ x(2) assms(2)] by metis
    moreover have "1 - f \<le> w" using fl_mono [OF _ x(1) w(1)] assms(1,5) by auto
    ultimately show ?thesis by blast
  qed
  have p: "0 \<le> r * (2 * f)" "r * (2 * f) \<le> 2 * f" using assms(4-7) by (simp_all add: mult_left_le_one_le)
  obtain u where u: "fl (r * (2 * f)) = Fin u" "0 \<le> u" "u \<le> 2 * f" using fl_mono [OF p assms(3)] .
  show thesis
  proof (cases fused)
    case True
    then show thesis using between [of "r * (2 * f) + (1 - f)"] p that by (auto simp: fmuladd_def)
  next
    case False
    then show thesis using between [of "u + (1 - f)"] u that by (auto simp: fmuladd_def)
  qed
qed

text \<open>A fraction of 52 binary digits, its complement and its double are exact.\<close>

lemma fraction_exact:
  assumes "0 \<le> k" and "k \<le> 2 ^ 52"
  defines "f \<equiv> of_int k / 2 ^ 52"
  shows "fl (1 - f) = Fin (1 - f)" "fl (1 + f) = Fin (1 + f)" "fl (2 * f) = Fin (2 * f)" "0 \<le> f" "f \<le> 1"
proof -
  have k: "of_int k \<le> (2 ^ 52 :: rat)" using assms(2) by (metis of_int_le_iff of_int_numeral of_int_power)
  show "0 \<le> f" "f \<le> 1" using k assms(1) by (simp_all add: f_def)
  have grid: "fl (of_int m / 2 ^ 52) = Fin (of_int m / 2 ^ 52)" if m: "0 \<le> m" "m \<le> 2 ^ 53" for m
  proof -
    have e: "of_int m * 2 powi (- 52) = (of_int m / 2 ^ 52 :: rat)"
      by (simp add: power_int_minus inverse_eq_divide)
    have "of_int m \<le> (2 ^ 53 :: rat)" using m(2) by (metis of_int_le_iff of_int_numeral of_int_power)
    then have "\<bar>of_int m / 2 ^ 52\<bar> < (2 :: rat) powi 1024" using m(1) by (simp add: power_int_def divide_less_eq)
    with fl_multiple [of m "- 52"] m show ?thesis by (simp add: e)
  qed
  have parts: "1 - f = of_int (2 ^ 52 - k) / 2 ^ 52" "1 + f = of_int (2 ^ 52 + k) / 2 ^ 52"
    "2 * f = of_int (2 * k) / 2 ^ 52"
    by (simp_all add: f_def diff_divide_distrib add_divide_distrib)
  show "fl (1 - f) = Fin (1 - f)" "fl (1 + f) = Fin (1 + f)" "fl (2 * f) = Fin (2 * f)"
    unfolding parts by (rule grid; use assms(1,2) in simp)+
qed

text \<open>The product of a base and such a factor, rounded and truncated, is in the window.\<close>

lemma scaled_in_window:
  fixes f :: rat
  assumes "0 < base" and "base \<le> 2 ^ 52" and f: "0 \<le> f" "f \<le> 1" and w: "1 - f \<le> w" "w \<le> 1 + f"
  obtains z where "fl (of_int base * w) = Fin z" "0 \<le> z" "z \<le> 2 ^ 53"
    "\<lfloor>of_int base * (1 - f)\<rfloor> \<le> truncate z" "truncate z \<le> \<lceil>of_int base * (1 + f)\<rceil>"
proof -
  let ?b = "of_int base :: rat" let ?hi = "\<lceil>?b * (1 + f)\<rceil>" let ?lo = "\<lfloor>?b * (1 - f)\<rfloor>"
  have b: "0 < ?b" "?b \<le> 2 ^ 52" using assms(1,2) by simp_all
  have "?b * (1 + f) \<le> 2 ^ 52 * 2" using b f by (intro mult_mono) simp_all
  then have hi: "?hi \<le> 2 ^ 53" by (simp add: ceiling_le_iff)
  have "?b * (1 - f) \<le> ?b * 1" using b f by (intro mult_left_mono) simp_all
  then have "?lo \<le> \<lfloor>?b\<rfloor>" by (intro floor_mono) simp
  then have lo: "0 \<le> ?lo" "?lo \<le> base" using b f by simp_all
  have bw: "?b * (1 - f) \<le> ?b * w" "?b * w \<le> ?b * (1 + f)" "0 \<le> ?b * w" using w b f by simp_all
  have "0 \<le> ?hi" using bw le_of_int_ceiling [of "?b * (1 + f)"] by linarith
  with hi have "\<bar>?hi\<bar> \<le> 2 ^ 53" by simp
  then obtain z where z: "fl (?b * w) = Fin z" "0 \<le> z" "z \<le> of_int ?hi"
    using fl_int_above [OF _ bw(3) order_trans [OF bw(2) le_of_int_ceiling]] by blast
  have "?lo \<le> 2 ^ 53" using order_trans [OF lo(2) assms(2)] by (rule order_trans) simp
  with lo(1) have "\<bar>?lo\<bar> \<le> 2 ^ 53" by linarith
  then have "of_int ?lo \<le> z"
    using fl_int_below [OF _ lo(1) order_trans [OF of_int_floor_le bw(1)] z(1)] by blast
  then have t: "?lo \<le> truncate z" "truncate z \<le> ?hi" using truncate_ge lo(1) truncate_le z by blast+
  have "of_int ?hi \<le> (of_int (2 ^ 53) :: rat)" using hi by (simp only: of_int_le_iff)
  with z(3) have "z \<le> of_int (2 ^ 53)" by (rule order_trans)
  then have "z \<le> 2 ^ 53" by simp
  from that [OF z(1,2) this t] show thesis .
qed

lemma small_float_converts:
  assumes "0 \<le> z" and "z \<le> 2 ^ 53"
  shows "durationFromFloat wild (Fin z) = truncate z"
proof -
  obtain M where M: "float_of_int maxDuration = Fin M" using float_of_int64 [of maxDuration] by auto
  have "fl (2 ^ 54) = Fin (2 ^ 54)" using fl_multiple [of 1 54] by (simp add: power_int_def)
  then have "2 ^ 54 \<le> M"
    using fl_mono [of "2 ^ 54" "of_int maxDuration" M] M by (auto simp: float_of_int_def maxDuration_def)
  with assms(2) have "z < M" by simp
  moreover have "truncate z \<le> 2 ^ 53" by (rule truncate_le [OF assms(1)]) (use assms(2) in simp)
  then have "truncate z < 2 ^ 63" by (rule le_less_trans) simp
  moreover have "- (2 ^ 63) \<le> truncate z" "truncate 0 = 0"
    using truncate_nonneg(1) [OF assms(1)] order_trans [of "- (2 ^ 63) :: int" 0 "truncate z"]
    by (simp_all add: truncate_def)
  ultimately show ?thesis
    using assms(1) by (auto simp: durationFromFloat_def M int64_of_float_def)
qed

text \<open>C39: symmetric jitter of an exactly represented fraction stays in its window. For a fraction
  that is a multiple of \<open>2\<^sup>-\<^sup>5\<^sup>2\<close> between 0 and 1 (such as 0, a quarter, a half or 1; not 0.1 or 0.3,
  whose complements are rounded), a draw in [0, 1) and a base between 1 and \<open>2\<^sup>5\<^sup>2\<close> nanoseconds (52
  days), the delay lies between \<open>base * (1 - fraction)\<close> rounded down and \<open>base * (1 + fraction)\<close>
  rounded up, whether or not the compiler fuses operations. Other fractions and longer bases may
  leave the window by the rounding of \<open>float64\<close>, and are not claimed.\<close>

theorem Symmetric_window:
  assumes "0 < base" and "base \<le> 2 ^ 52" and "0 \<le> k" and "k \<le> 2 ^ 52" and "0 \<le> r" and "r < 1"
  defines "f \<equiv> of_int k / 2 ^ 52"
  shows "\<lfloor>of_int base * (1 - f)\<rfloor> \<le> SymmetricWithRand wild fused (Fin f) (Fin r) base attempt
    \<and> SymmetricWithRand wild fused (Fin f) (Fin r) base attempt \<le> \<lceil>of_int base * (1 + f)\<rceil>"
proof -
  note ex = fraction_exact [OF assms(3,4), folded f_def]
  obtain w where w: "fmuladd fused (Fin r) (Fin (2 * f)) (Fin (1 - f)) = Fin w" "1 - f \<le> w" "w \<le> 1 + f"
    using factor_between [OF ex assms(5,6)] .
  obtain z where z: "fl (of_int base * w) = Fin z" "0 \<le> z" "z \<le> 2 ^ 53"
    and t: "\<lfloor>of_int base * (1 - f)\<rfloor> \<le> truncate z" "truncate z \<le> \<lceil>of_int base * (1 + f)\<rceil>"
    using scaled_in_window [OF assms(1,2) ex(4,5) w(2,3)] .
  have b: "float_of_int base = Fin (of_int base)" using float_of_int_exact [of base] assms(1,2) by simp
  have sub: "fsub (Fin 1) (Fin f) = Fin (1 - f)" "fadd (Fin 1) (Fin f) = Fin (1 + f)"
    "fsub (Fin (1 + f)) (Fin (1 - f)) = Fin (2 * f)"
    using ex(1-3) by (simp_all add: fsub_def)
  have "\<not> truncate z < 0" using truncate_nonneg(1) [OF z(2)] by simp
  then have "SymmetricWithRand wild fused (Fin f) (Fin r) base attempt = truncate z"
    using ex(4,5) z w assms(1) unfolding SymmetricWithRand_def Let_def
    by (simp add: sub ex(1-3) JitterFunc_def clampDuration_def b small_float_converts [OF z(2,3)])
  with t show ?thesis by simp
qed

theorem Symmetric_window_witness:
  "75 \<le> SymmetricWithRand (\<lambda>_. 0) True (Fin (of_int (2 ^ 50) / 2 ^ 52)) (Fin (1 / 2)) 100 1
   \<and> SymmetricWithRand (\<lambda>_. 0) True (Fin (of_int (2 ^ 50) / 2 ^ 52)) (Fin (1 / 2)) 100 1 \<le> 125"
  using Symmetric_window [of 100 "2 ^ 50" "1 / 2" "\<lambda>_. 0" True 1] by simp

section \<open>As backoffs\<close>

text \<open>The interface the runtime expects of a backoff.\<close>

interpretation exponential_backoff: backoff_law "Exponential wild pow initial multiplier (wrap64 mx)"
  for wild pow initial multiplier mx
proof
  fix n
  have c: "int64 (cap (wrap64 mx))" by simp
  note r = Exponential_range [OF wrap64_int64, of wild pow initial multiplier mx n wild]
  show "0 \<le> Exponential wild pow initial multiplier (wrap64 mx) n" using r by blast
  show "int64 (Exponential wild pow initial multiplier (wrap64 mx) n)"
    using r c unfolding int64_def by linarith
qed


section \<open>Every delay is a duration\<close>



definition is_duration :: "duration \<Rightarrow> bool" where
  "is_duration d \<longleftrightarrow> 0 \<le> d \<and> d \<le> maxDuration"


lemma zero_is_duration [simp]: "is_duration 0" "int64 0"
  by (simp_all add: is_duration_def int64_def maxDuration_def)








end
