(* ===== verification/Release_Check.thy ===== *)
theory Release_Check
  imports Go_Errors
begin

text \<open>
  \<open>tools/releasecheck\<close>: the check of a proposed release version. \<open>canonicalVersion\<close>, \<open>build\<close> and
  \<open>check\<close> are \<open>module.CanonicalVersion\<close>, \<open>semver.Build\<close> and \<open>module.Check\<close> of \<open>golang.org/x/mod\<close>.
\<close>

definition validateRelease ::
  "(string \<Rightarrow> string) \<Rightarrow> (string \<Rightarrow> string) \<Rightarrow> (string \<Rightarrow> string \<Rightarrow> error option)
   \<Rightarrow> string \<Rightarrow> string \<Rightarrow> error option" where
  "validateRelease canonicalVersion build check modulePath version =
     (if modulePath = '''' then Some (errors_new ''module path must not be empty'')
      else if version = '''' then Some (errors_new ''version must not be empty'')
      else let canonical = canonicalVersion version
      in if canonical = '''' \<or> canonical \<noteq> version
         then Some (Errorf ''version %q is not canonical Go module semver'' [FStr version] [])
         else if build version \<noteq> ''''
         then Some (Errorf ''version %q must not contain build metadata'' [FStr version] [])
         else case check modulePath version of
           Some err \<Rightarrow> Some (Errorf ''module path %q is incompatible with version %q: %w''
             [FStr modulePath, FStr version] [err])
         | None \<Rightarrow> None)"

definition releasecheck_run ::
  "(string \<Rightarrow> string) \<Rightarrow> (string \<Rightarrow> string) \<Rightarrow> (string \<Rightarrow> string \<Rightarrow> error option)
   \<Rightarrow> string list \<Rightarrow> error option" where
  "releasecheck_run canonicalVersion build check args =
     (if length args \<noteq> 2 then Some (errors_new ''usage: releasecheck <module-path> <version>'')
      else validateRelease canonicalVersion build check (args ! 0) (args ! 1))"

text \<open>What an accepted release is.\<close>

lemma release_accepted:
  "releasecheck_run canonicalVersion build check args = None \<longleftrightarrow>
     (\<exists>m v. args = [m, v] \<and> m \<noteq> '''' \<and> v \<noteq> '''' \<and> canonicalVersion v = v \<and> build v = ''''
       \<and> check m v = None)"
proof (cases "length args = 2")
  case True
  then obtain m v where "args = [m, v]" by (auto simp: length_Suc_conv numeral_2_eq_2)
  then show ?thesis
    by (auto simp: releasecheck_run_def validateRelease_def Let_def split: option.split)
qed (auto simp: releasecheck_run_def)

end
