(* ===== verification/Check_Loop.thy ===== *)
theory Check_Loop
  imports Runtime_Dispatch Loop_Worker
begin

text \<open>
  \<open>check_loop.go\<close>: a \<open>LoopWorker\<close> whose loop runs an Opskit check periodically, applies the
  result to the worker's readiness and observes each execution.

  The check, its result callback and the timers are the environment's: a \<open>check_env\<close> is one
  turn of the loop, with the actions of the whole program during its wait and its execution.
  The calls on the runtime handle are the runtime's own sections.
\<close>

section \<open>Configuration\<close>

record checkLoopConfig =
  clc_kind :: CheckKind
  clc_interval :: duration
  clc_initialDelay :: duration
  clc_runImmediately :: bool
  clc_timeout :: duration
  clc_panicErr :: "error option"
  clc_jitter :: "(duration \<Rightarrow> duration) option"
  clc_readyOnSuccess :: bool
  clc_reportFailureOnNotReady :: bool
  clc_resultObserver :: bool
  clc_summaryObserver :: bool

type_synonym CheckLoopOption = "checkLoopConfig \<Rightarrow> checkLoopConfig"

definition defaultCheckLoopInterval :: duration where
  "defaultCheckLoopInterval = 30 * second"

text \<open>The kind is set by the constructors; \<open>CheckKindChecker\<close> stands for the empty string here.\<close>

definition defaultCheckLoopConfig :: checkLoopConfig where
  "defaultCheckLoopConfig =
     \<lparr>clc_kind = CheckKindChecker, clc_interval = defaultCheckLoopInterval, clc_initialDelay = 0,
      clc_runImmediately = True, clc_timeout = 0, clc_panicErr = None, clc_jitter = None,
      clc_readyOnSuccess = True, clc_reportFailureOnNotReady = False,
      clc_resultObserver = False, clc_summaryObserver = False\<rparr>"

definition WithCheckInterval :: "duration \<Rightarrow> CheckLoopOption" where
  "WithCheckInterval interval =
     (\<lambda>cfg. if interval > 0 then cfg\<lparr>clc_interval := interval\<rparr> else cfg)"

definition WithCheckInitialDelay :: "duration \<Rightarrow> CheckLoopOption" where
  "WithCheckInitialDelay delay =
     (\<lambda>cfg. if delay > 0 then cfg\<lparr>clc_initialDelay := delay\<rparr> else cfg)"

definition WithCheckRunImmediately :: "bool \<Rightarrow> CheckLoopOption" where
  "WithCheckRunImmediately enabled = (\<lambda>cfg. cfg\<lparr>clc_runImmediately := enabled\<rparr>)"

definition WithCheckTimeout :: "duration \<Rightarrow> CheckLoopOption" where
  "WithCheckTimeout timeout = (\<lambda>cfg. cfg\<lparr>clc_timeout := timeout\<rparr>)"

definition WithCheckJitter :: "(duration \<Rightarrow> duration) option \<Rightarrow> CheckLoopOption" where
  "WithCheckJitter fn = (\<lambda>cfg. cfg\<lparr>clc_jitter := fn\<rparr>)"

definition WithCheckReadyOnSuccess :: "bool \<Rightarrow> CheckLoopOption" where
  "WithCheckReadyOnSuccess enabled = (\<lambda>cfg. cfg\<lparr>clc_readyOnSuccess := enabled\<rparr>)"

definition WithCheckReportFailureOnNotReady :: "bool \<Rightarrow> CheckLoopOption" where
  "WithCheckReportFailureOnNotReady enabled =
     (\<lambda>cfg. cfg\<lparr>clc_reportFailureOnNotReady := enabled\<rparr>)"

definition WithCheckResultObserver :: "bool \<Rightarrow> CheckLoopOption" where
  "WithCheckResultObserver ob = (\<lambda>cfg. cfg\<lparr>clc_resultObserver := ob\<rparr>)"

definition WithCheckSummaryObserver :: "bool \<Rightarrow> CheckLoopOption" where
  "WithCheckSummaryObserver ob = (\<lambda>cfg. cfg\<lparr>clc_summaryObserver := ob\<rparr>)"

definition newCheckLoopConfig :: "CheckLoopOption option list \<Rightarrow> checkLoopConfig" where
  "newCheckLoopConfig opts = apply_options opts defaultCheckLoopConfig"

definition check_panic :: "string \<Rightarrow> error option" where
  "check_panic what =
     WithOperationalFailure (Some (Sentinel ErrCheckLoopPanicked))
       \<lparr>f_code = FailureCodePanic,
        f_message = ''opskit '' @ what @ '' panicked: opskit check loop panicked''\<rparr>"

definition check_worker :: LoopWorker where
  "check_worker = NewLoopWorker True [Some (WithLoopAutoReady False), Some (WithLoopStart True)]"

text \<open>The worker, its configuration, and what its start hook returns; the argument says
  whether the checker is non-nil.\<close>

definition NewCheckLoop ::
  "bool \<Rightarrow> CheckLoopOption option list \<Rightarrow> LoopWorker \<times> checkLoopConfig \<times> error option" where
  "NewCheckLoop checker opts =
     (check_worker,
      (newCheckLoopConfig opts)\<lparr>clc_kind := CheckKindChecker, clc_panicErr := check_panic ''checker''\<rparr>,
      if checker then None else Some (Sentinel ErrNilChecker))"

definition NewCheckGroupLoop ::
  "bool \<Rightarrow> CheckLoopOption option list \<Rightarrow> LoopWorker \<times> checkLoopConfig \<times> error option" where
  "NewCheckGroupLoop checkGroup opts =
     (check_worker,
      (newCheckLoopConfig opts)\<lparr>clc_kind := CheckKindGroup, clc_panicErr := check_panic ''check group''\<rparr>,
      if checkGroup then None else Some (Sentinel ErrNilCheckGroup))"

section \<open>Observation\<close>

text \<open>\<open>startCheckObservation\<close> and \<open>endCheckObservation\<close> of the runtime. Every observer the
  runtime can be given implements \<open>CheckExecutionObserver\<close>: it is \<open>NopObserver\<close> or wrapped by
  \<open>SafeObserver\<close>.\<close>

definition startCheckObservation ::
  "string \<Rightarrow> CheckKind \<Rightarrow> time \<Rightarrow> 'a runtime_scheme \<Rightarrow> 'a runtime_scheme" where
  "startCheckObservation worker kind startedAt r =
     observe (StartCheck \<lparr>cks_runtime = r_identity r, cks_worker = worker, cks_kind = kind,
                         cks_startedAt = startedAt\<rparr>) r"

definition endCheckObservation ::
  "string \<Rightarrow> CheckKind \<Rightarrow> CheckOutcome \<Rightarrow> bool \<Rightarrow> time \<Rightarrow> 'a runtime_scheme
   \<Rightarrow> 'a runtime_scheme" where
  "endCheckObservation worker kind result continues startedAt r =
     (let endedAt = r_now r
      in observe (EndCheck \<lparr>cke_runtime = r_identity r, cke_worker = worker, cke_kind = kind,
            cke_outcome = result, cke_loopContinues = continues, cke_startedAt = startedAt,
            cke_endedAt = endedAt, cke_duration = int endedAt - int startedAt\<rparr>) r)"

section \<open>One execution\<close>

record checkLoopOutcome =
  clo_ready :: bool
  clo_state :: string
  clo_message :: string

record check_env =
  ck_wait :: poll
  ck_script :: "action list"
  ck_result :: "checkLoopOutcome option"
  ck_callback :: "action list"
  ck_callbackPanics :: bool
  ck_ctxErr :: "sentinel option"

definition checkLoopNotReadyError :: "checkLoopOutcome \<Rightarrow> error" where
  "checkLoopNotReadyError oc =
     (if clo_message oc \<noteq> ''''
      then Errorf ''opskit check not ready: state=%s message=%s''
             [FStr (clo_state oc), FStr (clo_message oc)] []
      else Errorf ''opskit check not ready: state=%s'' [FStr (clo_state oc)] [])"

text \<open>The \<open>run\<close> closure: the check, then the callback if there is one. \<open>None\<close> is a panic.\<close>

definition run_check :: "checkLoopConfig \<Rightarrow> check_env \<Rightarrow> sys \<Rightarrow> checkLoopOutcome option \<times> sys" where
  "run_check cfg e s =
     (let s1 = run (ck_script e) s;
          callback = (if clc_kind cfg = CheckKindChecker then clc_resultObserver cfg
                      else clc_summaryObserver cfg)
      in case ck_result e of
           None \<Rightarrow> (None, s1)
         | Some oc \<Rightarrow>
             if callback
             then (if ck_callbackPanics e then None else Some oc, run (ck_callback e) s1)
             else (Some oc, s1))"

text \<open>The body of \<open>runCheckLoopOnce\<close>: the outcome to observe, whether the loop continues, and
  the error to return. \<open>ck_ctxErr\<close> is \<open>checkCtx.Err()\<close>.\<close>

definition check_body ::
  "ctx \<Rightarrow> handle \<Rightarrow> checkLoopConfig \<Rightarrow> check_env \<Rightarrow> sys
   \<Rightarrow> (CheckOutcome \<times> bool \<times> error option) \<times> sys" where
  "check_body c h cfg e s =
     (case run_check cfg e s of
        (None, s1) \<Rightarrow>
          ((CheckOutcomePanic, False,
            Some (case clc_panicErr cfg of Some pe \<Rightarrow> pe | None \<Rightarrow> Sentinel ErrCheckLoopPanicked)), s1)
      | (Some oc, s1) \<Rightarrow>
          (case ctx_Err c s1 of
             Some parentErr \<Rightarrow> ((CheckOutcomeCanceled, False, Some parentErr), s1)
           | None \<Rightarrow>
               (let late = ck_ctxErr e;
                    result = (case late of
                                Some CtxDeadlineExceeded \<Rightarrow> CheckOutcomeTimeout
                              | Some _ \<Rightarrow> CheckOutcomeCanceled
                              | None \<Rightarrow> if clo_ready oc then CheckOutcomeReady else CheckOutcomeNotReady);
                    isReady = (late = None \<and> clo_ready oc);
                    (err, s2) = (if clc_readyOnSuccess cfg
                                 then setWorkerReady (fst h) (snd h) isReady s1 else (None, s1))
                in case err of
                     Some er \<Rightarrow> ((CheckOutcomeError, False, Some er), s2)
                   | None \<Rightarrow>
                       if clc_reportFailureOnNotReady cfg \<and> \<not> isReady
                       then ((result, False,
                              Some (case late of Some ce \<Rightarrow> Sentinel ce
                                               | None \<Rightarrow> checkLoopNotReadyError oc)), s2)
                       else ((result, True, None), s2))))"

definition runCheckLoopOnce ::
  "ctx \<Rightarrow> handle \<Rightarrow> checkLoopConfig \<Rightarrow> check_env \<Rightarrow> sys \<Rightarrow> error option \<times> sys" where
  "runCheckLoopOnce c h cfg e s =
     (let startedAt = r_now s;
          s1 = startCheckObservation (fst h) (clc_kind cfg) startedAt s
      in case check_body c h cfg e s1 of
           ((result, continues, err), s2) \<Rightarrow>
             (err, endCheckObservation (fst h) (clc_kind cfg) result continues startedAt s2))"

section \<open>The loop\<close>

text \<open>When the timer of \<open>delay\<close> fires is the environment's (\<open>po_timer\<close>).\<close>

definition waitCheckLoopDelay :: "ctx \<Rightarrow> duration \<Rightarrow> poll \<Rightarrow> sys \<Rightarrow> outcome \<times> sys" where
  "waitCheckLoopDelay c delay p s = select_timer c (po_script p) (po_timer p) s"

definition nextCheckLoopDelay :: "checkLoopConfig \<Rightarrow> duration" where
  "nextCheckLoopDelay cfg =
     (case clc_jitter cfg of
        None \<Rightarrow> clc_interval cfg
      | Some j \<Rightarrow> (let delay = j (clc_interval cfg) in if delay \<le> 0 then clc_interval cfg else delay))"

fun check_turns ::
  "ctx \<Rightarrow> handle \<Rightarrow> checkLoopConfig \<Rightarrow> check_env list \<Rightarrow> sys \<Rightarrow> outcome \<times> sys" where
  "check_turns c h cfg [] s = (Blocked, s)"
| "check_turns c h cfg (e # es) s =
     (case waitCheckLoopDelay c (nextCheckLoopDelay cfg) (ck_wait e) s of
        (Finished None, s1) \<Rightarrow>
          (case runCheckLoopOnce c h cfg e s1 of
             (Some err, s2) \<Rightarrow> (Finished (Some err), s2)
           | (None, s2) \<Rightarrow> check_turns c h cfg es s2)
      | (Finished (Some _), s1) \<Rightarrow> (Finished None, s1)
      | (stuck, s1) \<Rightarrow> (stuck, s1))"

text \<open>\<open>first\<close> is the turn before the loop: the initial delay and the immediate execution, when
  they are configured.\<close>

definition runCheckLoop ::
  "ctx \<Rightarrow> handle \<Rightarrow> checkLoopConfig \<Rightarrow> check_env \<Rightarrow> check_env list \<Rightarrow> sys \<Rightarrow> outcome \<times> sys" where
  "runCheckLoop c h cfg first es s =
     (case (if clc_initialDelay cfg > 0 then waitCheckLoopDelay c (clc_initialDelay cfg) (ck_wait first) s
            else (Finished None, s)) of
        (Finished None, s1) \<Rightarrow>
          (case (if clc_runImmediately cfg then runCheckLoopOnce c h cfg first s1 else (None, s1)) of
             (Some err, s2) \<Rightarrow> (Finished (Some err), s2)
           | (None, s2) \<Rightarrow> check_turns c h cfg es s2)
      | (Finished (Some _), s1) \<Rightarrow> (Finished None, s1)
      | (stuck, s1) \<Rightarrow> (stuck, s1))"

end
