(* ===== verification/Check_Claims.thy ===== *)
theory Check_Claims
  imports Check_Loop Example_Runtime "HOL-Library.Sublist"
begin

text \<open>
  What the check loop does to its worker, for every check, callback, timer and concurrent
  action: its runs are scripts of the runtime's environment, each execution is observed once and
  truthfully, late results are not applied, and the loop ends without an error only when its
  context has ended.
\<close>

section \<open>The check loop is part of the environment\<close>

text \<open>The outcome of a turn that counts as success: a ready result, returned before the check's
  own deadline.\<close>

definition check_succeeded :: "check_env \<Rightarrow> bool" where
  "check_succeeded e \<longleftrightarrow> ck_ctxErr e = None \<and> (\<exists>oc. ck_result e = Some oc \<and> clo_ready oc)"

text \<open>What the rest of the program does during a turn.\<close>

definition turn_script :: "check_env \<Rightarrow> action list" where
  "turn_script e = po_script (ck_wait e) @ ck_script e @ ck_callback e"

text \<open>What the loop itself may do in a turn: open and close the observation of its own worker and kind,
  and signal to its own worker and generation the readiness the turn's result stands for.\<close>

definition own_action :: "handle \<Rightarrow> checkLoopConfig \<Rightarrow> check_env \<Rightarrow> action \<Rightarrow> bool" where
  "own_action h cfg e a \<longleftrightarrow>
     (case a of
        SignalReady n g b \<Rightarrow>
          n = fst h \<and> g = snd h \<and> clc_readyOnSuccess cfg \<and> ck_result e \<noteq> None
          \<and> b = check_succeeded e
      | Observed (StartCheck ev) \<Rightarrow> cks_worker ev = fst h \<and> cks_kind ev = clc_kind cfg
      | Observed (EndCheck ev) \<Rightarrow> cke_worker ev = fst h \<and> cke_kind ev = clc_kind cfg
      | _ \<Rightarrow> False)"

definition signals :: "action \<Rightarrow> bool" where
  "signals a \<longleftrightarrow> (case a of SignalReady n g b \<Rightarrow> True | _ \<Rightarrow> False)"

text \<open>A run of the loop: each action is tagged with the turn in which the loop took it, or with
  \<open>None\<close> when the rest of the program did. The loop signals only while its context is live.\<close>

type_synonym tagged = "check_env option \<times> action"

fun loop_owned :: "ctx \<Rightarrow> handle \<Rightarrow> checkLoopConfig \<Rightarrow> check_env set \<Rightarrow> tagged list \<Rightarrow> sys \<Rightarrow> bool" where
  "loop_owned c h cfg T [] s = True"
| "loop_owned c h cfg T ((turn, a) # ms) s =
     ((case turn of
         None \<Rightarrow> True
       | Some e \<Rightarrow> e \<in> T \<and> own_action h cfg e a \<and> (signals a \<longrightarrow> ctx_Err c s = None))
      \<and> loop_owned c h cfg T ms (act a s))"

definition of_program :: "tagged list \<Rightarrow> action list" where
  "of_program ms = map snd (filter (\<lambda>(turn, a). turn = None) ms)"

definition driven ::
  "ctx \<Rightarrow> handle \<Rightarrow> checkLoopConfig \<Rightarrow> check_env set \<Rightarrow> action list \<Rightarrow> sys \<Rightarrow> sys \<Rightarrow> bool" where
  "driven c h cfg T as s s' \<longleftrightarrow>
     (\<exists>ms. s' = run (map snd ms) s \<and> subseq (of_program ms) as \<and> loop_owned c h cfg T ms s)"

lemma owned_append:
  "loop_owned c h cfg T (ms @ ms') s \<longleftrightarrow>
     loop_owned c h cfg T ms s \<and> loop_owned c h cfg T ms' (run (map snd ms) s)"
proof (induction ms arbitrary: s)
  case (Cons m ms)
  obtain turn a where m: "m = (turn, a)" by (cases m)
  show ?case by (simp only: m append_Cons loop_owned.simps list.map snd_conv fold_simps Cons.IH conj_assoc)
qed simp

lemma owned_program: "loop_owned c h cfg T (map (Pair None) as) s"
  by (induction as arbitrary: s) simp_all

lemma owned_mono: "loop_owned c h cfg T ms s \<Longrightarrow> T \<subseteq> T' \<Longrightarrow> loop_owned c h cfg T' ms s"
proof (induction ms arbitrary: s)
  case (Cons m ms)
  obtain turn a where m: "m = (turn, a)" by (cases m)
  with Cons.prems Cons.IH [of "act a s"] show ?case by (cases turn) auto
qed simp

lemma of_program_simps [simp]:
  "of_program [] = []" "of_program (ms @ ms') = of_program ms @ of_program ms'"
  "of_program [(Some e, a)] = []" "of_program (map (Pair None) as) = as"
  by (simp_all add: of_program_def filter_map comp_def)

lemma driven_trans:
  "driven c h cfg T as s s1 \<Longrightarrow> driven c h cfg T' as' s1 s' \<Longrightarrow> T \<subseteq> U \<Longrightarrow> T' \<subseteq> U
   \<Longrightarrow> driven c h cfg U (as @ as') s s'"
  unfolding driven_def
proof (elim exE conjE)
  fix ms ms'
  assume 1: "s1 = run (map snd ms) s" "subseq (of_program ms) as" "loop_owned c h cfg T ms s"
    and 2: "s' = run (map snd ms') s1" "subseq (of_program ms') as'" "loop_owned c h cfg T' ms' s1"
    and U: "T \<subseteq> U" "T' \<subseteq> U"
  show "\<exists>ms. s' = run (map snd ms) s \<and> subseq (of_program ms) (as @ as') \<and> loop_owned c h cfg U ms s"
    using 1 2 owned_mono U by (intro exI [of _ "ms @ ms'"]) (auto simp: owned_append list_emb_append_mono)
qed

lemma driven_run: "driven c h cfg T as s (run as s)"
  unfolding driven_def by (rule exI [of _ "map (Pair None) as"]) (simp add: owned_program comp_def)

lemma driven_refl: "driven c h cfg T as s s"
  unfolding driven_def by (rule exI [of _ "[]"]) simp

lemma driven_own:
  "own_action h cfg e a \<Longrightarrow> (signals a \<Longrightarrow> ctx_Err c s = None) \<Longrightarrow> driven c h cfg {e} [] s (act a s)"
  unfolding driven_def by (rule exI [of _ "[(Some e, a)]"]) simp

lemma driven_extend: "driven c h cfg T as s s1 \<Longrightarrow> driven c h cfg T (as @ as') s s1"
  using driven_trans [OF _ driven_refl, of c h cfg T as s s1 T T as'] by simp

lemma driven_observe:
  "driven c h cfg {e} [] s (startCheckObservation (fst h) (clc_kind cfg) t s)"
  "driven c h cfg {e} [] s (endCheckObservation (fst h) (clc_kind cfg) q k t s)"
  using driven_own [of h cfg e "Observed x" c s for x]
  by (simp_all add: startCheckObservation_def endCheckObservation_def Let_def own_action_def signals_def)

lemma wait_driven:
  "waitCheckLoopDelay c d (ck_wait e) s = (out, s') \<Longrightarrow> driven c h cfg {e} (po_script (ck_wait e)) s s'"
  by (auto simp: waitCheckLoopDelay_def select_timer_def Let_def driven_run split: if_splits option.splits)

lemma run_check_driven:
  "run_check cfg e s = (r, s') \<Longrightarrow> driven c h cfg {e} (ck_script e @ ck_callback e) s s'"
  by (auto simp: run_check_def Let_def split: option.splits if_splits
      intro: driven_trans [OF driven_run driven_run] driven_extend [OF driven_run])

lemma run_check_result: "run_check cfg e s = (Some oc, s1) \<Longrightarrow> ck_result e = Some oc"
  by (auto simp: run_check_def Let_def split: option.splits if_splits)

lemma check_body_driven:
  assumes b: "check_body c h cfg e s = (r, s')"
  shows "driven c h cfg {e} (ck_script e @ ck_callback e) s s'"
proof -
  obtain oc s1 where r: "run_check cfg e s = (oc, s1)" by (cases "run_check cfg e s")
  have sig: "driven c h cfg {e} [] s1 (snd (setWorkerReady (fst h) (snd h) (check_succeeded e) s1))"
    if "ck_result e \<noteq> None" "clc_readyOnSuccess cfg" "ctx_Err c s1 = None"
    using driven_own [of h cfg e "SignalReady (fst h) (snd h) (check_succeeded e)" c s1] that
    by (simp add: own_action_def)
  have "driven c h cfg {e} [] s1 s'"
  proof (cases oc)
    case None
    with b r show ?thesis by (auto simp: check_body_def intro: driven_refl)
  next
    case (Some o1)
    have "ck_result e = Some o1" using run_check_result r Some by blast
    then have ok: "(ck_ctxErr e = None \<and> clo_ready o1) = check_succeeded e" by (simp add: check_succeeded_def)
    show ?thesis
      using b sig [folded ok] driven_refl [of c h cfg "{e}" "[]" s1] \<open>ck_result e = Some o1\<close>
      by (auto simp: check_body_def r Some Let_def split: option.splits if_splits prod.splits)
  qed
  from driven_trans [OF run_check_driven [OF r] this] show ?thesis by simp
qed

lemma once_driven:
  assumes "runCheckLoopOnce c h cfg e s = (err, s')"
  shows "driven c h cfg {e} (ck_script e @ ck_callback e) s s'"
proof -
  let ?s = "startCheckObservation (fst h) (clc_kind cfg) (r_now s) s"
  obtain q k er s2 where b: "check_body c h cfg e ?s = ((q, k, er), s2)"
    by (cases "check_body c h cfg e ?s") auto
  have s': "s' = endCheckObservation (fst h) (clc_kind cfg) q k (r_now s) s2"
    using assms by (simp add: runCheckLoopOnce_def b)
  have "driven c h cfg {e} ([] @ (ck_script e @ ck_callback e)) s s2"
    by (rule driven_trans [OF driven_observe(1) check_body_driven [OF b]]) simp_all
  from driven_trans [OF this driven_observe(2)] show ?thesis by (simp add: s')
qed

lemma turns_driven:
  "check_turns c h cfg es s = (out, s') \<Longrightarrow> driven c h cfg (set es) (concat (map turn_script es)) s s'"
proof (induction es arbitrary: s)
  case Nil
  then show ?case by (simp add: driven_refl)
next
  case (Cons e es)
  let ?rest = "concat (map turn_script es)"
  obtain w s1 where w: "waitCheckLoopDelay c (nextCheckLoopDelay cfg) (ck_wait e) s = (w, s1)"
    by (cases "waitCheckLoopDelay c (nextCheckLoopDelay cfg) (ck_wait e) s")
  obtain er s2 where o: "runCheckLoopOnce c h cfg e s1 = (er, s2)"
    by (cases "runCheckLoopOnce c h cfg e s1")
  note waited = wait_driven [OF w]
  have both: "driven c h cfg {e} (turn_script e) s s2"
    using driven_trans [OF waited once_driven [OF o]] by (simp add: turn_script_def)
  have 1: "driven c h cfg (set (e # es)) (turn_script e @ ?rest) s s1"
    using driven_trans [OF waited driven_refl, of "set (e # es)" "{}"] by (simp add: turn_script_def)
  have 2: "driven c h cfg (set (e # es)) (turn_script e @ ?rest) s s2"
    using driven_trans [OF both driven_refl, of "set (e # es)" "{}"] by simp
  have 3: "driven c h cfg (set (e # es)) (turn_script e @ ?rest) s s'"
    if "check_turns c h cfg es s2 = (out, s')"
    using driven_trans [OF both Cons.IH [OF that], of "set (e # es)"] by auto
  show ?case
    using Cons.prems w o 1 2 3 by (auto split: outcome.splits option.splits)
qed

lemma loop_driven:
  assumes "runCheckLoop c h cfg first es s = (out, s')"
  shows "driven c h cfg (set (first # es)) (concat (map turn_script (first # es))) s s'"
proof -
  let ?T = "set (first # es)" and ?rest = "concat (map turn_script es)"
  obtain w s1 where w: "(if clc_initialDelay cfg > 0
      then waitCheckLoopDelay c (clc_initialDelay cfg) (ck_wait first) s else (Finished None, s)) = (w, s1)"
    by (meson surj_pair)
  obtain er s2 where o: "(if clc_runImmediately cfg then runCheckLoopOnce c h cfg first s1
      else (None, s1)) = (er, s2)"
    by (meson surj_pair)
  have waited: "driven c h cfg {first} (po_script (ck_wait first)) s s1"
    using w wait_driven by (auto intro: driven_refl split: if_splits)
  moreover have "driven c h cfg {first} (ck_script first @ ck_callback first) s1 s2"
    using o once_driven by (auto intro: driven_refl split: if_splits)
  ultimately have both: "driven c h cfg {first} (turn_script first) s s2"
    using driven_trans [of c h cfg "{first}" _ s s1] by (fastforce simp: turn_script_def)
  have 1: "driven c h cfg ?T (turn_script first @ ?rest) s s1"
    using driven_trans [OF waited driven_refl, of ?T "{}"] by (simp add: turn_script_def)
  have 2: "driven c h cfg ?T (turn_script first @ ?rest) s s2"
    using driven_trans [OF both driven_refl, of ?T "{}"] by simp
  have 3: "driven c h cfg ?T (turn_script first @ ?rest) s s'"
    if "check_turns c h cfg es s2 = (out, s')"
    using driven_trans [OF both turns_driven [OF that], of ?T] by auto
  show ?thesis
    using assms 1 2 3 unfolding runCheckLoop_def w by (auto simp: o split: outcome.splits option.splits)
qed

text \<open>A check whose result comes after its own deadline, and the configuration it runs under.\<close>

definition ex_check :: "sentinel option \<Rightarrow> check_env" where
  "ex_check err =
     \<lparr>ck_wait = \<lparr>po_script = [], po_timer = True\<rparr>, ck_script = [],
      ck_result = Some \<lparr>clo_ready = True, clo_state = ''ok'', clo_message = ''''\<rparr>,
      ck_callback = [], ck_callbackPanics = False, ck_ctxErr = err\<rparr>"

definition ex_cfg :: checkLoopConfig where
  "ex_cfg = fst (snd (NewCheckLoop True [Some (WithCheckTimeout 5)]))"

lemmas ex_check_defs = ex_check_def ex_cfg_def NewCheckLoop_def newCheckLoopConfig_def
  apply_options_def defaultCheckLoopConfig_def WithCheckTimeout_def run_check_def Let_def

text \<open>C28: the check loop is one of the environments the runtime is proved against, and it
  interferes only with its own worker. Whatever its check, callback and timers do, a run of the
  loop is a finite script of atomic actions. The actions of the rest of the program in it are
  those of the turns' waits, checks and callbacks, in their order. Each other action is the
  loop's own: an observation of its own worker, or a readiness signal to its own worker and
  generation, made only while the loop's context is live and equal to the success of a turn
  whose check returned (so never true for a result past its deadline).\<close>

theorem check_loop_is_environment:
  "\<exists>ms. snd (runCheckLoop c h cfg first es s) = run (map snd ms) s
     \<and> subseq (of_program ms) (concat (map turn_script (first # es)))
     \<and> loop_owned c h cfg (set (first # es)) ms s"
  using loop_driven [of c h cfg first es s] unfolding driven_def
  by (cases "runCheckLoop c h cfg first es s") simp

theorem check_loop_is_environment_witness:
  "\<exists>as. snd (runCheckLoop 0 (''c/a'', 1) ex_cfg (ex_check (Some CtxDeadlineExceeded)) [] ex_registered)
      = run as ex_registered
    \<and> (\<forall>n g b. SignalReady n g b \<in> set as \<longrightarrow> n = ''c/a'' \<and> g = 1 \<and> \<not> b)"
proof -
  let ?e = "ex_check (Some CtxDeadlineExceeded)"
  obtain ms where run: "snd (runCheckLoop 0 (''c/a'', 1) ex_cfg ?e [] ex_registered) = run (map snd ms) ex_registered"
    and sub: "subseq (of_program ms) (concat (map turn_script [?e]))"
    and own: "loop_owned 0 (''c/a'', 1) ex_cfg (set [?e]) ms ex_registered"
    using check_loop_is_environment [of 0 "(''c/a'', 1)" ex_cfg ?e "[]" ex_registered] by blast
  have "of_program ms = []" using sub by (simp add: turn_script_def ex_check_def)
  then have tags: "(None, a) \<notin> set ms" for a by (auto simp: of_program_def filter_empty_conv)
  have late: "\<not> check_succeeded ?e" by (simp add: check_succeeded_def ex_check_def)
  have "loop_owned 0 (''c/a'', 1) ex_cfg {?e} ms s \<Longrightarrow> (t, SignalReady n g b) \<in> set ms
      \<Longrightarrow> t \<noteq> None \<Longrightarrow> n = ''c/a'' \<and> g = 1 \<and> \<not> b" for t n g b s
    using late by (induction ms arbitrary: s) (auto simp: own_action_def)
  with own tags have "\<forall>n g b. SignalReady n g b \<in> set (map snd ms) \<longrightarrow> n = ''c/a'' \<and> g = 1 \<and> \<not> b"
    by fastforce
  with run show ?thesis by blast
qed

section \<open>One execution\<close>

lemma setWorkerReady_False:
  "ready (get_state (snd (setWorkerReady n g False s)) m) \<Longrightarrow> ready (get_state s m)"
  by (auto simp: setWorkerReady_def section_simps get_state_def gm_set_lookup split: option.splits if_splits)


lemma observe_state [simp]:
  "get_state (startCheckObservation w k t s) m = get_state s m"
  "get_state (endCheckObservation w k q b t s) m = get_state s m"
  by (simp_all add: startCheckObservation_def endCheckObservation_def Let_def)

definition late :: "ctx \<Rightarrow> check_env \<Rightarrow> sys \<Rightarrow> bool" where
  "late c e s \<longleftrightarrow> ck_ctxErr e \<noteq> None \<or> ctx_Err c s \<noteq> None"

lemma late_body:
  assumes "run_check cfg e s = (r, s1)" and "r = None \<or> late c e s1"
    and "ready (get_state (snd (check_body c h cfg e s)) m)"
  shows "ready (get_state s1 m)"
  using assms
  by (auto simp: check_body_def late_def Let_def case_prod_beta dest: setWorkerReady_False
      split: option.splits if_splits)

text \<open>C19: a late result is not applied. If the check panicked, or its context or the loop's had
  ended when it returned, the execution makes no worker ready: whoever is ready after it was
  ready before its result was looked at.\<close>

theorem late_result_not_applied:
  assumes "run_check cfg e (startCheckObservation (fst h) (clc_kind cfg) (r_now s) s) = (r, s1)"
    and "r = None \<or> ck_ctxErr e \<noteq> None \<or> ctx_Err c s1 \<noteq> None"
    and "ready (get_state (snd (runCheckLoopOnce c h cfg e s)) m)"
  shows "ready (get_state s1 m)"
  by (rule late_body [OF assms(1)])
     (use assms(2,3) in \<open>simp_all add: late_def runCheckLoopOnce_def Let_def case_prod_beta\<close>)

theorem late_result_not_applied_witness:
  "\<not> ready (get_state (snd (runCheckLoopOnce 0 (''c/a'', 0) ex_cfg
       (ex_check (Some CtxDeadlineExceeded)) ex_registered)) ''c/a'')"
proof
  assume r: "ready (get_state (snd (runCheckLoopOnce 0 (''c/a'', 0) ex_cfg
       (ex_check (Some CtxDeadlineExceeded)) ex_registered)) ''c/a'')"
  let ?s = "startCheckObservation ''c/a'' CheckKindChecker (r_now ex_registered) ex_registered"
  have "run_check ex_cfg (ex_check (Some CtxDeadlineExceeded))
      (startCheckObservation (fst (''c/a'', 0 :: 64 word)) (clc_kind ex_cfg) (r_now ex_registered)
        ex_registered)
    = (ck_result (ex_check (Some CtxDeadlineExceeded)), ?s)"
    by (simp add: ex_check_defs)
  from late_result_not_applied [OF this _ r] have "ready (get_state ex_registered ''c/a'')"
    by (simp add: ex_check_def)
  then show False
    by (simp add: get_state_def ex_registered_def ex_with_def new_workerState_def zero_workerState_def)
qed

text \<open>When an execution panicked: the check did, or the callback its kind uses.\<close>

definition check_panicked :: "checkLoopConfig \<Rightarrow> check_env \<Rightarrow> bool" where
  "check_panicked cfg e \<longleftrightarrow>
     ck_result e = None
     \<or> ck_callbackPanics e
       \<and> (if clc_kind cfg = CheckKindChecker then clc_resultObserver cfg else clc_summaryObserver cfg)"

text \<open>The readiness signal of an execution, in the state its check returned in.\<close>

definition readiness_signal ::
  "handle \<Rightarrow> checkLoopConfig \<Rightarrow> check_env \<Rightarrow> sys \<Rightarrow> error option \<times> sys" where
  "readiness_signal h cfg e s =
     (if clc_readyOnSuccess cfg then setWorkerReady (fst h) (snd h) (check_succeeded e) s else (None, s))"

text \<open>Which event an execution must end with: a panic first, then the end of the loop, then a
  refused signal, then the check's own deadline or cancellation, then its result.\<close>

definition true_outcome :: "ctx \<Rightarrow> handle \<Rightarrow> checkLoopConfig \<Rightarrow> check_env \<Rightarrow> sys \<Rightarrow> CheckOutcome \<Rightarrow> bool" where
  "true_outcome c h cfg e s1 q \<longleftrightarrow>
     (let live = (\<not> check_panicked cfg e \<and> ctx_Err c s1 = None);
          accepted = (live \<and> fst (readiness_signal h cfg e s1) = None)
      in (q = CheckOutcomePanic \<longleftrightarrow> check_panicked cfg e)
         \<and> (q = CheckOutcomeError \<longleftrightarrow> live \<and> \<not> accepted)
         \<and> (q = CheckOutcomeTimeout \<longleftrightarrow> accepted \<and> ck_ctxErr e = Some CtxDeadlineExceeded)
         \<and> (q = CheckOutcomeCanceled \<longleftrightarrow>
              \<not> check_panicked cfg e \<and> ctx_Err c s1 \<noteq> None
              \<or> accepted \<and> ck_ctxErr e \<noteq> None \<and> ck_ctxErr e \<noteq> Some CtxDeadlineExceeded)
         \<and> (q = CheckOutcomeReady \<longleftrightarrow> accepted \<and> check_succeeded e)
         \<and> (q = CheckOutcomeNotReady \<longleftrightarrow> accepted \<and> ck_ctxErr e = None \<and> \<not> check_succeeded e))"

text \<open>What the loop is told: the panic error, the end of its context, the refusal of the
  signal, the failure to report when the configuration asks for it, else nil.\<close>

definition true_error :: "ctx \<Rightarrow> handle \<Rightarrow> checkLoopConfig \<Rightarrow> check_env \<Rightarrow> sys \<Rightarrow> error option" where
  "true_error c h cfg e s1 =
     (if check_panicked cfg e
      then Some (case clc_panicErr cfg of Some pe \<Rightarrow> pe | None \<Rightarrow> Sentinel ErrCheckLoopPanicked)
      else if ctx_Err c s1 \<noteq> None then ctx_Err c s1
      else if fst (readiness_signal h cfg e s1) \<noteq> None then fst (readiness_signal h cfg e s1)
      else if clc_reportFailureOnNotReady cfg \<and> \<not> check_succeeded e
      then Some (case ck_ctxErr e of Some ce \<Rightarrow> Sentinel ce
                                   | None \<Rightarrow> checkLoopNotReadyError (the (ck_result e)))
      else None)"

lemma run_check_panicked: "fst (run_check cfg e s) = (if check_panicked cfg e then None else ck_result e)"
  by (auto simp: run_check_def check_panicked_def Let_def split: option.split)

lemma check_body_true:
  assumes "check_body c h cfg e s = ((q, k, er), s2)" and "s1 = snd (run_check cfg e s)"
  shows "true_outcome c h cfg e s1 q \<and> er = true_error c h cfg e s1 \<and> (k \<longleftrightarrow> er = None)
    \<and> s2 = (if check_panicked cfg e \<or> ctx_Err c s1 \<noteq> None then s1 else snd (readiness_signal h cfg e s1))"
proof (cases "check_panicked cfg e")
  case True
  with assms run_check_panicked [of cfg e s] show ?thesis
    by (cases "run_check cfg e s")
       (auto simp: check_body_def true_outcome_def true_error_def check_succeeded_def
         simp del: option.case_eq_if)
next
  case False
  then obtain oc where oc: "ck_result e = Some oc" by (auto simp: check_panicked_def)
  have rc: "run_check cfg e s = (Some oc, s1)"
    using run_check_panicked [of cfg e s] False oc assms(2) by (simp add: prod_eq_iff)
  have ok: "check_succeeded e = (ck_ctxErr e = None \<and> clo_ready oc)" by (simp add: check_succeeded_def oc)
  show ?thesis
  proof (cases "ctx_Err c s1")
    case (Some x)
    then have "q = CheckOutcomeCanceled" "\<not> k" "er = Some x" "s2 = s1"
      using assms(1) by (simp_all add: check_body_def rc)
    with Some False show ?thesis by (simp add: true_outcome_def true_error_def Let_def)
  next
    case None
    obtain err s3 where sig: "readiness_signal h cfg e s1 = (err, s3)"
      by (cases "readiness_signal h cfg e s1")
    then have raw: "(if clc_readyOnSuccess cfg then setWorkerReady (fst h) (snd h)
        (ck_ctxErr e = None \<and> clo_ready oc) s1 else (None, s1)) = (err, s3)"
      by (simp only: readiness_signal_def ok)
    show ?thesis
      using assms(1) False None oc
      unfolding check_body_def rc true_outcome_def true_error_def sig ok prod.case option.case Let_def raw
      by (cases err; cases "ck_ctxErr e")
         (auto simp: oc ok split: if_splits sentinel.splits)
  qed
qed

text \<open>C20: each execution is observed truthfully, and what it does follows the same facts. Its
  last event is one \<open>CheckEndEvent\<close> of its worker and kind. The outcome of the event is
  panic exactly when the check or its callback panicked; canceled exactly when the loop's context
  had ended, or the check's was cancelled; error exactly when the runtime refused
  the readiness signal; timeout exactly when the check's deadline had passed; ready or not ready
  exactly when a result came in time and says so. The event says that the loop continues exactly when the
  execution returns nil; the error returned is the panic error, the context's, the refusal, or the
  failure to report; and the workers' records are those after the readiness signal, if one
  was due, and otherwise those the check left.\<close>

theorem check_observed:
  "let s1 = snd (run_check cfg e (startCheckObservation (fst h) (clc_kind cfg) (r_now s) s));
       err = fst (runCheckLoopOnce c h cfg e s);
       s' = snd (runCheckLoopOnce c h cfg e s)
   in (\<exists>prior ev. r_calls s' = prior @ [EndCheck ev]
         \<and> cke_worker ev = fst h \<and> cke_kind ev = clc_kind cfg \<and> cke_startedAt ev = r_now s
         \<and> true_outcome c h cfg e s1 (cke_outcome ev)
         \<and> (cke_loopContinues ev \<longleftrightarrow> err = None))
      \<and> err = true_error c h cfg e s1
      \<and> r_workerStates s' =
          r_workerStates (if check_panicked cfg e \<or> ctx_Err c s1 \<noteq> None then s1
                          else snd (readiness_signal h cfg e s1))"
proof -
  let ?s = "startCheckObservation (fst h) (clc_kind cfg) (r_now s) s"
  obtain q k er s2 where b: "check_body c h cfg e ?s = ((q, k, er), s2)"
    by (cases "check_body c h cfg e ?s") auto
  show ?thesis
    using check_body_true [OF b refl] by (simp add: runCheckLoopOnce_def b endCheckObservation_def Let_def)
qed

text \<open>A ready result returned in time, by a loop that leaves the worker's readiness alone.\<close>

theorem check_observed_witness:
  "\<exists>prior ev. r_calls (snd (runCheckLoopOnce 0 (''c/a'', 0) (ex_cfg\<lparr>clc_readyOnSuccess := False\<rparr>)
       (ex_check None) ex_registered)) = prior @ [EndCheck ev]
     \<and> cke_worker ev = ''c/a'' \<and> cke_outcome ev = CheckOutcomeReady \<and> cke_loopContinues ev"
proof -
  let ?cfg = "ex_cfg\<lparr>clc_readyOnSuccess := False\<rparr>" and ?e = "ex_check None"
  let ?s1 = "startCheckObservation ''c/a'' (clc_kind ?cfg) (r_now ex_registered) ex_registered"
  have "run_check ?cfg ?e ?s1 = (ck_result ?e, ?s1)" by (simp add: ex_check_defs)
  moreover have "ctx_Err 0 ?s1 = None" "\<not> check_panicked ?cfg ?e" "check_succeeded ?e"
      "\<not> clc_reportFailureOnNotReady ?cfg" "\<not> clc_readyOnSuccess ?cfg"
    by (simp_all add: ex_check_defs check_panicked_def check_succeeded_def ctx_Err_def
        startCheckObservation_def ex_registered_def ex_with_def)
  ultimately show ?thesis
    using check_observed [of ?cfg ?e "(''c/a'', 0)" ex_registered 0]
    by (simp add: Let_def true_outcome_def true_error_def readiness_signal_def) auto
qed

section \<open>The loop\<close>

lemma select_stops:
  "select_timer c script tm s = (Finished (Some e), s') \<Longrightarrow> ctx_Err c s' = Some e"
  by (auto simp: select_timer_def Let_def split: if_splits option.splits)

lemma turns_nil: "check_turns c h cfg es s = (Finished None, s') \<Longrightarrow> ctx_Err c s' \<noteq> None"
proof (induction es arbitrary: s)
  case (Cons e es)
  then show ?case
    by (auto simp: waitCheckLoopDelay_def dest!: select_stops
        split: prod.splits outcome.splits option.splits)
qed simp

text \<open>The check loop returns nil only because its context has ended, so its \<open>LoopWorker\<close>
  classifies such an exit as a requested stop; otherwise it returns an error or runs on.\<close>

lemma check_loop_nil_means_cancelled:
  assumes "runCheckLoop c h cfg first es s = (Finished None, s')"
  shows "ctx_Err c s' \<noteq> None \<and> after_loop h True None = Some (LoopFinish None)"
proof -
  have "ctx_Err c s' \<noteq> None"
    using assms turns_nil [of c h cfg es _ s']
    by (auto simp: runCheckLoop_def waitCheckLoopDelay_def dest!: select_stops
        split: prod.splits outcome.splits option.splits if_splits)
  then show ?thesis by (simp add: after_loop_def intentionalLoopStop_def)
qed

text \<open>The options an application can pass.\<close>

definition check_options :: "CheckLoopOption set" where
  "check_options =
     range WithCheckInterval \<union> range WithCheckInitialDelay \<union> range WithCheckRunImmediately
     \<union> range WithCheckTimeout \<union> range WithCheckJitter \<union> range WithCheckReadyOnSuccess
     \<union> range WithCheckReportFailureOnNotReady \<union> range WithCheckResultObserver
     \<union> range WithCheckSummaryObserver"

lemma check_option_interval:
  "f \<in> check_options \<Longrightarrow> 0 < clc_interval cfg \<Longrightarrow> 0 < clc_interval (f cfg)"
  by (auto simp: check_options_def WithCheckInterval_def WithCheckInitialDelay_def
      WithCheckRunImmediately_def WithCheckTimeout_def WithCheckJitter_def
      WithCheckReadyOnSuccess_def WithCheckReportFailureOnNotReady_def
      WithCheckResultObserver_def WithCheckSummaryObserver_def)

lemma check_options_interval:
  "set opts \<subseteq> insert None (Some ` check_options) \<Longrightarrow> 0 < clc_interval cfg
   \<Longrightarrow> 0 < clc_interval (apply_options opts cfg)"
  unfolding apply_options_def
proof (induction opts arbitrary: cfg)
  case (Cons opt opts)
  then have "0 < clc_interval (case opt of None \<Rightarrow> cfg | Some f \<Rightarrow> f cfg)"
    using check_option_interval by (auto split: option.split)
  with Cons show ?case by simp
qed simp

text \<open>The wait between executions is always positive. No combination of options, jitter
  included, makes the loop spin.\<close>

lemma check_wait_positive:
  assumes "set opts \<subseteq> insert None (Some ` check_options)"
  shows "0 < nextCheckLoopDelay (fst (snd (NewCheckLoop checker opts)))"
  using check_options_interval [OF assms, of defaultCheckLoopConfig]
  by (simp add: nextCheckLoopDelay_def NewCheckLoop_def newCheckLoopConfig_def Let_def
      defaultCheckLoopConfig_def defaultCheckLoopInterval_def second_def split: option.splits)

end
