(* ===== verification/Worker_Handle.thy ===== *)
theory Worker_Handle
  imports Check_Loop
begin

text \<open>
  \<open>worker.go\<close>: the handle worker code holds on the runtime. A handle names its worker and the
  generation it was made for; every call goes to the runtime's section of that name, which
  checks the generation. A context carries at most one handle, the innermost one.
\<close>

record workerControlHandle =
  wh_name :: string
  wh_generation :: generation
  wh_ctx :: "ctx option"

text \<open>The context of a handle is kept for correlation only: \<open>observerContext\<close> detaches it from
  cancellation, so no call of the handle reads its error.\<close>

definition observerContext :: "ctx option \<Rightarrow> ctx option" where
  "observerContext c = (case c of None \<Rightarrow> None | Some x \<Rightarrow> Some x)"

definition workerRuntimeHandle :: "ctx option \<Rightarrow> string \<Rightarrow> generation \<Rightarrow> workerControlHandle" where
  "workerRuntimeHandle c name g = \<lparr>wh_name = name, wh_generation = g, wh_ctx = observerContext c\<rparr>"

text \<open>The values of a context, innermost first; \<open>None\<close> is the nil context.\<close>

definition withWorkerRuntime ::
  "workerControlHandle list \<Rightarrow> workerControlHandle \<Rightarrow> workerControlHandle list" where
  "withWorkerRuntime c h = h # c"

definition WorkerRuntimeFromContext ::
  "workerControlHandle list option \<Rightarrow> workerControlHandle option" where
  "WorkerRuntimeFromContext c =
     (case c of None \<Rightarrow> None | Some [] \<Rightarrow> None | Some (h # _) \<Rightarrow> Some h)"

definition workerControlHandle_Name :: "workerControlHandle \<Rightarrow> string" where
  "workerControlHandle_Name h = wh_name h"

definition workerControlHandle_Status :: "workerControlHandle \<Rightarrow> sys \<Rightarrow> WorkerStatus" where
  "workerControlHandle_Status h s =
     (case workerStatus (wh_name h) s of None \<Rightarrow> toWorkerStatus zero_workerState | Some st \<Rightarrow> st)"

definition workerControlHandle_SetReady ::
  "workerControlHandle \<Rightarrow> bool \<Rightarrow> sys \<Rightarrow> error option \<times> sys" where
  "workerControlHandle_SetReady h rdy s = setWorkerReady (wh_name h) (wh_generation h) rdy s"

definition workerControlHandle_SetAcceptingWork ::
  "workerControlHandle \<Rightarrow> bool \<Rightarrow> sys \<Rightarrow> error option \<times> sys" where
  "workerControlHandle_SetAcceptingWork h accepting s =
     setWorkerAcceptingWork (wh_name h) (wh_generation h) accepting s"

definition workerControlHandle_ReportFailure ::
  "workerControlHandle \<Rightarrow> error option \<Rightarrow> sys \<Rightarrow> error option \<times> sys" where
  "workerControlHandle_ReportFailure h err s =
     reportWorkerFailure (wh_name h) (wh_generation h) err s"

definition workerControlHandle_startCheckObservation ::
  "workerControlHandle \<Rightarrow> CheckKind \<Rightarrow> time \<Rightarrow> sys \<Rightarrow> sys" where
  "workerControlHandle_startCheckObservation h kind startedAt s =
     startCheckObservation (wh_name h) kind startedAt s"

definition workerControlHandle_endCheckObservation ::
  "workerControlHandle \<Rightarrow> CheckKind \<Rightarrow> CheckOutcome \<Rightarrow> bool \<Rightarrow> time \<Rightarrow> sys \<Rightarrow> sys" where
  "workerControlHandle_endCheckObservation h kind result continues startedAt s =
     endCheckObservation (wh_name h) kind result continues startedAt s"

definition workerControlHandle_reportLoopCleanupFailure ::
  "workerControlHandle \<Rightarrow> error option \<Rightarrow> bool \<Rightarrow> sys \<Rightarrow> sys" where
  "workerControlHandle_reportLoopCleanupFailure h err panicked s =
     observeLoopCleanupFailure (wh_name h) err panicked s"

definition workerControlHandle_crashOnLoopCleanupPanic :: "workerControlHandle \<Rightarrow> sys \<Rightarrow> bool" where
  "workerControlHandle_crashOnLoopCleanupPanic h s =
     (case map_of (r_workerConfigs s) (wh_name h) of
        None \<Rightarrow> False | Some cfg \<Rightarrow> panicPolicy cfg = PanicPolicyCrash)"

text \<open>\<open>None\<close> is the background context.\<close>

definition workerControlHandle_context :: "workerControlHandle \<Rightarrow> ctx option" where
  "workerControlHandle_context h = wh_ctx h"

lemma handle_found [simp]:
  "WorkerRuntimeFromContext (Some (withWorkerRuntime c h)) = Some h"
  by (simp add: WorkerRuntimeFromContext_def withWorkerRuntime_def)

text \<open>The calls of a handle are actions of the environment the runtime is proved against, and
  the handle a worker finds in its context is the innermost one, that of its own call.\<close>

lemma handle_calls_are_actions:
  "snd (workerControlHandle_SetReady h b s) = act (SignalReady (wh_name h) (wh_generation h) b) s
   \<and> snd (workerControlHandle_SetAcceptingWork h b s) =
       act (SignalAccepting (wh_name h) (wh_generation h) b) s
   \<and> snd (workerControlHandle_ReportFailure h e s) =
       act (SignalFailure (wh_name h) (wh_generation h) e) s
   \<and> workerControlHandle_reportLoopCleanupFailure h e b s = act (LoopCleanupFailed (wh_name h) e b) s
   \<and> WorkerRuntimeFromContext (Some (withWorkerRuntime c h)) = Some h"
  by (simp add: workerControlHandle_SetReady_def workerControlHandle_SetAcceptingWork_def
      workerControlHandle_ReportFailure_def workerControlHandle_reportLoopCleanupFailure_def)

end
