(* ===== verification/Opskit_Surface.thy ===== *)
theory Opskit_Surface
  imports Worker_Handle
begin

text \<open>
  The two Opskit surfaces: \<open>command.go\<close>, which runs an Opskit command handler as a Workerkit
  command, and \<open>opskit.go\<close>, which presents a runtime as an Opskit component (status, readiness
  with one item per worker, inspection).

  Opskit itself is not part of the module: its types are records of the fields used here, its
  handlers and \<open>json.Marshal\<close> are the environment's answers.
\<close>

section \<open>Opskit's types\<close>

datatype opskit_State =
    OpReady | OpNotReady | OpInitializing | OpStopped | OpFailed | OpUnknown | OpOther string

datatype ReadinessImpact = ImpactBlocking | ImpactNonBlocking

record CommandDescriptor =
  cd_name :: string
  cd_description :: string
  cd_payloadKind :: string
  cd_dangerous :: bool
  cd_idempotent :: bool
  cd_attributes :: "attribute list"

text \<open>The result of an Opskit handler; \<open>ocr_encoded\<close> is nil without a \<open>Result\<close>, and otherwise
  what marshalling it yields.\<close>

record opskit_result =
  ocr_accepted :: bool
  ocr_state :: opskit_State
  ocr_message :: string
  ocr_failure :: "failure option"
  ocr_encoded :: "(error + string) option"

section \<open>Commands\<close>

definition CommandFromOpskit :: "CommandDescriptor \<Rightarrow> nat option \<Rightarrow> CommandSpec" where
  "CommandFromOpskit d handler =
     \<lparr>csp_name = cd_name d, csp_description = cd_description d, csp_payloadKind = cd_payloadKind d,
      csp_dangerous = cd_dangerous d, csp_idempotent = cd_idempotent d,
      csp_attributes = cloneCommandAttributes (cd_attributes d), csp_handler = handler\<rparr>"

definition newOpskitCommandAdaptationError :: "sentinel \<Rightarrow> failure \<Rightarrow> error \<Rightarrow> error" where
  "newOpskitCommandAdaptationError kind f cause = OpskitCommandError f '''' (Some kind) (Some cause)"

definition newOpskitCommandError :: "sentinel \<Rightarrow> opskit_result \<Rightarrow> error" where
  "newOpskitCommandError kind result =
     OpskitCommandError (case ocr_failure result of None \<Rightarrow> zero_failure | Some f \<Rightarrow> f)
       (ocr_message result) (Some kind) None"

definition FailureCodeOpskitResultEncodingFailed :: string where
  "FailureCodeOpskitResultEncodingFailed = ''result_encoding_failed''"

text \<open>The adapter's \<open>HandleCommand\<close>: \<open>handler\<close> is the Opskit handler as the function from the
  request it is given to its result, \<open>ctxErr\<close> is \<open>ctx.Err()\<close> after it has returned.\<close>

definition opskitCommandHandler_HandleCommand ::
  "(CommandRequest \<Rightarrow> opskit_result) option \<Rightarrow> error option \<Rightarrow> CommandRequest
   \<Rightarrow> error + CommandResult" where
  "opskitCommandHandler_HandleCommand handler ctxErr req =
     (case handler of
        None \<Rightarrow> Inl (errors_new ''opskit command handler must not be nil'')
      | Some h \<Rightarrow>
          (let result = h req
           in case ctxErr of
                Some e \<Rightarrow> Inl e
              | None \<Rightarrow>
                  if ocr_state result = OpFailed then Inl (newOpskitCommandError ErrOpsCommandFailed result)
                  else if \<not> ocr_accepted result
                  then Inl (newOpskitCommandError ErrOpsCommandRejected result)
                  else if ocr_failure result \<noteq> None \<and> ocr_failure result \<noteq> Some zero_failure
                  then Inl (newOpskitCommandError ErrOpsCommandFailed result)
                  else (case ocr_encoded result of
                          None \<Rightarrow> Inr \<lparr>res_message = ocr_message result, res_payload = ''''\<rparr>
                        | Some (Inl err) \<Rightarrow>
                            Inl (newOpskitCommandAdaptationError ErrOpsCommandFailed
                                   \<lparr>f_code = FailureCodeOpskitResultEncodingFailed,
                                    f_message = ''opskit command result encoding failed''\<rparr> err)
                        | Some (Inr encoded) \<Rightarrow>
                            Inr \<lparr>res_message = ocr_message result, res_payload = encoded\<rparr>)))"

text \<open>The methods of a non-nil \<open>OpskitCommandError\<close>.\<close>

definition OpskitCommandError_Error :: "failure \<Rightarrow> string \<Rightarrow> sentinel option \<Rightarrow> string" where
  "OpskitCommandError_Error f msg kind =
     (let detail = (if f_message f = '''' then msg else f_message f)
      in case kind of
           None \<Rightarrow> if detail \<noteq> '''' then detail else ''opskit command failed''
         | Some k \<Rightarrow> if detail = '''' then sentinel_Error k else sentinel_Error k @ '': '' @ detail)"

definition OpskitCommandError_Unwrap :: "sentinel option \<Rightarrow> error option" where
  "OpskitCommandError_Unwrap kind = map_option Sentinel kind"

definition OpskitCommandError_Cause :: "error option \<Rightarrow> error option" where
  "OpskitCommandError_Cause cause = cause"

section \<open>The runtime as a component\<close>

record ComponentInfo =
  coi_name :: string
  coi_kind :: string
  coi_description :: string
  coi_labels :: "attribute list"

definition ComponentInfo_of :: "'a runtime_scheme \<Rightarrow> ComponentInfo" where
  "ComponentInfo_of r =
     \<lparr>coi_name = r_identity r, coi_kind = ''worker_runtime'', coi_description = ''Workerkit runtime'',
      coi_labels = [(''kit'', ''workerkit'')]\<rparr>"

definition opskitStateFromRuntimeStatus :: "LifecycleState \<Rightarrow> bool \<Rightarrow> opskit_State" where
  "opskitStateFromRuntimeStatus state rdy =
     (case state of
        StateRegistered \<Rightarrow> OpStopped
      | StateStarting \<Rightarrow> OpInitializing
      | StateRunning \<Rightarrow> if rdy then OpReady else OpNotReady
      | StateDraining \<Rightarrow> OpNotReady
      | StateStopping \<Rightarrow> OpNotReady
      | StateStopped \<Rightarrow> OpStopped
      | StateFailed \<Rightarrow> OpFailed)"

definition opskitWorkerReady :: "WorkerStatus \<Rightarrow> bool" where
  "opskitWorkerReady st \<longleftrightarrow> ws_state st = StateRunning \<and> ws_ready st"

definition opskitStateFromWorkerStatus :: "WorkerStatus \<Rightarrow> bool \<Rightarrow> opskit_State" where
  "opskitStateFromWorkerStatus st rdy = opskitStateFromRuntimeStatus (ws_state st) rdy"

definition opskitRuntimeStatusMessage :: "RuntimeStatus \<Rightarrow> string" where
  "opskitRuntimeStatusMessage st =
     (case rs_state st of
        StateFailed \<Rightarrow> ''runtime failed''
      | StateStopped \<Rightarrow> ''runtime stopped''
      | state \<Rightarrow>
          (if rs_ready st then ''runtime ready: state='' else ''runtime not ready: state='')
            @ lifecycle_string state)"

definition opskitWorkerStatusMessage :: "WorkerStatus \<Rightarrow> bool \<Rightarrow> string" where
  "opskitWorkerStatusMessage st rdy =
     (if rdy then ''worker ready: state='' else ''worker not ready: state='')
       @ lifecycle_string (ws_state st)"

definition opskitRuntimeUpdatedAt :: "RuntimeStatus \<Rightarrow> time option" where
  "opskitRuntimeUpdatedAt st = map_option lt_at (rs_lastTransition st)"

definition itoa :: "int \<Rightarrow> string" where
  "itoa i = (if i < 0 then CHR ''-'' # decimal (nat (- i)) else decimal (nat i))"

definition opskitRuntimeStatusAttributes :: "RuntimeStatus \<Rightarrow> ReadinessPolicy \<Rightarrow> attribute list" where
  "opskitRuntimeStatusAttributes st policy =
     [(''runtime_state'', lifecycle_string (rs_state st)),
      (''worker_count'', itoa (int (rs_workers st))),
      (''in_flight'', itoa (rs_inFlight st)),
      (''readiness_policy'', ReadinessPolicy_string policy)]"

record opskit_Status =
  os_state :: opskit_State
  os_ready :: bool
  os_message :: string
  os_updatedAt :: "time option"
  os_attributes :: "attribute list"

definition Runtime_readinessPolicy :: "'a runtime_scheme \<Rightarrow> ReadinessPolicy" where
  "Runtime_readinessPolicy r = readinessPolicy (r_config r)"

definition Runtime_Status :: "'a runtime_scheme \<Rightarrow> opskit_Status" where
  "Runtime_Status r =
     (let st = RuntimeStatus_of r
      in \<lparr>os_state = opskitStateFromRuntimeStatus (rs_state st) (rs_ready st),
          os_ready = rs_ready st, os_message = opskitRuntimeStatusMessage st,
          os_updatedAt = opskitRuntimeUpdatedAt st,
          os_attributes = opskitRuntimeStatusAttributes st (Runtime_readinessPolicy r)\<rparr>)"

section \<open>Readiness\<close>

record ReadinessItem =
  ri_name :: string
  ri_kind :: string
  ri_impact :: ReadinessImpact
  ri_ready :: bool
  ri_state :: opskit_State
  ri_message :: string

record opskit_Readiness =
  or_ready :: bool
  or_reason :: string
  or_items :: "ReadinessItem list"

definition opskitReadinessImpact :: "ReadinessPolicy \<Rightarrow> workerConfig \<Rightarrow> ReadinessImpact" where
  "opskitReadinessImpact policy cfg =
     (if policy = ReadyWhenAllWorkersReady \<or> contributesToReadiness cfg
         \<or> failurePolicy cfg = FailurePolicyMarkRuntimeUnready
         \<or> failurePolicy cfg = FailurePolicyFailRuntime
      then ImpactBlocking else ImpactNonBlocking)"

definition opskit_item :: "'a runtime_scheme \<Rightarrow> string \<Rightarrow> ReadinessItem" where
  "opskit_item r name =
     (let st = toWorkerStatus (get_state r name); rdy = opskitWorkerReady st
      in \<lparr>ri_name = ws_localName st, ri_kind = ''worker'',
          ri_impact = opskitReadinessImpact (readinessPolicy (r_config r)) (get_config r name),
          ri_ready = rdy, ri_state = opskitStateFromWorkerStatus st rdy,
          ri_message = opskitWorkerStatusMessage st rdy\<rparr>)"

definition opskitReadinessSnapshot :: "'a runtime_scheme \<Rightarrow> RuntimeStatus \<times> ReadinessItem list" where
  "opskitReadinessSnapshot r = (RuntimeStatus_of r, map (opskit_item r) (r_workerOrder r))"

definition Runtime_Readiness :: "'a runtime_scheme \<Rightarrow> opskit_Readiness" where
  "Runtime_Readiness r =
     (let (st, items) = opskitReadinessSnapshot r
      in \<lparr>or_ready = rs_ready st,
          or_reason = (if \<not> rs_ready st
                       then ''runtime not ready: state='' @ lifecycle_string (rs_state st)
                       else ''runtime ready''),
          or_items = items\<rparr>)"

section \<open>Inspection\<close>

record runtimeInspectionWorkerStatus =
  iws_state :: LifecycleState
  iws_ready :: bool
  iws_acceptingWork :: bool
  iws_inFlight :: int
  iws_lastTransition :: "LifecycleTransition option"
  iws_lastFailureAt :: "time option"
  iws_lastCommandFailureAt :: "time option"
  iws_lastCommandFailureCommand :: string

record runtimeInspectionWorker =
  iw_qualifiedName :: string
  iw_name :: string
  iw_description :: string
  iw_status :: runtimeInspectionWorkerStatus

record opskit_Inspection =
  in_identity :: string
  in_status :: RuntimeStatus
  in_policy :: ReadinessPolicy
  in_workers :: "runtimeInspectionWorker list"
  in_commands :: "CommandInfo list gomap"
  in_attributes :: "attribute list"

definition runtimeInspectionWorkerStatusFromStatus ::
  "WorkerStatus \<Rightarrow> runtimeInspectionWorkerStatus" where
  "runtimeInspectionWorkerStatusFromStatus st =
     \<lparr>iws_state = ws_state st, iws_ready = ws_ready st, iws_acceptingWork = ws_acceptingWork st,
      iws_inFlight = ws_inFlight st, iws_lastTransition = ws_lastTransition st,
      iws_lastFailureAt = map_option fi_at (ws_lastFailure st),
      iws_lastCommandFailureAt = map_option cfi_at (ws_lastCommandFailure st),
      iws_lastCommandFailureCommand =
        (case ws_lastCommandFailure st of None \<Rightarrow> '''' | Some f \<Rightarrow> cfi_command f)\<rparr>"

definition runtimeInspectionWorkerFromSnapshot :: "WorkerSnapshot \<Rightarrow> runtimeInspectionWorker" where
  "runtimeInspectionWorkerFromSnapshot sn =
     \<lparr>iw_qualifiedName = sn_qualifiedName sn, iw_name = sn_name sn,
      iw_description = sn_description sn,
      iw_status = runtimeInspectionWorkerStatusFromStatus (sn_status sn)\<rparr>"

text \<open>\<open>Inspect\<close> takes the mutex once for the status, once for the workers, and once for the
  commands of each worker: others act in between (\<open>as\<close> after the status, \<open>bs\<close> before each
  worker's commands).\<close>

fun inspect_commands ::
  "action list list \<Rightarrow> WorkerSnapshot list \<Rightarrow> sys \<Rightarrow> CommandInfo list gomap \<times> sys" where
  "inspect_commands bs [] s = ([], s)"
| "inspect_commands bs (w # ws) s =
     (let s1 = (case bs of [] \<Rightarrow> s | b # _ \<Rightarrow> run b s);
          commands = (case Commands (sn_qualifiedName w) s1 of None \<Rightarrow> [] | Some cs \<Rightarrow> cs);
          (rest, s2) = inspect_commands (case bs of [] \<Rightarrow> [] | _ # bs' \<Rightarrow> bs') ws s1
      in ((sn_qualifiedName w, commands) # rest, s2))"

definition Runtime_Inspect ::
  "action list \<Rightarrow> action list list \<Rightarrow> sys \<Rightarrow> opskit_Inspection \<times> sys" where
  "Runtime_Inspect as bs s =
     (let st = RuntimeStatus_of s;
          s1 = run as s;
          workers = Workers s1;
          (commands, s2) = inspect_commands bs workers s1
      in (\<lparr>in_identity = r_identity s2, in_status = st, in_policy = Runtime_readinessPolicy s2,
           in_workers = map runtimeInspectionWorkerFromSnapshot workers, in_commands = commands,
           in_attributes = opskitRuntimeStatusAttributes st (Runtime_readinessPolicy s2)\<rparr>, s2))"

end
