(* ===== verification/Opskit_Claims.thy ===== *)
theory Opskit_Claims
  imports Opskit_Surface Example_Runtime
begin

text \<open>
  The properties of the two Opskit surfaces: how the result of an Opskit handler is accepted or
  presented as a failure, what the readiness items say of the runtime's readiness, and that
  failure text is not part of what a component publishes.
\<close>

section \<open>Commands\<close>

lemma adapted_code: "f_code (OpskitCommandError_OperationalFailure f m k) \<noteq> ''''"
  by (simp add: OpskitCommandError_OperationalFailure_def Let_def
      FailureCodeOpskitCommandRejected_def FailureCodeOpskitCommandFailed_def)

lemma adapted_message: "f_message (OpskitCommandError_OperationalFailure f m k) \<noteq> ''''"
  by (simp add: OpskitCommandError_OperationalFailure_def Let_def sentinel_Error_def
      split: option.split sentinel.split)

lemma adapted_presented:
  "operationalFailure (Some (OpskitCommandError f m k c)) fb =
     OpskitCommandError_OperationalFailure f m k"
  using adapted_code [of f m k] by (auto simp: operationalFailure_def zero_failure_def)

lemma adapted_keeps:
  "f_code f \<noteq> '''' \<Longrightarrow> f_message f \<noteq> '''' \<Longrightarrow> OpskitCommandError_OperationalFailure f m k = f"
  by (simp add: OpskitCommandError_OperationalFailure_def)

lemmas adapt_defs = opskitCommandHandler_HandleCommand_def newOpskitCommandError_def
  newOpskitCommandAdaptationError_def

text \<open>What an Opskit command's result becomes. It succeeds exactly when the context is alive
  and the handler accepted the request without a failed state or a failure, and its value could
  be encoded; then the message is the handler's. Otherwise the error is the context's, or an
  \<open>OpskitCommandError\<close> that is \<open>ErrOpsCommandRejected\<close> for a plain refusal and
  \<open>ErrOpsCommandFailed\<close> for everything else, never both.\<close>

lemma opskit_command_outcome:
  defines "ok \<equiv> \<lambda>res. ocr_state res \<noteq> OpFailed \<and> ocr_accepted res
      \<and> ocr_failure res \<in> {None, Some zero_failure} \<and> (\<forall>e. ocr_encoded res \<noteq> Some (Inl e))"
  shows "case opskitCommandHandler_HandleCommand (Some h) ctxErr req of
      Inr r \<Rightarrow> ctxErr = None \<and> ok (h req) \<and> res_message r = ocr_message (h req)
    | Inl e \<Rightarrow>
        (case ctxErr of
           Some ce \<Rightarrow> e = ce
         | None \<Rightarrow> \<not> ok (h req)
             \<and> errors_is ErrOpsCommandRejected e =
                 Some (ocr_state (h req) \<noteq> OpFailed \<and> \<not> ocr_accepted (h req))
             \<and> errors_is ErrOpsCommandFailed e =
                 Some (ocr_state (h req) = OpFailed \<or> ocr_accepted (h req)))"
  by (auto simp: adapt_defs ok_def Let_def split: option.splits sum.splits)

text \<open>C32: the public failure of an Opskit command. Whatever the handler answers, its failure is
  presented with a non-empty code and message, independently of the fallback and of the private
  encoding error; a code and message the handler gave are presented as given.\<close>

theorem opskit_failure_presented:
  assumes "opskitCommandHandler_HandleCommand (Some h) None req = Inl e"
  shows "f_code (operationalFailure (Some e) fb) \<noteq> '''' \<and> f_message (operationalFailure (Some e) fb) \<noteq> ''''
    \<and> operationalFailure (Some e) fb = operationalFailure (Some (redact e)) commandFailure
    \<and> (case ocr_failure (h req) of
         Some f \<Rightarrow> f_code f \<noteq> '''' \<longrightarrow> f_message f \<noteq> ''''
                   \<longrightarrow> operationalFailure (Some e) fb = f
       | None \<Rightarrow> True)"
proof -
  obtain f m k c where e: "e = OpskitCommandError f m (Some k) c"
    and f: "f = (case ocr_failure (h req) of None \<Rightarrow> zero_failure | Some f \<Rightarrow> f)
            \<or> ocr_failure (h req) \<in> {None, Some zero_failure}"
    using assms by (auto simp: adapt_defs Let_def split: option.splits sum.splits if_splits)
  show ?thesis
    using f adapted_code [of f m "Some k"] adapted_message [of f m "Some k"]
    by (auto simp: e adapted_presented adapted_keeps zero_failure_def split: option.splits)
qed

definition ex_refusal :: "CommandRequest \<Rightarrow> opskit_result" where
  "ex_refusal req = \<lparr>ocr_accepted = False, ocr_state = OpReady, ocr_message = ''busy'',
     ocr_failure = None, ocr_encoded = None\<rparr>"

definition ex_asked :: CommandRequest where
  "ex_asked = \<lparr>cq_worker = ''c/a'', cq_name = ''ping'', cq_payload = '''', cq_requestedAt = None\<rparr>"

theorem opskit_failure_presented_witness:
  "f_code (operationalFailure (Some (newOpskitCommandError ErrOpsCommandRejected (ex_refusal ex_asked)))
     commandFailure) \<noteq> ''''"
proof -
  have "opskitCommandHandler_HandleCommand (Some ex_refusal) None ex_asked =
      Inl (newOpskitCommandError ErrOpsCommandRejected (ex_refusal ex_asked))"
    by (simp add: opskitCommandHandler_HandleCommand_def ex_refusal_def)
  from opskit_failure_presented [OF this] show ?thesis by blast
qed

section \<open>Readiness\<close>

lemma snapshot_item [simp]:
  "ri_ready (opskit_item r n) \<longleftrightarrow> lifecycle (get_state r n) = StateRunning \<and> ready (get_state r n)"
  "ri_impact (opskit_item r n) = opskitReadinessImpact (readinessPolicy (r_config r)) (get_config r n)"
  "ri_state (opskit_item r n) =
     opskitStateFromRuntimeStatus (lifecycle (get_state r n)) (ri_ready (opskit_item r n))"
  by (simp_all add: opskit_item_def Let_def toWorkerStatus_def opskitWorkerReady_def
      opskitStateFromWorkerStatus_def)

lemma failed_item:
  "ri_state (opskit_item r n) = OpFailed \<longleftrightarrow> lifecycle (get_state r n) = StateFailed"
  by (simp add: opskitStateFromRuntimeStatus_def split: LifecycleState.split)

lemma Readiness_simps [simp]:
  "or_ready (Runtime_Readiness r) = rs_ready (r_status r)"
  "or_items (Runtime_Readiness r) = map (opskit_item r) (r_workerOrder r)"
  by (simp_all add: Runtime_Readiness_def opskitReadinessSnapshot_def RuntimeStatus_of_def)

lemma every_worker_order:
  assumes "rt_inv r"
  shows "every_worker r P \<longleftrightarrow> (\<forall>n \<in> set (r_workerOrder r). P n (get_state r n))"
    and "some_worker r P \<longleftrightarrow> (\<exists>n \<in> set (r_workerOrder r). P n (get_state r n))"
  by (auto simp: worker_entries [OF assms])


lemma reachable_ready:
  assumes "reachable s"
  shows "rt_inv s" and "rs_ready (r_status s) = deriveRuntimeReadiness s (statusFactsLocked s)"
  using sys_inv_rt [OF reachable_sys_inv [OF assms]]
    rt_inv_fresh [OF sys_inv_rt [OF reachable_sys_inv [OF assms]]]
  by (simp_all add: status_fresh_def)

text \<open>C24: the readiness items account for the runtime's readiness, in every reachable state. There is one
  item per worker, with its local name, in the order of registration. A ready runtime has no
  blocking item that is not ready, except of a worker that does not contribute under
  \<open>ReadyWhenContributingWorkersReady\<close> and has not failed. Only blocking items count: under
  \<open>ReadyWhenAllWorkersReady\<close> the runtime is ready exactly when it has a worker and every blocking
  item is ready, and every item is blocking; under \<open>ReadyWhenContributingWorkersReady\<close> with a contributing worker it is ready
  exactly when every blocking item is ready or of a worker that does not contribute and has not
  failed. Under either policy a runtime with a worker, all of whose items are ready, is ready.\<close>

theorem readiness_items_sound:
  assumes "reachable s"
  defines "ok \<equiv> \<lambda>n. ri_impact (opskit_item s n) = ImpactBlocking \<longrightarrow> ri_ready (opskit_item s n)"
    and "excused \<equiv> \<lambda>n. \<not> contributesToReadiness (get_config s n) \<and> ri_state (opskit_item s n) \<noteq> OpFailed"
  shows "map ri_name (or_items (Runtime_Readiness s)) =
      map (\<lambda>n. localName (get_state s n)) (r_workerOrder s)
    \<and> (or_ready (Runtime_Readiness s) \<longrightarrow>
        (\<forall>n \<in> set (r_workerOrder s). ok n
           \<or> readinessPolicy (r_config s) = ReadyWhenContributingWorkersReady \<and> excused n))
    \<and> (readinessPolicy (r_config s) = ReadyWhenAllWorkersReady \<longrightarrow>
        (or_ready (Runtime_Readiness s) \<longleftrightarrow>
           r_workerOrder s \<noteq> [] \<and> (\<forall>n \<in> set (r_workerOrder s). ok n)))
    \<and> (readinessPolicy (r_config s) = ReadyWhenContributingWorkersReady \<longrightarrow>
        (\<exists>n \<in> set (r_workerOrder s). contributesToReadiness (get_config s n)) \<longrightarrow>
        (or_ready (Runtime_Readiness s) \<longleftrightarrow> (\<forall>n \<in> set (r_workerOrder s). ok n \<or> excused n)))
    \<and> (readinessPolicy (r_config s) = ReadyWhenAllWorkersReady \<longrightarrow>
        (\<forall>n \<in> set (r_workerOrder s). ri_impact (opskit_item s n) = ImpactBlocking))
    \<and> (or_ready (Runtime_Readiness s) \<longrightarrow> readinessPolicy (r_config s) = ReadyWhenAllWorkersReady \<longrightarrow>
        (\<forall>it \<in> set (or_items (Runtime_Readiness s)). ri_ready it))
    \<and> ((\<forall>it \<in> set (or_items (Runtime_Readiness s)). ri_ready it) \<longrightarrow> r_workerOrder s \<noteq> [] \<longrightarrow>
        validReadinessPolicy (readinessPolicy (r_config s)) \<longrightarrow> or_ready (Runtime_Readiness s))"
proof -
  note inv = reachable_ready(1) [OF assms(1)]
  have ne: "r_workerStates s \<noteq> [] \<longleftrightarrow> r_workerOrder s \<noteq> []"
    using inv by (auto simp: rt_inv_def)
  have names: "map ri_name (or_items (Runtime_Readiness s)) =
      map (\<lambda>n. localName (get_state s n)) (r_workerOrder s)"
    by (simp add: opskit_item_def Let_def toWorkerStatus_def)
  show ?thesis
    unfolding names ok_def excused_def
    unfolding Readiness_simps reachable_ready(2) [OF assms(1)] derived_ready_eq every_worker_order [OF inv]
      ne failed_item fatal_worker_def unready_failure_def
    by (cases "readinessPolicy (r_config s)")
      (auto simp: opskitReadinessImpact_def validReadinessPolicy_def neq_Nil_conv split: if_splits)
qed

text \<open>Two registered workers, one contributing and not ready: one blocking item, not ready.\<close>

theorem readiness_items_sound_witness:
  "\<not> or_ready (Runtime_Readiness ex_registered)
   \<and> map ri_name (or_items (Runtime_Readiness ex_registered)) = [''a'', ''b'']"
proof -
  have "ri_impact (opskit_item ex_registered ''c/a'') = ImpactBlocking"
      "\<not> ri_ready (opskit_item ex_registered ''c/a'')"
      "contributesToReadiness (get_config ex_registered ''c/a'')"
      "readinessPolicy (r_config ex_registered) = ReadyWhenContributingWorkersReady"
      "r_workerOrder ex_registered = [''c/a'', ''c/b'']"
      "localName (get_state ex_registered ''c/a'') = ''a''" "localName (get_state ex_registered ''c/b'') = ''b''"
    by (simp_all add: opskitReadinessImpact_def ex_registered_def ex_with_def get_config_def ex_config_def
        defaultWorkerConfig_def defaultRuntimeConfig_def get_state_def new_workerState_def)
  with readiness_items_sound [OF ex_registered_reachable] show ?thesis
    by (simp del: Readiness_simps snapshot_item)
qed

section \<open>Failure text\<close>

text \<open>The worker records with the code and message of their failures erased.\<close>

definition blank_failure :: "workerState \<Rightarrow> workerState" where
  "blank_failure w = w
     \<lparr>lastFailure := map_option (\<lambda>i. i\<lparr>fi_code := '''', fi_message := ''''\<rparr>) (lastFailure w),
      lastCommandFailure :=
        map_option (\<lambda>i. i\<lparr>cfi_code := '''', cfi_message := ''''\<rparr>) (lastCommandFailure w)\<rparr>"

definition blank_failures :: "'a runtime_scheme \<Rightarrow> 'a runtime_scheme" where
  "blank_failures r = r\<lparr>r_workerStates := map (\<lambda>(n, w). (n, blank_failure w)) (r_workerStates r)\<rparr>"

lemma blank_get [simp]: "get_state (blank_failures r) n = blank_failure (get_state r n)"
proof -
  have "map_of (map (\<lambda>(n, w). (n, blank_failure w)) m) n = map_option blank_failure (map_of m n)" for m
    by (induction m) auto
  then show ?thesis
    by (simp add: get_state_def blank_failures_def blank_failure_def zero_workerState_def
        split: option.split)
qed

lemma blank_frame [simp]:
  "r_status (blank_failures r) = r_status r" "r_config (blank_failures r) = r_config r"
  "r_workerOrder (blank_failures r) = r_workerOrder r" "r_identity (blank_failures r) = r_identity r"
  "r_registrations (blank_failures r) = r_registrations r"
  "get_config (blank_failures r) n = get_config r n" "get_commands (blank_failures r) n = get_commands r n"
  by (simp_all add: blank_failures_def get_config_def get_commands_def)

lemma blank_item [simp]: "opskit_item (blank_failures r) n = opskit_item r n"
  by (simp add: opskit_item_def Let_def toWorkerStatus_def blank_failure_def opskitWorkerReady_def
      opskitStateFromWorkerStatus_def opskitWorkerStatusMessage_def)

lemma blank_inspection [simp]:
  "runtimeInspectionWorkerFromSnapshot (snapshot_of n reg (blank_failures r)) =
   runtimeInspectionWorkerFromSnapshot (snapshot_of n reg r)"
  by (simp add: runtimeInspectionWorkerFromSnapshot_def snapshot_of_def toWorkerStatus_def
      runtimeInspectionWorkerStatusFromStatus_def blank_failure_def option.map_comp comp_def
      split: option.split)

lemma blank_commands [simp]: "Commands n (blank_failures r) = Commands n r"
  by (simp add: Commands_def resolveWorkerNameLenient_def)

lemma inspect_commands_names:
  "map sn_qualifiedName ws = map sn_qualifiedName ws' \<Longrightarrow>
   fst (inspect_commands [] ws (blank_failures s)) = fst (inspect_commands [] ws' s)
   \<and> snd (inspect_commands [] ws s) = s"
proof (induction ws arbitrary: ws')
  case (Cons w ws)
  then obtain w' vs where ws': "ws' = w' # vs" "sn_qualifiedName w = sn_qualifiedName w'"
    "map sn_qualifiedName ws = map sn_qualifiedName vs" by (cases ws') auto
  from Cons.IH [OF ws'(3)] show ?case by (simp add: ws' Let_def split_def)
qed simp

text \<open>What a component publishes does not depend on failure text. Erasing the code and the
  message of every recorded worker and command failure leaves the component's status, its
  readiness and its inspection as they were.\<close>

lemma opskit_hides_failure_text:
  "Runtime_Status (blank_failures s) = Runtime_Status s
   \<and> Runtime_Readiness (blank_failures s) = Runtime_Readiness s
   \<and> fst (Runtime_Inspect [] [] (blank_failures s)) = fst (Runtime_Inspect [] [] s)"
proof -
  have names: "map sn_qualifiedName (Workers (blank_failures s)) = map sn_qualifiedName (Workers s)"
    by (simp add: Workers_def Let_def snapshot_of_def)
  have workers: "map runtimeInspectionWorkerFromSnapshot (Workers (blank_failures s)) =
      map runtimeInspectionWorkerFromSnapshot (Workers s)"
    by (simp add: Workers_def Let_def)
  have same: "snd (inspect_commands [] ws t) = t" for ws and t :: sys
    using inspect_commands_names [of ws ws t] by simp
  show ?thesis
    using inspect_commands_names [OF names, of s] workers
    by (simp add: Runtime_Status_def Runtime_Readiness_def opskitReadinessSnapshot_def
        RuntimeStatus_of_def Runtime_readinessPolicy_def Runtime_Inspect_def Let_def split_def same
        comp_def)
qed

end
