(* ===== verification/Check_Observers.thy ===== *)
theory Check_Observers
  imports Observability
begin

text \<open>
  The optional check capability of \<open>observability.go\<close>, the function adapters of observations,
  and the equivalence of any tree of \<open>MultiObserver\<close> and \<open>SafeObserver\<close> with the plain list of
  the application observers in it.
\<close>

section \<open>StartCheck\<close>

text \<open>Which observers implement \<open>CheckExecutionObserver\<close>: the module's own do, an application
  observer may (\<open>cap\<close>).\<close>

fun CheckExecutionObserver :: "(nat \<Rightarrow> bool) \<Rightarrow> Observer \<Rightarrow> bool" where
  "CheckExecutionObserver cap (UserObserver i) = cap i"
| "CheckExecutionObserver cap NopObserver = True"
| "CheckExecutionObserver cap (MultiObs obs) = True"
| "CheckExecutionObserver cap (SafeObs ob) = True"

fun start_check :: "(nat \<Rightarrow> bool) \<Rightarrow> (nat \<Rightarrow> nat \<Rightarrow> 'e \<Rightarrow> (nat option \<times> nat option) call) \<Rightarrow>
    Observer \<Rightarrow> nat \<Rightarrow> 'e \<Rightarrow> start_answer"
and start_checks :: "(nat \<Rightarrow> bool) \<Rightarrow> (nat \<Rightarrow> nat \<Rightarrow> 'e \<Rightarrow> (nat option \<times> nat option) call) \<Rightarrow>
    Observer list \<Rightarrow> nat \<Rightarrow> 'e \<Rightarrow> nat \<times> Observation list" where
  "start_check cap user NopObserver ctx e = Done (Some ctx, Some NopObservation)"
| "start_check cap user (UserObserver i) ctx e =
     (case user i ctx e of
        Panics \<Rightarrow> Panics
      | Done (c, ob) \<Rightarrow> Done (c, map_option UserObservation ob))"
| "start_check cap user (SafeObs ob) ctx e =
     (if \<not> CheckExecutionObserver cap ob then Done (Some ctx, Some NopObservation)
      else case startSafely ctx (start_check cap user ob ctx e) of
        (c, r) \<Rightarrow>
          Done (Some c, Some (case r of None \<Rightarrow> NopObservation | Some x \<Rightarrow> SafeObservation x)))"
| "start_check cap user (MultiObs obs) ctx e =
     (case start_checks cap user obs ctx e of
        (c, xs) \<Rightarrow>
          Done (Some c, Some (if xs = [] then NopObservation else MultiObservation xs)))"
| "start_checks cap user [] ctx e = (ctx, [])"
| "start_checks cap user (ob # obs) ctx e =
     (if \<not> CheckExecutionObserver cap ob then start_checks cap user obs ctx e
      else case startSafely ctx (start_check cap user ob ctx e) of
        (ctx', r) \<Rightarrow>
          (case start_checks cap user obs ctx' e of
             (cf, xs) \<Rightarrow> (cf, (case r of None \<Rightarrow> xs | Some x \<Rightarrow> x # xs))))"

section \<open>Adapters\<close>

text \<open>A function used as an observation: a nil function ends silently. The result is what
  reaches the function.\<close>

definition CommandObservationFunc_End :: "nat option \<Rightarrow> CommandEndEvent \<Rightarrow> (nat \<times> CommandEndEvent) list" where
  "CommandObservationFunc_End f event = (case f of None \<Rightarrow> [] | Some i \<Rightarrow> [(i, event)])"

definition CheckObservationFunc_End :: "nat option \<Rightarrow> CheckEndEvent \<Rightarrow> (nat \<times> CheckEndEvent) list" where
  "CheckObservationFunc_End f event = (case f of None \<Rightarrow> [] | Some i \<Rightarrow> [(i, event)])"

section \<open>The reference: a list of observers\<close>

text \<open>Starting a list of application observers one after the other: a panic or a nil context
  passes the previous context on, and a panic or a nil observation adds nothing to end.\<close>

fun started :: "(nat \<Rightarrow> nat \<Rightarrow> 'e \<Rightarrow> (nat option \<times> nat option) call) \<Rightarrow> nat list \<Rightarrow> nat \<Rightarrow> 'e
    \<Rightarrow> nat \<times> nat list" where
  "started user [] ctx e = (ctx, [])"
| "started user (i # is) ctx e =
     (case user i ctx e of
        Panics \<Rightarrow> started user is ctx e
      | Done (c, ob) \<Rightarrow>
          (case started user is (case c of None \<Rightarrow> ctx | Some c' \<Rightarrow> c') e of
             (cf, xs) \<Rightarrow> (cf, (case ob of None \<Rightarrow> xs | Some x \<Rightarrow> x # xs))))"

fun parts :: "Observation \<Rightarrow> nat list" and parts_all :: "Observation list \<Rightarrow> nat list" where
  "parts NopObservation = []"
| "parts (UserObservation i) = [i]"
| "parts (SafeObservation x) = parts x"
| "parts (MultiObservation xs) = parts_all xs"
| "parts_all [] = []"
| "parts_all (x # xs) = parts x @ parts_all xs"

lemma started_append:
  "started user (is @ js) ctx e =
     (case started user is ctx e of (c, xs) \<Rightarrow> (case started user js c e of (cf, ys) \<Rightarrow> (cf, xs @ ys)))"
  by (induction "is" arbitrary: ctx) (auto split: call.split prod.split option.split)

definition parts_of :: "Observation option \<Rightarrow> nat list" where
  "parts_of r = (case r of None \<Rightarrow> [] | Some x \<Rightarrow> parts x)"

lemma start_is_started:
  "(case startSafely ctx (start_obs user ob ctx e) of (c, r) \<Rightarrow> (c, parts_of r)) =
     started user (leaves ob) ctx e"
  "(case start_all user obs ctx e of (c, xs) \<Rightarrow> (c, parts_all xs)) =
     started user (leaves_all obs) ctx e"
proof (induction ob and obs arbitrary: ctx and ctx rule: leaves_leaves_all.induct)
  case (2 i)
  then show ?case by (auto simp: startSafely_def parts_of_def split: call.split option.split)
next
  case (3 obs)
  from this [of ctx] show ?case
    by (auto simp: startSafely_def parts_of_def split: prod.splits)
next
  case (4 ob)
  from this [of ctx] show ?case
    by (auto simp: startSafely_def parts_of_def split: call.splits prod.splits option.splits)
next
  case (6 ob obs)
  obtain c r where a: "startSafely ctx (start_obs user ob ctx e) = (c, r)"
    by (cases "startSafely ctx (start_obs user ob ctx e)")
  have h: "started user (leaves ob) ctx e = (c, parts_of r)" using 6(1) [of ctx] by (simp add: a)
  obtain cf xs where b: "start_all user obs c e = (cf, xs)" by (cases "start_all user obs c e")
  have t: "started user (leaves_all obs) c e = (cf, parts_all xs)" using 6(2) [of c] by (simp add: b)
  show ?case by (auto simp: started_append h t a b parts_of_def split: option.split)
qed (simp_all add: startSafely_def parts_of_def)

lemma start_check_is_started:
  "(if CheckExecutionObserver cap ob
    then (case startSafely ctx (start_check cap user ob ctx e) of (c, r) \<Rightarrow> (c, parts_of r))
    else (ctx, [])) = started user (filter cap (leaves ob)) ctx e"
  "(case start_checks cap user obs ctx e of (c, xs) \<Rightarrow> (c, parts_all xs)) =
     started user (filter cap (leaves_all obs)) ctx e"
proof (induction ob and obs arbitrary: ctx and ctx rule: leaves_leaves_all.induct)
  case (2 i)
  then show ?case by (auto simp: startSafely_def parts_of_def split: call.split option.split)
next
  case (3 obs)
  from this [of ctx] show ?case
    by (auto simp: startSafely_def parts_of_def split: prod.splits)
next
  case (4 ob)
  from this [of ctx] show ?case
    by (auto simp: startSafely_def parts_of_def split: call.splits prod.splits option.splits if_splits)
next
  case (6 ob obs)
  show ?case
  proof (cases "CheckExecutionObserver cap ob")
    case True
    obtain c r where a: "startSafely ctx (start_check cap user ob ctx e) = (c, r)"
      by (cases "startSafely ctx (start_check cap user ob ctx e)")
    have h: "started user (filter cap (leaves ob)) ctx e = (c, parts_of r)"
      using 6(1) [of ctx] True by (simp add: a)
    obtain cf xs where b: "start_checks cap user obs c e = (cf, xs)"
      by (cases "start_checks cap user obs c e")
    have t: "started user (filter cap (leaves_all obs)) c e = (cf, parts_all xs)"
      using 6(2) [of c] by (simp add: b)
    show ?thesis using True by (auto simp: started_append h t a b parts_of_def split: option.split)
  next
    case False
    then have "started user (filter cap (leaves ob)) ctx e = (ctx, [])" using 6(1) [of ctx] by simp
    with False 6(2) [of ctx] show ?thesis by (auto simp: started_append split: prod.splits)
  qed
qed (simp_all add: startSafely_def parts_of_def)

lemma end_is_reverse:
  "fst (end_obs panics x e) = map (\<lambda>i. (i, e)) (rev (parts x))"
  "end_all panics xs e = map (\<lambda>i. (i, e)) (rev (parts_all xs))"
  by (induction x and xs rule: parts_parts_all.induct) auto

text \<open>C29: a tree of observers is the list of its leaves. Behind \<open>SafeObserver\<close>, whatever the nesting
  and whichever of the application's observers panic: every event reaches every observer in
  order; the start of a command or of a check is answered with a context and an observation
  whose parts are those of starting the observers one after the other, skipping panics and nil
  values, checks only on those with the capability; \<open>End\<close> reaches these parts in reverse order;
  and no panic leaves.\<close>

theorem observer_tree_is_list:
  "notify panics (SafeObs ob) v = (map (\<lambda>i. (i, v)) (leaves ob), False)
   \<and> (\<exists>x. start_obs user (SafeObs ob) ctx e = Done (Some (fst (started user (leaves ob) ctx e)), Some x)
        \<and> end_obs panics x w = (map (\<lambda>i. (i, w)) (rev (snd (started user (leaves ob) ctx e))), False))
   \<and> (\<exists>x. start_check cap user (SafeObs ob) ctx e =
          Done (Some (fst (started user (filter cap (leaves ob)) ctx e)), Some x)
        \<and> end_obs panics x w =
            (map (\<lambda>i. (i, w)) (rev (snd (started user (filter cap (leaves ob)) ctx e))), False))"
proof -
  have safe: "end_obs panics (case r of None \<Rightarrow> NopObservation | Some x \<Rightarrow> SafeObservation x) w =
      (map (\<lambda>i. (i, w)) (rev (parts_of r)), False)" for r
    by (simp add: parts_of_def end_is_reverse split: option.split)
  have "notify panics (SafeObs ob) v = (map (\<lambda>i. (i, v)) (leaves ob), False)"
    by (simp add: notify_leaves)
  moreover obtain c r where a: "startSafely ctx (start_obs user ob ctx e) = (c, r)"
    by (cases "startSafely ctx (start_obs user ob ctx e)")
  moreover have "started user (leaves ob) ctx e = (c, parts_of r)"
    using start_is_started(1) [of ctx user ob e] by (simp add: a)
  moreover obtain c' r' where b: "startSafely ctx (start_check cap user ob ctx e) = (c', r')"
    by (cases "startSafely ctx (start_check cap user ob ctx e)")
  moreover have "started user (filter cap (leaves ob)) ctx e =
      (if CheckExecutionObserver cap ob then (c', parts_of r') else (ctx, []))"
    using start_check_is_started(1) [of cap ob ctx user e]
    by (cases "CheckExecutionObserver cap ob") (simp_all add: b)
  ultimately show ?thesis by (simp add: safe)
qed

end
