(* ===== verification/Slog_Observer.thy ===== *)
theory Slog_Observer
  imports Observability
begin

text \<open>
  Package \<open>slogobserver\<close>: an observer that writes one structured log record per event.

  The logger is not part of the module: a record is what is handed to \<open>LogAttrs\<close>, its level,
  message and attributes. Levels are those of \<open>log/slog\<close>, where \<open>LevelInfo\<close> is 0 and
  \<open>LevelError\<close> is 8.
\<close>

section \<open>Configuration\<close>

datatype slog_value = SString string | SBool bool | SInt int | SDuration int

type_synonym slog_attr = "string \<times> slog_value"

record slog_record =
  lr_level :: int
  lr_message :: string
  lr_attrs :: "slog_attr list"

record slog_config =
  slc_level :: int
  slc_attrs :: "slog_attr list"

definition LevelInfo :: int where "LevelInfo = 0"

definition LevelError :: int where "LevelError = 8"

definition slog_WithLevel :: "int \<Rightarrow> slog_config \<Rightarrow> slog_config" where
  "slog_WithLevel level cfg = cfg\<lparr>slc_level := level\<rparr>"

definition slog_WithAttributes :: "slog_attr list \<Rightarrow> slog_config \<Rightarrow> slog_config" where
  "slog_WithAttributes attrs cfg = cfg\<lparr>slc_attrs := slc_attrs cfg @ attrs\<rparr>"

text \<open>The configuration of \<open>New\<close>; nil options are skipped.\<close>

definition slog_New :: "(slog_config \<Rightarrow> slog_config) option list \<Rightarrow> slog_config" where
  "slog_New opts =
     fold (\<lambda>opt cfg. case opt of None \<Rightarrow> cfg | Some f \<Rightarrow> f cfg) opts
       \<lparr>slc_level = LevelInfo, slc_attrs = []\<rparr>"

section \<open>Records\<close>

definition slog_attrs :: "slog_config \<Rightarrow> string \<Rightarrow> string \<Rightarrow> string \<Rightarrow> slog_attr list \<Rightarrow> slog_attr list" where
  "slog_attrs cfg rt worker command extra =
     [(''runtime'', SString rt)]
     @ (if worker \<noteq> '''' then [(''worker'', SString worker)] else [])
     @ (if command \<noteq> '''' then [(''command'', SString command)] else [])
     @ slc_attrs cfg @ extra"

definition slog_ObserveTransition :: "slog_config \<Rightarrow> TransitionEvent \<Rightarrow> slog_record" where
  "slog_ObserveTransition cfg event =
     \<lparr>lr_level = slc_level cfg, lr_message = ''workerkit lifecycle transition'',
      lr_attrs = slog_attrs cfg (te_runtime event) (te_worker event) ''''
        [(''lifecycle_from'', SString (lifecycle_string (te_from event))),
         (''lifecycle_to'', SString (lifecycle_string (te_to event)))]\<rparr>"

record slog_commandObservation =
  sco_runtime :: string
  sco_worker :: string
  sco_command :: string
  sco_dispatchID :: string

definition slog_StartCommand :: "CommandStartEvent \<Rightarrow> slog_commandObservation" where
  "slog_StartCommand event =
     \<lparr>sco_runtime = cs_runtime event, sco_worker = cs_worker event,
      sco_command = cs_command event, sco_dispatchID = cs_dispatchID event\<rparr>"

record slog_checkObservation =
  sko_runtime :: string
  sko_worker :: string
  sko_kind :: CheckKind

definition slog_StartCheck :: "CheckStartEvent \<Rightarrow> slog_checkObservation" where
  "slog_StartCheck event =
     \<lparr>sko_runtime = cks_runtime event, sko_worker = cks_worker event, sko_kind = cks_kind event\<rparr>"

fun CheckKind_string :: "CheckKind \<Rightarrow> string" where
  "CheckKind_string CheckKindChecker = ''checker''"
| "CheckKind_string CheckKindGroup = ''check_group''"

fun CheckOutcome_string :: "CheckOutcome \<Rightarrow> string" where
  "CheckOutcome_string CheckOutcomeReady = ''ready''"
| "CheckOutcome_string CheckOutcomeNotReady = ''not_ready''"
| "CheckOutcome_string CheckOutcomeTimeout = ''timeout''"
| "CheckOutcome_string CheckOutcomeCanceled = ''canceled''"
| "CheckOutcome_string CheckOutcomePanic = ''panic''"
| "CheckOutcome_string CheckOutcomeError = ''error''"

definition slog_checkObservation_End ::
  "slog_config \<Rightarrow> slog_checkObservation \<Rightarrow> CheckEndEvent \<Rightarrow> slog_record" where
  "slog_checkObservation_End cfg ob event =
     \<lparr>lr_level = slc_level cfg, lr_message = ''workerkit check execution completed'',
      lr_attrs = slog_attrs cfg (sko_runtime ob) (sko_worker ob) ''''
        [(''check_kind'', SString (CheckKind_string (sko_kind ob))),
         (''check_outcome'', SString (CheckOutcome_string (cke_outcome event))),
         (''loop_continues'', SBool (cke_loopContinues event)),
         (''duration'', SDuration (cke_duration event))]\<rparr>"

text \<open>The optional attributes of a command or failure record.\<close>

definition slog_optional :: "string \<Rightarrow> string \<Rightarrow> int \<Rightarrow> string \<Rightarrow> string \<Rightarrow> slog_attr list" where
  "slog_optional dispatchID attempt_key attempt code message =
     (if dispatchID \<noteq> '''' then [(''dispatch_id'', SString dispatchID)] else [])
     @ (if attempt > 0 then [(attempt_key, SInt attempt)] else [])
     @ (if code \<noteq> '''' then [(''failure_code'', SString code)] else [])
     @ (if message \<noteq> '''' then [(''error'', SString message)] else [])"

definition slog_commandObservation_End ::
  "slog_config \<Rightarrow> slog_commandObservation \<Rightarrow> CommandEndEvent \<Rightarrow> slog_record" where
  "slog_commandObservation_End cfg ob event =
     (let attrs = slog_attrs cfg (sco_runtime ob) (sco_worker ob) (sco_command ob)
            [(''success'', SBool (ce_success event)), (''duration'', SDuration (ce_duration event))];
          dispatchID = (if sco_dispatchID ob = '''' then ce_dispatchID event else sco_dispatchID ob)
      in \<lparr>lr_level = slc_level cfg, lr_message = ''workerkit command dispatch completed'',
          lr_attrs = attrs @ slog_optional dispatchID ''attempts'' (ce_attempts event)
            (ce_code event) (ce_message event)\<rparr>)"

definition slog_ObserveFailure :: "slog_config \<Rightarrow> FailureEvent \<Rightarrow> slog_record" where
  "slog_ObserveFailure cfg event =
     \<lparr>lr_level = LevelError, lr_message = ''workerkit failure'',
      lr_attrs = slog_attrs cfg (fe_runtime event) (fe_worker event) (fe_command event)
          [(''panic'', SBool (fe_panic event))]
        @ slog_optional (fe_dispatchID event) ''attempt'' (fe_attempt event)
            (fe_code event) (fe_message event)\<rparr>"

definition slog_ObserveReadiness :: "slog_config \<Rightarrow> ReadinessEvent \<Rightarrow> slog_record" where
  "slog_ObserveReadiness cfg event =
     \<lparr>lr_level = slc_level cfg, lr_message = ''workerkit readiness change'',
      lr_attrs = slog_attrs cfg (re_runtime event) (re_worker event) ''''
        [(''ready'', SBool (re_ready event))]\<rparr>"

end
