(* ===== verification/Otel_Observer.thy ===== *)
theory Otel_Observer
  imports Slog_Observer
begin

text \<open>
  Package \<open>otel\<close>: an observer that turns events into spans, span events and metrics.

  OpenTelemetry is not part of the module: \<open>telemetry\<close> is one call on its tracer, a span, or a
  metric instrument, with the arguments the observer passes. \<open>Current\<close> is the span found in
  the context of the event, \<open>Own\<close> the span the observation started. Durations go to the
  histograms in seconds; the nanoseconds they are computed from are kept here. The instruments
  created by \<open>New\<close> are never nil.
\<close>

section \<open>Telemetry\<close>

datatype otel_value = VString string | VBool bool | VInt int

type_synonym otel_attr = "string \<times> otel_value"

datatype span = Current | Own

datatype span_status = StatusOk | StatusError

datatype telemetry =
    SpanStart string time "otel_attr list"
  | AddEvent span string time "otel_attr list"
  | RecordError span string time
  | SetStatus span span_status string
  | SetAttributes span "otel_attr list"
  | SpanEnd span time
  | Count string "otel_attr list"
  | RecordDuration string int "otel_attr list"

record otel_names =
  metricCommandCount :: string
  metricCommandDuration :: string
  metricCheckCount :: string
  metricCheckDuration :: string
  metricFailureCount :: string
  metricReadinessChangeCount :: string
  metricLifecycleChangeCount :: string
  eventLifecycleChange :: string
  eventFailure :: string
  eventReadinessChange :: string
  spanCommandPrefix :: string
  spanCheck :: string
  attrRuntime :: string
  attrWorker :: string
  attrCommand :: string
  attrDispatchID :: string
  attrCommandAttempt :: string
  attrCommandAttempts :: string
  attrCommandSuccess :: string
  attrCheckKind :: string
  attrCheckOutcome :: string
  attrCheckContinues :: string
  attrLifecycleFrom :: string
  attrLifecycleTo :: string
  attrFailurePanic :: string
  attrFailureCode :: string
  attrReady :: string

definition otel_const :: otel_names where
  "otel_const =
     \<lparr>metricCommandCount = ''workerkit.command.dispatches'',
      metricCommandDuration = ''workerkit.command.duration'',
      metricCheckCount = ''workerkit.check.executions'',
      metricCheckDuration = ''workerkit.check.duration'',
      metricFailureCount = ''workerkit.failures'',
      metricReadinessChangeCount = ''workerkit.readiness.changes'',
      metricLifecycleChangeCount = ''workerkit.lifecycle.transitions'',
      eventLifecycleChange = ''workerkit.lifecycle.change'',
      eventFailure = ''workerkit.failure'', eventReadinessChange = ''workerkit.readiness.change'',
      spanCommandPrefix = ''workerkit.command'', spanCheck = ''workerkit.check'',
      attrRuntime = ''workerkit.runtime'', attrWorker = ''workerkit.worker'',
      attrCommand = ''workerkit.command'', attrDispatchID = ''workerkit.command.dispatch_id'',
      attrCommandAttempt = ''workerkit.command.attempt'',
      attrCommandAttempts = ''workerkit.command.attempts'',
      attrCommandSuccess = ''workerkit.command.success'', attrCheckKind = ''workerkit.check.kind'',
      attrCheckOutcome = ''workerkit.check.outcome'',
      attrCheckContinues = ''workerkit.check.loop_continues'',
      attrLifecycleFrom = ''workerkit.lifecycle.from'', attrLifecycleTo = ''workerkit.lifecycle.to'',
      attrFailurePanic = ''workerkit.failure.panic'', attrFailureCode = ''workerkit.failure.code'',
      attrReady = ''workerkit.ready''\<rparr>"

abbreviation K :: "(otel_names \<Rightarrow> string) \<Rightarrow> string" where
  "K field \<equiv> field otel_const"

section \<open>Construction\<close>

record otel_config =
  oc_tracerProvider :: "nat option"
  oc_meterProvider :: "nat option"
  oc_attributes :: "otel_attr list"

definition otel_WithTracerProvider :: "nat option \<Rightarrow> otel_config \<Rightarrow> otel_config" where
  "otel_WithTracerProvider provider cfg = cfg\<lparr>oc_tracerProvider := provider\<rparr>"

definition otel_WithMeterProvider :: "nat option \<Rightarrow> otel_config \<Rightarrow> otel_config" where
  "otel_WithMeterProvider provider cfg = cfg\<lparr>oc_meterProvider := provider\<rparr>"

definition otel_WithAttributes :: "otel_attr list \<Rightarrow> otel_config \<Rightarrow> otel_config" where
  "otel_WithAttributes attrs cfg = cfg\<lparr>oc_attributes := oc_attributes cfg @ attrs\<rparr>"

text \<open>Each instrument and what its creation error is called; \<open>create\<close> is what the meter of a
  provider answers.\<close>

definition otel_instruments :: "(string \<times> string) list" where
  "otel_instruments =
     [(K metricCommandCount, ''command count''), (K metricCommandDuration, ''command duration''),
      (K metricCheckCount, ''check count''), (K metricCheckDuration, ''check duration''),
      (K metricFailureCount, ''failure count''),
      (K metricReadinessChangeCount, ''readiness change count''),
      (K metricLifecycleChangeCount, ''lifecycle change count'')]"

fun create_instruments :: "(string \<Rightarrow> error option) \<Rightarrow> (string \<times> string) list \<Rightarrow> error option" where
  "create_instruments create [] = None"
| "create_instruments create ((name, what) # rest) =
     (case create name of
        Some err \<Rightarrow> Some (Errorf (''create '' @ what @ '' metric: %w'') [] [err])
      | None \<Rightarrow> create_instruments create rest)"

definition otel_New ::
  "nat \<Rightarrow> nat \<Rightarrow> (nat \<Rightarrow> string \<Rightarrow> error option) \<Rightarrow> (otel_config \<Rightarrow> otel_config) option list
   \<Rightarrow> error + otel_config" where
  "otel_New globalTracer globalMeter create opts =
     (let cfg = fold (\<lambda>opt cfg. case opt of None \<Rightarrow> cfg | Some f \<Rightarrow> f cfg) opts
            \<lparr>oc_tracerProvider = Some globalTracer, oc_meterProvider = Some globalMeter,
             oc_attributes = []\<rparr>;
          tp = (case oc_tracerProvider cfg of None \<Rightarrow> globalTracer | Some p \<Rightarrow> p);
          mp = (case oc_meterProvider cfg of None \<Rightarrow> globalMeter | Some p \<Rightarrow> p)
      in case create_instruments (create mp) otel_instruments of
           Some err \<Rightarrow> Inl err
         | None \<Rightarrow> Inr (cfg\<lparr>oc_tracerProvider := Some tp, oc_meterProvider := Some mp\<rparr>))"

section \<open>Events\<close>

text \<open>\<open>as\<close> are the attributes configured with \<open>WithAttributes\<close>.\<close>

definition otel_attrs ::
  "otel_attr list \<Rightarrow> string \<Rightarrow> string \<Rightarrow> string \<Rightarrow> otel_attr list \<Rightarrow> otel_attr list" where
  "otel_attrs as rt worker command extra =
     [(K attrRuntime, VString rt)]
     @ (if worker \<noteq> '''' then [(K attrWorker, VString worker)] else [])
     @ (if command \<noteq> '''' then [(K attrCommand, VString command)] else [])
     @ as @ extra"

definition otel_ObserveTransition :: "otel_attr list \<Rightarrow> TransitionEvent \<Rightarrow> telemetry list" where
  "otel_ObserveTransition as event =
     (let attrs = otel_attrs as (te_runtime event) (te_worker event) ''''
            [(K attrLifecycleFrom, VString (lifecycle_string (te_from event))),
             (K attrLifecycleTo, VString (lifecycle_string (te_to event)))]
      in [AddEvent Current (K eventLifecycleChange) (te_at event) attrs,
          Count (K metricLifecycleChangeCount) attrs])"

record otel_commandObservation =
  oco_attrs :: "otel_attr list"
  oco_dispatchID :: string

definition otel_StartCommand ::
  "otel_attr list \<Rightarrow> CommandStartEvent \<Rightarrow> telemetry list \<times> otel_commandObservation" where
  "otel_StartCommand as event =
     (let attrs = otel_attrs as (cs_runtime event) (cs_worker event) (cs_command event) []
      in ([SpanStart (K spanCommandPrefix @ '' '' @ cs_command event) (cs_startedAt event) attrs],
          \<lparr>oco_attrs = attrs, oco_dispatchID = cs_dispatchID event\<rparr>))"

text \<open>The kinds and outcomes are the module's own constants; any other value is \<open>unknown\<close>.\<close>

definition checkKindAttribute :: "CheckKind \<Rightarrow> string" where
  "checkKindAttribute kind =
     (if kind \<in> {CheckKindChecker, CheckKindGroup} then CheckKind_string kind else ''unknown'')"

definition checkOutcomeAttribute :: "CheckOutcome \<Rightarrow> string" where
  "checkOutcomeAttribute outcome =
     (if outcome \<in> {CheckOutcomeReady, CheckOutcomeNotReady, CheckOutcomeTimeout,
                    CheckOutcomeCanceled, CheckOutcomePanic, CheckOutcomeError}
      then CheckOutcome_string outcome else ''unknown'')"

definition otel_StartCheck ::
  "otel_attr list \<Rightarrow> CheckStartEvent \<Rightarrow> telemetry list \<times> otel_attr list" where
  "otel_StartCheck as event =
     (let attrs = otel_attrs as (cks_runtime event) (cks_worker event) ''''
            [(K attrCheckKind, VString (checkKindAttribute (cks_kind event)))]
      in ([SpanStart (K spanCheck) (cks_startedAt event) attrs], attrs))"

definition otel_checkObservation_End :: "otel_attr list \<Rightarrow> CheckEndEvent \<Rightarrow> telemetry list" where
  "otel_checkObservation_End started event =
     (let outcome = checkOutcomeAttribute (cke_outcome event);
          attrs = started @ [(K attrCheckOutcome, VString outcome),
                             (K attrCheckContinues, VBool (cke_loopContinues event))];
          message = ''check execution outcome: '' @ outcome
      in (case cke_outcome event of
            CheckOutcomeReady \<Rightarrow> [SetStatus Own StatusOk '''']
          | CheckOutcomeCanceled \<Rightarrow> []
          | _ \<Rightarrow> [RecordError Own message (cke_endedAt event), SetStatus Own StatusError message])
         @ [SetAttributes Own attrs, SpanEnd Own (cke_endedAt event),
            Count (K metricCheckCount) attrs,
            RecordDuration (K metricCheckDuration) (cke_duration event) attrs])"

definition otel_commandObservation_End ::
  "otel_commandObservation \<Rightarrow> CommandEndEvent \<Rightarrow> telemetry list" where
  "otel_commandObservation_End ob event =
     (let metricAttrs = oco_attrs ob @ [(K attrCommandSuccess, VBool (ce_success event))]
            @ (if ce_code event \<noteq> '''' then [(K attrFailureCode, VString (ce_code event))] else []);
          dispatchID = (if oco_dispatchID ob = '''' then ce_dispatchID event else oco_dispatchID ob);
          spanAttrs = metricAttrs
            @ (if dispatchID \<noteq> '''' then [(K attrDispatchID, VString dispatchID)] else [])
            @ (if ce_attempts event > 0
               then [(K attrCommandAttempts, VInt (ce_attempts event))] else [])
      in (if ce_success event then [SetStatus Own StatusOk '''']
          else (if ce_message event \<noteq> ''''
                then [RecordError Own (ce_message event) (ce_endedAt event)] else [])
               @ [SetStatus Own StatusError (ce_message event)])
         @ [SetAttributes Own spanAttrs, SpanEnd Own (ce_endedAt event),
            Count (K metricCommandCount) metricAttrs,
            RecordDuration (K metricCommandDuration) (ce_duration event) metricAttrs])"

definition otel_ObserveFailure :: "otel_attr list \<Rightarrow> FailureEvent \<Rightarrow> telemetry list" where
  "otel_ObserveFailure as event =
     (let metricAttrs = otel_attrs as (fe_runtime event) (fe_worker event) (fe_command event)
              [(K attrFailurePanic, VBool (fe_panic event))]
            @ (if fe_code event \<noteq> '''' then [(K attrFailureCode, VString (fe_code event))] else []);
          eventAttrs = metricAttrs
            @ (if fe_dispatchID event \<noteq> ''''
               then [(K attrDispatchID, VString (fe_dispatchID event))] else [])
            @ (if fe_attempt event > 0 then [(K attrCommandAttempt, VInt (fe_attempt event))] else [])
      in (if fe_message event \<noteq> ''''
          then [RecordError Current (fe_message event) (fe_at event)] else [])
         @ [AddEvent Current (K eventFailure) (fe_at event) eventAttrs,
            SetStatus Current StatusError (fe_message event),
            Count (K metricFailureCount) metricAttrs])"

definition otel_ObserveReadiness :: "otel_attr list \<Rightarrow> ReadinessEvent \<Rightarrow> telemetry list" where
  "otel_ObserveReadiness as event =
     (let attrs = otel_attrs as (re_runtime event) (re_worker event) ''''
            [(K attrReady, VBool (re_ready event))]
      in [AddEvent Current (K eventReadinessChange) (re_at event) attrs,
          Count (K metricReadinessChangeCount) attrs])"

section \<open>What leaves the process\<close>

text \<open>The metric calls among some telemetry.\<close>

fun is_metric :: "telemetry \<Rightarrow> bool" where
  "is_metric (Count m as) = True"
| "is_metric (RecordDuration m d as) = True"
| "is_metric t = False"

definition metrics :: "telemetry list \<Rightarrow> telemetry list" where
  "metrics ts = filter is_metric ts"

lemma metrics_simps [simp]:
  "metrics [] = []" "metrics (t # ts) = (if is_metric t then t # metrics ts else metrics ts)"
  "metrics (ts @ us) = metrics ts @ metrics us" "metrics (if b then ts else us) = (if b then metrics ts else metrics us)"
  by (simp_all add: metrics_def)

text \<open>C30: private failures and unbounded values stay out of telemetry. The log record and the spans
  of a command's end and of a failure do not depend on the private cause; the metrics of a
  command's end depend only on the labels of its start, its success, its failure code and its
  duration, and those of a failure only on its labels, its code and whether it was a panic:
  never on a dispatch ID, an attempt number or a message.\<close>

theorem telemetry_private_and_bounded:
  "slog_commandObservation_End cfg so (ev\<lparr>ce_cause := c\<rparr>) = slog_commandObservation_End cfg so ev
   \<and> slog_ObserveFailure cfg (fv\<lparr>fe_cause := c\<rparr>) = slog_ObserveFailure cfg fv
   \<and> otel_commandObservation_End oo (ev\<lparr>ce_cause := c\<rparr>) = otel_commandObservation_End oo ev
   \<and> otel_ObserveFailure as (fv\<lparr>fe_cause := c\<rparr>) = otel_ObserveFailure as fv
   \<and> metrics (otel_commandObservation_End (oo\<lparr>oco_dispatchID := d\<rparr>)
         (ev\<lparr>ce_dispatchID := d', ce_attempts := k, ce_message := msg, ce_startedAt := t, ce_endedAt := u\<rparr>)) =
       metrics (otel_commandObservation_End oo ev)
   \<and> metrics (otel_ObserveFailure as
         (fv\<lparr>fe_dispatchID := d', fe_attempt := k, fe_message := msg, fe_at := t\<rparr>)) =
       metrics (otel_ObserveFailure as fv)"
  by (simp add: slog_commandObservation_End_def slog_ObserveFailure_def
      otel_commandObservation_End_def otel_ObserveFailure_def Let_def)

text \<open>Every span that a command's or a check's observation starts is ended once, and nothing is
  set on it afterwards.\<close>

lemma span_ended_once:
  "filter (\<lambda>t. case t of SpanEnd sp u \<Rightarrow> True | _ \<Rightarrow> False) (otel_commandObservation_End ob ev) =
     [SpanEnd Own (ce_endedAt ev)]"
  "filter (\<lambda>t. case t of SpanEnd sp u \<Rightarrow> True | _ \<Rightarrow> False) (otel_checkObservation_End as kv) =
     [SpanEnd Own (cke_endedAt kv)]"
  by (simp_all add: otel_commandObservation_End_def otel_checkObservation_End_def Let_def
      split: CheckOutcome.split)

end
