(* ===== verification/Opshttp.thy ===== *)
theory Opshttp
  imports Worker_Handle Opskit_Surface
begin

text \<open>
  Package \<open>opshttp\<close>: the HTTP routes that dispatch commands and drive the lifecycle, over the
  runtime of this development.

  Servekit and \<open>encoding/json\<close> are not part of the module. A handler is what it returns:
  \<open>servekit.Error\<close> is the record \<open>HTTPError\<close>, any other error is passed on as it is; the
  outcome of decoding a body, the validity of a payload as JSON, the text of an error
  (\<open>err.Error()\<close>) and Unicode's table of printable runes are arguments.
\<close>

section \<open>Strings\<close>

text \<open>A Go string as its runes with their bytes, the way \<open>range\<close> and \<open>strconv\<close> walk over it.\<close>

fun rune_chunks :: "nat list \<Rightarrow> (nat \<times> nat list) list" where
  "rune_chunks [] = []"
| "rune_chunks (b # bs) =
     (case decode_rune b bs of (r, w) \<Rightarrow> (r, b # take (w - 1) bs) # rune_chunks (drop (w - 1) bs))"

definition lowerhex :: "nat \<Rightarrow> nat" where
  "lowerhex d = (if d < 10 then 48 + d else 87 + d)"

fun hex_digits :: "nat \<Rightarrow> nat \<Rightarrow> nat list" where
  "hex_digits 0 n = []"
| "hex_digits (Suc k) n = hex_digits k (n div 16) @ [lowerhex (n mod 16)]"

text \<open>\<open>strconv.Quote\<close>, which is \<open>%q\<close> on a string, rune by rune. \<open>printable\<close> is Unicode's
  table of printable runes beyond ASCII.\<close>

definition quote_rune :: "(nat \<Rightarrow> bool) \<Rightarrow> nat \<Rightarrow> nat list \<Rightarrow> nat list" where
  "quote_rune printable r bytes =
     (if r = 65533 \<and> length bytes = 1 then [92, 120] @ hex_digits 2 (hd bytes)
      else if r = 34 \<or> r = 92 then [92, r]
      else if 32 \<le> r \<and> r < 127 \<or> 128 \<le> r \<and> printable r then bytes
      else case map_of [(7, 97), (8, 98), (12, 102), (10, 110), (13, 114), (9, 116), (11, 118)] r of
        Some c \<Rightarrow> [92, c]
      | None \<Rightarrow>
          if r < 32 \<or> r = 127 then [92, 120] @ hex_digits 2 r
          else if r < 65536 then [92, 117] @ hex_digits 4 r
          else [92, 85] @ hex_digits 8 r)"

definition Quote :: "(nat \<Rightarrow> bool) \<Rightarrow> string \<Rightarrow> string" where
  "Quote printable s =
     map char_of ([34] @ concat (map (\<lambda>(r, bytes). quote_rune printable r bytes)
                                   (rune_chunks (map of_char s))) @ [34])"

section \<open>Errors\<close>

record HTTPError =
  he_status :: int
  he_message :: string
  he_cause :: "error option"

datatype 'a response =
    Respond 'a
  | HTTPFailure HTTPError
  | OtherError error
  | HandlerPanics
  | NoResponse

definition badRequestError :: "string \<Rightarrow> HTTPError" where
  "badRequestError message = \<lparr>he_status = 400, he_message = message, he_cause = None\<rparr>"

definition notFoundError :: "(nat \<Rightarrow> bool) \<Rightarrow> string \<Rightarrow> string \<Rightarrow> HTTPError" where
  "notFoundError printable kind name =
     \<lparr>he_status = 404, he_message = kind @ '' '' @ Quote printable name @ '' not found'', he_cause = None\<rparr>"

definition mappedOperationalError :: "int \<Rightarrow> string \<Rightarrow> error \<Rightarrow> HTTPError" where
  "mappedOperationalError status message cause =
     \<lparr>he_status = status, he_message = message,
      he_cause = WithOperationalFailure (Some cause) \<lparr>f_code = '''', f_message = message\<rparr>\<rparr>"

section \<open>Strict JSON\<close>

text \<open>A request body: absent, or the error of decoding the first value, and what a second
  attempt to decode finds after it.\<close>

datatype json_extra = ExtraValue | ExtraEOF | ExtraError string

record http_body =
  hb_present :: bool
  hb_error :: "string option"
  hb_extra :: json_extra

definition decodeStrictJSON :: "http_body \<Rightarrow> string \<Rightarrow> HTTPError option" where
  "decodeStrictJSON body label =
     (if \<not> hb_present body then Some (badRequestError ''request body must contain JSON'')
      else case hb_error body of
        Some e \<Rightarrow> Some (badRequestError (''invalid '' @ label @ '' JSON: '' @ e))
      | None \<Rightarrow>
          (case hb_extra body of
             ExtraValue \<Rightarrow> Some (badRequestError (label @ '' must contain exactly one JSON object''))
           | ExtraError e \<Rightarrow> Some (badRequestError (''invalid '' @ label @ '' JSON: '' @ e))
           | ExtraEOF \<Rightarrow> None))"

section \<open>Mapping errors to responses\<close>

text \<open>\<open>switch\<close> on \<open>errors.Is\<close> conditions, evaluated in order: the first that holds decides, and
  a panic out of a foreign error's method (\<open>None\<close>) leaves the handler.\<close>

fun switch_is :: "(bool option \<times> 'a response) list \<Rightarrow> 'a response \<Rightarrow> 'a response" where
  "switch_is [] otherwise = otherwise"
| "switch_is ((c, r) # conds) otherwise =
     (case c of None \<Rightarrow> HandlerPanics | Some b \<Rightarrow> if b then r else switch_is conds otherwise)"

definition is_either :: "sentinel \<Rightarrow> sentinel \<Rightarrow> error \<Rightarrow> bool option" where
  "is_either a b err =
     (case errors_is a err of None \<Rightarrow> None | Some True \<Rightarrow> Some True | Some False \<Rightarrow> errors_is b err)"

text \<open>\<open>errors.As\<close> with target \<open>*OpskitCommandError\<close>.\<close>

fun find_opskit :: "error \<Rightarrow> (failure \<times> string \<times> sentinel option) option option"
and find_opskit_any :: "error list \<Rightarrow> (failure \<times> string \<times> sentinel option) option option" where
  "find_opskit (Sentinel s) = Some None"
| "find_opskit (Errorf f as es) = find_opskit_any es"
| "find_opskit (Joined es) = find_opskit_any es"
| "find_opskit (LoopCleanupError c) = find_opskit c"
| "find_opskit (OperationalFailureError f c) =
     (case c of None \<Rightarrow> Some None | Some e \<Rightarrow> find_opskit e)"
| "find_opskit (OpskitCommandError f m k c) = Some (Some (f, m, k))"
| "find_opskit (ForeignError m es p) = (if p then None else find_opskit_any es)"
| "find_opskit_any [] = Some None"
| "find_opskit_any (e # es) =
     (case find_opskit e of
        None \<Rightarrow> None
      | Some None \<Rightarrow> find_opskit_any es
      | Some (Some x) \<Rightarrow> Some (Some x))"

definition opskitRejectedMessage :: "error \<Rightarrow> string option" where
  "opskitRejectedMessage err =
     (case find_opskit err of
        None \<Rightarrow> None
      | Some (Some (f, m, k)) \<Rightarrow>
          Some (if k = Some ErrOpsCommandRejected then OpskitCommandError_Error f m k
                else sentinel_Error ErrOpsCommandRejected)
      | Some None \<Rightarrow> Some (sentinel_Error ErrOpsCommandRejected))"

definition containsWorker :: "string \<Rightarrow> 'a runtime_scheme \<Rightarrow> bool" where
  "containsWorker name r \<longleftrightarrow> Worker_of name r \<noteq> None"

definition containsCommand :: "string \<Rightarrow> string \<Rightarrow> 'a runtime_scheme \<Rightarrow> bool" where
  "containsCommand workerName commandName r =
     (case Commands workerName r of
        None \<Rightarrow> False | Some cs \<Rightarrow> list_ex (\<lambda>c. ci_name c = commandName) cs)"

text \<open>A response with the message of the more specific sentinel of two, once one of them is
  known to match.\<close>

definition mapped_either :: "int \<Rightarrow> sentinel \<Rightarrow> sentinel \<Rightarrow> error \<Rightarrow> 'a response" where
  "mapped_either status general specific err =
     (case errors_is specific err of
        None \<Rightarrow> HandlerPanics
      | Some b \<Rightarrow> HTTPFailure (mappedOperationalError status
                     (sentinel_Error (if b then specific else general)) err))"

definition mapDispatchError ::
  "(nat \<Rightarrow> bool) \<Rightarrow> 's runtime_scheme \<Rightarrow> string \<Rightarrow> string \<Rightarrow> error \<Rightarrow> 'a response" where
  "mapDispatchError printable r workerName commandName err =
     switch_is
       [(errors_is ErrWorkerNotFound err, HTTPFailure (notFoundError printable ''worker'' workerName)),
        (errors_is ErrCommandNotFound err, HTTPFailure (notFoundError printable ''command'' commandName)),
        (errors_is ErrRuntimeNotAcceptingWork err,
         HTTPFailure (mappedOperationalError 503 (sentinel_Error ErrRuntimeNotAcceptingWork) err)),
        (is_either ErrWorkerNotAcceptingWork ErrInvalidWorkerState err,
         mapped_either 409 ErrWorkerNotAcceptingWork ErrInvalidWorkerState err),
        (is_either ErrRuntimeSaturated ErrWorkerSaturated err,
         mapped_either 429 ErrRuntimeSaturated ErrWorkerSaturated err),
        (errors_is ErrOpsCommandRejected err,
         (case opskitRejectedMessage err of
            None \<Rightarrow> HandlerPanics
          | Some m \<Rightarrow> HTTPFailure (mappedOperationalError 409 m err))),
        (Some (containsWorker workerName r),
         (if containsCommand workerName commandName r then OtherError err
          else HTTPFailure (notFoundError printable ''command'' commandName)))]
       (HTTPFailure (notFoundError printable ''worker'' workerName))"

definition mapLifecycleError :: "(nat \<Rightarrow> bool) \<Rightarrow> string \<Rightarrow> string \<Rightarrow> error \<Rightarrow> 'a response" where
  "mapLifecycleError printable kind name err =
     switch_is
       [(errors_is ErrWorkerNotFound err, HTTPFailure (notFoundError printable kind name)),
        (errors_is ErrInvalidWorkerState err,
         HTTPFailure (mappedOperationalError 409 (sentinel_Error ErrInvalidWorkerState) err))]
       (OtherError err)"


section \<open>Command dispatch\<close>

record dispatchRequest =
  dr_worker :: string
  dr_name :: string
  dr_payload :: string

record commandResultBody =
  crb_message :: string
  crb_payload :: string

record dispatchResponse =
  dp_worker :: string
  dp_name :: string
  dp_result :: commandResultBody

definition decodeDispatchRequest :: "http_body \<Rightarrow> dispatchRequest \<Rightarrow> HTTPError + dispatchRequest" where
  "decodeDispatchRequest body req =
     (case decodeStrictJSON body ''dispatch request'' of Some e \<Rightarrow> Inl e | None \<Rightarrow> Inr req)"

definition encodeCommandResult ::
  "(string \<Rightarrow> bool) \<Rightarrow> CommandResult \<Rightarrow> HTTPError + commandResultBody" where
  "encodeCommandResult json_valid result =
     (let body = \<lparr>crb_message = res_message result, crb_payload = ''''\<rparr>
      in if res_payload result = '''' then Inr body
         else if \<not> json_valid (res_payload result)
         then Inl \<lparr>he_status = 500, he_message = ''command result payload must be valid JSON'',
                   he_cause = None\<rparr>
         else Inr (body\<lparr>crb_payload := res_payload result\<rparr>))"

text \<open>The handler of the dispatch route. \<open>error_text\<close> is \<open>err.Error()\<close>; \<open>after\<close> is what others do
  between the dispatch and the lookups of the response.\<close>

definition dispatch_route ::
  "(nat \<Rightarrow> bool) \<Rightarrow> (error \<Rightarrow> string) \<Rightarrow> (string \<Rightarrow> bool) \<Rightarrow> dispatch_env \<Rightarrow> action list \<Rightarrow> http_body \<Rightarrow> dispatchRequest
   \<Rightarrow> sys \<Rightarrow> dispatchResponse response \<times> sys" where
  "dispatch_route printable error_text json_valid env after body decoded s =
     (case decodeDispatchRequest body decoded of
        Inl e \<Rightarrow> (HTTPFailure e, s)
      | Inr req \<Rightarrow>
     (let command = \<lparr>cq_worker = dr_worker req, cq_name = dr_name req, cq_payload = dr_payload req,
                     cq_requestedAt = None\<rparr>
      in case CommandRequest_Validate command of
        Some err \<Rightarrow> (HTTPFailure (badRequestError (error_text err)), s)
      | None \<Rightarrow>
          (case Dispatch env command s of
             (out, s1) \<Rightarrow>
               (let s2 = run after s1
                in (case out of
                      CommandErr err \<Rightarrow> mapDispatchError printable s2 (cq_worker command) (cq_name command) err
                    | CommandPanic \<Rightarrow> HandlerPanics
                    | CommandBlocked \<Rightarrow> NoResponse
                    | CommandOk result \<Rightarrow>
                        (let workerName = (case Worker_of (cq_worker command) s2 of
                                             None \<Rightarrow> cq_worker command
                                           | Some w \<Rightarrow> sn_qualifiedName w)
                         in case encodeCommandResult json_valid result of
                              Inl e \<Rightarrow> HTTPFailure e
                            | Inr b \<Rightarrow> Respond \<lparr>dp_worker = workerName, dp_name = cq_name command,
                                                  dp_result = b\<rparr>),
                    s2)))))"

section \<open>Lifecycle routes\<close>

record opshttp_config =
  hc_prefix :: string
  hc_endpointOptions :: "nat list"
  hc_dispatchOptions :: "nat list"
  hc_lifecycleOptions :: "nat list"
  hc_lifecycleTimeout :: int
  hc_commandDispatchEnabled :: bool
  hc_adminLifecycleControls :: bool

text \<open>The context of a lifecycle operation is detached from the request: \<open>base\<close> is the request's
  context without its cancellation, \<open>fresh\<close> one with the route's deadline.\<close>

definition lifecycleOperationContext :: "opshttp_config \<Rightarrow> ctx \<Rightarrow> ctx \<Rightarrow> ctx" where
  "lifecycleOperationContext cfg base fresh = (if hc_lifecycleTimeout cfg \<le> 0 then base else fresh)"

text \<open>Its cancel function, which the handlers defer.\<close>

definition cancelOperationContext :: "opshttp_config \<Rightarrow> ctx \<Rightarrow> sys \<Rightarrow> sys" where
  "cancelOperationContext cfg fresh s =
     (if hc_lifecycleTimeout cfg \<le> 0 then s else act (CtxDone fresh CtxCanceled) s)"

definition decodeWorkerLifecycleRequest :: "http_body \<Rightarrow> string \<Rightarrow> HTTPError + string" where
  "decodeWorkerLifecycleRequest body name =
     (case decodeStrictJSON body ''lifecycle request'' of
        Some e \<Rightarrow> Inl e
      | None \<Rightarrow>
          if name = '''' then Inl (badRequestError ''missing required JSON field \"name\"'')
          else Inr name)"

definition workerLifecycleResponse :: "(nat \<Rightarrow> bool) \<Rightarrow> string \<Rightarrow> 'a runtime_scheme \<Rightarrow> WorkerSnapshot response" where
  "workerLifecycleResponse printable name r =
     (case Worker_of name r of
        None \<Rightarrow> HTTPFailure (notFoundError printable ''worker'' name) | Some w \<Rightarrow> Respond w)"

record runtimeLifecycleResult =
  rl_identity :: string
  rl_status :: RuntimeStatus

definition runtimeLifecycleResponse :: "'a runtime_scheme \<Rightarrow> runtimeLifecycleResult" where
  "runtimeLifecycleResponse r = \<lparr>rl_identity = r_identity r, rl_status = RuntimeStatus_of r\<rparr>"

text \<open>\<open>action\<close> is \<open>Runtime.Start\<close>, \<open>Drain\<close> or \<open>Stop\<close> with its environment.\<close>

definition worker_lifecycle_route ::
  "(nat \<Rightarrow> bool) \<Rightarrow> opshttp_config \<Rightarrow> ctx \<Rightarrow> ctx \<Rightarrow> (ctx \<Rightarrow> string \<Rightarrow> sys \<Rightarrow> outcome \<times> sys) \<Rightarrow> action list
   \<Rightarrow> http_body \<Rightarrow> string \<Rightarrow> sys \<Rightarrow> WorkerSnapshot response \<times> sys" where
  "worker_lifecycle_route printable cfg base fresh action after body decoded s =
     (case decodeWorkerLifecycleRequest body decoded of
        Inl e \<Rightarrow> (HTTPFailure e, s)
      | Inr name \<Rightarrow>
          (case action (lifecycleOperationContext cfg base fresh) name s of
             (Blocked, s1) \<Rightarrow> (NoResponse, s1)
           | (Panicking, s1) \<Rightarrow> (HandlerPanics, cancelOperationContext cfg fresh s1)
           | (Finished (Some err), s1) \<Rightarrow>
               (mapLifecycleError printable ''worker'' name err, cancelOperationContext cfg fresh s1)
           | (Finished None, s1) \<Rightarrow>
               (let s2 = run after s1
                in (workerLifecycleResponse printable name s2, cancelOperationContext cfg fresh s2))))"

definition runtime_lifecycle_route ::
  "(nat \<Rightarrow> bool) \<Rightarrow> opshttp_config \<Rightarrow> ctx \<Rightarrow> ctx \<Rightarrow> (ctx \<Rightarrow> sys \<Rightarrow> outcome \<times> sys) \<Rightarrow> action list
   \<Rightarrow> sys \<Rightarrow> runtimeLifecycleResult response \<times> sys" where
  "runtime_lifecycle_route printable cfg base fresh action after s =
     (case action (lifecycleOperationContext cfg base fresh) s of
        (Blocked, s1) \<Rightarrow> (NoResponse, s1)
      | (Panicking, s1) \<Rightarrow> (HandlerPanics, cancelOperationContext cfg fresh s1)
      | (Finished (Some err), s1) \<Rightarrow>
          (mapLifecycleError printable ''runtime'' (r_identity s1) err, cancelOperationContext cfg fresh s1)
      | (Finished None, s1) \<Rightarrow>
          (let s2 = run after s1
           in (Respond (runtimeLifecycleResponse s2), cancelOperationContext cfg fresh s2)))"

section \<open>Mounting\<close>

text \<open>\<open>strings.TrimSpace\<close>.\<close>

definition TrimSpace :: "string \<Rightarrow> string" where
  "TrimSpace s =
     (let space = (\<lambda>c. is_space (fst c));
          kept = rev (dropWhile space (rev (dropWhile space (rune_chunks (map of_char s)))))
      in map char_of (concat (map snd kept)))"

definition normalizePrefix :: "string \<Rightarrow> string" where
  "normalizePrefix prefix0 =
     (let prefix = TrimSpace prefix0
      in if prefix = '''' \<or> prefix = ''/'' then ''/''
         else let slashed = (if hd prefix \<noteq> CHR ''/'' then CHR ''/'' # prefix else prefix)
              in rev (dropWhile (\<lambda>c. c = CHR ''/'') (rev slashed)))"

definition routePath :: "string \<Rightarrow> string \<Rightarrow> string" where
  "routePath prefix suffix =
     (if prefix = ''/''
      then (if suffix = '''' then ''/'' else ''/'' @ dropWhile (\<lambda>c. c = CHR ''/'') suffix)
      else if suffix = '''' then prefix
      else prefix @ ''/'' @ dropWhile (\<lambda>c. c = CHR ''/'') suffix)"

definition opshttp_defaultConfig :: opshttp_config where
  "opshttp_defaultConfig =
     \<lparr>hc_prefix = ''/admin'', hc_endpointOptions = [], hc_dispatchOptions = [],
      hc_lifecycleOptions = [], hc_lifecycleTimeout = 30 * second,
      hc_commandDispatchEnabled = False, hc_adminLifecycleControls = False\<rparr>"

definition WithPrefix :: "string \<Rightarrow> opshttp_config \<Rightarrow> opshttp_config" where
  "WithPrefix prefix cfg = cfg\<lparr>hc_prefix := normalizePrefix prefix\<rparr>"

definition WithEndpointOptions :: "nat list \<Rightarrow> opshttp_config \<Rightarrow> opshttp_config" where
  "WithEndpointOptions opts cfg = cfg\<lparr>hc_endpointOptions := hc_endpointOptions cfg @ opts\<rparr>"

definition WithDispatchOptions :: "nat list \<Rightarrow> opshttp_config \<Rightarrow> opshttp_config" where
  "WithDispatchOptions opts cfg = cfg\<lparr>hc_dispatchOptions := hc_dispatchOptions cfg @ opts\<rparr>"

definition WithLifecycleOptions :: "nat list \<Rightarrow> opshttp_config \<Rightarrow> opshttp_config" where
  "WithLifecycleOptions opts cfg = cfg\<lparr>hc_lifecycleOptions := hc_lifecycleOptions cfg @ opts\<rparr>"

definition WithLifecycleTimeout :: "int \<Rightarrow> opshttp_config \<Rightarrow> opshttp_config" where
  "WithLifecycleTimeout timeout cfg =
     (if timeout = 0 then cfg else cfg\<lparr>hc_lifecycleTimeout := timeout\<rparr>)"

definition WithCommandDispatchEnabled :: "opshttp_config \<Rightarrow> opshttp_config" where
  "WithCommandDispatchEnabled cfg = cfg\<lparr>hc_commandDispatchEnabled := True\<rparr>"

definition WithAdminLifecycleControlsEnabled :: "opshttp_config \<Rightarrow> opshttp_config" where
  "WithAdminLifecycleControlsEnabled cfg = cfg\<lparr>hc_adminLifecycleControls := True\<rparr>"

definition dispatchEndpointOptions :: "opshttp_config \<Rightarrow> nat list" where
  "dispatchEndpointOptions cfg = ([] @ hc_endpointOptions cfg) @ hc_dispatchOptions cfg"

definition lifecycleEndpointOptions :: "opshttp_config \<Rightarrow> nat list" where
  "lifecycleEndpointOptions cfg = ([] @ hc_endpointOptions cfg) @ hc_lifecycleOptions cfg"

datatype lifecycle_verb = VerbStart | VerbDrain | VerbStop

datatype route_action = DispatchCommand | OnWorker lifecycle_verb | OnRuntime lifecycle_verb

text \<open>A mounted route: its path (the method is always POST), what it does, its options.\<close>

record http_route =
  rt_path :: string
  rt_action :: route_action
  rt_options :: "nat list"

fun route_suffix :: "route_action \<Rightarrow> string" where
  "route_suffix (OnRuntime VerbStart) = ''runtime/start''"
| "route_suffix (OnRuntime VerbDrain) = ''runtime/drain''"
| "route_suffix (OnRuntime VerbStop) = ''runtime/stop''"
| "route_suffix (OnWorker VerbStart) = ''workers/start''"
| "route_suffix (OnWorker VerbDrain) = ''workers/drain''"
| "route_suffix (OnWorker VerbStop) = ''workers/stop''"
| "route_suffix DispatchCommand = ''commands/dispatch''"

definition registerCommandRoutes :: "opshttp_config \<Rightarrow> http_route list" where
  "registerCommandRoutes cfg =
     [\<lparr>rt_path = routePath (hc_prefix cfg) (route_suffix DispatchCommand),
       rt_action = DispatchCommand, rt_options = dispatchEndpointOptions cfg\<rparr>]"

definition registerLifecycleRoutes :: "opshttp_config \<Rightarrow> http_route list" where
  "registerLifecycleRoutes cfg =
     map (\<lambda>a. \<lparr>rt_path = routePath (hc_prefix cfg) (route_suffix a), rt_action = a,
               rt_options = lifecycleEndpointOptions cfg\<rparr>)
       [OnWorker VerbStart, OnWorker VerbDrain, OnWorker VerbStop,
        OnRuntime VerbStart, OnRuntime VerbDrain, OnRuntime VerbStop]"

text \<open>\<open>Mount\<close>: whether the server and the runtime are non-nil, and the options.\<close>

definition Mount ::
  "bool \<Rightarrow> bool \<Rightarrow> (opshttp_config \<Rightarrow> opshttp_config) option list \<Rightarrow> error + http_route list" where
  "Mount server rt opts =
     (if \<not> server then Inl (errors_new ''servekit server must not be nil'')
      else if \<not> rt then Inl (errors_new ''worker runtime must not be nil'')
      else let cfg = apply_options opts opshttp_defaultConfig
           in Inr ((if hc_commandDispatchEnabled cfg then registerCommandRoutes cfg else [])
                   @ (if hc_adminLifecycleControls cfg then registerLifecycleRoutes cfg else [])))"

end
