(* ===== verification/Opshttp_Claims.thy ===== *)
theory Opshttp_Claims
  imports Opshttp Example_Runtime
begin

text \<open>
  What the HTTP routes publish of a failed request, and which status each refusal of a command
  is answered with.
\<close>

section \<open>Private text\<close>

text \<open>What a client sees of a mapped error: its status and message. Servekit answers any other
  error without its text.\<close>

definition public :: "'a response \<Rightarrow> (int \<times> string) option" where
  "public r = (case r of HTTPFailure h \<Rightarrow> Some (he_status h, he_message h) | _ \<Rightarrow> None)"

lemma find_opskit_redact [simp]:
  "find_opskit (redact e) = find_opskit e" "find_opskit_any (redact_all es) = find_opskit_any es"
  by (induction e and es rule: redact_redact_all.induct) (auto split: option.splits)

lemma is_either_redact [simp]: "is_either a b (redact e) = is_either a b e"
  by (simp add: is_either_def split: option.split bool.split)

lemma opskitRejectedMessage_redact [simp]: "opskitRejectedMessage (redact e) = opskitRejectedMessage e"
  by (simp add: opskitRejectedMessage_def)

lemma public_simps [simp]:
  "public (HTTPFailure h) = Some (he_status h, he_message h)" "public (OtherError e) = None"
  "public HandlerPanics = None" "public NoResponse = None"
  by (simp_all add: public_def)

lemma he_simps [simp]:
  "he_status (mappedOperationalError st m c) = st" "he_message (mappedOperationalError st m c) = m"
  by (simp_all add: mappedOperationalError_def)

text \<open>Two lists of conditions that agree on the conditions and on what their responses show.\<close>

lemma switch_public:
  "list_all2 (\<lambda>x y. fst x = fst y \<and> public (snd x) = public (snd y)) xs ys \<Longrightarrow> public d = public d'
   \<Longrightarrow> public (switch_is xs d) = public (switch_is ys d')"
  by (induction rule: list_all2_induct) (auto split: option.split)

lemma mapped_either_redact [simp]:
  "public (mapped_either st a b (redact e)) = public (mapped_either st a b e)"
  by (simp add: mapped_either_def split: option.split)

text \<open>C31: the HTTP routes do not expose private error text. The status and the message a failed
  dispatch or lifecycle request is answered with are the same for any two errors that differ
  only in private text and private causes.\<close>

theorem http_hides_private_text:
  "public (mapDispatchError printable r worker command (redact err)) = public (mapDispatchError printable r worker command err)
   \<and> public (mapLifecycleError printable kind name (redact err)) = public (mapLifecycleError printable kind name err)"
proof
  show "public (mapDispatchError printable r worker command (redact err)) =
      public (mapDispatchError printable r worker command err)"
    unfolding mapDispatchError_def
    by (rule switch_public) (auto split: option.split)
  show "public (mapLifecycleError printable kind name (redact err)) = public (mapLifecycleError printable kind name err)"
    unfolding mapLifecycleError_def by (rule switch_public) (auto split: option.split)
qed

section \<open>Refusals\<close>

text \<open>The status of a refused command. A registered worker's command that is not admitted is
  answered with 503 when the runtime's gate refused it, 409 when the worker is not running or
  not accepting work, and 429 when a concurrency limit is reached; in each case with the fixed
  text of the reason.\<close>

lemma refusal_response [simp]:
  "public (mapDispatchError printable r worker command (Errorf f as [Sentinel ErrRuntimeNotAcceptingWork]))
     = Some (503, sentinel_Error ErrRuntimeNotAcceptingWork)"
  "public (mapDispatchError printable r worker command (Errorf f as [Sentinel ErrInvalidWorkerState]))
     = Some (409, sentinel_Error ErrInvalidWorkerState)"
  "public (mapDispatchError printable r worker command (Errorf f as [Sentinel ErrWorkerNotAcceptingWork]))
     = Some (409, sentinel_Error ErrWorkerNotAcceptingWork)"
  "public (mapDispatchError printable r worker command (Errorf f as [Sentinel ErrRuntimeSaturated]))
     = Some (429, sentinel_Error ErrRuntimeSaturated)"
  "public (mapDispatchError printable r worker command (Errorf f as [Sentinel ErrWorkerSaturated]))
     = Some (429, sentinel_Error ErrWorkerSaturated)"
  by (simp_all add: mapDispatchError_def is_either_def mapped_either_def)

lemma refusal_status:
  assumes "admitCommand n s = (Inl e, s')" and "map_of (r_workerStates s) n = Some w"
  shows "public (mapDispatchError printable r worker command e) =
    Some (if r_admissionClosed s \<or> rs_state (r_status s) \<in> {StateFailed, StateStopped, StateRegistered}
          then (503, ''runtime not accepting work'')
          else if lifecycle w \<noteq> StateRunning then (409, ''invalid worker state'')
          else if \<not> acceptingWork w then (409, ''worker not accepting work'')
          else if rc_commandConcurrency (r_config s) > 0
              \<and> rs_inFlight (r_status s) \<ge> rc_commandConcurrency (r_config s)
          then (429, ''runtime command concurrency limit reached'')
          else (429, ''worker command concurrency limit reached''))"
proof -
  consider "r_admissionClosed s"
    | "\<not> r_admissionClosed s" "rs_state (r_status s) \<in> {StateFailed, StateStopped, StateRegistered}"
    | "\<not> r_admissionClosed s" "rs_state (r_status s) \<notin> {StateFailed, StateStopped, StateRegistered}"
    by blast
  then show ?thesis
  proof cases
    case 3
    with assms show ?thesis
      by (cases "lifecycle w = StateRunning"; cases "acceptingWork w")
        (auto simp: admitCommand_def invalid_state_error_def sentinel_Error_def
          split: if_splits)
  qed (use assms in \<open>auto simp: admitCommand_def sentinel_Error_def\<close>)
qed

section \<open>Paths\<close>

lemma default_mounts_nothing: "Mount True True [] = Inr []"
  by (simp add: Mount_def apply_options_def opshttp_defaultConfig_def)

end
