(* ===== verification/Service.thy ===== *)
theory Service
  imports Worker_Handle
begin

text \<open>
  Package \<open>servekitservice\<close>: the coordinator that starts the workers, runs an HTTP server of the
  application and shuts the workers down, over the runtime of this development.

  The Servekit server is not part of the module. A run of it is a \<open>server_env\<close>: what it does to
  the runtime until it returns (commands and routes included), whether it asked for the shutdown
  context, and its result. \<open>context.WithoutCancel(ctx)\<close> is the context \<open>base\<close>, and each
  \<open>context.WithTimeout\<close> a context of its own; the environment ends them.
\<close>

section \<open>Construction\<close>

definition ErrNilRuntime :: error where
  "ErrNilRuntime = errors_new ''worker runtime must not be nil''"

definition ErrNilServer :: error where
  "ErrNilServer = errors_new ''servekit server must not be nil''"

definition stopFallbackTimeout :: duration where "stopFallbackTimeout = 5 * second"

record service_config =
  vc_startWorkers :: bool
  vc_gracefulWorkerShutdown :: bool
  vc_shutdownTimeout :: duration

text \<open>\<open>Service\<close>: whether its runtime is non-nil, its server, its configuration.\<close>

record 'srv service =
  sv_runtime :: bool
  sv_server :: "'srv option"
  sv_config :: service_config

definition WithStartWorkers :: "bool \<Rightarrow> service_config \<Rightarrow> service_config" where
  "WithStartWorkers enabled cfg = cfg\<lparr>vc_startWorkers := enabled\<rparr>"

definition WithGracefulWorkerShutdown :: "bool \<Rightarrow> service_config \<Rightarrow> service_config" where
  "WithGracefulWorkerShutdown enabled cfg = cfg\<lparr>vc_gracefulWorkerShutdown := enabled\<rparr>"

definition WithShutdownTimeout :: "duration \<Rightarrow> service_config \<Rightarrow> service_config" where
  "WithShutdownTimeout timeout cfg =
     (if timeout = 0 then cfg else cfg\<lparr>vc_shutdownTimeout := timeout\<rparr>)"

definition service_defaultConfig :: service_config where
  "service_defaultConfig =
     \<lparr>vc_startWorkers = True, vc_gracefulWorkerShutdown = True, vc_shutdownTimeout = 20 * second\<rparr>"

definition newWithConfig :: "bool \<Rightarrow> 'srv option \<Rightarrow> service_config \<Rightarrow> error + 'srv service" where
  "newWithConfig rt server cfg = Inr \<lparr>sv_runtime = rt, sv_server = server, sv_config = cfg\<rparr>"

definition NewService ::
  "bool \<Rightarrow> 'srv option \<Rightarrow> (service_config \<Rightarrow> service_config) option list \<Rightarrow> error + 'srv service" where
  "NewService rt server opts =
     (if \<not> rt then Inl ErrNilRuntime
      else if server = None then Inl ErrNilServer
      else newWithConfig rt server (apply_options opts service_defaultConfig))"

text \<open>A nil \<open>*Service\<close> is \<open>None\<close>.\<close>

definition Server :: "'srv service option \<Rightarrow> 'srv option" where
  "Server sv = (case sv of None \<Rightarrow> None | Some v \<Rightarrow> sv_server v)"

section \<open>Shutdown\<close>

definition newShutdownContext :: "service_config \<Rightarrow> ctx \<Rightarrow> ctx \<Rightarrow> ctx" where
  "newShutdownContext cfg base fresh = (if vc_shutdownTimeout cfg > 0 then fresh else base)"

text \<open>The cancel function that comes with it, which the callers defer.\<close>

definition cancelShutdownContext :: "service_config \<Rightarrow> ctx \<Rightarrow> sys \<Rightarrow> sys" where
  "cancelShutdownContext cfg fresh s =
     (if vc_shutdownTimeout cfg > 0 then act (CtxDone fresh CtxCanceled) s else s)"

record cleanup_env =
  cl_pre :: "action list"
  cl_shutdown :: shutdown_env
  cl_after :: "action list"
  cl_stopCtx :: ctx
  cl_stopPre :: "action list"
  cl_stop :: "string \<Rightarrow> op_env"

definition shutdownWorkersWithContext :: "ctx \<Rightarrow> cleanup_env \<Rightarrow> sys \<Rightarrow> outcome \<times> sys" where
  "shutdownWorkersWithContext shutdownCtx env s =
     (case Shutdown shutdownCtx (cl_pre env) (cl_shutdown env) s of
        (Finished None, s1) \<Rightarrow> (Finished None, s1)
      | (Finished (Some err), s1) \<Rightarrow>
          (let s2 = run (cl_after env) s1
           in case ctx_Err shutdownCtx s2 of
                None \<Rightarrow> (Finished (Some err), s2)
              | Some ctxErr \<Rightarrow>
                  (case StopAll (cl_stopCtx env) (cl_stopPre env) (cl_stop env) s2 of
                     (Blocked, s3) \<Rightarrow> (Blocked, s3)
                   | (Panicking, s3) \<Rightarrow> (Panicking, act (CtxDone (cl_stopCtx env) CtxCanceled) s3)
                   | (Finished stopErr, s3) \<Rightarrow>
                       (Finished
                          (case stopErr of
                             None \<Rightarrow> Some err
                           | Some e \<Rightarrow> errors_join [Some err,
                               Some (Errorf ''stop workerkit workers after shutdown timeout: %w'' [] [e])]),
                        act (CtxDone (cl_stopCtx env) CtxCanceled) s3)))
      | ended \<Rightarrow> ended)"

text \<open>A function whose deferred cancel runs as it returns or panics.\<close>

definition deferring :: "(sys \<Rightarrow> sys) \<Rightarrow> outcome \<times> sys \<Rightarrow> outcome \<times> sys" where
  "deferring cancel result =
     (case result of (Blocked, s) \<Rightarrow> (Blocked, s) | (out, s) \<Rightarrow> (out, cancel s))"

definition shutdownWorkers ::
  "service_config \<Rightarrow> ctx \<Rightarrow> ctx \<Rightarrow> cleanup_env \<Rightarrow> sys \<Rightarrow> outcome \<times> sys" where
  "shutdownWorkers cfg base fresh env s =
     deferring (cancelShutdownContext cfg fresh)
       (shutdownWorkersWithContext (newShutdownContext cfg base fresh) env s)"

section \<open>Run\<close>

text \<open>\<open>se_result\<close> is \<open>None\<close> while the server has not returned; \<open>se_began\<close> says whether it asked
  for the shutdown context.\<close>

record server_env =
  se_serve :: "sys \<Rightarrow> sys"
  se_began :: bool
  se_result :: "op_result option"

record service_env =
  ve_ctx :: ctx
  ve_base :: ctx
  ve_fresh :: ctx
  ve_startPre :: "action list"
  ve_start :: "string \<Rightarrow> op_env"
  ve_server :: server_env
  ve_cleanup :: cleanup_env

definition server_Run :: "server_env \<Rightarrow> sys \<Rightarrow> outcome \<times> sys" where
  "server_Run env s =
     ((case se_result env of
         None \<Rightarrow> Blocked | Some Panics \<Rightarrow> Panicking | Some (Returns e) \<Rightarrow> Finished e),
      se_serve env s)"

text \<open>\<open>shutdownCtx\<close> is the variable the server's callback assigns; both assignments make the
  context the same way.\<close>

definition runServer :: "service_config \<Rightarrow> service_env \<Rightarrow> sys \<Rightarrow> outcome \<times> sys" where
  "runServer cfg env s =
     (case server_Run (ve_server env) s of
        (Finished runErr, s1) \<Rightarrow>
          (let assigned = (if se_began (ve_server env)
                           then Some (newShutdownContext cfg (ve_base env) (ve_fresh env)) else None);
               shutdownCtx = (case assigned of
                                Some c \<Rightarrow> c
                              | None \<Rightarrow> newShutdownContext cfg (ve_base env) (ve_fresh env))
           in deferring (cancelShutdownContext cfg (ve_fresh env))
                (case shutdownWorkersWithContext shutdownCtx (ve_cleanup env) s1 of
                   (Finished None, s2) \<Rightarrow> (Finished runErr, s2)
                 | (Finished (Some err), s2) \<Rightarrow> (Finished (errors_join [runErr, Some err]), s2)
                 | ended \<Rightarrow> ended))
      | ended \<Rightarrow> ended)"

definition Run :: "'srv service option \<Rightarrow> service_env \<Rightarrow> sys \<Rightarrow> outcome \<times> sys" where
  "Run service env s =
     (case service of
        None \<Rightarrow> (Finished (Some (errors_new ''workerkit service must not be nil'')), s)
      | Some v \<Rightarrow>
     (if \<not> sv_runtime v then (Finished (Some ErrNilRuntime), s)
      else if sv_server v = None then (Finished (Some ErrNilServer), s)
      else
     (let cfg = sv_config v;
          serve = (\<lambda>manageWorkerShutdown s1.
            if \<not> vc_gracefulWorkerShutdown cfg \<or> \<not> manageWorkerShutdown
            then server_Run (ve_server env) s1
            else runServer cfg env s1)
      in if \<not> vc_startWorkers cfg then serve (\<not> vc_startWorkers cfg) s
         else (case StartAll (ve_ctx env) (ve_startPre env) (ve_start env) s of
                 (Finished None, s1) \<Rightarrow> serve True s1
               | (Finished (Some err), s1) \<Rightarrow>
                   (let startErr = Errorf ''start workerkit workers: %w'' [] [err]
                    in if \<not> vc_gracefulWorkerShutdown cfg then (Finished (Some startErr), s1)
                       else (case shutdownWorkers cfg (ve_base env) (ve_fresh env)
                                    (ve_cleanup env) s1 of
                               (Finished shutdownErr, s2) \<Rightarrow>
                                 (Finished (errors_join [Some startErr, shutdownErr]), s2)
                             | ended \<Rightarrow> ended))
               | ended \<Rightarrow> ended))))"

end
