(* ===== verification/Service_Claims.thy ===== *)
theory Service_Claims
  imports Service Operation_Claims
begin

text \<open>
  What \<open>Service.Run\<close> promises about the workers it coordinates, whatever the server, the workers
  and everybody else do meanwhile: what nil means, what becomes of a startup failure, and what the
  fallback after an expired shutdown budget releases.
\<close>

section \<open>Workers at rest\<close>

lemma done_fields [simp]:
  "all_in A (s\<lparr>s_done := d\<rparr>) = all_in A s" "down (s\<lparr>s_done := d\<rparr>) = down s"
  by (simp_all add: down_def all_in_def get_state_def)

lemma down_cancel [simp]: "down (cancelShutdownContext cfg c s) = down s"
  by (simp add: cancelShutdownContext_def)

lemma reachable_run: "reachable s \<Longrightarrow> reachable (run as s)"
  by (induction as arbitrary: s) (auto intro: reachable.acting)

lemma reachable_cancel: "reachable s \<Longrightarrow> reachable (cancelShutdownContext cfg c s)"
  by (simp add: cancelShutdownContext_def reachable.acting del: act.simps)

section \<open>The cleanup\<close>

text \<open>The ways a cleanup ends: \<open>Shutdown\<close> decides alone, or its context has ended and \<open>StopAll\<close>
  runs under the fallback's.\<close>

lemma cleanup_cases:
  assumes "shutdownWorkersWithContext c env s = (out, s')"
  obtains (nil) "Shutdown c (cl_pre env) (cl_shutdown env) s = (Finished None, s')" "out = Finished None"
  | (alone) err s1 where "Shutdown c (cl_pre env) (cl_shutdown env) s = (Finished (Some err), s1)"
      "s' = run (cl_after env) s1" "ctx_Err c s' = None" "out = Finished (Some err)"
  | (fallback) err s1 stopped s3
    where "Shutdown c (cl_pre env) (cl_shutdown env) s = (Finished (Some err), s1)"
      "ctx_Err c (run (cl_after env) s1) \<noteq> None"
      "StopAll (cl_stopCtx env) (cl_stopPre env) (cl_stop env) (run (cl_after env) s1) = (stopped, s3)"
      "s' = (if stopped = Blocked then s3 else act (CtxDone (cl_stopCtx env) CtxCanceled) s3)"
      "stopped = Finished None \<Longrightarrow> out = Finished (Some err)"
      "\<And>e. stopped = Finished (Some e) \<Longrightarrow> out = Finished (errors_join [Some err,
         Some (Errorf ''stop workerkit workers after shutdown timeout: %w'' [] [e])])"
      "stopped = Panicking \<Longrightarrow> out = Panicking" "stopped = Blocked \<Longrightarrow> out = Blocked"
  | (early) "Shutdown c (cl_pre env) (cl_shutdown env) s = (out, s')" "\<nexists>e. out = Finished e"
proof -
  obtain o1 s1 where sh: "Shutdown c (cl_pre env) (cl_shutdown env) s = (o1, s1)"
    by (cases "Shutdown c (cl_pre env) (cl_shutdown env) s")
  note step = assms [unfolded shutdownWorkersWithContext_def sh]
  show thesis
  proof (cases "\<exists>err. o1 = Finished (Some err)")
    case False
    with step sh show thesis by (cases o1) (auto intro: nil early)
  next
    case True
    then obtain err where e: "o1 = Finished (Some err)" by blast
    show thesis
    proof (cases "ctx_Err c (run (cl_after env) s1)")
      case None
      with step sh e show thesis by (intro alone) auto
    next
      case (Some x)
      obtain stopped s3 where st: "StopAll (cl_stopCtx env) (cl_stopPre env) (cl_stop env)
          (run (cl_after env) s1) = (stopped, s3)"
        by (cases "StopAll (cl_stopCtx env) (cl_stopPre env) (cl_stop env) (run (cl_after env) s1)")
      note step2 = step [unfolded e Let_def prod.case outcome.case option.case Some st]
      have ended: "ctx_Err c (run (cl_after env) s1) \<noteq> None" using Some by simp
      show thesis
      proof (cases stopped)
        case (Finished x)
        with step2 have "s' = act (CtxDone (cl_stopCtx env) CtxCanceled) s3"
          "out = Finished (case x of None \<Rightarrow> Some err | Some e \<Rightarrow> errors_join [Some err,
             Some (Errorf ''stop workerkit workers after shutdown timeout: %w'' [] [e])])"
          by (simp_all only: outcome.case prod.inject)
        then show thesis by (intro fallback [OF sh [unfolded e] ended st]) (simp_all add: Finished)
      next
        case Panicking
        with step2 have "s' = act (CtxDone (cl_stopCtx env) CtxCanceled) s3" "out = Panicking"
          by (simp_all only: outcome.case prod.inject)
        then show thesis by (intro fallback [OF sh [unfolded e] ended st]) (simp_all add: Panicking)
      next
        case Blocked
        with step2 have "s' = s3" "out = Blocked" by (simp_all only: outcome.case prod.inject)
        then show thesis by (intro fallback [OF sh [unfolded e] ended st]) (simp_all add: Blocked)
      qed
    qed
  qed
qed

lemma cleanup_reachable:
  assumes "reachable s" and "shutdownWorkersWithContext c env s = (out, s')"
  shows "reachable s'"
  using assms(2)
proof (cases rule: cleanup_cases)
  case (fallback err s1 stopped s3)
  have "reachable s3"
    using reachable.stopping_all [OF reachable_run [OF reachable.shutting_down [OF assms(1) fallback(1)]]
        fallback(3)] .
  then show ?thesis by (simp add: fallback(4) reachable.acting del: act.simps)
qed (auto intro: reachable.shutting_down [OF assms(1)] reachable_run)

lemma cleanup_down:
  assumes "reachable s" and "shutdownWorkersWithContext c env s = (Finished None, s')"
  shows "down s'"
  using assms(2)
proof (cases rule: cleanup_cases)
  case nil
  then show ?thesis using Shutdown_down [OF assms(1)] by blast
next
  case (fallback err s1 stopped s3)
  have False
  proof (cases stopped)
    case (Finished x)
    with fallback(5,6) show False by (cases x) (simp_all add: errors_join_def map_filter_simps)
  qed (use fallback in simp_all)
  then show ?thesis ..
qed auto



section \<open>Run\<close>

lemma runServer_down:
  assumes "reachable s" and "\<And>s. reachable s \<Longrightarrow> reachable (se_serve (ve_server env) s)"
    and "runServer cfg env s = (Finished None, s')"
  shows "down s'"
proof -
  let ?c = "newShutdownContext cfg (ve_base env) (ve_fresh env)"
  obtain runErr where srv: "server_Run (ve_server env) s = (Finished runErr, se_serve (ve_server env) s)"
    using assms(3) by (auto simp: runServer_def server_Run_def split: option.splits op_result.splits)
  obtain o2 s2 where cl: "shutdownWorkersWithContext ?c (ve_cleanup env) (se_serve (ve_server env) s) = (o2, s2)"
    by (cases "shutdownWorkersWithContext ?c (ve_cleanup env) (se_serve (ve_server env) s)")
  have "o2 = Finished None" "s' = cancelShutdownContext cfg (ve_fresh env) s2"
    using assms(3) by (auto simp: runServer_def srv cl deferring_def errors_join_def map_filter_simps
        split: outcome.splits option.splits if_splits list.splits)
  then show ?thesis using cleanup_down [OF assms(2) [OF assms(1)]] cl by simp
qed

text \<open>C6: what nil out of \<open>Run\<close> means. When graceful worker shutdown is enabled, as it is by
  default, and \<open>Run\<close> returns nil, the runtime is down: no command holds a slot and every worker is
  stopped or was never started, whatever the server did to the runtime while it served.\<close>

theorem Run_nil_means_down:
  assumes "reachable s" and "vc_gracefulWorkerShutdown (sv_config v)"
    and "\<And>s. reachable s \<Longrightarrow> reachable (se_serve (ve_server env) s)"
    and "Run (Some v) env s = (Finished None, s')"
  shows "rs_inFlight (r_status s') = 0 \<and> s_active s' = []
    \<and> (\<forall>n \<in> set (r_workerOrder s'). lifecycle (get_state s' n) \<in> {StateRegistered, StateStopped})"
proof -
  have nn: "sv_runtime v" "sv_server v \<noteq> None"
    using assms(4) by (auto simp: Run_def split: if_splits)
  note step = assms(4) [unfolded Run_def option.case Let_def, simplified assms(2) nn, simplified]
  have "down s'"
  proof (cases "vc_startWorkers (sv_config v)")
    case False
    then show ?thesis using step runServer_down [OF assms(1,3)] by simp
  next
    case True
    obtain o1 s1 where st: "StartAll (ve_ctx env) (ve_startPre env) (ve_start env) s = (o1, s1)"
      by (cases "StartAll (ve_ctx env) (ve_startPre env) (ve_start env) s")
    have "o1 = Finished None"
      using step True by (auto simp: st errors_join_def map_filter_simps
          split: outcome.splits option.splits prod.splits)
    then have "runServer (sv_config v) env s1 = (Finished None, s')" using step True by (simp add: st)
    with runServer_down [OF reachable.starting_all [OF assms(1) st] assms(3)] show ?thesis by simp
  qed
  then show ?thesis by (simp add: down_def all_in_def)
qed

text \<open>C26: a failed startup. When \<open>StartAll\<close> fails, \<open>Run\<close> never runs the server and its error
  reports the failure of the workers; without graceful shutdown it touches nothing more, and with
  it the workers that did start are cleaned up.\<close>

theorem Run_reports_startup:
  assumes "sv_runtime v" and "sv_server v \<noteq> None" and "vc_startWorkers (sv_config v)"
    and "StartAll (ve_ctx env) (ve_startPre env) (ve_start env) s = (Finished (Some err), s1)"
    and "Run (Some v) env s = (Finished out, s')"
  shows "(\<exists>x. out = Some x \<and> (\<forall>t. is_error err t \<longrightarrow> is_error x t))
    \<and> Run (Some v) (env\<lparr>ve_server := other\<rparr>) s = (Finished out, s')
    \<and> (if vc_gracefulWorkerShutdown (sv_config v)
       then \<exists>cleaned. shutdownWorkers (sv_config v) (ve_base env) (ve_fresh env) (ve_cleanup env) s1
              = (Finished cleaned, s')
       else s' = s1)"
  using assms
  by (auto simp: Run_def Let_def errors_join_def map_filter_simps split: if_splits outcome.splits prod.splits option.splits)

section \<open>A service over the example runtime\<close>

definition ex_service :: "nat service" where
  "ex_service = \<lparr>sv_runtime = True, sv_server = Some 0, sv_config = service_defaultConfig\<rparr>"

definition ex_quiet_shutdown :: shutdown_env where
  "ex_quiet_shutdown = \<lparr>sh_drain = quiet, sh_afterDrain = [], sh_polls = [], sh_afterWait = [], sh_stop = quiet\<rparr>"

definition ex_cleanup :: cleanup_env where
  "ex_cleanup = \<lparr>cl_pre = [], cl_shutdown = ex_quiet_shutdown, cl_after = [], cl_stopCtx = 9,
     cl_stopPre = [], cl_stop = quiet\<rparr>"

definition ex_service_env :: "(string \<Rightarrow> op_env) \<Rightarrow> service_env" where
  "ex_service_env startup = \<lparr>ve_ctx = 0, ve_base = 1, ve_fresh = 2, ve_startPre = [], ve_start = startup,
     ve_server = \<lparr>se_serve = (\<lambda>s. s), se_began = True, se_result = Some (Returns None)\<rparr>,
     ve_cleanup = ex_cleanup\<rparr>"

text \<open>The default service without startup, on the registered workers.\<close>

lemma ex_shutdown:
  "Shutdown c [] ex_quiet_shutdown ex_registered =
     (Finished None, ex_closed\<lparr>r_admissionClosed := r_admissionClosed ex_registered, r_gate := True\<rparr>)"
proof -
  have acq: "acquireLifecycle c [] ex_registered = (Acquired, ex_closed)"
    by (simp add: acquireLifecycle_def ctx_Err_def ex_registered_def ex_with_def ex_closed_def)
  have "shutdown c ex_quiet_shutdown (ex_closed\<lparr>r_admissionClosed := True\<rparr>) =
      (Finished None, ex_closed\<lparr>r_admissionClosed := True\<rparr>)"
    by (simp add: shutdown_def Let_def drainAllBestEffort_def ex_closed_all quiet_def errors_join_def
        append_err_def stopAll_def ex_quiet_shutdown_def)
  then show ?thesis
    by (simp add: Shutdown_def runLifecycle_def acq runWithCommandAdmissionClosed_def Let_def ex_closed_def)
qed

theorem Run_nil_means_down_witness:
  "s_active (snd (Run (Some (ex_service\<lparr>sv_config := WithStartWorkers False service_defaultConfig\<rparr>))
     (ex_service_env quiet) ex_registered)) = []"
proof -
  let ?v = "ex_service\<lparr>sv_config := WithStartWorkers False service_defaultConfig\<rparr>"
  have "fst (Run (Some ?v) (ex_service_env quiet) ex_registered) = Finished None"
    by (simp add: Run_def ex_service_def ex_service_env_def ex_cleanup_def WithStartWorkers_def
        service_defaultConfig_def runServer_def server_Run_def shutdownWorkersWithContext_def
        ex_shutdown deferring_def)
  then obtain s' where run: "Run (Some ?v) (ex_service_env quiet) ex_registered = (Finished None, s')"
    by (cases "Run (Some ?v) (ex_service_env quiet) ex_registered") simp
  have "vc_gracefulWorkerShutdown (sv_config ?v)" by (simp add: WithStartWorkers_def service_defaultConfig_def)
  from Run_nil_means_down [OF ex_registered_reachable this _ run] run show ?thesis
    by (simp add: ex_service_env_def)
qed



text \<open>The registered workers with the context \<open>c\<close> past its deadline.\<close>

definition ex_expired :: "ctx \<Rightarrow> sys" where
  "ex_expired c = act (CtxDone c CtxDeadlineExceeded) ex_registered"

lemma ex_expired_facts:
  "reachable (ex_expired c)" "ctx_Err c (ex_expired c) = Some (Sentinel CtxDeadlineExceeded)"
  "c \<noteq> d \<Longrightarrow> acquireLifecycle d [] (ex_expired c) = (Acquired, (ex_expired c)\<lparr>r_gate := False\<rparr>)"
  "acquireLifecycle c [] (ex_expired c) = (AcquireFailed (Sentinel CtxDeadlineExceeded), ex_expired c)"
  unfolding ex_expired_def
  by (rule reachable.acting [OF ex_registered_reachable])
     (simp_all add: acquireLifecycle_def ctx_Err_def ex_registered_def ex_with_def)



theorem Run_reports_startup_witness:
  "\<exists>x s'. Run (Some (ex_service\<lparr>sv_config := WithGracefulWorkerShutdown False service_defaultConfig\<rparr>))
     (ex_service_env quiet) (ex_expired 0) = (Finished (Some x), s') \<and> is_error x CtxDeadlineExceeded"
proof -
  let ?v = "ex_service\<lparr>sv_config := WithGracefulWorkerShutdown False service_defaultConfig\<rparr>"
  have st: "StartAll (ve_ctx (ex_service_env quiet)) (ve_startPre (ex_service_env quiet))
      (ve_start (ex_service_env quiet)) (ex_expired 0) =
      (Finished (Some (Sentinel CtxDeadlineExceeded)), ex_expired 0)"
    by (simp add: StartAll_def runLifecycle_def ex_expired_facts ex_service_env_def)
  have v: "sv_runtime ?v" "sv_server ?v \<noteq> None" "vc_startWorkers (sv_config ?v)"
    "\<not> vc_gracefulWorkerShutdown (sv_config ?v)"
    by (simp_all add: ex_service_def WithGracefulWorkerShutdown_def service_defaultConfig_def)
  obtain out s' where run: "Run (Some ?v) (ex_service_env quiet) (ex_expired 0) = (Finished out, s')"
    using v by (simp add: Run_def Let_def st ex_service_def)
  from Run_reports_startup [OF v(1-3) st run] run show ?thesis by auto
qed

end
