(* ===== verification/Service_Returns.thy ===== *)
theory Service_Returns
  imports Service_Claims
begin

text \<open>
  Which behaviour of the environment makes the lifecycle operations return: that worker code
  returns or panics, that timers fire or contexts end, and that the lifecycle gate is not held by
  somebody else. Nothing else can block them, up to \<open>Service.Run\<close>.
\<close>

section \<open>The gate\<close>

lemma frozen_gate: "frozen s' = frozen s \<Longrightarrow> r_gate s' = r_gate s"
  by (simp add: frozen_def)

lemma run_gate [simp]: "r_gate (run as s) = r_gate s"
  by (induction as arbitrary: s) (simp_all add: frozen_gate [OF act_frozen])

lemma runLifecycle_returns:
  assumes "r_gate s" and "\<And>s1. s1 = (run pre s)\<lparr>r_gate := False\<rparr> \<Longrightarrow> fst (operation s1) \<noteq> Blocked"
  shows "fst (runLifecycle c pre operation s) \<noteq> Blocked \<and> r_gate (snd (runLifecycle c pre operation s))"
proof (cases "ctx_Err c s")
  case Some
  then show ?thesis using assms(1) by (simp add: runLifecycle_def acquireLifecycle_def)
next
  case None
  show ?thesis
  proof (cases "ctx_Err c (run pre s)")
    case Some
    with None show ?thesis using assms(1) by (simp add: runLifecycle_def acquireLifecycle_def Let_def)
  next
    case n: None
    obtain out s2 where op: "operation ((run pre s)\<lparr>r_gate := False\<rparr>) = (out, s2)" by fastforce
    have "out \<noteq> Blocked" using assms(2) [OF refl] op by simp
    with None n op show ?thesis
      using assms(1) by (cases out) (simp_all add: runLifecycle_def acquireLifecycle_def Let_def)
  qed
qed

lemma closed_returns:
  "fst (operation (s\<lparr>r_admissionClosed := True\<rparr>)) \<noteq> Blocked
   \<Longrightarrow> fst (runWithCommandAdmissionClosed operation s) \<noteq> Blocked"
  by (auto simp: runWithCommandAdmissionClosed_def Let_def split: prod.split outcome.split)

section \<open>Stopping\<close>

text \<open>Every call of \<open>Worker.Stop\<close> returns or panics.\<close>

definition stops_return :: "(string \<Rightarrow> op_env) \<Rightarrow> bool" where
  "stops_return env \<longleftrightarrow> (\<forall>n. oe_attempts (env n) \<noteq> [])"

lemma stop_returns: "as \<noteq> [] \<Longrightarrow> fst (stop as name s) \<noteq> Blocked"
  by (cases as) (auto simp: stop_def recoverLifecyclePanic_def Let_def
      split: sum.split prod.split op_result.split option.split)

lemma stopEach_returns: "stops_return env \<Longrightarrow> fst (stopEach env ws errs s) \<noteq> Blocked"
proof (induction ws arbitrary: errs s)
  case (Cons p ws)
  have "fst (stop (oe_attempts (env n)) m r) \<noteq> Blocked" for n m r
    by (rule stop_returns) (use Cons.prems in \<open>simp add: stops_return_def\<close>)
  then show ?case
    using Cons.IH [OF Cons.prems]
    by (cases p) (auto simp: Let_def split: prod.split outcome.split option.split, (metis fst_conv)+)
qed simp

lemma stopAll_returns: "stops_return env \<Longrightarrow> fst (stopAll env s) \<noteq> Blocked"
  by (simp add: stopAll_def stopEach_returns)

lemma StopAll_returns:
  assumes "r_gate s" and "stops_return env"
  shows "fst (StopAll c pre env s) \<noteq> Blocked \<and> r_gate (snd (StopAll c pre env s))"
  unfolding StopAll_def
  by (rule runLifecycle_returns [OF assms(1)]) (rule closed_returns, rule stopAll_returns [OF assms(2)])

section \<open>Waiting for idleness\<close>

definition ends :: "ctx \<Rightarrow> action list \<Rightarrow> bool" where
  "ends c as \<longleftrightarrow> (\<exists>e. CtxDone c e \<in> set as)"

lemma run_ended: "ctx_Err c s \<noteq> None \<Longrightarrow> ctx_Err c (run as s) \<noteq> None"
proof -
  assume "ctx_Err c s \<noteq> None"
  then obtain e where "ctx_Err c s = Some e" by blast
  then have "ctx_Err c (run as s) = Some e" by (rule ctx_done.run_inv)
  then show ?thesis by simp
qed

lemma ends_ended: "ends c as \<Longrightarrow> ctx_Err c (run as s) \<noteq> None"
proof (induction as arbitrary: s)
  case (Cons a as)
  show ?case
  proof (cases "ends c as")
    case True
    then show ?thesis using Cons.IH by simp
  next
    case False
    then obtain e where "a = CtxDone c e" using Cons.prems by (auto simp: ends_def)
    then have "ctx_Err c (act a s) \<noteq> None" by (auto simp: ctx_Err_def)
    then show ?thesis using run_ended by simp
  qed
qed (simp add: ends_def)

text \<open>Each poll's timer fires or the context ends meanwhile, and one of them sees the end.\<close>

definition polls_end :: "ctx \<Rightarrow> poll list \<Rightarrow> bool" where
  "polls_end c ps \<longleftrightarrow>
     (\<forall>p \<in> set ps. po_timer p \<or> ends c (po_script p)) \<and> (\<exists>p \<in> set ps. \<not> po_timer p)"

lemma WaitAllIdle_returns: "polls_end c ps \<Longrightarrow> fst (WaitAllIdle c ps s) \<noteq> Blocked"
proof (induction ps arbitrary: s)
  case (Cons p ps)
  show ?case
  proof (cases "po_timer p")
    case True
    then have "polls_end c ps" using Cons.prems by (auto simp: polls_end_def)
    with True show ?thesis
      using Cons.IH by (simp add: waitForIdlePoll_def select_timer_def Let_def)
  next
    case False
    then have "ends c (po_script p)" using Cons.prems by (simp add: polls_end_def)
    then have "ctx_Err c (run (po_script p) s) \<noteq> None" by (rule ends_ended)
    with False show ?thesis
      by (auto simp: waitForIdlePoll_def select_timer_def Let_def split: option.split)
  qed
qed (simp add: polls_end_def)

section \<open>Shutdown\<close>

lemma shutdown_returns:
  assumes "polls_end c (sh_polls env)" and "stops_return (sh_stop env)"
  shows "fst (shutdown c env s) \<noteq> Blocked"
proof -
  have "fst (WaitAllIdle c (sh_polls env) r) \<noteq> Blocked" for r by (rule WaitAllIdle_returns [OF assms(1)])
  moreover have "fst (stopAll (sh_stop env) r) \<noteq> Blocked" for r by (rule stopAll_returns [OF assms(2)])
  ultimately show ?thesis
    by (auto simp: shutdown_def Let_def split: prod.split outcome.split option.split) (metis fst_conv)+
qed

lemma Shutdown_returns:
  assumes "r_gate s" and "polls_end c (sh_polls env)" and "stops_return (sh_stop env)"
  shows "fst (Shutdown c pre env s) \<noteq> Blocked \<and> r_gate (snd (Shutdown c pre env s))"
  unfolding Shutdown_def
  by (rule runLifecycle_returns [OF assms(1)]) (rule closed_returns, rule shutdown_returns [OF assms(2,3)])


section \<open>Starting\<close>

text \<open>Every call of \<open>Worker.Start\<close> returns or panics, retry delays elapse, and the retry policy is
  bounded, as those of package \<open>retry\<close> are; without a policy there is one attempt.\<close>

definition starts_return :: "workerConfig \<Rightarrow> attempt list \<Rightarrow> bool" where
  "starts_return cfg as \<longleftrightarrow> as \<noteq> [] \<and> (\<forall>a \<in> set as. at_timer a)
     \<and> (case startRetryPolicy cfg of
          None \<Rightarrow> True
        | Some p \<Rightarrow> (\<exists>b. bounded_policy p b \<and> b \<le> int (length as)))"

lemma attempts_return:
  assumes "starts_return cfg as"
  shows "fst (runWithRetry c (startRetryPolicy cfg) call_worker f as s) \<noteq> Blocked"
proof (cases "startRetryPolicy cfg")
  case None
  have "1 \<le> int (length as)" using assms by (cases as) (simp_all add: starts_return_def)
  then show ?thesis
    using assms unfolding runWithRetry_def None option.case
    by (intro never_retry.loop_returns) (simp_all add: starts_return_def)
next
  case (Some p)
  then obtain b where "bounded_policy p b" "b \<le> int (length as)"
    using assms by (auto simp: starts_return_def)
  then show ?thesis
    using assms unfolding runWithRetry_def Some option.case
    by (intro bounded_policy.loop_returns) (simp_all add: starts_return_def)
qed

lemma start_returns:
  assumes "\<And>n wk cfg. lookupWorker name s = Inr (n, wk, cfg) \<Longrightarrow> starts_return cfg as"
  shows "fst (start c as name s) \<noteq> Blocked"
proof (cases "lookupWorker name s")
  case (Inl e)
  then show ?thesis by (simp add: start_def)
next
  case (Inr p)
  then obtain n wk cfg where look: "lookupWorker name s = Inr (n, wk, cfg)" by (cases p) auto
  have "fst (runWithRetry c (startRetryPolicy cfg) call_worker f as r) \<noteq> Blocked" for f r
    by (rule attempts_return [OF assms [OF look]])
  then show ?thesis
    by (auto simp: start_def look recoverLifecyclePanic_def Let_def
        split: sum.split prod.splits outcome.splits option.splits) (metis fst_conv)+
qed

lemma startAllFrom_returns:
  assumes "sys_inv s" and "\<forall>(n, l) \<in> set ws. n \<in> set (r_workerOrder s)"
    and "\<forall>n \<in> set (r_workerOrder s). starts_return (get_config s n) (oe_attempts (env n))"
  shows "fst (startAllFrom c env ws s) \<noteq> Blocked"
  using assms
proof (induction ws arbitrary: s)
  case (Cons p ws)
  obtain n l where p: "p = (n, l)" by (cases p)
  let ?s0 = "run (oe_before (env n)) s"
  have inv0: "sys_inv ?s0" using Cons.prems(1) by simp
  have f0: "frozen ?s0 = frozen s" by (rule frozen.run_view [OF Cons.prems(1)])
  have next_ok: "fst (startAllFrom c env ws r) \<noteq> Blocked" if "sys_inv r" "frozen r = frozen s" for r
  proof (rule Cons.IH [OF that(1)])
    have "r_workerOrder r = r_workerOrder s" "get_config r = get_config s"
      using that(2) by (simp_all add: frozen_def get_config_def fun_eq_iff)
    then show "\<forall>(n, l) \<in> set ws. n \<in> set (r_workerOrder r)"
      "\<forall>n \<in> set (r_workerOrder r). starts_return (get_config r n) (oe_attempts (env n))"
      using Cons.prems(2,3) by auto
  qed
  obtain out s1 where st: "start c (oe_attempts (env n)) n ?s0 = (out, s1)" by fastforce
  have b: "bulk_frame ?s0 s1" using start_bulk [OF inv0, of c "oe_attempts (env n)" n] st by simp
  have "out \<noteq> Blocked"
  proof -
    have n: "n \<in> set (r_workerOrder s)" using Cons.prems(2) p by simp
    obtain wk where "lookupWorker n s = Inr (n, wk, get_config s n)"
      using registered_lookup [OF sys_inv_rt [OF Cons.prems(1)] n] ..
    then have "lookupWorker n ?s0 = Inr (n, wk, get_config s n)"
      by (simp add: lookupWorker_frozen [OF f0])
    then have "fst (start c (oe_attempts (env n)) n ?s0) \<noteq> Blocked"
      using Cons.prems(3) n by (intro start_returns) simp
    then show ?thesis by (simp add: st)
  qed
  moreover have "sys_inv s1" "frozen s1 = frozen s" using b f0 by (simp_all add: bulk_frame_def)
  ultimately show ?case
    using next_ok [of s1] next_ok [OF inv0 f0]
    by (cases out) (auto simp: p Let_def st split: option.split)
qed simp

lemma StartAll_returns:
  assumes "sys_inv s" and "r_gate s"
    and "\<forall>n \<in> set (r_workerOrder s). starts_return (get_config s n) (oe_attempts (env n))"
  shows "fst (StartAll c pre env s) \<noteq> Blocked \<and> r_gate (snd (StartAll c pre env s))"
  unfolding StartAll_def
proof (rule runLifecycle_returns [OF assms(2)])
  fix s1 assume s1: "s1 = (run pre s)\<lparr>r_gate := False\<rparr>"
  have f: "frozen (run pre s) = frozen s" by (rule frozen.run_view [OF assms(1)])
  have eq: "r_workerOrder s1 = r_workerOrder s" "get_config s1 = get_config s"
    using f unfolding s1 by (simp_all add: frozen_def get_config_def fun_eq_iff)
  have "sys_inv s1" using assms(1) by (simp add: s1)
  then show "fst (startAll c env s1) \<noteq> Blocked"
    unfolding startAll_def using assms(3)
    by (intro startAllFrom_returns) (auto simp: eq registeredWorkerLifecycles_def)
qed

section \<open>The service\<close>

definition cleanup_returns :: "ctx \<Rightarrow> cleanup_env \<Rightarrow> bool" where
  "cleanup_returns c env \<longleftrightarrow> polls_end c (sh_polls (cl_shutdown env))
     \<and> stops_return (sh_stop (cl_shutdown env)) \<and> stops_return (cl_stop env)"

lemma cleanup_ends:
  assumes "r_gate s" and "cleanup_returns c env"
  shows "fst (shutdownWorkersWithContext c env s) \<noteq> Blocked"
proof -
  obtain out s' where run: "shutdownWorkersWithContext c env s = (out, s')" by fastforce
  note sh = Shutdown_returns [OF assms(1), of c "cl_shutdown env" "cl_pre env"]
  have "out \<noteq> Blocked"
    using run
  proof (cases rule: cleanup_cases)
    case (fallback err s1 stopped s3)
    have "r_gate s1" using sh assms(2) fallback(1) by (simp add: cleanup_returns_def)
    then have "stopped \<noteq> Blocked"
      using StopAll_returns [of "run (cl_after env) s1" "cl_stop env" "cl_stopCtx env" "cl_stopPre env"]
        assms(2) fallback(3) by (simp add: cleanup_returns_def)
    then obtain x where "stopped = Finished x \<or> stopped = Panicking" by (cases stopped) auto
    then show ?thesis using fallback(5-7) by (cases x) auto
  qed (use sh assms(2) in \<open>simp_all add: cleanup_returns_def\<close>)
  with run show ?thesis by simp
qed

lemma deferring_returns: "fst x \<noteq> Blocked \<Longrightarrow> fst (deferring cancel x) \<noteq> Blocked"
  by (cases x) (auto simp: deferring_def split: outcome.split)

text \<open>C7: a service's \<open>Run\<close> returns. If the server's run does, if worker code returns or panics
  from every \<open>Start\<close> and \<open>Stop\<close>, retry policies are bounded and their delays elapse, and if the
  shutdown context ends while commands are still in flight, then nothing in the runtime or the
  service can keep \<open>Run\<close> from returning, provided no other operation holds the lifecycle gate when
  it begins and when the server returns.\<close>

theorem Run_returns:
  assumes "reachable s" and "r_gate s"
    and "se_result (ve_server env) \<noteq> None"
    and "\<And>s1. r_gate s1 \<Longrightarrow> r_gate (se_serve (ve_server env) s1)"
    and "\<forall>n \<in> set (r_workerOrder s). starts_return (get_config s n) (oe_attempts (ve_start env n))"
    and "cleanup_returns (newShutdownContext (sv_config v) (ve_base env) (ve_fresh env)) (ve_cleanup env)"
  shows "fst (Run (Some v) env s) \<noteq> Blocked"
proof -
  have clean: "fst (shutdownWorkersWithContext (newShutdownContext (sv_config v) (ve_base env) (ve_fresh env))
      (ve_cleanup env) r) \<noteq> Blocked" if "r_gate r" for r
    by (rule cleanup_ends [OF that assms(6)])
  have serve: "fst (server_Run (ve_server env) r) \<noteq> Blocked" for r
    using assms(3) by (auto simp: server_Run_def split: option.split op_result.split)
  have managed: "fst (runServer (sv_config v) env r) \<noteq> Blocked" if "r_gate r" for r
  proof -
    obtain out s1 where sv: "server_Run (ve_server env) r = (out, s1)" by fastforce
    have "out \<noteq> Blocked" using serve [of r] sv by simp
    moreover have "r_gate s1" using assms(4) [OF that] sv by (simp add: server_Run_def)
    ultimately show ?thesis
      using clean [of s1] unfolding runServer_def sv
      by (auto simp: Let_def intro!: deferring_returns split: outcome.split option.split prod.split)
  qed
  obtain out s1 where st: "StartAll (ve_ctx env) (ve_startPre env) (ve_start env) s = (out, s1)" by fastforce
  have 1: "out \<noteq> Blocked" "r_gate s1"
    using StartAll_returns [OF reachable_sys_inv [OF assms(1)] assms(2,5), of "ve_ctx env" "ve_startPre env"] st
    by simp_all
  have shut: "fst (shutdownWorkers (sv_config v) (ve_base env) (ve_fresh env) (ve_cleanup env) s1) \<noteq> Blocked"
    unfolding shutdownWorkers_def by (rule deferring_returns, rule clean [OF 1(2)])
  show ?thesis
    using 1 serve managed shut assms(2)
    by (auto simp: Run_def Let_def st split: option.split outcome.split prod.split)
qed


text \<open>Worker code that returns nil at once, and a shutdown context that ends in the first poll.\<close>

definition ex_prompt_env :: service_env where
  "ex_prompt_env = (ex_service_env quiet)
     \<lparr>ve_cleanup := ex_cleanup
       \<lparr>cl_shutdown := ex_quiet_shutdown
          \<lparr>sh_polls := [\<lparr>po_script = [CtxDone 2 CtxDeadlineExceeded], po_timer = False\<rparr>]\<rparr>\<rparr>\<rparr>"

theorem Run_returns_witness: "fst (Run (Some ex_service) ex_prompt_env ex_registered) \<noteq> Blocked"
proof (rule Run_returns [OF ex_registered_reachable])
  show "r_gate ex_registered" by (simp add: ex_registered_def ex_with_def)
  have "\<exists>b. bounded_policy Never b \<and> b \<le> 1" using never_retry.bounded_policy_axioms by blast
  then show "\<forall>n \<in> set (r_workerOrder ex_registered).
      starts_return (get_config ex_registered n) (oe_attempts (ve_start ex_prompt_env n))"
    by (simp add: ex_registered_def ex_with_def get_config_def ex_config_def defaultWorkerConfig_def
        starts_return_def ex_prompt_env_def ex_service_env_def quiet_def returns_nil_def)
qed (simp_all add: ex_prompt_env_def ex_service_env_def ex_service_def ex_cleanup_def ex_quiet_shutdown_def
      quiet_def cleanup_returns_def stops_return_def polls_end_def ends_def newShutdownContext_def
      service_defaultConfig_def second_def)

end
