(* ===== verification/Demo_Handlers.thy ===== *)
theory Demo_Handlers
  imports Opshttp Worker_Handle "HOL-Library.Signed_Division"
begin

text \<open>
  The workers and command handlers of the programs under \<open>examples/\<close>: \<open>commands\<close>,
  \<open>opshttp-commands\<close>, \<open>multi-worker\<close>, \<open>observability-slog\<close>, \<open>observability-otel\<close>,
  \<open>retry-policy\<close>, \<open>admin-lifecycle\<close> and \<open>concurrency-limits\<close>. They are worker code, as the runtime meets it.

  A handler gives a \<open>reply\<close>: the result and error it returns, or a panic. A counter of type
  \<open>atomic.Int32\<close> is a 32-bit word. Package \<open>encoding/json\<close> is a parameter: \<open>unmarshal\<close> gives
  the fields of the handler's input struct, \<open>marshal\<close> the text of an object given by its fields.
\<close>

section \<open>Replies, JSON, counters\<close>

datatype reply = Reply CommandResult "error option" | HandlerPanic

definition no_result :: CommandResult where
  "no_result = \<lparr>res_message = '''', res_payload = ''''\<rparr>"

datatype json_value = JText string | JNumber int | JFlag bool

type_synonym marshal = "(string \<times> json_value) list \<Rightarrow> error + string"
type_synonym 'a unmarshal = "string \<Rightarrow> error + 'a"

text \<open>\<open>None\<close> is the panic.\<close>

definition mustJSON :: "marshal \<Rightarrow> (string \<times> json_value) list \<Rightarrow> string option" where
  "mustJSON marshal v = (case marshal v of Inl err \<Rightarrow> None | Inr data \<Rightarrow> Some data)"

definition reply_JSON :: "string \<Rightarrow> string option \<Rightarrow> reply" where
  "reply_JSON message payload =
     (case payload of
        None \<Rightarrow> HandlerPanic
      | Some data \<Rightarrow> Reply \<lparr>res_message = message, res_payload = data\<rparr> None)"

text \<open>\<open>atomic.Int32.Add(1)\<close>: the new value, read as a signed number.\<close>

definition Int32_Add1 :: "32 word \<Rightarrow> int \<times> 32 word" where
  "Int32_Add1 w = (sint (w + 1), w + 1)"

text \<open>\<open>w.runtime\<close>, the field in which some workers keep the handle of their \<open>Start\<close>.\<close>

definition no_handle :: error where
  "no_handle = errors_new ''worker runtime handle unavailable''"

definition report_through :: "workerControlHandle option \<Rightarrow> error option \<Rightarrow> sys \<Rightarrow> error option \<times> sys" where
  "report_through runtime err s =
     (case runtime of
        None \<Rightarrow> (Some no_handle, s)
      | Some h \<Rightarrow> workerControlHandle_ReportFailure h err s)"

section \<open>examples/commands\<close>

definition cacheWorker_echo :: "CommandRequest \<Rightarrow> reply" where
  "cacheWorker_echo req = Reply \<lparr>res_message = ''echo'', res_payload = cq_payload req\<rparr> None"

definition cacheWorker_refresh :: "string unmarshal \<Rightarrow> marshal \<Rightarrow> CommandRequest \<Rightarrow> reply" where
  "cacheWorker_refresh unmarshal marshal req =
     (case unmarshal (cq_payload req) of
        Inl err \<Rightarrow> Reply no_result (Some (Errorf ''decode refresh request: %w'' [] [err]))
      | Inr key \<Rightarrow>
          if key = ''''
          then Reply no_result (Some (errors_new ''refresh key is required''))
          else reply_JSON ''cache refreshed''
                 (mustJSON marshal [(''key'', JText key), (''value'', JText ''fresh-value''),
                                    (''refreshed'', JFlag True)]))"

definition cacheWorker_fail :: "CommandRequest \<Rightarrow> reply" where
  "cacheWorker_fail req = Reply no_result (Some (errors_new ''domain command rejected''))"

section \<open>examples/opshttp-commands\<close>

text \<open>The worker's map; \<open>None\<close> is the nil map it has before its first \<open>Start\<close>.\<close>

type_synonym cacheValues = "string gomap option"

definition cacheWorker_Start ::
  "workerControlHandle list option \<Rightarrow> cacheValues \<Rightarrow> sys \<Rightarrow> error option \<times> cacheValues \<times> sys" where
  "cacheWorker_Start c values s =
     (case WorkerRuntimeFromContext c of
        None \<Rightarrow> (Some no_handle, values, s)
      | Some runtime \<Rightarrow>
          (case workerControlHandle_SetReady runtime True s of (err, s') \<Rightarrow> (err, Some [], s')))"

text \<open>A write to a nil map panics.\<close>

definition cacheWorker_put ::
  "(string \<times> string) unmarshal \<Rightarrow> marshal \<Rightarrow> cacheValues \<Rightarrow> CommandRequest \<Rightarrow> reply \<times> cacheValues" where
  "cacheWorker_put unmarshal marshal values req =
     (case unmarshal (cq_payload req) of
        Inl err \<Rightarrow> (Reply no_result (Some (Errorf ''decode put payload: %w'' [] [err])), values)
      | Inr (key, val) \<Rightarrow>
          if key = '''' then (Reply no_result (Some (errors_new ''key is required'')), values)
          else (case values of
                  None \<Rightarrow> (HandlerPanic, values)
                | Some m \<Rightarrow>
                    (let m' = gm_set key val m;
                         stored = (case map_of m' key of None \<Rightarrow> '''' | Some v \<Rightarrow> v)
                     in case marshal [(''key'', JText key), (''value'', JText stored)] of
                          Inl err \<Rightarrow> (Reply no_result (Some err), Some m')
                        | Inr payload \<Rightarrow>
                            (Reply \<lparr>res_message = ''cache value stored'', res_payload = payload\<rparr> None,
                             Some m'))))"

definition millisecond :: duration where
  "millisecond = 1000000"

text \<open>The duration given to the timer: \<open>int\<close> and \<open>time.Duration\<close> have 64 bits, the product wraps
  around. A timer of a negative duration fires at once.\<close>

definition slow_delay :: "int \<Rightarrow> duration" where
  "slow_delay sleepMillis =
     (let sleepMillis = (if sleepMillis \<le> 0 then 5000 else sleepMillis)
      in wrap64 (sleepMillis * millisecond))"

text \<open>The \<open>select\<close> of \<open>slow\<close> waits on the timer and the context; \<open>None\<close> is a handler that has not
  returned.\<close>

definition cacheWorker_slow ::
  "int unmarshal \<Rightarrow> ctx \<Rightarrow> (duration \<Rightarrow> action list \<times> bool) \<Rightarrow> CommandRequest \<Rightarrow> sys
   \<Rightarrow> reply option \<times> sys" where
  "cacheWorker_slow unmarshal c timer req s =
     (case unmarshal (cq_payload req) of
        Inl err \<Rightarrow> (Some (Reply no_result (Some (Errorf ''decode slow payload: %w'' [] [err]))), s)
      | Inr sleepMillis \<Rightarrow>
          (case timer (slow_delay sleepMillis) of
             (script, fires) \<Rightarrow>
               (case select_timer c script fires s of
                  (Finished None, s') \<Rightarrow>
                    (Some (Reply \<lparr>res_message = ''slow command completed'',
                                  res_payload = ''{'' @ go_quote ''status'' @ '':'' @ go_quote ''done'' @ ''}''\<rparr>
                             None), s')
                | (Finished (Some err), s') \<Rightarrow> (Some (Reply no_result (Some err)), s')
                | (_, s') \<Rightarrow> (None, s'))))"

section \<open>examples/multi-worker\<close>

definition enqueueDocument :: "string unmarshal \<Rightarrow> marshal \<Rightarrow> CommandRequest \<Rightarrow> reply" where
  "enqueueDocument unmarshal marshal req =
     (case unmarshal (cq_payload req) of
        Inl err \<Rightarrow> Reply no_result (Some err)
      | Inr documentID \<Rightarrow>
          if documentID = ''''
          then Reply no_result (Some (errors_new ''documentID is required''))
          else reply_JSON ''document enqueued''
                 (mustJSON marshal [(''documentID'', JText documentID), (''status'', JText ''queued'')]))"

definition rebuildIndex_requested :: "marshal \<Rightarrow> CommandRequest \<Rightarrow> reply" where
  "rebuildIndex_requested marshal req =
     reply_JSON ''index rebuild requested'' (mustJSON marshal [(''scope'', JText ''all'')])"

definition sweepMaintenance :: "marshal \<Rightarrow> CommandRequest \<Rightarrow> reply" where
  "sweepMaintenance marshal req =
     reply_JSON ''maintenance sweep completed'' (mustJSON marshal [(''expiredItems'', JNumber 7)])"

section \<open>examples/observability-slog\<close>

record observedWorker =
  ow_runtime :: "workerControlHandle option"
  ow_failOnceAttempts :: "32 word"

definition observedWorker_Start ::
  "workerControlHandle list option \<Rightarrow> observedWorker \<Rightarrow> sys \<Rightarrow> error option \<times> observedWorker \<times> sys" where
  "observedWorker_Start c w s =
     (case WorkerRuntimeFromContext c of
        None \<Rightarrow> (Some no_handle, w, s)
      | Some runtime \<Rightarrow>
          (let w' = w\<lparr>ow_runtime := Some runtime\<rparr>
           in case workerControlHandle_SetReady runtime False s of
                (Some err, s1) \<Rightarrow> (Some err, w', s1)
              | (None, s1) \<Rightarrow>
                  (case workerControlHandle_SetReady runtime True s1 of
                     (Some err, s2) \<Rightarrow> (Some err, w', s2)
                   | (None, s2) \<Rightarrow> (None, w', s2))))"

definition observedWorker_succeed :: "CommandRequest \<Rightarrow> reply" where
  "observedWorker_succeed req =
     Reply \<lparr>res_message = ''command succeeded'', res_payload = ''''\<rparr> None"

definition observedWorker_fail :: "CommandRequest \<Rightarrow> reply" where
  "observedWorker_fail req = Reply no_result (Some (errors_new ''command failed''))"

definition observedWorker_failOnce :: "observedWorker \<Rightarrow> CommandRequest \<Rightarrow> reply \<times> observedWorker" where
  "observedWorker_failOnce w req =
     (let (n, attempts) = Int32_Add1 (ow_failOnceAttempts w);
          w' = w\<lparr>ow_failOnceAttempts := attempts\<rparr>
      in if n = 1
         then (Reply no_result (Some (errors_new ''temporary command failure'')), w')
         else (Reply \<lparr>res_message = ''retry succeeded'', res_payload = ''''\<rparr> None, w'))"

definition observedWorker_ReportBackgroundFailure ::
  "observedWorker \<Rightarrow> error option \<Rightarrow> sys \<Rightarrow> error option \<times> sys" where
  "observedWorker_ReportBackgroundFailure w err s = report_through (ow_runtime w) err s"

section \<open>examples/observability-otel\<close>

definition otelWorker_Start ::
  "workerControlHandle list option \<Rightarrow> sys \<Rightarrow> error option \<times> sys" where
  "otelWorker_Start c s =
     (case WorkerRuntimeFromContext c of
        None \<Rightarrow> (Some no_handle, s)
      | Some runtime \<Rightarrow> workerControlHandle_SetReady runtime True s)"

definition otelWorker_failOnce :: "32 word \<Rightarrow> CommandRequest \<Rightarrow> reply \<times> 32 word" where
  "otelWorker_failOnce attempts req =
     (let (n, attempts) = Int32_Add1 attempts
      in if n = 1
         then (Reply no_result (Some (errors_new ''temporary command failure'')), attempts)
         else (Reply \<lparr>res_message = ''retry succeeded'', res_payload = ''''\<rparr> None, attempts))"

section \<open>examples/retry-policy\<close>

text \<open>The program's error type \<open>temporaryError\<close> is foreign to the library: it is told apart by the
  name of its type, and its text, which nothing reads here, is that of its cause.\<close>

definition temporaryError :: "error \<Rightarrow> error" where
  "temporaryError err = ForeignError ''main.temporaryError'' [err] False"

text \<open>\<open>errors.As\<close> with the interface of method \<open>Temporary\<close>, and the answer of the error it finds.
  In these programs \<open>temporaryError\<close> and the standard library's \<open>context.DeadlineExceeded\<close> have the
  method, and both answer true.\<close>

fun find_temporary :: "error \<Rightarrow> bool option"
and find_temporary_any :: "error list \<Rightarrow> bool option" where
  "find_temporary (Sentinel s) = (if s = CtxDeadlineExceeded then Some True else None)"
| "find_temporary (Errorf f as es) = find_temporary_any es"
| "find_temporary (Joined es) = find_temporary_any es"
| "find_temporary (LoopCleanupError c) = find_temporary c"
| "find_temporary (OperationalFailureError f c) =
     (case c of None \<Rightarrow> None | Some e \<Rightarrow> find_temporary e)"
| "find_temporary (OpskitCommandError f m k c) =
     (if k = Some CtxDeadlineExceeded then Some True else None)"
| "find_temporary (ForeignError m es p) =
     (if m = ''main.temporaryError'' then Some True else find_temporary_any es)"
| "find_temporary_any [] = None"
| "find_temporary_any (e # es) =
     (case find_temporary e of None \<Rightarrow> find_temporary_any es | Some b \<Rightarrow> Some b)"

definition isTemporary :: "error \<Rightarrow> bool" where
  "isTemporary err \<longleftrightarrow> find_temporary err = Some True"

record retryWorker =
  captureAttempts :: "32 word"
  validateAttempts :: "32 word"

definition retryWorker_capture :: "retryWorker \<Rightarrow> CommandRequest \<Rightarrow> reply \<times> retryWorker" where
  "retryWorker_capture w req =
     (let (attempt, n) = Int32_Add1 (captureAttempts w);
          w' = w\<lparr>captureAttempts := n\<rparr>
      in if attempt < 3
         then (Reply no_result
                 (Some (temporaryError (Errorf ''gateway timeout on attempt %d'' [FInt attempt] []))), w')
         else (Reply \<lparr>res_message = ''capture accepted'', res_payload = ''''\<rparr> None, w'))"

definition retryWorker_validate :: "retryWorker \<Rightarrow> CommandRequest \<Rightarrow> reply \<times> retryWorker" where
  "retryWorker_validate w req =
     (let (attempt, n) = Int32_Add1 (validateAttempts w)
      in (Reply no_result (Some (errors_new ''card number failed validation'')),
          w\<lparr>validateAttempts := n\<rparr>))"

section \<open>examples/admin-lifecycle\<close>

text \<open>The second result of \<open>Start\<close> and \<open>Stop\<close> is the lines they print.\<close>

definition lifecycleWorker_Start ::
  "workerControlHandle list option \<Rightarrow> string \<Rightarrow> sys \<Rightarrow> error option \<times> string list \<times> sys" where
  "lifecycleWorker_Start c name s =
     (case WorkerRuntimeFromContext c of
        None \<Rightarrow> (Some no_handle, [], s)
      | Some runtime \<Rightarrow>
          (case workerControlHandle_SetReady runtime True s of
             (Some err, s') \<Rightarrow> (Some err, [], s')
           | (None, s') \<Rightarrow> (None, [name @ '' started''], s')))"

definition lifecycleWorker_Stop :: "string \<Rightarrow> error option \<times> string list" where
  "lifecycleWorker_Stop name = (None, [name @ '' stopped''])"

text \<open>The value of the request's \<open>X-Admin-Token\<close> header; an absent header reads as empty.\<close>

definition requireAdminToken :: "string \<Rightarrow> HTTPError option" where
  "requireAdminToken token =
     (if token \<noteq> ''dev-secret''
      then Some \<lparr>he_status = 401, he_message = ''admin token required'', he_cause = None\<rparr> else None)"

section \<open>examples/concurrency-limits\<close>

text \<open>The line that reports how a dispatch at the limit ended; \<open>show_error\<close> is the text of an error, and
  \<open>None\<close> a panic out of \<open>errors.Is\<close>.\<close>

definition printSaturation :: "(error \<Rightarrow> string) \<Rightarrow> string \<Rightarrow> error option \<Rightarrow> string option" where
  "printSaturation show_error label err =
     (case err of
        None \<Rightarrow> Some (label @ '' unexpectedly accepted'')
      | Some e \<Rightarrow>
          (case errors_is ErrRuntimeSaturated e of
             None \<Rightarrow> None
           | Some True \<Rightarrow> Some (label @ '' rejected: '' @ sentinel_Error ErrRuntimeSaturated)
           | Some False \<Rightarrow>
               (case errors_is ErrWorkerSaturated e of
                  None \<Rightarrow> None
                | Some True \<Rightarrow> Some (label @ '' rejected: '' @ sentinel_Error ErrWorkerSaturated)
                | Some False \<Rightarrow> Some (label @ '' rejected with unexpected error: '' @ show_error e))))"

end
