(* ===== verification/Demo_Steps.thy ===== *)
theory Demo_Steps
  imports Settled
begin

text \<open>
  What the operations of the runtime do when nothing else happens meanwhile, as a program that
  calls them one after the other meets them: lemmas for the programs under \<open>examples/\<close>.
\<close>

section \<open>Registering workers before any of them has started\<close>

definition unstarted :: "'a runtime_scheme \<Rightarrow> bool" where
  "unstarted r \<longleftrightarrow> rs_state (r_status r) = StateRegistered
     \<and> every_worker r (\<lambda>n w. lifecycle w = StateRegistered)"

definition registered_with ::
  "string \<Rightarrow> WorkerSpec \<Rightarrow> workerConfig \<Rightarrow> commandRegistration list \<Rightarrow> 'a runtime_scheme \<Rightarrow> 'a runtime_scheme" where
  "registered_with q reg cfg commands r = recomputeStatusLocked
     (r\<lparr>r_registrations := gm_set q reg (r_registrations r),
        r_workerOrder := r_workerOrder r @ [q],
        r_workerConfigs := gm_set q cfg (r_workerConfigs r),
        r_commands := gm_set q (commands_map commands) (r_commands r),
        r_workerStates := gm_set q (new_workerState q (sp_name reg)) (r_workerStates r)\<rparr>)"

lemma Register_accepts:
  assumes "apply_options opts (defaultWorker (r_config r)) = cfg"
    and "qualifyWorkerName (r_identity r) (sp_name reg) = q"
    and "bindWorkerCommands q (wc_commands cfg) = Inr commands"
    and "sp_worker reg \<noteq> None" and "is_identifier (sp_name reg)"
    and "workerConfig_validate cfg = None" and "unstarted r" and "map_of (r_registrations r) q = None"
  shows "Register reg opts r = (None, registered_with q reg cfg commands r)"
  using assms
  by (auto simp: Register_def Let_def validateIdentifier_accepts unstarted_def registered_with_def)

lemma registered_fields [simp]:
  "r_gate (registered_with q reg cfg cs r) = r_gate r"
  "r_identity (registered_with q reg cfg cs r) = r_identity r"
  "r_config (registered_with q reg cfg cs r) = r_config r"
  "r_registrations (registered_with q reg cfg cs r) = gm_set q reg (r_registrations r)"
  "r_workerOrder (registered_with q reg cfg cs r) = r_workerOrder r @ [q]"
  "r_workerConfigs (registered_with q reg cfg cs r) = gm_set q cfg (r_workerConfigs r)"
  "r_commands (registered_with q reg cfg cs r) = gm_set q (commands_map cs) (r_commands r)"
  "r_workerStates (registered_with q reg cfg cs r) =
     gm_set q (new_workerState q (sp_name reg)) (r_workerStates r)"
  "r_admissionClosed (registered_with q reg cfg cs r) = r_admissionClosed r"
  "r_now (registered_with q reg cfg cs r) = r_now r"
  "r_calls (registered_with q reg cfg cs r) = r_calls r"
  "runtime.more (registered_with q reg cfg cs r) = runtime.more r"
  by (simp_all add: registered_with_def)

lemma registered_unstarted:
  assumes "unstarted r"
  shows "unstarted (registered_with q reg cfg cs r)"
proof -
  let ?r = "r\<lparr>r_registrations := gm_set q reg (r_registrations r), r_workerOrder := r_workerOrder r @ [q],
        r_workerConfigs := gm_set q cfg (r_workerConfigs r),
        r_commands := gm_set q (commands_map cs) (r_commands r),
        r_workerStates := gm_set q (new_workerState q (sp_name reg)) (r_workerStates r)\<rparr>"
  have new: "lifecycle (new_workerState q (sp_name reg)) = StateRegistered"
    by (simp add: new_workerState_def)
  have "set (gm_set q v m) \<subseteq> insert (q, v) (set m)" for v and m :: "workerState gomap"
    by (induction m) (auto split: if_splits)
  then have all: "every_worker ?r (\<lambda>n w. lifecycle w = StateRegistered)"
    using assms new unfolding unstarted_def by fastforce
  then have none: "some_worker ?r (\<lambda>n s. lifecycle s = l) \<longleftrightarrow> False" if "l \<noteq> StateRegistered" for l
    using that by fastforce
  have fatal: "some_worker ?r (fatal_worker ?r) \<longleftrightarrow> False" using all by (fastforce simp: fatal_worker_def)
  have "deriveRuntimeLifecycleState ?r (statusFactsLocked ?r) = StateRegistered"
    unfolding derived_state_eq using all
    by (simp only: none fatal if_False LifecycleState.distinct LifecycleState.simps simp_thms)
       (cases "r_workerStates ?r"; fastforce)
  then show ?thesis using all by (simp add: unstarted_def registered_with_def)
qed

section \<open>Retried calls\<close>

text \<open>How a call that is retried ends, in terms of the attempts: all but the last have failed with an
  error that the policy retries.\<close>

lemma loop_result:
  assumes "retryLoop c p call_worker f k as s = (out, m, s')" and "out \<noteq> Blocked"
  shows "\<exists>i < length as. m = k + int i
    \<and> (\<forall>j < i. \<exists>err. at_result (as ! j) = Returns (Some err) \<and> snd (p (k + int j) err))
    \<and> (case at_result (as ! i) of
         Panics \<Rightarrow> out = Panicking
       | Returns None \<Rightarrow> out = Finished None
       | Returns (Some err) \<Rightarrow> out = Finished (Some err) \<and> \<not> snd (p m err)
           \<or> (\<exists>e. out = Finished (Some e) \<and> ctx_Err c s' = Some e))"
  using assms
proof (induction as arbitrary: k s)
  case (Cons a as)
  let ?goal = "\<lambda>i. i < length (a # as) \<and> m = k + int i
    \<and> (\<forall>j < i. \<exists>err. at_result ((a # as) ! j) = Returns (Some err) \<and> snd (p (k + int j) err))
    \<and> (case at_result ((a # as) ! i) of
         Panics \<Rightarrow> out = Panicking
       | Returns None \<Rightarrow> out = Finished None
       | Returns (Some err) \<Rightarrow> out = Finished (Some err) \<and> \<not> snd (p m err)
           \<or> (\<exists>e. out = Finished (Some e) \<and> ctx_Err c s' = Some e))"
  show ?case
  proof (cases "at_result a")
    case (Returns r)
    show ?thesis
    proof (cases r)
      case None
      then have "?goal 0" using Cons.prems(1) Returns by (simp add: call_worker_def)
      then show ?thesis by blast
    next
      case (Some err)
      let ?s2 = "run (at_after a) (f err k (run (at_script a) s))"
      have cw: "call_worker a k s = (Returns (Some err), run (at_script a) s)"
        using Returns Some by (simp add: call_worker_def)
      have step: "(out, m, s') = (case ctx_Err c ?s2 of
                Some ctxErr \<Rightarrow> (Finished (Some ctxErr), k, ?s2)
              | None \<Rightarrow>
                  (let (delay, ok) = p k err
                   in if \<not> ok then (Finished (Some err), k, ?s2)
                      else (case waitBeforeRetry c delay a ?s2 of
                              (Finished None, s3) \<Rightarrow> retryLoop c p call_worker f (k + 1) as s3
                            | (stopped, s3) \<Rightarrow> (stopped, k, s3))))"
        using Cons.prems(1) [symmetric] by (simp add: cw Let_def)
      obtain delay ok where p: "p k err = (delay, ok)" by fastforce
      obtain w s3 where w: "waitBeforeRetry c delay a ?s2 = (w, s3)" by fastforce
      have ended: "w = Finished (Some e) \<Longrightarrow> ctx_Err c s3 = Some e" "w \<noteq> Panicking" for e
        using w by (auto simp: waitBeforeRetry_def select_timer_def Let_def split: if_splits option.splits)
      show ?thesis
      proof (cases "ctx_Err c ?s2 = None \<and> ok \<and> w = Finished None")
        case True
        then have "retryLoop c p call_worker f (k + 1) as s3 = (out, m, s')" using step p w by simp
        from Cons.IH [OF this Cons.prems(2)] obtain i where i: "i < length as" "m = k + 1 + int i"
          "\<forall>j < i. \<exists>err. at_result (as ! j) = Returns (Some err) \<and> snd (p (k + 1 + int j) err)"
          "case at_result (as ! i) of
             Panics \<Rightarrow> out = Panicking
           | Returns None \<Rightarrow> out = Finished None
           | Returns (Some err) \<Rightarrow> out = Finished (Some err) \<and> \<not> snd (p m err)
               \<or> (\<exists>e. out = Finished (Some e) \<and> ctx_Err c s' = Some e)"
          by blast
        have "\<exists>err. at_result ((a # as) ! j) = Returns (Some err) \<and> snd (p (k + int j) err)"
          if "j < Suc i" for j
          using that i(3) Returns Some p True by (cases j) (auto simp: add.assoc)
        with i(1,2,4) have "?goal (Suc i)" by (simp add: add.assoc)
        then show ?thesis by blast
      next
        case False
        then have "?goal 0"
          using step p w Cons.prems(2) Returns Some ended
          by (auto split: option.splits outcome.splits if_splits)
        then show ?thesis by blast
      qed
    qed
  next
    case Panics
    then have "?goal 0" using Cons.prems(1) by (simp add: call_worker_def)
    then show ?thesis by blast
  qed
qed simp


text \<open>If each wait ends in its timer, a call that has not returned has failed in every attempt.\<close>

lemma loop_blocked:
  assumes "fst (retryLoop c p call_worker f k as s) = Blocked" and "\<forall>a \<in> set as. at_timer a"
  shows "\<forall>a \<in> set as. \<exists>err. at_result a = Returns (Some err)"
  using assms
proof (induction as arbitrary: k s)
  case (Cons a as)
  have w: "waitBeforeRetry c d a s2 = (Finished None, if d \<le> 0 then s2 else run (at_wait a) s2)" for d s2
    using Cons.prems(2) by (simp add: waitBeforeRetry_def select_timer_def Let_def)
  have cw: "call_worker a k s = (at_result a, run (at_script a) s)" by (simp add: call_worker_def)
  have "\<exists>err. at_result a = Returns (Some err)"
    using Cons.prems(1) by (cases "at_result a") (auto simp: cw split: option.splits)
  moreover have "\<exists>s3. fst (retryLoop c p call_worker f (k + 1) as s3) = Blocked"
    using Cons.prems(1) calculation
    by (auto simp: cw w Let_def split: option.splits prod.splits if_splits) (rule exI, assumption)+
  ultimately show ?case using Cons.IH Cons.prems(2) by auto
qed simp

text \<open>A context that has ended stays ended.\<close>

lemma acts_ctx: "acts_from s0 s \<Longrightarrow> ctx_Err c s0 = Some e \<Longrightarrow> ctx_Err c s = Some e"
proof -
  have "ctx_Err c s0 = Some e \<Longrightarrow> ctx_Err c (run as s0) = Some e" for as
    by (induction as arbitrary: s0) (simp_all add: ctx_done_act)
  then show "acts_from s0 s \<Longrightarrow> ctx_Err c s0 = Some e \<Longrightarrow> ctx_Err c s = Some e"
    by (auto simp: acts_from_def)
qed

section \<open>Lifecycle operations in which nothing else happens\<close>

text \<open>Operation on one worker that changed that worker only.\<close>

definition only :: "string \<Rightarrow> sys \<Rightarrow> sys \<Rightarrow> bool" where
  "only n s s' \<longleftrightarrow> affects n s s' \<and> sys_inv s'"

definition attempt_that :: "op_result \<Rightarrow> attempt" where
  "attempt_that result = \<lparr>at_script = [], at_result = result, at_after = [], at_wait = [], at_timer = True\<rparr>"

text \<open>A call of worker code that prints before it returns.\<close>

definition worker_call :: "string \<Rightarrow> op_result \<Rightarrow> attempt" where
  "worker_call text result =
     (attempt_that result)\<lparr>at_script := (if text = '''' then [] else [Print text])\<rparr>"

abbreviation said :: "string \<Rightarrow> sys \<Rightarrow> sys" where
  "said text s \<equiv> s\<lparr>s_output := s_output s @ text\<rparr>"

lemma worker_call_silent [simp]: "worker_call '''' result = attempt_that result"
  by (simp add: worker_call_def attempt_that_def)

lemma worker_call_calls: "call_worker (worker_call text result) k s = (result, said text s)"
  by (simp add: call_worker_def worker_call_def attempt_that_def)

lemma attempt_that_calls: "call_worker (attempt_that result) k s = (result, s)"
  by (simp add: call_worker_def attempt_that_def)

text \<open>What has been printed is not looked at when an operation begins.\<close>

lemma status_of_output:
  "statusFactsLocked ((s :: sys)\<lparr>s_output := t\<rparr>) = statusFactsLocked s"
  "deriveRuntimeLifecycleState (s\<lparr>s_output := t\<rparr>) f = deriveRuntimeLifecycleState s f"
  "deriveRuntimeReadiness (s\<lparr>s_output := t\<rparr>) f = deriveRuntimeReadiness s f"
  by (simp_all add: statusFactsLocked_def initialFacts_def get_config_def deriveRuntimeLifecycleState_def
      deriveRuntimeReadiness_def cong: if_cong)

lemma set_worker_output: "set_worker n w ((s :: sys)\<lparr>s_output := t\<rparr>) = (set_worker n w s)\<lparr>s_output := t\<rparr>"
  by (cases s) (simp add: set_worker_def)

lemma recompute_output:
  "recomputeStatusLocked ((s :: sys)\<lparr>s_output := t\<rparr>) = (recomputeStatusLocked s)\<lparr>s_output := t\<rparr>"
proof -
  define st where "st = r_status (recomputeStatusLocked s)"
  have st': "r_status (recomputeStatusLocked (s\<lparr>s_output := t\<rparr>)) = st"
    by (simp add: st_def recomputeStatusLocked_def Let_def status_of_output)
  have set_status: "recomputeStatusLocked x = x\<lparr>r_status := r_status (recomputeStatusLocked x)\<rparr>" for x :: sys
    by (simp add: recomputeStatusLocked_def Let_def)
  have "recomputeStatusLocked (s\<lparr>s_output := t\<rparr>) = s\<lparr>s_output := t, r_status := st\<rparr>"
    using set_status [of "s\<lparr>s_output := t\<rparr>"] unfolding st' .
  moreover have "recomputeStatusLocked s = s\<lparr>r_status := st\<rparr>"
    using set_status [of s] unfolding st_def .
  moreover have "s\<lparr>s_output := t, r_status := st\<rparr> = s\<lparr>r_status := st, s_output := t\<rparr>" by (cases s) simp
  ultimately show ?thesis by simp
qed

lemma observe_output: "observe e ((s :: sys)\<lparr>s_output := t\<rparr>) = (observe e s)\<lparr>s_output := t\<rparr>"
  by (cases s) (simp add: observe_def)

lemma changes_output:
  "observeWorkerStateChange obs ((s :: sys)\<lparr>s_output := t\<rparr>) = (observeWorkerStateChange obs s)\<lparr>s_output := t\<rparr>"
  by (simp add: observeWorkerStateChange_def observeRuntimeChanges_def observeWorkerReadiness_def
      observeWorkerTransition_def observeReadinessChange_def observeTransition_def observe_output Let_def)

lemma begin_output:
  "beginWorkerStart n ((s :: sys)\<lparr>s_output := t\<rparr>) = map_prod id (\<lambda>x. x\<lparr>s_output := t\<rparr>) (beginWorkerStart n s)"
  "beginWorkerStop n (s\<lparr>s_output := t\<rparr>) = map_prod id (\<lambda>x. x\<lparr>s_output := t\<rparr>) (beginWorkerStop n s)"
  by (simp_all add: beginWorkerStart_def beginWorkerStop_def commitWorkerStateLocked_def Let_def
      set_worker_output recompute_output changes_output split: option.split)

lemma lookup_output: "lookupWorker n ((s :: sys)\<lparr>s_output := t\<rparr>) = lookupWorker n s"
proof -
  have "get_config (s\<lparr>s_output := t\<rparr>) m = get_config s m" for m by (simp add: get_config_def)
  then show ?thesis by (simp add: lookupWorker_def resolveWorkerNameStrict_def cong: sum.case_cong option.case_cong)
qed

lemma start_says:
  assumes look: "lookupWorker n s = Inr (m, wk, cfg)" and b: "beginWorkerStart m s = (Inr g, s1)"
  shows "start c [worker_call text (Returns None)] n s = start c [attempt_that (Returns None)] n (said text s)"
proof -
  have "rest s1 = rest s" using beginWorkerStart_affects [of m s] b by (simp add: affects_def)
  from rest_more(4) [OF this] show ?thesis
    by (simp add: start_def lookup_output look b begin_output runWithRetry_def worker_call_calls attempt_that_calls)
qed

lemma stop_says:
  assumes look: "lookupWorker n s = Inr (m, wk, cfg)" and b: "beginWorkerStop m s = (Inr g, s1)"
  shows "stop [worker_call text (Returns None)] n s = stop [attempt_that (Returns None)] n (said text s)"
proof -
  have "rest s1 = rest s" using beginWorkerStop_affects [of m s] b by (simp add: affects_def)
  from rest_more(4) [OF this] show ?thesis
    by (simp add: stop_def lookup_output look b begin_output worker_call_calls attempt_that_calls)
qed

lemma quiet_start:
  assumes inv: "sys_inv s" and n: "n \<in> set (r_workerOrder s)"
    and l: "lifecycle (get_state s n) \<in> {StateRegistered, StateStopped, StateFailed}"
  obtains s' where "start c [attempt_that (Returns None)] n s = (Finished None, s')" "only n s s'"
    "lifecycle (get_state s' n) = StateRunning"
    "ready (get_state s' n) = readyOnStart (get_config s n)"
    "acceptingWork (get_state s' n) = wc_acceptingWork (get_config s n)"
    "generation (get_state s' n) = generation (get_state s n) + 1" "lastFailure (get_state s' n) = None"
proof -
  obtain wk where look: "lookupWorker n s = Inr (n, wk, get_config s n)"
    using registered_lookup [OF sys_inv_rt [OF inv] n] by blast
  obtain w where st: "map_of (r_workerStates s) n = Some w"
    using state_present [OF sys_inv_rt [OF inv] n] by blast
  have w: "lifecycle w \<in> {StateRegistered, StateStopped, StateFailed}" using l st by simp
  obtain s1 where b: "beginWorkerStart n s = (Inr (generation w + 1), s1)"
    using w by (cases "beginWorkerStart n s") (auto simp: beginWorkerStart_def st Let_def split: prod.splits)
  have g: "lifecycle (get_state s1 n) = StateStarting" "generation (get_state s1 n) = generation w + 1"
    "\<not> readySetDuringStart (get_state s1 n)" "\<not> acceptingWorkSetDuringStart (get_state s1 n)"
    "\<not> failureReportedDuringStart (get_state s1 n)"
    using w arg_cong [OF b, of snd] by (auto simp: beginWorkerStart_def section_simps st)
  let ?c = "completeWorkerStart n (generation w + 1) (readyOnStart (get_config s n))
      (wc_acceptingWork (get_config s n)) s1"
  have run: "start c [attempt_that (Returns None)] n s = (Finished (fst ?c), snd ?c)"
    by (simp add: start_def look b runWithRetry_def call_worker_def attempt_that_def split: prod.split)
  have none: "fst ?c = None" using g by (simp add: completeWorkerStart_def section_simps)
  show thesis
  proof (rule that)
    show "start c [attempt_that (Returns None)] n s = (Finished None, snd ?c)" using run none by simp
    then show "only n s (snd ?c)"
      using start_bulk [OF inv, of c "[attempt_that (Returns None)]" n]
        affects_trans [of n s s1 "snd ?c"] beginWorkerStart_affects [of n s] b
      by (simp add: only_def bulk_frame_def)
  qed (use g st in \<open>simp_all add: completeWorkerStart_def section_simps\<close>)
qed

definition is_stopped :: "string \<Rightarrow> sys \<Rightarrow> bool" where
  "is_stopped n s \<longleftrightarrow> lifecycle (get_state s n) = StateStopped
     \<and> \<not> ready (get_state s n) \<and> \<not> acceptingWork (get_state s n)"

lemma quiet_stop:
  assumes inv: "sys_inv s" and n: "n \<in> set (r_workerOrder s)"
    and l: "lifecycle (get_state s n) \<in> {StateRunning, StateDraining, StateFailed}"
  obtains s' where "stop [attempt_that (Returns None)] n s = (Finished None, s')" "only n s s'"
    "is_stopped n s'"
proof -
  obtain wk where look: "lookupWorker n s = Inr (n, wk, get_config s n)"
    using registered_lookup [OF sys_inv_rt [OF inv] n] by blast
  obtain w where st: "map_of (r_workerStates s) n = Some w"
    using state_present [OF sys_inv_rt [OF inv] n] by blast
  have w: "lifecycle w \<in> {StateRunning, StateDraining, StateFailed}" using l st by simp
  obtain s1 where b: "beginWorkerStop n s = (Inr (generation w), s1)"
    using w by (cases "beginWorkerStop n s") (auto simp: beginWorkerStop_def st Let_def split: prod.splits)
  have g: "lifecycle (get_state s1 n) = StateStopping" "generation (get_state s1 n) = generation w"
    using w arg_cong [OF b, of snd] by (auto simp: beginWorkerStop_def section_simps st)
  let ?c = "completeWorkerTransition n (generation w) StateStopping StateStopped False False s1"
  have run: "stop [attempt_that (Returns None)] n s = (Finished (fst ?c), snd ?c)"
    by (simp add: stop_def look b call_worker_def attempt_that_def split: prod.split)
  have none: "fst ?c = None" using g by (simp add: completeWorkerTransition_def section_simps)
  show thesis
  proof (rule that)
    show "stop [attempt_that (Returns None)] n s = (Finished None, snd ?c)" using run none by simp
    then show "only n s (snd ?c)"
      using stop_bulk [OF inv, of "[attempt_that (Returns None)]" n]
        affects_trans [of n s s1 "snd ?c"] beginWorkerStop_affects [of n s] b
      by (simp add: only_def bulk_frame_def)
  qed (use g st in \<open>simp add: is_stopped_def completeWorkerTransition_def section_simps\<close>)
qed

lemma quiet_drain:
  assumes inv: "sys_inv s" and n: "n \<in> set (r_workerOrder s)" and l: "lifecycle (get_state s n) = StateRunning"
  obtains s' where "drain n s = (None, s')" "only n s s'" "lifecycle (get_state s' n) = StateDraining"
proof -
  have name: "resolveWorkerNameStrict n s = Inr n"
    using registered_lookup [OF sys_inv_rt [OF inv] n]
    by (auto simp: lookupWorker_def split: sum.splits option.splits)
  obtain w where st: "map_of (r_workerStates s) n = Some w"
    using state_present [OF sys_inv_rt [OF inv] n] by blast
  have w: "lifecycle w = StateRunning" using l st by simp
  let ?b = "beginWorkerDrain n s"
  have run: "drain n s = (None, snd ?b)" "lifecycle (get_state (snd ?b) n) = StateDraining"
    using w by (simp_all add: drain_def name beginWorkerDrain_def section_simps st)
  moreover have "only n s (snd ?b)"
    using drain_bulk [OF inv, of n] beginWorkerDrain_affects [of n s]
    by (simp add: only_def bulk_frame_def drain_def name)
  ultimately show thesis using that by blast
qed

lemma quiet_report:
  assumes inv: "sys_inv s" and n: "n \<in> set (r_workerOrder s)"
    and l: "lifecycle (get_state s n) = StateRunning" and g: "generation (get_state s n) = g"
  obtains s' where "reportWorkerFailure n g (Some err) s = (None, s')" "only n s s'"
    "lifecycle (get_state s' n) = StateFailed" "\<not> ready (get_state s' n)" "\<not> acceptingWork (get_state s' n)"
    "lastFailure (get_state s' n) = Some (failure_info (operationalFailure (Some err) workerFailure) (r_now s))"
proof -
  obtain w where st: "map_of (r_workerStates s) n = Some w"
    using state_present [OF sys_inv_rt [OF inv] n] by blast
  have w: "lifecycle w = StateRunning" "generation w = g" using l g st by simp_all
  let ?b = "reportWorkerFailure n g (Some err) s"
  have run: "fst ?b = None" "lifecycle (get_state (snd ?b) n) = StateFailed"
    "\<not> ready (get_state (snd ?b) n)" "\<not> acceptingWork (get_state (snd ?b) n)"
    "lastFailure (get_state (snd ?b) n) = Some (failure_info (operationalFailure (Some err) workerFailure) (r_now s))"
    using w by (simp_all add: reportWorkerFailure_def section_simps st)
  moreover have "only n s (snd ?b)"
    using act_inv [OF inv, of "SignalFailure n g (Some err)"] reportWorkerFailure_affects [of n s g "Some err"]
    by (simp add: only_def)
  moreover have "?b = (None, snd ?b)" using run(1) by (metis prod.collapse)
  ultimately show thesis using that by blast
qed

section \<open>All workers, in turn\<close>

definition quietly :: "string set \<Rightarrow> sys \<Rightarrow> sys \<Rightarrow> bool" where
  "quietly ns s s' \<longleftrightarrow> rest s' = rest s \<and> sys_inv s' \<and> (\<forall>m. m \<notin> ns \<longrightarrow> get_state s' m = get_state s m)"

lemma quietly_refl: "sys_inv s \<Longrightarrow> quietly ns s s"
  by (simp add: quietly_def)

lemma quietly_only: "only n s s' \<Longrightarrow> n \<in> ns \<Longrightarrow> quietly ns s s'"
  by (auto simp: only_def quietly_def affects_def get_state_def)

lemma quietly_trans: "quietly ns s s1 \<Longrightarrow> quietly ns s1 s2 \<Longrightarrow> quietly ns s s2"
  by (simp add: quietly_def)

lemma quietly_mono: "quietly ns s s' \<Longrightarrow> ns \<subseteq> ms \<Longrightarrow> quietly ms s s'"
  by (auto simp: quietly_def)

lemma quietly_fields:
  assumes "quietly ns s s'"
  shows "sys_inv s'" "r_workerOrder s' = r_workerOrder s" "get_config s' = get_config s"
    "ctx_Err c s' = ctx_Err c s" "r_now s' = r_now s" "r_identity s' = r_identity s"
    "r_registrations s' = r_registrations s" "r_gate s' = r_gate s" "s_active s' = s_active s"
    "r_config s' = r_config s" "r_workerConfigs s' = r_workerConfigs s" "m \<notin> ns \<Longrightarrow> get_state s' m = get_state s m"
proof -
  have r: "rest s' = rest s" using assms by (simp add: quietly_def)
  show "sys_inv s'" "m \<notin> ns \<Longrightarrow> get_state s' m = get_state s m" using assms by (simp_all add: quietly_def)
  show "r_workerOrder s' = r_workerOrder s" "get_config s' = get_config s" "r_now s' = r_now s" "r_identity s' = r_identity s"
    "r_registrations s' = r_registrations s" "r_gate s' = r_gate s"  "r_config s' = r_config s" "r_workerConfigs s' = r_workerConfigs s" 
    using rest_eqD [OF r] by (simp_all add: get_config_def fun_eq_iff)
  show "ctx_Err c s' = ctx_Err c s" "s_active s' = s_active s" using rest_more [OF r] by (simp_all add: ctx_Err_def)
qed

lemma said_simps [simp]:
  "said u (said t s) = said (t @ u) s" "said '''' s = s" "get_state (said t s) = get_state s"
  "r_workerOrder (said t s) = r_workerOrder s" "get_config (said t s) = get_config s"
  "sys_inv (said t s) = sys_inv s"
  by (simp_all add: get_config_def fun_eq_iff)

lemma gates_said [simp]:
  "s\<lparr>s_output := u, r_gate := b\<rparr> = s\<lparr>r_gate := b, s_output := u\<rparr>"
  "s\<lparr>s_output := u, r_admissionClosed := a\<rparr> = s\<lparr>r_admissionClosed := a, s_output := u\<rparr>" for s :: sys
  by (cases s; simp)+

lemma rest_said: "rest s' = rest s \<Longrightarrow> rest (said t s') = rest (said t s)" for s :: sys
  unfolding rest_def by (cases s; cases s'; simp)

lemma quietly_said: "quietly ns s s' \<Longrightarrow> quietly ns (said t s) (said t s')"
  using rest_said [of s' s t] by (simp add: quietly_def)

lemma concat_silent: "concat (map (\<lambda>_. []) xs) = []"
  by (induction xs) simp_all

text \<open>What is printed first comes first.\<close>

lemma quietly_prints:
  assumes "quietly ns (said t s) s1" and "quietly ms (said u s1) s'" and "ns \<subseteq> ks" and "ms \<subseteq> ks"
  shows "quietly ks (said (t @ u) s) s'"
  using quietly_trans [OF quietly_mono [OF quietly_said [OF assms(1), of u] assms(3)]
    quietly_mono [OF assms(2,4)]] by simp

text \<open>Workers that print \<open>text n\<close> and return \<open>result n\<close> when they are called.\<close>

definition printing_env :: "(string \<Rightarrow> string) \<Rightarrow> (string \<Rightarrow> op_result) \<Rightarrow> string \<Rightarrow> op_env" where
  "printing_env text result n = \<lparr>oe_before = [], oe_attempts = [worker_call (text n) (result n)]\<rparr>"

lemma printing_env_simps [simp]:
  "oe_before (printing_env text result n) = []"
  "oe_attempts (printing_env text result n) = [worker_call (text n) (result n)]"
  by (simp_all add: printing_env_def)

abbreviation quiet_env :: "(string \<Rightarrow> op_result) \<Rightarrow> string \<Rightarrow> op_env" where
  "quiet_env \<equiv> printing_env (\<lambda>_. '''')"

lemma printing_start:
  assumes inv: "sys_inv s" and n: "n \<in> set (r_workerOrder s)"
    and l: "lifecycle (get_state s n) \<in> {StateRegistered, StateStopped, StateFailed}"
  obtains s' where "start c [worker_call text (Returns None)] n s = (Finished None, s')"
    "quietly {n} (said text s) s'" "lifecycle (get_state s' n) = StateRunning"
    "ready (get_state s' n) = readyOnStart (get_config s n)"
    "acceptingWork (get_state s' n) = wc_acceptingWork (get_config s n)"
    "generation (get_state s' n) = generation (get_state s n) + 1" "lastFailure (get_state s' n) = None"
proof -
  obtain wk where look: "lookupWorker n s = Inr (n, wk, get_config s n)"
    using registered_lookup [OF sys_inv_rt [OF inv] n] by blast
  obtain w where st: "map_of (r_workerStates s) n = Some w"
    using state_present [OF sys_inv_rt [OF inv] n] by blast
  have w: "lifecycle w \<in> {StateRegistered, StateStopped, StateFailed}" using l st by simp
  obtain s1 where "beginWorkerStart n s = (Inr (generation w + 1), s1)"
    using w by (cases "beginWorkerStart n s") (auto simp: beginWorkerStart_def st Let_def split: prod.splits)
  note says = start_says [OF look this, of c "text"]
  have pre: "sys_inv (said text s)" "n \<in> set (r_workerOrder (said text s))"
    "lifecycle (get_state (said text s) n) \<in> {StateRegistered, StateStopped, StateFailed}"
    using inv n l by simp_all
  obtain s' where s': "start c [attempt_that (Returns None)] n (said text s) = (Finished None, s')"
    "only n (said text s) s'" "lifecycle (get_state s' n) = StateRunning"
    "ready (get_state s' n) = readyOnStart (get_config (said text s) n)"
    "acceptingWork (get_state s' n) = wc_acceptingWork (get_config (said text s) n)"
    "generation (get_state s' n) = generation (get_state (said text s) n) + 1" "lastFailure (get_state s' n) = None"
    by (rule quiet_start [OF pre])
  show thesis
    by (rule that [of s'], use s' says in \<open>simp_all add: quietly_only\<close>)
qed

lemma printing_stop:
  assumes inv: "sys_inv s" and n: "n \<in> set (r_workerOrder s)"
    and l: "lifecycle (get_state s n) \<in> {StateRunning, StateDraining, StateFailed}"
  obtains s' where "stop [worker_call text (Returns None)] n s = (Finished None, s')"
    "quietly {n} (said text s) s'" "is_stopped n s'"
proof -
  obtain wk where look: "lookupWorker n s = Inr (n, wk, get_config s n)"
    using registered_lookup [OF sys_inv_rt [OF inv] n] by blast
  obtain w where st: "map_of (r_workerStates s) n = Some w"
    using state_present [OF sys_inv_rt [OF inv] n] by blast
  have w: "lifecycle w \<in> {StateRunning, StateDraining, StateFailed}" using l st by simp
  obtain s1 where "beginWorkerStop n s = (Inr (generation w), s1)"
    using w by (cases "beginWorkerStop n s") (auto simp: beginWorkerStop_def st Let_def split: prod.splits)
  note says = stop_says [OF look this, of "text"]
  have pre: "sys_inv (said text s)" "n \<in> set (r_workerOrder (said text s))"
    "lifecycle (get_state (said text s) n) \<in> {StateRunning, StateDraining, StateFailed}"
    using inv n l by simp_all
  obtain s' where s': "stop [attempt_that (Returns None)] n (said text s) = (Finished None, s')"
    "only n (said text s) s'" "is_stopped n s'"
    by (rule quiet_stop [OF pre])
  show thesis
    by (rule that [of s'], use s' says in \<open>simp_all add: quietly_only\<close>)
qed

definition started_as :: "sys \<Rightarrow> sys \<Rightarrow> string \<Rightarrow> bool" where
  "started_as s s' n \<longleftrightarrow> lifecycle (get_state s' n) = StateRunning
     \<and> ready (get_state s' n) = readyOnStart (get_config s n)
     \<and> acceptingWork (get_state s' n) = wc_acceptingWork (get_config s n)
     \<and> generation (get_state s' n) = generation (get_state s n) + 1 \<and> lastFailure (get_state s' n) = None"

lemma printing_startAllFrom:
  assumes "sys_inv s" and "distinct (map fst ws)"
    and "\<forall>(n, l) \<in> set ws. n \<in> set (r_workerOrder s) \<and> l = lifecycle (get_state s n)
       \<and> l \<in> {StateRegistered, StateStopped, StateFailed} \<and> result n = Returns None"
  shows "\<exists>s'. startAllFrom c (printing_env text result) ws s = (Finished None, s')
    \<and> quietly (fst ` set ws) (said (concat (map text (map fst ws))) s) s'
    \<and> (\<forall>n \<in> fst ` set ws. started_as s s' n)"
  using assms
proof (induction ws arbitrary: s)
  case Nil
  then show ?case by (simp add: quietly_refl)
next
  case (Cons p ws)
  obtain n l where p: "p = (n, l)" by fastforce
  from Cons.prems have n: "n \<in> set (r_workerOrder s)" "lifecycle (get_state s n) \<in> {StateRegistered, StateStopped, StateFailed}"
    "l = lifecycle (get_state s n)" "result n = Returns None" "n \<notin> fst ` set ws" by (auto simp: p)
  obtain s1 where s1: "start c [worker_call (text n) (Returns None)] n s = (Finished None, s1)"
    "quietly {n} (said (text n) s) s1" "started_as s s1 n"
    using printing_start [OF Cons.prems(1) n(1,2), of c "text n"] unfolding started_as_def by metis
  note f1 = quietly_fields [OF s1(2), simplified]
  have other: "get_state s1 m = get_state s m" if "m \<in> fst ` set ws" for m
    using n(5) that by (intro f1(12)) blast
  from Cons.IH [OF f1(1)] Cons.prems(2,3) other obtain s' where s':
    "startAllFrom c (printing_env text result) ws s1 = (Finished None, s')"
    "quietly (fst ` set ws) (said (concat (map text (map fst ws))) s1) s'" "\<forall>m \<in> fst ` set ws. started_as s1 s' m"
    by (force simp: f1(2) p)
  have "started_as s s' m" if "m \<in> fst ` set ws" for m
    using bspec [OF s'(3) that] other [OF that] f1(3) by (simp add: started_as_def)
  moreover have "started_as s s' n"
    using s1(3) quietly_fields(12) [OF s'(2) n(5)] by (simp add: started_as_def)
  moreover have "quietly (insert n (fst ` set ws)) (said (text n @ concat (map text (map fst ws))) s) s'"
    by (rule quietly_prints [OF s1(2) s'(2)]) auto
  moreover have "startAllFrom c (printing_env text result) (p # ws) s = (Finished None, s')"
    using n(2-4) s1(1) s'(1) by (simp add: p Let_def)
  ultimately show ?case by (auto simp: p)
qed

text \<open>\<open>StartAll\<close> of a program that has just registered its workers.\<close>

lemma gate_only:
  "rest s' = rest (s\<lparr>r_gate := b\<rparr>) \<Longrightarrow> rest (s'\<lparr>r_gate := r_gate s\<rparr>) = rest s"
  unfolding rest_def by (cases s; cases s'; simp)

lemma quietly_gate:
  assumes "quietly ns (s\<lparr>r_gate := False\<rparr>) s'" and "r_gate s"
  shows "quietly ns s (s'\<lparr>r_gate := True\<rparr>)"
  using assms gate_only [where s = s and s' = s' and b = False] by (simp add: quietly_def get_state_def)

lemma printing_StartAll:
  assumes "sys_inv s" and "r_gate s" and "ctx_Err c s = None"
    and "\<forall>n \<in> set (r_workerOrder s). result n = Returns None
       \<and> lifecycle (get_state s n) \<in> {StateRegistered, StateStopped, StateFailed}"
  obtains s' where "StartAll c [] (printing_env text result) s = (Finished None, s')"
    "quietly (set (r_workerOrder s)) (said (concat (map text (r_workerOrder s))) s) s'"
    "\<forall>n \<in> set (r_workerOrder s). started_as s s' n"
proof -
  let ?s = "s\<lparr>r_gate := False\<rparr>" and ?t = "concat (map text (r_workerOrder s))"
  let ?ws = "registeredWorkerLifecycles ?s"
  have ws: "map fst ?ws = r_workerOrder s" "fst ` set ?ws = set (r_workerOrder s)"
    by (simp_all add: registeredWorkerLifecycles_def comp_def image_image)
  have "sys_inv ?s" "distinct (map fst ?ws)"
    using assms(1) sys_inv_rt [OF assms(1)] ws(1) by (simp_all add: rt_inv_def)
  moreover have "\<forall>(n, l) \<in> set ?ws. n \<in> set (r_workerOrder ?s) \<and> l = lifecycle (get_state ?s n)
       \<and> l \<in> {StateRegistered, StateStopped, StateFailed} \<and> result n = Returns None"
    using assms(4) by (auto simp: registeredWorkerLifecycles_def get_state_def)
  ultimately obtain s1 where s1: "startAllFrom c (printing_env text result) ?ws ?s = (Finished None, s1)"
    "quietly (set (r_workerOrder s)) (said ?t ?s) s1" "\<forall>n \<in> set (r_workerOrder s). started_as ?s s1 n"
    using printing_startAllFrom [of ?s ?ws result c "text"] unfolding ws by blast
  have "StartAll c [] (printing_env text result) s = (Finished None, s1\<lparr>r_gate := True\<rparr>)"
    using s1(1) assms(2,3) by (simp add: StartAll_def runLifecycle_def acquireLifecycle_def startAll_def)
  moreover have "\<forall>n \<in> set (r_workerOrder s). started_as s (s1\<lparr>r_gate := True\<rparr>) n"
    using s1(3) by (simp add: started_as_def get_state_def get_config_def)
  moreover have "quietly (set (r_workerOrder s)) (said ?t s) (s1\<lparr>r_gate := True\<rparr>)"
    using s1(2) assms(2) by (intro quietly_gate) simp_all
  ultimately show thesis using that by blast
qed

lemma quiet_StartAll:
  assumes "sys_inv s" and "r_gate s" and "ctx_Err c s = None"
    and "\<forall>n \<in> set (r_workerOrder s). result n = Returns None
       \<and> lifecycle (get_state s n) \<in> {StateRegistered, StateStopped, StateFailed}"
  obtains s' where "StartAll c [] (quiet_env result) s = (Finished None, s')"
    "quietly (set (r_workerOrder s)) s s'" "\<forall>n \<in> set (r_workerOrder s). started_as s s' n"
  by (rule printing_StartAll [OF assms, of "\<lambda>_. ''''"], rule that) (simp_all only: concat_silent said_simps)

text \<open>\<open>Shutdown\<close> of a program whose workers have all settled and that has no command in flight.\<close>

lemma quiet_drainEach:
  assumes "sys_inv s" and "distinct (map fst ws)"
    and "\<forall>(n, l) \<in> set ws. n \<in> set (r_workerOrder s) \<and> l = lifecycle (get_state s n)
       \<and> l \<in> {StateRunning, StateDraining, StateFailed}"
  shows "\<exists>s'. drainEach (printing_env text result) ws errs s = (errs, s') \<and> quietly (fst ` set ws) s s'
    \<and> (\<forall>n \<in> fst ` set ws. lifecycle (get_state s' n) \<in> {StateDraining, StateFailed})"
  using assms
proof (induction ws arbitrary: s)
  case Nil
  then show ?case by (simp add: quietly_refl)
next
  case (Cons p ws)
  obtain n l where p: "p = (n, l)" by fastforce
  from Cons.prems have n: "n \<in> set (r_workerOrder s)" "l = lifecycle (get_state s n)"
    "l \<in> {StateRunning, StateDraining, StateFailed}" "n \<notin> fst ` set ws" by (auto simp: p)
  have "\<exists>s1. quietly {n} s s1 \<and> lifecycle (get_state s1 n) \<in> {StateDraining, StateFailed}
      \<and> drainEach (printing_env text result) (p # ws) errs s = drainEach (printing_env text result) ws errs s1"
  proof (cases "l = StateRunning")
    case True
    then obtain s1 where "drain n s = (None, s1)" "only n s s1" "lifecycle (get_state s1 n) = StateDraining"
      using quiet_drain [OF Cons.prems(1) n(1)] n(2) by metis
    then show ?thesis
      using True quietly_only [of n s s1 "{n}"] by (auto simp: p Let_def)
  next
    case False
    then show ?thesis
      using n Cons.prems(1) by (intro exI [of _ s]) (auto simp: p Let_def quietly_refl)
  qed
  then obtain s1 where s1: "quietly {n} s s1" "lifecycle (get_state s1 n) \<in> {StateDraining, StateFailed}"
    "drainEach (printing_env text result) (p # ws) errs s = drainEach (printing_env text result) ws errs s1" by blast
  note f1 = quietly_fields [OF s1(1)]
  have other: "get_state s1 m = get_state s m" if "m \<in> fst ` set ws" for m
    using n(4) that by (intro f1(12)) blast
  from Cons.IH [OF f1(1)] Cons.prems(2,3) other obtain s' where s':
    "drainEach (printing_env text result) ws errs s1 = (errs, s')" "quietly (fst ` set ws) s1 s'"
    "\<forall>m \<in> fst ` set ws. lifecycle (get_state s' m) \<in> {StateDraining, StateFailed}"
    by (force simp: f1(2) p)
  moreover have "quietly (insert n (fst ` set ws)) s s'"
    by (rule quietly_trans [OF quietly_mono [OF s1(1)] quietly_mono [OF s'(2)]]) auto
  ultimately show ?case
    using s1(2,3) quietly_fields(12) [OF s'(2) n(4)] by (auto simp: p)
qed

lemma printing_stopEach:
  assumes "sys_inv s" and "distinct (map fst ws)"
    and "\<forall>(n, l) \<in> set ws. n \<in> set (r_workerOrder s) \<and> l = lifecycle (get_state s n)
       \<and> l \<in> {StateRunning, StateDraining, StateFailed} \<and> result n = Returns None"
  shows "\<exists>s'. stopEach (printing_env text result) ws [] s = (Finished None, s')
    \<and> quietly (fst ` set ws) (said (concat (map text (map fst ws))) s) s'
    \<and> (\<forall>n \<in> fst ` set ws. is_stopped n s')"
  using assms
proof (induction ws arbitrary: s)
  case Nil
  then show ?case by (simp add: errors_join_None [of "[]", simplified] quietly_refl)
next
  case (Cons p ws)
  obtain n l where p: "p = (n, l)" by fastforce
  from Cons.prems have n: "n \<in> set (r_workerOrder s)" "l = lifecycle (get_state s n)" "result n = Returns None"
    "lifecycle (get_state s n) \<in> {StateRunning, StateDraining, StateFailed}" "n \<notin> fst ` set ws" by (auto simp: p)
  obtain s1 where s1: "stop [worker_call (text n) (Returns None)] n s = (Finished None, s1)"
    "quietly {n} (said (text n) s) s1" "is_stopped n s1"
    using printing_stop [OF Cons.prems(1) n(1,4), of "text n"] by metis
  note f1 = quietly_fields [OF s1(2), simplified]
  have other: "get_state s1 m = get_state s m" if "m \<in> fst ` set ws" for m
    using n(5) that by (intro f1(12)) blast
  from Cons.IH [OF f1(1)] Cons.prems(2,3) other obtain s' where s':
    "stopEach (printing_env text result) ws [] s1 = (Finished None, s')"
    "quietly (fst ` set ws) (said (concat (map text (map fst ws))) s1) s'"
    "\<forall>m \<in> fst ` set ws. is_stopped m s'"
    by (force simp: f1(2) p)
  have "is_stopped n s'" using s1(3) quietly_fields(12) [OF s'(2) n(5)] by (simp add: is_stopped_def)
  moreover have "quietly (insert n (fst ` set ws)) (said (text n @ concat (map text (map fst ws))) s) s'"
    by (rule quietly_prints [OF s1(2) s'(2)]) auto
  moreover have "stopEach (printing_env text result) (p # ws) [] s = (Finished None, s')"
    using s1(1) s'(1) n(2-4) by (auto simp: p Let_def)
  ultimately show ?case using s'(3) by (auto simp: p)
qed

definition printing_shutdown :: "(string \<Rightarrow> string) \<Rightarrow> (string \<Rightarrow> op_result) \<Rightarrow> shutdown_env" where
  "printing_shutdown text result =
     \<lparr>sh_drain = printing_env text result, sh_afterDrain = [], sh_polls = [], sh_afterWait = [],
      sh_stop = printing_env text result\<rparr>"

abbreviation quiet_shutdown :: "(string \<Rightarrow> op_result) \<Rightarrow> shutdown_env" where
  "quiet_shutdown \<equiv> printing_shutdown (\<lambda>_. '''')"

lemma gates_only:
  "rest s' = rest (s\<lparr>r_gate := b, r_admissionClosed := c\<rparr>)
   \<Longrightarrow> rest (s'\<lparr>r_admissionClosed := r_admissionClosed s, r_gate := r_gate s\<rparr>) = rest s"
  unfolding rest_def by (cases s; cases s'; simp)

lemma printing_Shutdown:
  assumes inv: "sys_inv s" and "r_gate s" and c: "ctx_Err c s = None" and "s_active s = []"
    and l: "\<forall>n \<in> set (r_workerOrder s). result n = Returns None
       \<and> lifecycle (get_state s n) \<in> {StateRunning, StateDraining, StateFailed}"
  obtains s' where "Shutdown c [] (printing_shutdown text result) s = (Finished None, s')"
    "quietly (set (r_workerOrder s)) (said (concat (map text (rev (r_workerOrder s)))) s) s'"
    "\<forall>n \<in> set (r_workerOrder s). is_stopped n s'"
proof -
  let ?s = "s\<lparr>r_gate := False, r_admissionClosed := True\<rparr>" and ?t = "concat (map text (rev (r_workerOrder s)))"
  let ?ws = "registeredWorkerLifecycles ?s"
  have names: "fst ` set (registeredWorkerLifecycles r) = set (r_workerOrder r)"
    "map fst (registeredWorkerLifecycles r) = r_workerOrder r" for r
    by (simp_all add: registeredWorkerLifecycles_def comp_def image_image)
  have distinct: "distinct (map fst (registeredWorkerLifecycles r))"
    "distinct (map fst (rev (registeredWorkerLifecycles r)))" if "sys_inv r" for r
    using sys_inv_rt [OF that] names(2) [of r] by (simp_all add: rt_inv_def rev_map [symmetric])
  have i0: "sys_inv ?s" using inv by simp
  have "\<forall>(n, k) \<in> set ?ws. n \<in> set (r_workerOrder ?s) \<and> k = lifecycle (get_state ?s n)
       \<and> k \<in> {StateRunning, StateDraining, StateFailed}"
    using l by (auto simp: registeredWorkerLifecycles_def get_state_def)
  from quiet_drainEach [OF i0 distinct(1) [OF i0] this, of "text" result "[]"] obtain s1 where s1:
    "drainEach (printing_env text result) ?ws [] ?s = ([], s1)" "quietly (set (r_workerOrder s)) ?s s1"
    "\<forall>n \<in> set (r_workerOrder s). lifecycle (get_state s1 n) \<in> {StateDraining, StateFailed}"
    unfolding names by auto
  note f = quietly_fields [OF s1(2)]
  have c1: "ctx_Err c s1 = None" using f(4) c by (simp add: ctx_Err_def)
  have "runtimeIdle s1" using no_slots_idle [of s1] f(1,9) assms(4) by simp
  then have wait: "WaitAllIdle c [] s1 = (Finished None, s1)" by simp
  have ord: "r_workerOrder s1 = r_workerOrder s" using f(2) by simp
  have "\<forall>(n, k) \<in> set (rev (registeredWorkerLifecycles s1)). n \<in> set (r_workerOrder s1) \<and> k = lifecycle (get_state s1 n)
       \<and> k \<in> {StateRunning, StateDraining, StateFailed} \<and> result n = Returns None"
    using s1(3) l by (auto simp: registeredWorkerLifecycles_def ord)
  from printing_stopEach [OF f(1) distinct(2) [OF f(1)] this, of "text"] obtain s2 where
    s2: "stopAll (printing_env text result) s1 = (Finished None, s2)"
    "quietly (set (r_workerOrder s)) (said ?t s1) s2" "\<forall>n \<in> set (r_workerOrder s). is_stopped n s2"
    unfolding stopAll_def by (auto simp: names ord rev_map [symmetric] simp del: map_map)
  have "shutdown c (printing_shutdown text result) ?s = (Finished None, s2)"
    using errors_join_None [of "[]", simplified] c1 wait
    by (simp add: s2(1) shutdown_def printing_shutdown_def drainAllBestEffort_def s1(1) append_err_def Let_def
        split: prod.split)
  then have "Shutdown c [] (printing_shutdown text result) s =
      (Finished None, s2\<lparr>r_admissionClosed := r_admissionClosed s, r_gate := True\<rparr>)"
    using assms(2,3)
    by (simp add: Shutdown_def runLifecycle_def acquireLifecycle_def runWithCommandAdmissionClosed_def Let_def)
  moreover have "quietly (set (r_workerOrder s)) (said ?t s) (s2\<lparr>r_admissionClosed := r_admissionClosed s, r_gate := True\<rparr>)"
  proof -
    have q: "quietly (set (r_workerOrder s)) (said ?t ?s) s2"
      by (rule quietly_trans [OF quietly_said [OF s1(2)] s2(2)])
    then have "rest s2 = rest ((said ?t s)\<lparr>r_gate := False, r_admissionClosed := True\<rparr>)" by (simp add: quietly_def)
    from gates_only [OF this] assms(2)
    have "rest (s2\<lparr>r_admissionClosed := r_admissionClosed s, r_gate := True\<rparr>) = rest (said ?t s)" by simp
    with q show ?thesis by (simp add: quietly_def)
  qed
  moreover have "\<forall>n \<in> set (r_workerOrder s). is_stopped n
      (s2\<lparr>r_admissionClosed := r_admissionClosed s, r_gate := True\<rparr>)"
    using s2(3) by (simp add: is_stopped_def get_state_def)
  ultimately show thesis using that by blast
qed

lemma quiet_Shutdown:
  assumes "sys_inv s" and "r_gate s" and "ctx_Err c s = None" and "s_active s = []"
    and "\<forall>n \<in> set (r_workerOrder s). result n = Returns None
       \<and> lifecycle (get_state s n) \<in> {StateRunning, StateDraining, StateFailed}"
  obtains s' where "Shutdown c [] (quiet_shutdown result) s = (Finished None, s')"
    "quietly (set (r_workerOrder s)) s s'" "\<forall>n \<in> set (r_workerOrder s). is_stopped n s'"
  by (rule printing_Shutdown [OF assms, of "\<lambda>_. ''''"], rule that) (simp_all only: concat_silent said_simps)

end
