(* ===== verification/Demo_Composition.thy ===== *)
theory Demo_Composition
  imports Demo_Handlers Demo_Steps Retry_Float
begin

text \<open>
  \<open>examples/production-composition\<close>: a catalog service of three workers. The state they share, their
  handlers, their \<open>Start\<close> and \<open>Stop\<close>, their registration, and the routes of the application.

  Handlers and workers are known to the runtime by number. Each method of \<open>serviceState\<close> holds
  its mutex from beginning to end and is one step here; its counters have 64 bits.
\<close>

section \<open>The state of the service\<close>

record serviceState =
  ss_documents :: "64 word"
  ss_indexVersion :: "64 word"
  ss_maintenanceRuns :: "64 word"

record stateSnapshot =
  sp_documents :: int
  sp_indexVersion :: int
  sp_maintenanceRuns :: int

definition newServiceState :: serviceState where
  "newServiceState = \<lparr>ss_documents = 0, ss_indexVersion = 0, ss_maintenanceRuns = 0\<rparr>"

definition addDocument :: "string \<Rightarrow> serviceState \<Rightarrow> serviceState" where
  "addDocument _ st = st\<lparr>ss_documents := ss_documents st + 1\<rparr>"

definition rebuildIndex :: "serviceState \<Rightarrow> int \<times> serviceState" where
  "rebuildIndex st =
     (let st' = st\<lparr>ss_indexVersion := ss_indexVersion st + 1\<rparr> in (sint (ss_indexVersion st'), st'))"

definition runMaintenance :: "serviceState \<Rightarrow> int \<times> serviceState" where
  "runMaintenance st =
     (let st' = st\<lparr>ss_maintenanceRuns := ss_maintenanceRuns st + 1\<rparr>
      in (sint (ss_maintenanceRuns st'), st'))"

definition state_snapshot :: "serviceState \<Rightarrow> stateSnapshot" where
  "state_snapshot st =
     \<lparr>sp_documents = sint (ss_documents st), sp_indexVersion = sint (ss_indexVersion st),
      sp_maintenanceRuns = sint (ss_maintenanceRuns st)\<rparr>"

section \<open>Handlers\<close>

definition ingest_enqueue ::
  "(string \<times> string) unmarshal \<Rightarrow> marshal \<Rightarrow> serviceState \<Rightarrow> CommandRequest
   \<Rightarrow> reply \<times> serviceState" where
  "ingest_enqueue unmarshal marshal st req =
     (case unmarshal (cq_payload req) of
        Inl err \<Rightarrow> (Reply no_result (Some (Errorf ''decode ingest payload: %w'' [] [err])), st)
      | Inr (documentID, title) \<Rightarrow>
          if documentID = ''''
          then (Reply no_result (Some (errors_new ''documentID is required'')), st)
          else (reply_JSON ''document enqueued''
                  (mustJSON marshal [(''documentID'', JText documentID), (''title'', JText title)]),
                addDocument documentID st))"

text \<open>The worker's counter of attempts, and the state it shares. Go's \<open>%\<close> truncates.\<close>

type_synonym indexWorker = "32 word \<times> serviceState"

definition indexWorker_rebuild ::
  "marshal \<Rightarrow> indexWorker \<Rightarrow> CommandRequest \<Rightarrow> reply \<times> indexWorker" where
  "indexWorker_rebuild marshal w req =
     (let (n, attempts) = Int32_Add1 (fst w)
      in if n smod 3 = 1
         then (Reply no_result
                 (Some (temporaryError (errors_new ''index store temporarily unavailable''))),
               (attempts, snd w))
         else (let (version, st) = rebuildIndex (snd w)
               in (reply_JSON ''index rebuilt''
                     (mustJSON marshal [(''indexVersion'', JNumber version)]), (attempts, st))))"

definition maintenanceWorker_prune ::
  "marshal \<Rightarrow> serviceState \<Rightarrow> CommandRequest \<Rightarrow> reply \<times> serviceState" where
  "maintenanceWorker_prune marshal st req =
     (let (runs, st') = runMaintenance st
      in (reply_JSON ''maintenance complete''
            (mustJSON marshal [(''maintenanceRuns'', JNumber runs)]), st'))"

section \<open>Start and Stop\<close>

record appWorker =
  aw_name :: string
  aw_warmup :: duration

text \<open>\<open>timer\<close> is what happens while the code waits for a timer of that duration, and whether the
  timer is what ends the wait. The second result is the lines printed.\<close>

definition appWorker_Start ::
  "ctx \<Rightarrow> workerControlHandle list option \<Rightarrow> (duration \<Rightarrow> action list \<times> bool) \<Rightarrow> appWorker \<Rightarrow> sys
   \<Rightarrow> outcome \<times> string list \<times> sys" where
  "appWorker_Start c values timer w s =
     (case WorkerRuntimeFromContext values of
        None \<Rightarrow> (Finished (Some no_handle), [], s)
      | Some runtime \<Rightarrow>
          (case workerControlHandle_SetReady runtime False s of
             (Some err, s1) \<Rightarrow> (Finished (Some err), [], s1)
           | (None, s1) \<Rightarrow>
               (case timer (aw_warmup w) of
                  (script, fires) \<Rightarrow>
                    (case select_timer c script fires s1 of
                       (Finished None, s2) \<Rightarrow>
                         (case workerControlHandle_SetReady runtime True s2 of
                            (err, s3) \<Rightarrow> (Finished err, [aw_name w @ '' warmed up''], s3))
                     | (out, s2) \<Rightarrow> (out, [], s2)))))"

definition appWorker_Stop :: "appWorker \<Rightarrow> sys \<Rightarrow> outcome \<times> string list \<times> sys" where
  "appWorker_Stop w s = (Finished None, [aw_name w @ '' stopped''], s)"

section \<open>Composition\<close>

definition catalog_runtime :: "Observer option \<Rightarrow> error + runtime" where
  "catalog_runtime observer =
     NewRuntime ''catalog_service''
       [Some (WithRuntimeCommandConcurrency 8), Some (WithDefaultWorkerCommandConcurrency 2),
        Some (WithDefaultFailurePolicy FailurePolicyMarkRuntimeUnready),
        Some (WithObserver observer)]"

definition commandRetry ::
  "(float64 \<Rightarrow> int) \<Rightarrow> (float64 \<Rightarrow> float64 \<Rightarrow> float64) \<Rightarrow> float64 \<Rightarrow> policy" where
  "commandRetry wild pow draw =
     AttemptsIf 3 (Some (Exponential wild pow (100 * millisecond) (Fin 2) second))
       (Some (Full wild draw)) (Some isTemporary)"

definition catalog_command :: "string \<Rightarrow> string \<Rightarrow> nat \<Rightarrow> CommandSpec" where
  "catalog_command name description handler =
     \<lparr>csp_name = name, csp_description = description, csp_payloadKind = '''', csp_dangerous = False,
      csp_idempotent = False, csp_attributes = [], csp_handler = Some handler\<rparr>"

definition registerIngest :: "'a runtime_scheme \<Rightarrow> error option \<times> 'a runtime_scheme" where
  "registerIngest =
     Register \<lparr>sp_name = ''ingest'', sp_description = ''Accepts incoming catalog documents.'',
               sp_worker = Some 1\<rparr>
       [Some (WithWorkerCommandConcurrency 4),
        Some (WithCommandSpec
          (catalog_command ''ingest/enqueue'' ''Queue one catalog document for indexing.'' 1))]"

definition registerIndex :: "policy \<Rightarrow> 'a runtime_scheme \<Rightarrow> error option \<times> 'a runtime_scheme" where
  "registerIndex policy =
     Register \<lparr>sp_name = ''index'', sp_description = ''Builds searchable catalog index entries.'',
               sp_worker = Some 2\<rparr>
       [Some (WithWorkerCommandConcurrency 1), Some (WithWorkerCommandRetry (Some policy)),
        Some (WithCommandSpec
          (catalog_command ''index/rebuild''
             ''Rebuild the catalog index with bounded retry for transient failures.'' 2))]"

definition registerMaintenance :: "'a runtime_scheme \<Rightarrow> error option \<times> 'a runtime_scheme" where
  "registerMaintenance =
     Register \<lparr>sp_name = ''maintenance'', sp_description = ''Runs catalog service housekeeping.'',
               sp_worker = Some 3\<rparr>
       [Some (WithWorkerReadinessContribution False),
        Some (WithWorkerFailurePolicy FailurePolicyIsolate), Some (WithWorkerCommandConcurrency 1),
        Some (WithCommandSpec
          (catalog_command ''maintenance/prune'' ''Run one maintenance prune pass.'' 3))]"

text \<open>The runtime that \<open>main\<close> composes; \<open>Inl\<close> is the error it dies of.\<close>

definition composition :: "Observer option \<Rightarrow> policy \<Rightarrow> error + sys" where
  "composition observer policy =
     (case catalog_runtime observer of
        Inl err \<Rightarrow> Inl err
      | Inr r \<Rightarrow>
     (case registerIngest (fresh_system r) of
        (Some err, r1) \<Rightarrow> Inl err
      | (None, r1) \<Rightarrow>
     (case registerIndex policy r1 of
        (Some err, r2) \<Rightarrow> Inl err
      | (None, r2) \<Rightarrow>
     (case registerMaintenance r2 of
        (Some err, r3) \<Rightarrow> Inl err
      | (None, r3) \<Rightarrow> Inr r3))))"

section \<open>Routes of the application\<close>

definition app_status :: "'a runtime_scheme \<Rightarrow> serviceState \<Rightarrow> (string \<times> json_value) list" where
  "app_status r st =
     (let status = RuntimeStatus_of r; snapshot = state_snapshot st
      in [(''service'', JText ''catalog-service''),
          (''runtimeState'', JText (lifecycle_string (rs_state status))),
          (''runtimeReady'', JFlag (rs_ready status)),
          (''documents'', JNumber (sp_documents snapshot)),
          (''indexVersion'', JNumber (sp_indexVersion snapshot)),
          (''maintenance'', JNumber (sp_maintenanceRuns snapshot)),
          (''runtimeName'', JText (rs_name status))])"

definition app_search :: "string \<Rightarrow> serviceState \<Rightarrow> (string \<times> json_value) list" where
  "app_search query st =
     (let snapshot = state_snapshot st
      in [(''query'', JText query), (''documents'', JNumber (sp_documents snapshot)),
          (''indexVersion'', JNumber (sp_indexVersion snapshot))])"

text \<open>The value of the request's \<open>X-Ops-Token\<close> header; an absent header reads as empty.\<close>

definition requireOpsToken :: "string \<Rightarrow> HTTPError option" where
  "requireOpsToken token =
     (if token \<noteq> ''dev-secret''
      then Some \<lparr>he_status = 401, he_message = ''ops token required'', he_cause = None\<rparr> else None)"

end
