(* ===== verification/Demo_Claims.thy ===== *)
theory Demo_Claims
  imports Demo_Composition
begin

text \<open>
  The example programs on the runtime model: the catalog service of \<open>production-composition\<close> and
  its retried rebuild, and the retried commands of \<open>retry-policy\<close>.
\<close>

section \<open>Dispatches that call a given handler\<close>

text \<open>A dispatch whose attempts call handler \<open>h\<close>: \<open>other k\<close> is what the rest of the program does to
  the worker's data after attempt \<open>k\<close>.\<close>

fun worker_at :: "('w \<Rightarrow> reply \<times> 'w) \<Rightarrow> (nat \<Rightarrow> 'w \<Rightarrow> 'w) \<Rightarrow> 'w \<Rightarrow> nat \<Rightarrow> 'w" where
  "worker_at h other w 0 = w"
| "worker_at h other w (Suc k) = other k (snd (h (worker_at h other w k)))"

definition served :: "('w \<Rightarrow> reply \<times> 'w) \<Rightarrow> (nat \<Rightarrow> 'w \<Rightarrow> 'w) \<Rightarrow> 'w \<Rightarrow> dispatch_env \<Rightarrow> bool" where
  "served h other w env \<longleftrightarrow>
     (\<forall>k < length (de_attempts env). case fst (h (worker_at h other w k)) of
        Reply res err \<Rightarrow> at_result (de_attempts env ! k) = Returns err
          \<and> (err = None \<longrightarrow> de_value env (int k + 1) = res)
      | HandlerPanic \<Rightarrow> at_result (de_attempts env ! k) = Panics)"

section \<open>The runtime that is composed\<close>

lemma catalog_names:
  "is_identifier ''catalog_service''" "is_identifier ''ingest''" "is_identifier ''index''"
  "is_identifier ''maintenance''" "is_identifier ''enqueue''" "is_identifier ''rebuild''"
  "is_identifier ''prune''"
  by (simp_all add: is_identifier_def ident_char_def)

lemma catalog_commands:
  "ValidateCommandName ''ingest/enqueue'' = None" "ValidateCommandName ''index/rebuild'' = None"
  "ValidateCommandName ''maintenance/prune'' = None"
  unfolding valid_command_name using catalog_names
  by (rule_tac x = "[''ingest'', ''enqueue'']" in exI, simp,
      rule_tac x = "[''index'', ''rebuild'']" in exI, simp,
      rule_tac x = "[''maintenance'', ''prune'']" in exI, simp)

lemmas catalog_options = apply_options_def on_default_def WithRuntimeCommandConcurrency_def
  WithDefaultWorkerCommandConcurrency_def WithDefaultFailurePolicy_def WithObserver_def
  WithWorkerCommandConcurrency_def WithCommandSpec_def WithWorkerCommandRetry_def
  WithWorkerReadinessContribution_def WithWorkerFailurePolicy_def catalog_command_def
  defaultWorkerConfig_def

lemmas catalog_validation = workerConfig_validate_def validPanicPolicy_def validFailurePolicy_def
  bindWorkerCommands_def catalog_commands catalog_names qualifyWorkerName_def cloneCommandAttributes_def

definition catalog_config :: "Observer option \<Rightarrow> runtimeConfig" where
  "catalog_config ob = \<lparr>rc_commandConcurrency = 8, readinessPolicy = ReadyWhenContributingWorkersReady,
     rc_observer = Some (case ob of None \<Rightarrow> NopObserver | Some x \<Rightarrow> SafeObserver (Some x)),
     defaultWorker = defaultWorkerConfig
       \<lparr>wc_commandConcurrency := 2, failurePolicy := FailurePolicyMarkRuntimeUnready\<rparr>\<rparr>"

lemma catalog_runtime_made:
  "catalog_runtime ob = Inr \<lparr>r_gate = True, r_identity = ''catalog_service'', r_config = catalog_config ob,
      r_registrations = [], r_workerOrder = [], r_workerConfigs = [], r_commands = [],
      r_workerStates = [], r_dispatchSeq = 0,
      r_status = \<lparr>rs_name = ''catalog_service'', rs_state = StateRegistered, rs_ready = False,
                  rs_inFlight = 0, rs_workers = 0, rs_lastTransition = None\<rparr>,
      r_admissionClosed = False, r_now = 0, r_calls = []\<rparr>"
  using catalog_names(1)
  by (simp add: catalog_runtime_def NewRuntime_def ValidateRuntimeName_def validateIdentifier_accepts
      catalog_options catalog_validation runtimeConfig_validate_def defaultRuntimeConfig_def
      validReadinessPolicy_def catalog_config_def split: option.split)

definition rebuild_registration :: commandRegistration where
  "rebuild_registration = \<lparr>cr_worker = ''catalog_service/index'', cr_name = ''index/rebuild'',
     cr_description = ''Rebuild the catalog index with bounded retry for transient failures.'',
     cr_payloadKind = '''', cr_dangerous = False, cr_idempotent = False, cr_attributes = [],
     cr_handler = 2\<rparr>"

text \<open>What the rest of this theory uses of it.\<close>

definition catalog :: "policy \<Rightarrow> 'a runtime_scheme \<Rightarrow> bool" where
  "catalog p s \<longleftrightarrow> r_identity s = ''catalog_service''
     \<and> readinessPolicy (r_config s) = ReadyWhenContributingWorkersReady
     \<and> r_workerOrder s = [''catalog_service/ingest'', ''catalog_service/index'',
                          ''catalog_service/maintenance'']
     \<and> contributesToReadiness (get_config s ''catalog_service/ingest'')
     \<and> contributesToReadiness (get_config s ''catalog_service/index'')
     \<and> commandRetryPolicy (get_config s ''catalog_service/index'') = Some p
     \<and> panicPolicy (get_config s ''catalog_service/index'') = PanicPolicyRecover
     \<and> wc_commandConcurrency (get_config s ''catalog_service/index'') = 1
     \<and> \<not> contributesToReadiness (get_config s ''catalog_service/maintenance'')
     \<and> failurePolicy (get_config s ''catalog_service/maintenance'') = FailurePolicyIsolate
     \<and> map_of (r_registrations s) ''catalog_service/index'' \<noteq> None
     \<and> map_of (get_commands s ''catalog_service/index'') ''index/rebuild'' = Some rebuild_registration"

lemma catalog_registers:
  assumes "unstarted r" and "r_identity r = ''catalog_service''" and "r_config r = catalog_config ob"
  shows ingest_registers: "map_of (r_registrations r) ''catalog_service/ingest'' = None \<Longrightarrow>
      \<exists>reg cfg cs. registerIngest r = (None, registered_with ''catalog_service/ingest'' reg cfg cs r)
        \<and> contributesToReadiness cfg"
    and index_registers: "map_of (r_registrations r) ''catalog_service/index'' = None \<Longrightarrow>
      \<exists>reg cfg. registerIndex p r =
          (None, registered_with ''catalog_service/index'' reg cfg [rebuild_registration] r)
        \<and> contributesToReadiness cfg \<and> commandRetryPolicy cfg = Some p
        \<and> panicPolicy cfg = PanicPolicyRecover \<and> wc_commandConcurrency cfg = 1"
    and maintenance_registers: "map_of (r_registrations r) ''catalog_service/maintenance'' = None \<Longrightarrow>
      \<exists>reg cfg cs. registerMaintenance r = (None, registered_with ''catalog_service/maintenance'' reg cfg cs r)
        \<and> \<not> contributesToReadiness cfg \<and> failurePolicy cfg = FailurePolicyIsolate"
proof -
  note facts = assms catalog_options catalog_validation catalog_config_def rebuild_registration_def
  show "\<exists>reg cfg cs. registerIngest r = (None, registered_with ''catalog_service/ingest'' reg cfg cs r)
      \<and> contributesToReadiness cfg" if "map_of (r_registrations r) ''catalog_service/ingest'' = None"
    unfolding registerIngest_def
    by (intro exI conjI, rule Register_accepts, rule refl) (simp_all add: facts that)
  show "\<exists>reg cfg. registerIndex p r =
          (None, registered_with ''catalog_service/index'' reg cfg [rebuild_registration] r)
        \<and> contributesToReadiness cfg \<and> commandRetryPolicy cfg = Some p
        \<and> panicPolicy cfg = PanicPolicyRecover \<and> wc_commandConcurrency cfg = 1" if "map_of (r_registrations r) ''catalog_service/index'' = None"
    unfolding registerIndex_def
    by (intro exI conjI, rule Register_accepts, rule refl) (simp_all add: facts that)
  show "\<exists>reg cfg cs. registerMaintenance r = (None, registered_with ''catalog_service/maintenance'' reg cfg cs r)
      \<and> \<not> contributesToReadiness cfg \<and> failurePolicy cfg = FailurePolicyIsolate"
    if "map_of (r_registrations r) ''catalog_service/maintenance'' = None"
    unfolding registerMaintenance_def
    by (intro exI conjI, rule Register_accepts, rule refl) (simp_all add: facts that)
qed

lemma composition_made: "\<exists>s. composition ob p = Inr s \<and> reachable s \<and> catalog p s"
proof -
  obtain r where r: "catalog_runtime ob = Inr r" and u: "unstarted (fresh_system r)"
    and f: "r_identity r = ''catalog_service''" "r_config r = catalog_config ob" "r_gate r"
      "r_registrations r = []" "r_workerOrder r = []" "r_workerConfigs r = []" "r_commands r = []"
    using catalog_runtime_made [of ob] by (auto simp: unstarted_def)
  have 0: "reachable (fresh_system r)" using r unfolding catalog_runtime_def by (rule reachable.new)
  from ingest_registers [OF u, of ob] f obtain cfg1 cs1 reg1 where 1:
    "registerIngest (fresh_system r) = (None, registered_with ''catalog_service/ingest'' reg1 cfg1 cs1 (fresh_system r))"
    (is "_ = (None, ?s1)") "contributesToReadiness cfg1" by auto
  have u1: "unstarted ?s1" and r1: "reachable ?s1"
    using registered_unstarted [OF u] reachable.registering [OF 0 _ 1(1) [unfolded registerIngest_def]] f(3) by simp_all
  from index_registers [OF u1, of ob p] f obtain cfg2 reg2 where 2:
    "registerIndex p ?s1 = (None, registered_with ''catalog_service/index'' reg2 cfg2 [rebuild_registration] ?s1)"
    (is "_ = (None, ?s2)") "contributesToReadiness cfg2" "commandRetryPolicy cfg2 = Some p" 
    "panicPolicy cfg2 = PanicPolicyRecover" "wc_commandConcurrency cfg2 = 1" by auto
  have u2: "unstarted ?s2" and r2: "reachable ?s2"
    using registered_unstarted [OF u1] reachable.registering [OF r1 _ 2(1) [unfolded registerIndex_def]] f(3) by simp_all
  from maintenance_registers [OF u2, of ob] f obtain cfg3 cs3 reg3 where 3:
    "registerMaintenance ?s2 = (None, registered_with ''catalog_service/maintenance'' reg3 cfg3 cs3 ?s2)"
    (is "_ = (None, ?s3)") "\<not> contributesToReadiness cfg3" "failurePolicy cfg3 = FailurePolicyIsolate" by auto
  have "reachable ?s3"
    using reachable.registering [OF r2 _ 3(1) [unfolded registerMaintenance_def]] f(3) by simp
  moreover have "catalog p ?s3"
    using f 1(2) 2(2-) 3(2-)
    by (simp add: catalog_def catalog_config_def get_config_def get_commands_def commands_map_def rebuild_registration_def)
  ultimately show ?thesis by (simp add: composition_def r 1(1) 2(1) 3(1))
qed

text \<open>A later state of a runtime that has been composed.\<close>

definition configured_as :: "'a runtime_scheme \<Rightarrow> 'a runtime_scheme \<Rightarrow> bool" where
  "configured_as s0 s \<longleftrightarrow> r_identity s = r_identity s0 \<and> r_config s = r_config s0
     \<and> r_registrations s = r_registrations s0 \<and> r_workerOrder s = r_workerOrder s0
     \<and> r_workerConfigs s = r_workerConfigs s0 \<and> r_commands s = r_commands s0"

lemma configured_catalog: "configured_as s0 s \<Longrightarrow> catalog p s0 \<Longrightarrow> catalog p s"
  by (simp add: configured_as_def catalog_def get_config_def get_commands_def)

section \<open>The retried rebuild\<close>

text \<open>The simulated outage never lasts for two attempts in a row, not even where the counter wraps
  around.\<close>

lemma outage_is_short:
  fixes n :: "32 word"
  assumes "sint (n + 1) smod 3 = 1"
  shows "sint (n + 1 + 1) smod 3 \<noteq> 1"
proof -
  let ?x = "sint (n + 1)"
  have b: "- (2 ^ 31) \<le> ?x" "?x < 2 ^ 31" using sint_ge [of "n + 1"] sint_lt [of "n + 1"] by simp_all
  show ?thesis
  proof (cases "?x = 2 ^ 31 - 1")
    case True
    have "word_of_int ?x = n + 1" by simp
    then have "n + 1 = word_of_int (2 ^ 31 - 1)" using True by simp
    then show ?thesis by (simp add: signed_modulo_int_def)
  next
    case False
    then have "sint (n + 1 + 1) = ?x + 1"
      using b by (subst sint_word_ariths) (simp add: signed_take_bit_int_eq_self)
    with assms show ?thesis by (simp add: signed_modulo_int_def signed_divide_int_def sgn_if split: if_splits) presburger
  qed
qed

lemma commandRetry_grants:
  "1 \<le> k \<Longrightarrow> snd (commandRetry wild pow draw k err) \<longleftrightarrow> k < 3 \<and> isTemporary err"
  by (auto simp: commandRetry_def AttemptsIf_def New_def configPolicy_NextDelay_def Let_def)

lemma rebuild_reply:
  assumes "\<forall>v. \<exists>text. marshal [(''indexVersion'', JNumber v)] = Inr text"
  shows "fst (snd (indexWorker_rebuild marshal w req)) = fst w + 1"
    and "if sint (fst w + 1) smod 3 = 1
         then \<exists>err. fst (indexWorker_rebuild marshal w req) = Reply no_result (Some err) \<and> isTemporary err
         else \<exists>text. marshal [(''indexVersion'', JNumber (sint (ss_indexVersion (snd w) + 1)))] = Inr text
           \<and> fst (indexWorker_rebuild marshal w req) =
               Reply \<lparr>res_message = ''index rebuilt'', res_payload = text\<rparr> None"
proof -
  obtain body where t: "marshal [(''indexVersion'', JNumber (sint (ss_indexVersion (snd w) + 1)))] = Inr body"
    using assms by blast
  show "fst (snd (indexWorker_rebuild marshal w req)) = fst w + 1"
    by (simp add: indexWorker_rebuild_def Int32_Add1_def rebuildIndex_def Let_def)
  show "if sint (fst w + 1) smod 3 = 1
         then \<exists>err. fst (indexWorker_rebuild marshal w req) = Reply no_result (Some err) \<and> isTemporary err
         else \<exists>text. marshal [(''indexVersion'', JNumber (sint (ss_indexVersion (snd w) + 1)))] = Inr text
           \<and> fst (indexWorker_rebuild marshal w req) =
               Reply \<lparr>res_message = ''index rebuilt'', res_payload = text\<rparr> None"
    using t
    by (simp add: indexWorker_rebuild_def Int32_Add1_def rebuildIndex_def Let_def reply_JSON_def mustJSON_def
        isTemporary_def temporaryError_def)
qed

text \<open>The retried call of the handler.\<close>

lemma rebuild_call:
  assumes srv: "served (\<lambda>w. indexWorker_rebuild marshal w req) other w env"
    and oth: "\<And>k w. fst (other k w) = fst w"
    and js: "\<forall>v. \<exists>text. marshal [(''indexVersion'', JNumber v)] = Inr text"
    and run: "retryLoop c (commandRetry wild pow draw) call_worker f 1
        (map (shield t) (de_attempts env)) s = (out, m, s')" and fin: "out \<noteq> Blocked"
  shows "(\<exists>e. out = Finished (Some e) \<and> ctx_Err c s' = Some e)
    \<or> out = Finished None \<and> m \<in> {1, 2} \<and> (\<exists>text. de_value env m = \<lparr>res_message = ''index rebuilt'', res_payload = text\<rparr>
        \<and> marshal [(''indexVersion'', JNumber (sint (ss_indexVersion
            (snd (worker_at (\<lambda>w. indexWorker_rebuild marshal w req) other w (nat m - 1))) + 1)))] = Inr text)"
proof -
  let ?h = "\<lambda>w. indexWorker_rebuild marshal w req"
  let ?w = "worker_at ?h other w"
  let ?as = "map (shield t) (de_attempts env)"
  have step: "fst (?w (Suc k)) = fst (?w k) + 1" for k by (simp add: oth rebuild_reply(1) [OF js])
  from loop_result [OF run fin] obtain i where i: "i < length ?as" "m = 1 + int i"
    and before: "\<forall>j < i. \<exists>err. at_result (?as ! j) = Returns (Some err)"
    and at: "case at_result (?as ! i) of
         Panics \<Rightarrow> out = Panicking
       | Returns None \<Rightarrow> out = Finished None
       | Returns (Some err) \<Rightarrow> out = Finished (Some err) \<and> \<not> snd (commandRetry wild pow draw m err)
           \<or> (\<exists>e. out = Finished (Some e) \<and> ctx_Err c s' = Some e)"
    by blast
  have res: "at_result (?as ! k) = at_result (de_attempts env ! k)" if "k < length ?as" for k
    using that by (simp add: shield_def)
  have outage: "sint (fst (?w k) + 1) smod 3 = 1" if "at_result (?as ! k) = Returns (Some e)" "k < length ?as" for k e
    using srv that rebuild_reply(2) [OF js, of "?w k" req] res [of k]
    by (auto simp: served_def split: if_splits)
  have "i \<le> 1"
  proof (rule ccontr)
    assume "\<not> i \<le> 1"
    then obtain e0 e1 where e: "at_result (?as ! 0) = Returns (Some e0)" "at_result (?as ! 1) = Returns (Some e1)"
      and "0 < length ?as" "1 < length ?as"
      using before [rule_format, of 0] before [rule_format, of 1] i(1) by (force simp del: nth_map)
    then have "sint (fst (?w 0) + 1) smod 3 = 1" "sint (fst (?w 1) + 1) smod 3 = 1"
      using outage [OF e(1)] outage [OF e(2)] by simp_all
    then show False using outage_is_short [of "fst (?w 0)"] step [of 0] by simp
  qed
  show ?thesis
  proof (cases "sint (fst (?w i) + 1) smod 3 = 1")
    case True
    then obtain err where "at_result (?as ! i) = Returns (Some err)" "isTemporary err"
      using srv rebuild_reply(2) [OF js, of "?w i" req] i(1) res [of i] by (auto simp: served_def)
    then show ?thesis using at i(2) \<open>i \<le> 1\<close> by (auto simp: commandRetry_grants)
  next
    case False
    then have "at_result (?as ! i) = Returns None \<and> (\<exists>text. de_value env m = \<lparr>res_message = ''index rebuilt'', res_payload = text\<rparr>
        \<and> marshal [(''indexVersion'', JNumber (sint (ss_indexVersion (snd (?w i)) + 1)))] = Inr text)"
      using srv rebuild_reply(2) [OF js, of "?w i" req] i res [of i] by (auto simp: served_def add.commute)
    moreover have "nat (1 + int i) - Suc 0 = i" by (simp add: nat_add_distrib)
    ultimately show ?thesis using at i(2) \<open>i \<le> 1\<close> by auto
  qed
qed

lemma rebuild_blocked:
  assumes srv: "served (\<lambda>w. indexWorker_rebuild marshal w req) other w env"
    and oth: "\<And>k w. fst (other k w) = fst w"
    and js: "\<forall>v. \<exists>text. marshal [(''indexVersion'', JNumber v)] = Inr text"
    and run: "fst (retryLoop c p call_worker f 1 (map (shield t) (de_attempts env)) s) = Blocked"
  shows "length (de_attempts env) < 2 \<or> (\<exists>a \<in> set (de_attempts env). \<not> at_timer a)"
proof (rule ccontr)
  let ?h = "\<lambda>w. indexWorker_rebuild marshal w req"
  let ?w = "worker_at ?h other w"
  assume a: "\<not> ?thesis"
  have "sint (fst (?w k) + 1) smod 3 = 1" if "k < 2" for k
  proof -
    have k: "k < length (de_attempts env)" using a that by simp
    then have "\<exists>e. at_result (shield t (de_attempts env ! k)) = Returns (Some e)"
      using loop_blocked [OF run] a by (simp add: shield_def)
    then show ?thesis
      using srv k rebuild_reply(2) [OF js, of "?w k" req]
      by (cases "sint (fst (?w k) + 1) smod 3 = 1") (auto simp: served_def shield_def)
  qed
  from this [of 0] this [of 1] show False
    using outage_is_short [of "fst (?w 0)"] by (simp add: oth rebuild_reply(1) [OF js])
qed

lemma rebuild_target:
  assumes "catalog p s" and "cq_worker req = ''index''" and "cq_name req = ''index/rebuild''"
  shows "\<exists>req1. normalizeCommandRequest req now s = Inr req1
    \<and> lookupCommandTarget req1 s = Inr (get_config s ''catalog_service/index'', rebuild_registration)"
proof -
  have "resolveWorkerName ''catalog_service'' ''index'' = Inr ''catalog_service/index''"
    using resolveWorkerName_local [OF catalog_names(3)] by (simp add: qualifyWorkerName_def)
  then show ?thesis
    using assms catalog_commands
    by (auto simp: normalizeCommandRequest_def lookupCommandTarget_def catalog_def Let_def)
qed

text \<open>Can two commands of worker \<open>n\<close> be in flight at once, from \<open>s\<close> on? Every call of a handler of
  the worker is made by a dispatch that holds one of its slots.\<close>

definition overlapping :: "string \<Rightarrow> sys \<Rightarrow> bool" where
  "overlapping n s \<longleftrightarrow> (\<exists>s1. acts_from s s1 \<and> 2 \<le> slots n s1)"

text \<open>The index worker is registered with a concurrency of 1, which the runtime keeps.\<close>

lemma index_alone:
  assumes "catalog p s" and "reachable s"
  shows "\<not> overlapping ''catalog_service/index'' s"
proof
  let ?n = "''catalog_service/index''"
  assume "overlapping ?n s"
  then obtain as where two: "2 \<le> slots ?n (run as s)" by (auto simp: overlapping_def acts_from_def)
  have inv: "sys_inv (run as s)" and f: "frozen (run as s) = frozen s"
    using reachable_sys_inv [OF assms(2)] frozen.run_view by simp_all
  have cfg: "wc_commandConcurrency (get_config (run as s) ?n) = 1" and "?n \<in> set (r_workerOrder (run as s))"
    using assms(1) f by (simp_all add: catalog_def frozen_def get_config_def)
  then obtain w where w: "map_of (r_workerStates (run as s)) ?n = Some w"
    using state_present [OF sys_inv_rt [OF inv]] by blast
  from sys_inv_limit [OF inv w] sys_inv_slots [OF inv w] cfg two show False by simp
qed

text \<open>C35: a rebuild of the catalog index survives the simulated outage of its store. Whatever else
  the program does meanwhile, a dispatch of \<open>index/rebuild\<close> on the composed runtime that returns
  has rebuilt the index, with its first attempt or its second, and reports the version of that attempt;
  or it was refused at admission, or its context ended. It never returns the outage itself, nor
  panics, not even where the 32-bit counter of attempts wraps around. Of the rest of the program it is assumed
  only that it advances the worker's counter of attempts, which nothing but the handler does, between
  two attempts of this dispatch only if two commands of the worker can be in flight at once; the
  worker's registration with a concurrency of 1 rules that out.\<close>

theorem rebuild_survives_outage:
  assumes "composition ob (commandRetry wild pow draw) = Inr s0" and "configured_as s0 s" and "reachable s"
    and "cq_worker req = ''index''" and "cq_name req = ''index/rebuild''"
    and "served (\<lambda>w. indexWorker_rebuild marshal w req) other w env"
    and "\<forall>k w. fst (other k w) \<noteq> fst w \<longrightarrow> overlapping ''catalog_service/index'' s"
    and "\<forall>v. \<exists>text. marshal [(''indexVersion'', JNumber v)] = Inr text"
    and "Dispatch env req s = (out, s')"
  shows "case out of
      CommandOk res \<Rightarrow> \<exists>k \<in> {0, 1}. \<exists>text. res = \<lparr>res_message = ''index rebuilt'', res_payload = text\<rparr>
        \<and> marshal [(''indexVersion'', JNumber (sint (ss_indexVersion
            (snd (worker_at (\<lambda>w. indexWorker_rebuild marshal w req) other w k)) + 1)))] = Inr text
    | CommandErr err \<Rightarrow> ctx_Err (de_ctx env) s' = Some err
        \<or> (\<exists>r :: sys. fst (admitCommand ''catalog_service/index'' r) = Inl err)
    | CommandPanic \<Rightarrow> False
    | CommandBlocked \<Rightarrow> length (de_attempts env) < 2 \<or> (\<exists>a \<in> set (de_attempts env). \<not> at_timer a)"
proof -
  let ?cfg = "get_config s ''catalog_service/index''"
  let ?p = "commandRetry wild pow draw"
  have "catalog ?p s"
    using composition_made [of ob ?p] assms(1) configured_catalog [OF assms(2)] by auto
  then have p: "commandRetryPolicy ?cfg = Some ?p" by (simp add: catalog_def)
  have undisturbed: "fst (other k w) = fst w" for k w
    using assms(7) index_alone [OF \<open>catalog ?p s\<close> assms(3)] by blast
  obtain req1 where norm: "normalizeCommandRequest req (r_now s) s = Inr req1"
    "lookupCommandTarget req1 s = Inr (?cfg, rebuild_registration)"
    using rebuild_target [OF \<open>catalog ?p s\<close> assms(4,5)] by blast
  define rq where "rq = req1\<lparr>cq_worker := ''catalog_service/index'', cq_name := ''index/rebuild''\<rparr>"
  obtain d s1 where d: "nextCommandDispatchID s = (d, s1)" by fastforce
  let ?s2 = "run (de_beforeAdmit env)
    (startCommandObservation ''catalog_service/index'' ''index/rebuild'' d (r_now s) s1)"
  obtain adm s3 where adm: "admit_slot ''catalog_service/index'' ?s2 = (adm, s3)" by fastforce
  have run: "Dispatch env req s = (case adm of
      Inl e \<Rightarrow> (CommandErr e, endCommandObservation ''catalog_service/index'' ''index/rebuild'' d 0 (r_now s) (Some e) s3)
    | Inr (t, g) \<Rightarrow> runAdmitted env rq ?cfg t g d (r_now s) s3)"
    using norm d adm
    by (simp add: Dispatch_def Let_def rebuild_registration_def rq_def split: sum.split)
  show ?thesis
  proof (cases adm)
    case (Inl e)
    then have "fst (admitCommand ''catalog_service/index'' ?s2) = Inl e"
      using adm by (cases "admitCommand ''catalog_service/index'' ?s2") (auto simp: admit_slot_def split: sum.splits)
    then show ?thesis using run Inl assms(9) by auto
  next
    case (Inr tg)
    obtain t g where tg: "tg = (t, g)" by fastforce
    obtain o1 m s4 where ex: "executeCommand (de_ctx env) rq ?cfg g d (map (shield t) (de_attempts env)) s3 = (o1, m, s4)"
      by (metis prod_cases3)
    note loop = ex [unfolded executeCommand_def runWithRetry_def p option.case]
    have "(\<exists>e. o1 = Finished (Some e) \<and> ctx_Err (de_ctx env) s4 = Some e) \<or> o1 = Blocked \<or>
        o1 = Finished None \<and> m \<in> {1, 2} \<and> (\<exists>text. de_value env m = \<lparr>res_message = ''index rebuilt'', res_payload = text\<rparr>
        \<and> marshal [(''indexVersion'', JNumber (sint (ss_indexVersion
            (snd (worker_at (\<lambda>w. indexWorker_rebuild marshal w req) other w (nat m - 1))) + 1)))] = Inr text)"
      using rebuild_call [OF assms(6) undisturbed assms(8) loop] by blast
    moreover have "ctx_Err (de_ctx env) s4 = Some e \<Longrightarrow>
        ctx_Err (de_ctx env) (finishCommand t env rq d m (r_now s) x s4) = Some e" for e x
      by (rule acts_ctx [OF finish_acts [OF acts_refl]])
    moreover have "o1 = Blocked \<Longrightarrow>
        length (de_attempts env) < 2 \<or> (\<exists>a \<in> set (de_attempts env). \<not> at_timer a)"
      using rebuild_blocked [OF assms(6) undisturbed assms(8), where p = ?p and t = t] loop by (metis fst_conv)
    ultimately show ?thesis
      using run Inr tg assms(9) by (auto simp: runAdmitted_def ex)
  qed
qed


text \<open>The first rebuild of a fresh service: the outage, then success.\<close>

definition rebuild_marshal :: marshal where
  "rebuild_marshal _ = Inr ''{}''"

definition rebuild_env :: dispatch_env where
  "rebuild_env =

     \<lparr>de_ctx = 0, de_beforeAdmit = [],
          de_attempts = [\<lparr>at_script = [], at_result = Returns (Some (temporaryError
                            (errors_new ''index store temporarily unavailable''))),
                          at_after = [], at_wait = [Tick], at_timer = True\<rparr>,
                         \<lparr>at_script = [], at_result = Returns None, at_after = [], at_wait = [],
                          at_timer = True\<rparr>],
          de_value = (\<lambda>_. \<lparr>res_message = ''index rebuilt'', res_payload = ''{}''\<rparr>),
          de_beforeRelease = [], de_beforeEnd = []\<rparr>"

definition rebuild_request :: CommandRequest where
  "rebuild_request = \<lparr>cq_worker = ''index'', cq_name = ''index/rebuild'', cq_payload = '''',
                     cq_requestedAt = None\<rparr>"

lemma all_less_two: "(\<forall>k < Suc (Suc 0). P k) \<longleftrightarrow> P 0 \<and> P 1"
  by (auto simp: less_Suc_eq)

theorem rebuild_survives_outage_witness:
  "\<exists>s0. composition None (commandRetry (\<lambda>_. 0) (\<lambda>_ _. Fin 1) (Fin 0)) = Inr s0
     \<and> fst (Dispatch rebuild_env rebuild_request s0) \<noteq> CommandPanic"
proof -
  obtain s0 where s0: "composition None (commandRetry (\<lambda>_. 0) (\<lambda>_ _. Fin 1) (Fin 0)) = Inr s0"
    and reach: "reachable s0" using composition_made by blast
  obtain out s' where run: "Dispatch rebuild_env rebuild_request s0 = (out, s')" by fastforce
  let ?h = "\<lambda>w. indexWorker_rebuild rebuild_marshal w rebuild_request"
  have "?h (0, newServiceState) = (Reply no_result (Some (temporaryError
      (errors_new ''index store temporarily unavailable''))), (1, newServiceState))"
    by (simp add: indexWorker_rebuild_def Int32_Add1_def signed_modulo_int_def)
  moreover have "fst (?h (1, newServiceState)) = Reply \<lparr>res_message = ''index rebuilt'', res_payload = ''{}''\<rparr> None"
    by (simp add: indexWorker_rebuild_def Int32_Add1_def rebuildIndex_def signed_modulo_int_def
        reply_JSON_def mustJSON_def rebuild_marshal_def Let_def)
  ultimately have "served ?h (\<lambda>_ w. w) (0, newServiceState) rebuild_env"
    by (simp add: served_def rebuild_env_def all_less_two)
  from rebuild_survives_outage [OF s0 _ reach _ _ this _ _ run]
  have "out \<noteq> CommandPanic"
    by (auto simp: configured_as_def rebuild_request_def rebuild_marshal_def)
  with s0 run show ?thesis by simp
qed

text \<open>The catalog service is ready exactly while its two contributing workers run and are ready,
  whatever becomes of maintenance.\<close>

lemma catalog_readiness:
  assumes "rt_inv s" and "catalog p s"
  shows "rs_ready (r_status s) \<longleftrightarrow>
    (\<forall>n \<in> {''catalog_service/ingest'', ''catalog_service/index''}.
       lifecycle (get_state s n) = StateRunning \<and> ready (get_state s n))"
proof -
  have ord: "map fst (r_workerStates s) = [''catalog_service/ingest'', ''catalog_service/index'',
      ''catalog_service/maintenance'']"
    using assms by (simp add: rt_inv_def registry_ok_def catalog_def)
  then obtain a b c where st: "r_workerStates s = [(''catalog_service/ingest'', a), (''catalog_service/index'', b),
      (''catalog_service/maintenance'', c)]"
    by (auto simp: map_eq_Cons_conv)
  have "rs_ready (r_status s) = deriveRuntimeReadiness s (statusFactsLocked s)"
    using assms(1) by (simp add: rt_inv_def status_fresh_def)
  then show ?thesis
    using assms(2) unfolding derived_ready_eq fatal_worker_def unready_failure_def
    by (auto simp: st catalog_def get_state_def)
qed

section \<open>The commands of retry-policy\<close>

definition paymentsRetry ::
  "(float64 \<Rightarrow> int) \<Rightarrow> (float64 \<Rightarrow> float64 \<Rightarrow> float64) \<Rightarrow> float64 \<Rightarrow> policy" where
  "paymentsRetry wild pow draw =
     AttemptsIf 4 (Some (Exponential wild pow (100 * millisecond) (Fin 2) second))
       (Some (Full wild draw)) (Some isTemporary)"

lemma validate_not_retried:
  assumes "served (\<lambda>w. retryWorker_validate w req) other w env"
    and "retryLoop c (paymentsRetry wild pow draw) call_worker f 1
        (map (shield t) (de_attempts env)) s = (out, m, s')" and "out \<noteq> Blocked"
  shows "m = 1 \<and> (out = Finished (Some (errors_new ''card number failed validation''))
    \<or> (\<exists>e. out = Finished (Some e) \<and> ctx_Err c s' = Some e))"
proof -
  have res: "at_result (map (shield t) (de_attempts env) ! k) =
      Returns (Some (errors_new ''card number failed validation''))" if "k < length (de_attempts env)" for k
    using assms(1) that
    by (simp add: served_def retryWorker_validate_def Let_def case_prod_unfold shield_def)
  have perm: "\<not> snd (paymentsRetry wild pow draw k (errors_new ''card number failed validation''))" for k
    by (simp add: paymentsRetry_def AttemptsIf_def New_def configPolicy_NextDelay_def Let_def isTemporary_def
        errors_new_def)
  from loop_result [OF assms(2,3)] obtain i where i: "i < length (de_attempts env)" "m = 1 + int i"
    "\<forall>j < i. \<exists>err. at_result (map (shield t) (de_attempts env) ! j) = Returns (Some err)
       \<and> snd (paymentsRetry wild pow draw (1 + int j) err)"
    "case at_result (map (shield t) (de_attempts env) ! i) of
         Panics \<Rightarrow> out = Panicking
       | Returns None \<Rightarrow> out = Finished None
       | Returns (Some err) \<Rightarrow> out = Finished (Some err) \<and> \<not> snd (paymentsRetry wild pow draw m err)
           \<or> (\<exists>e. out = Finished (Some e) \<and> ctx_Err c s' = Some e)"
    by auto
  have "i = 0"
  proof (rule ccontr)
    assume "i \<noteq> 0"
    then have "0 < i" "0 < length (de_attempts env)" using i(1) by auto
    then show False using i(3) [rule_format, of 0] res [of 0] perm by (auto simp del: nth_map)
  qed
  then show ?thesis using i res by auto
qed

text \<open>A capture by a fresh worker: two gateway timeouts are retried, the third attempt is accepted.\<close>

lemma capture_accepted:
  assumes srv: "served (\<lambda>w. retryWorker_capture w req) other w env"
    and "captureAttempts w = 0" and oth: "\<And>k w. captureAttempts (other k w) = captureAttempts w"
    and run: "retryLoop c (paymentsRetry wild pow draw) call_worker f 1
        (map (shield t) (de_attempts env)) s = (out, m, s')" and "out \<noteq> Blocked"
  shows "out = Finished None \<and> m = 3 \<or> (\<exists>e. out = Finished (Some e) \<and> ctx_Err c s' = Some e)"
proof -
  let ?w = "worker_at (\<lambda>w. retryWorker_capture w req) other w"
  let ?as = "map (shield t) (de_attempts env)"
  have "captureAttempts (?w (Suc k)) = captureAttempts (?w k) + 1" for k
    by (simp add: oth retryWorker_capture_def Int32_Add1_def Let_def)
  then have cnt: "captureAttempts (?w 0) = 0" "captureAttempts (?w 1) = 1" "captureAttempts (?w 2) = 2"
    using assms(2) by (simp_all add: numeral_2_eq_2 del: worker_at.simps(2))
  have early: "\<exists>e. at_result (?as ! k) = Returns (Some e) \<and> isTemporary e"
    if "k < length (de_attempts env)" "captureAttempts (?w k) = 0 \<or> captureAttempts (?w k) = 1" for k
    using srv that by (auto simp: served_def retryWorker_capture_def Int32_Add1_def Let_def shield_def
        isTemporary_def temporaryError_def)
  have late: "at_result (?as ! k) = Returns None"
    if "k < length (de_attempts env)" "captureAttempts (?w k) = 2" for k
    using srv that by (auto simp: served_def retryWorker_capture_def Int32_Add1_def Let_def shield_def)
  from loop_result [OF run assms(5)] obtain i where i: "i < length ?as" "m = 1 + int i"
    "\<forall>j < i. \<exists>err. at_result (?as ! j) = Returns (Some err)"
    "case at_result (?as ! i) of
         Panics \<Rightarrow> out = Panicking
       | Returns None \<Rightarrow> out = Finished None
       | Returns (Some err) \<Rightarrow> out = Finished (Some err) \<and> \<not> snd (paymentsRetry wild pow draw m err)
           \<or> (\<exists>e. out = Finished (Some e) \<and> ctx_Err c s' = Some e)"
    by blast
  have grants: "snd (paymentsRetry wild pow draw k err) \<longleftrightarrow> k < 4 \<and> isTemporary err" if "1 \<le> k" for k err
    using that by (auto simp: paymentsRetry_def AttemptsIf_def New_def configPolicy_NextDelay_def Let_def)
  have "i \<le> 2"
  proof (rule ccontr)
    assume "\<not> i \<le> 2"
    then show False using i(1) i(3) [rule_format, of 2] late [OF _ cnt(3)] by (auto simp del: nth_map)
  qed
  then consider "i = 0" | "i = 1" | "i = 2" by linarith
  then show ?thesis
  proof cases
    case 1
    then show ?thesis using i(1,2,4) early [of 0] cnt grants by (auto simp del: nth_map)
  next
    case 2
    then show ?thesis using i(1,2,4) early [of 1] cnt grants by (auto simp del: nth_map)
  next
    case 3
    then show ?thesis using i(1,2,4) late [of 2] cnt by (auto simp del: nth_map)
  qed
qed
section \<open>The rejections of concurrency-limits\<close>

text \<open>What the program prints of a dispatch refused at a limit: a full runtime is reported as such,
  even where the worker is full too; a full worker only below the limit of the runtime.\<close>

lemma saturation_printed:
  assumes "\<not> r_admissionClosed r" and "rs_state (r_status r) \<notin> {StateFailed, StateStopped, StateRegistered}"
    and "map_of (r_workerStates r) n = Some w" and "lifecycle w = StateRunning" and "acceptingWork w"
  defines "limit \<equiv> rc_commandConcurrency (r_config r)" and "own \<equiv> wc_commandConcurrency (get_config r n)"
  shows "0 < limit \<Longrightarrow> limit \<le> rs_inFlight (r_status r) \<Longrightarrow> \<exists>e. fst (admitCommand n r) = Inl e
      \<and> printSaturation sh label (Some e) = Some (label @ '' rejected: runtime command concurrency limit reached'')"
    and "\<not> (0 < limit \<and> limit \<le> rs_inFlight (r_status r)) \<Longrightarrow> 0 < own \<Longrightarrow> own \<le> inFlight w \<Longrightarrow>
      \<exists>e. fst (admitCommand n r) = Inl e
      \<and> printSaturation sh label (Some e) = Some (label @ '' rejected: worker command concurrency limit reached'')"
  using assms(1-5) unfolding limit_def own_def
  by (simp_all add: admitCommand_def printSaturation_def sentinel_Error_def)

end
