(* ===== verification/Demo_Failure_Policy.thy ===== *)
theory Demo_Failure_Policy
  imports Demo_Handlers Demo_Steps Opskit_Surface
begin

text \<open>
  \<open>examples/failure-policy\<close>, the whole program: three services with a healthy worker and one that
  reports a failure in the background, which differ in the failure policy of the second.

  A \<open>program\<close> acts on what it has printed and on its runtime; it may end early, by \<open>log.Fatal\<close>, by
  a panic, or wait for ever. Nothing else runs beside it: the scripts of its environment are
  empty, and no timer or context ends.
\<close>

section \<open>Programs\<close>

datatype 'a ending = Value 'a | LogFatal error | Crashed | Waiting

type_synonym 'a program = "string \<times> sys \<Rightarrow> 'a ending \<times> string \<times> sys"

definition andThen :: "'a program \<Rightarrow> ('a \<Rightarrow> 'b program) \<Rightarrow> 'b program" where
  "andThen p f st =
     (case p st of
        (Value x, st') \<Rightarrow> f x st'
      | (LogFatal e, st') \<Rightarrow> (LogFatal e, st')
      | (Crashed, st') \<Rightarrow> (Crashed, st')
      | (Waiting, st') \<Rightarrow> (Waiting, st'))"

definition newline :: string where
  "newline = [char_of (10 :: nat)]"

text \<open>\<open>fmt.Printf\<close> of a text whose verbs are already replaced, with a newline.\<close>

definition printLine :: "string \<Rightarrow> unit program" where
  "printLine text = (\<lambda>(out, s). (Value (), out @ text @ newline, s))"

text \<open>\<open>%t\<close>.\<close>

definition bool_text :: "bool \<Rightarrow> string" where
  "bool_text b = (if b then ''true'' else ''false'')"

text \<open>\<open>if err := ...; err != nil { log.Fatal(err) }\<close>, for a call that returns at once and for one
  that may not.\<close>

definition must :: "(sys \<Rightarrow> error option \<times> sys) \<Rightarrow> unit program" where
  "must operation = (\<lambda>(out, s). case operation s of
       (None, s') \<Rightarrow> (Value (), out, s') | (Some err, s') \<Rightarrow> (LogFatal err, out, s'))"

definition mustFinish :: "(sys \<Rightarrow> outcome \<times> sys) \<Rightarrow> unit program" where
  "mustFinish operation = (\<lambda>(out, s). case operation s of
       (Finished None, s') \<Rightarrow> (Value (), out, s')
     | (Finished (Some err), s') \<Rightarrow> (LogFatal err, out, s')
     | (Panicking, s') \<Rightarrow> (Crashed, out, s')
     | (Blocked, s') \<Rightarrow> (Waiting, out, s'))"

text \<open>The runtime of a program is the one it has made last.\<close>

definition newRuntime :: "string \<Rightarrow> unit program" where
  "newRuntime name = (\<lambda>(out, s). case NewRuntime name [] of
       Inl err \<Rightarrow> (LogFatal err, out, s) | Inr r \<Rightarrow> (Value (), out, fresh_system r))"

section \<open>Its workers\<close>

definition healthyWorker_Start :: "error option" where
  "healthyWorker_Start = None"

definition healthyWorker_Stop :: "error option" where
  "healthyWorker_Stop = None"

record failingWorker =
  fw_runtime :: "workerControlHandle option"

definition failingWorker_Start ::
  "workerControlHandle list option \<Rightarrow> failingWorker \<Rightarrow> error option \<times> failingWorker" where
  "failingWorker_Start c w =
     (case WorkerRuntimeFromContext c of
        None \<Rightarrow> (Some no_handle, w)
      | Some runtime \<Rightarrow> (None, w\<lparr>fw_runtime := Some runtime\<rparr>))"

definition failingWorker_Stop :: "error option" where
  "failingWorker_Stop = None"

definition failingWorker_Fail :: "failingWorker \<Rightarrow> error \<Rightarrow> sys \<Rightarrow> error option \<times> sys" where
  "failingWorker_Fail w err s = report_through (fw_runtime w) (Some err) s"

section \<open>The program\<close>

definition scenarioName :: "FailurePolicy \<Rightarrow> string" where
  "scenarioName policy = (case policy of
       FailurePolicyIsolate \<Rightarrow> ''failure_isolate''
     | FailurePolicyMarkRuntimeUnready \<Rightarrow> ''failure_unready''
     | FailurePolicyFailRuntime \<Rightarrow> ''failure_runtime''
     | FailurePolicyOther _ \<Rightarrow> ''failure_unknown'')"

text \<open>The lines of \<open>printStatus\<close>.\<close>

definition status_line :: "RuntimeStatus \<Rightarrow> string" where
  "status_line st = ''runtime='' @ rs_name st @ '' state='' @ lifecycle_string (rs_state st)
     @ '' ready='' @ bool_text (rs_ready st) @ '' workers='' @ itoa (int (rs_workers st))"

definition worker_line :: "WorkerSnapshot \<Rightarrow> string" where
  "worker_line w = ''worker='' @ sn_qualifiedName w @ '' state='' @ lifecycle_string (ws_state (sn_status w))
     @ '' ready='' @ bool_text (ws_ready (sn_status w))
     @ '' accepting='' @ bool_text (ws_acceptingWork (sn_status w))"

definition failure_line :: "WorkerSnapshot \<Rightarrow> FailureInfo \<Rightarrow> string" where
  "failure_line w f = ''last failure worker='' @ sn_qualifiedName w @ '' code='' @ go_quote (fi_code f)
     @ '' message='' @ go_quote (fi_message f)"

definition printWorker :: "WorkerSnapshot \<Rightarrow> unit program" where
  "printWorker w =
     andThen (printLine (worker_line w)) (\<lambda>_.
       case ws_lastFailure (sn_status w) of
         None \<Rightarrow> (\<lambda>st. (Value (), st))
       | Some f \<Rightarrow> printLine (failure_line w f))"

definition printStatus :: "unit program" where
  "printStatus = (\<lambda>(out, s).
     andThen (printLine (status_line (RuntimeStatus_of s)))
       (\<lambda>_. fold (\<lambda>w rest. andThen rest (\<lambda>_. printWorker w)) (Workers s) (\<lambda>st. (Value (), st))) (out, s))"

text \<open>\<open>StartAll\<close>: the context of each \<open>Start\<close> carries the handle of the generation it begins.\<close>

definition startWorkers :: "failingWorker program" where
  "startWorkers = (\<lambda>(out, s).
     let n = qualifyWorkerName (r_identity s) ''failing'';
         h = workerRuntimeHandle (Some 0) n (generation (get_state s n) + 1);
         (err, failing) = failingWorker_Start (Some (withWorkerRuntime [] h)) \<lparr>fw_runtime = None\<rparr>
     in case mustFinish (StartAll 0 []
               (quiet_env (\<lambda>m. Returns (if m = n then err else healthyWorker_Start)))) (out, s) of
          (Value _, st) \<Rightarrow> (Value failing, st)
        | (LogFatal e, st) \<Rightarrow> (LogFatal e, st)
        | (Crashed, st) \<Rightarrow> (Crashed, st)
        | (Waiting, st) \<Rightarrow> (Waiting, st))"

definition shutdownWorkers_quiet :: "unit program" where
  "shutdownWorkers_quiet = (\<lambda>(out, s).
     let n = qualifyWorkerName (r_identity s) ''failing''
     in mustFinish (Shutdown 1 []
          (quiet_shutdown (\<lambda>m. Returns (if m = n then failingWorker_Stop else healthyWorker_Stop)))) (out, s))"

definition runScenario :: "string \<Rightarrow> FailurePolicy \<Rightarrow> unit program" where
  "runScenario label policy =
     andThen (printLine (newline @ ''== '' @ label @ '' ==''))
     (\<lambda>_. andThen (newRuntime (scenarioName policy))
     (\<lambda>_. andThen (must (Register
        \<lparr>sp_name = ''healthy'',
         sp_description = ''Keeps the runtime active while another worker fails.'', sp_worker = Some 1\<rparr> []))
     (\<lambda>_. andThen (must (Register
        \<lparr>sp_name = ''failing'', sp_description = ''Reports a background failure after startup.'',
         sp_worker = Some 2\<rparr>
        [Some (WithWorkerFailurePolicy policy), Some (WithWorkerReadinessContribution False)]))
     (\<lambda>_. andThen startWorkers
     (\<lambda>failing. andThen (must (failingWorker_Fail failing (errors_new ''background poll failed'')))
     (\<lambda>_. andThen printStatus
     (\<lambda>_. shutdownWorkers_quiet)))))))"

definition main_failure_policy :: "unit program" where
  "main_failure_policy =
     andThen (runScenario ''FailurePolicyIsolate'' FailurePolicyIsolate)
     (\<lambda>_. andThen (runScenario ''FailurePolicyMarkRuntimeUnready'' FailurePolicyMarkRuntimeUnready)
     (\<lambda>_. runScenario ''FailurePolicyFailRuntime'' FailurePolicyFailRuntime))"

end
