(* ===== verification/Demo_Failure_Claims.thy ===== *)
theory Demo_Failure_Claims
  imports Demo_Failure_Policy
begin

text \<open>
  \<open>examples/failure-policy\<close> run on the runtime model: what the program prints under each failure
  policy. The steps of a scenario rest on the lemmas of \<open>Demo_Steps\<close>.
\<close>

section \<open>Registration\<close>

definition healthy_spec :: WorkerSpec where
  "healthy_spec = \<lparr>sp_name = ''healthy'',
     sp_description = ''Keeps the runtime active while another worker fails.'', sp_worker = Some 1\<rparr>"

definition failing_spec :: WorkerSpec where
  "failing_spec = \<lparr>sp_name = ''failing'', sp_description = ''Reports a background failure after startup.'',
     sp_worker = Some 2\<rparr>"

definition failing_config :: "FailurePolicy \<Rightarrow> workerConfig" where
  "failing_config policy = defaultWorkerConfig\<lparr>failurePolicy := policy, contributesToReadiness := False\<rparr>"

definition failing_options :: "FailurePolicy \<Rightarrow> WorkerOption option list" where
  "failing_options policy =
     [Some (WithWorkerFailurePolicy policy), Some (WithWorkerReadinessContribution False)]"

lemma worker_names: "is_identifier ''healthy''" "is_identifier ''failing''"
  by (simp_all add: is_identifier_def ident_char_def)

text \<open>The runtime of a scenario once both workers are registered.\<close>

definition scenario :: "string \<Rightarrow> FailurePolicy \<Rightarrow> sys \<Rightarrow> bool" where
  "scenario name policy s \<longleftrightarrow> sys_inv s \<and> r_gate s \<and> s_done s = [] \<and> s_active s = [] \<and> r_identity s = name
     \<and> readinessPolicy (r_config s) = ReadyWhenContributingWorkersReady
     \<and> r_workerOrder s = [qualifyWorkerName name ''healthy'', qualifyWorkerName name ''failing'']
     \<and> get_config s (qualifyWorkerName name ''healthy'') = defaultWorkerConfig
     \<and> get_config s (qualifyWorkerName name ''failing'') = failing_config policy"

lemma qualify_names: "qualifyWorkerName name ''healthy'' \<noteq> qualifyWorkerName name ''failing''"
  by (simp add: qualifyWorkerName_def)

lemma newRuntime_makes:
  assumes "is_identifier name"
  obtains s where "newRuntime name (out, s0) = (Value (), out, s)" "unstarted s" "reachable s" "r_gate s"
    "s_done s = []" "s_active s = []" "r_identity s = name" "r_config s = defaultRuntimeConfig"
    "r_registrations s = []" "r_workerOrder s = []" "r_workerConfigs s = []" "r_workerStates s = []"
    "\<not> r_admissionClosed s"
proof -
  obtain r where r: "NewRuntime name [] = Inr r"
    using assms
    by (simp add: NewRuntime_def ValidateRuntimeName_def validateIdentifier_accepts apply_options_def
        runtimeConfig_validate_def defaultRuntimeConfig_def workerConfig_validate_def
        defaultWorkerConfig_def validReadinessPolicy_def validPanicPolicy_def validFailurePolicy_def)
  then have f: "r_gate r" "r_identity r = name" "r_config r = defaultRuntimeConfig" "r_registrations r = []"
    "r_workerOrder r = []" "r_workerConfigs r = []" "r_workerStates r = []"
    "\<not> r_admissionClosed r" "unstarted r"
    by (auto simp: NewRuntime_def apply_options_def unstarted_def split: option.splits)
  show thesis
    by (rule that [of "fresh_system r"])
       (use r f in \<open>simp_all add: newRuntime_def unstarted_def reachable.new [OF r]\<close>)
qed

lemma scenario_registers:
  assumes "is_identifier name" and "validFailurePolicy policy" 
  shows "\<exists>s1 s2 s3. newRuntime name (out, s0) = (Value (), out, s1) \<and> must (Register healthy_spec []) (out, s1) = (Value (), out, s2)
    \<and> must (Register failing_spec (failing_options policy)) (out, s2) = (Value (), out, s3)
    \<and> scenario name policy s3 \<and> (\<forall>n \<in> set (r_workerOrder s3). lifecycle (get_state s3 n) = StateRegistered)
    \<and> map_of (r_registrations s3) (qualifyWorkerName name ''healthy'') = Some healthy_spec
    \<and> map_of (r_registrations s3) (qualifyWorkerName name ''failing'') = Some failing_spec"
proof -
  obtain s1 where s1: "newRuntime name (out, s0) = (Value (), out, s1)" "unstarted s1" "reachable s1" "r_gate s1"
    "s_done s1 = []" "s_active s1 = []" "r_identity s1 = name" "r_config s1 = defaultRuntimeConfig"
    "r_registrations s1 = []" "r_workerOrder s1 = []" "r_workerConfigs s1 = []" "r_workerStates s1 = []"
    using newRuntime_makes [OF assms(1)] by metis
  let ?h = "qualifyWorkerName name ''healthy''" and ?f = "qualifyWorkerName name ''failing''"
  let ?s2 = "registered_with ?h healthy_spec defaultWorkerConfig [] s1"
  have 2: "Register healthy_spec [] s1 = (None, ?s2)"
    by (rule Register_accepts) (use s1 worker_names in \<open>simp_all add: apply_options_def defaultRuntimeConfig_def
        healthy_spec_def bindWorkerCommands_def defaultWorkerConfig_def workerConfig_validate_def
        validPanicPolicy_def validFailurePolicy_def\<close>)
  let ?s3 = "registered_with ?f failing_spec (failing_config policy) [] ?s2"
  have valid: "policy \<noteq> FailurePolicyOther ''''" using assms(2) by (auto simp: validFailurePolicy_def)
  have 3: "Register failing_spec (failing_options policy) ?s2 = (None, ?s3)"
    by (rule Register_accepts) (use s1 assms(2) valid worker_names registered_unstarted [OF s1(2)] qualify_names [of name] in
       \<open>simp_all add: apply_options_def defaultRuntimeConfig_def failing_options_def failing_config_def
        failing_spec_def bindWorkerCommands_def defaultWorkerConfig_def workerConfig_validate_def
        validPanicPolicy_def WithWorkerFailurePolicy_def WithWorkerReadinessContribution_def\<close>)
  have "reachable ?s2" by (rule reachable.registering [OF s1(3,4) 2])
  then have "reachable ?s3" by (rule reachable.registering [OF _ _ 3]) (simp add: s1(4))
  then have inv: "sys_inv ?s3" by (rule reachable_sys_inv)
  have more: "s_done ?s3 = s_done s1" "s_active ?s3 = s_active s1"
    by (simp_all add: registered_with_def recomputeStatusLocked_def Let_def)
  have "scenario name policy ?s3"
    using inv more s1 qualify_names [of name] by (simp add: scenario_def get_config_def defaultRuntimeConfig_def)
  moreover have "\<forall>n \<in> set (r_workerOrder ?s3). lifecycle (get_state ?s3 n) = StateRegistered"
    by (simp add: s1 get_state_def qualify_names qualify_names [symmetric] new_workerState_def zero_workerState_def)
  moreover have "map_of (r_registrations ?s3) ?h = Some healthy_spec" "map_of (r_registrations ?s3) ?f = Some failing_spec"
    using qualify_names [of name] by (simp_all add: s1)
  moreover have "must (Register healthy_spec []) (out, s1) = (Value (), out, ?s2)"
    "must (Register failing_spec (failing_options policy)) (out, ?s2) = (Value (), out, ?s3)"
    by (simp_all add: must_def 2 3)
  ultimately show ?thesis using s1(1) by blast
qed

section \<open>Start, failure, status\<close>

lemma scenario_later:
  assumes "scenario name policy s" and "quietly ns s s'"
  shows "scenario name policy s'"
proof -
  note f = quietly_fields [OF assms(2)]
  have "s_done s' = s_done s" using assms(2) unfolding quietly_def by (intro rest_more(3)) simp
  then show ?thesis using assms(1) by (simp add: scenario_def f(1,2,3,6,8,9,10))
qed

text \<open>The state of the two workers once the failure has been reported.\<close>

definition one_failed :: "string \<Rightarrow> sys \<Rightarrow> bool" where
  "one_failed name s \<longleftrightarrow>
     (let h = get_state s (qualifyWorkerName name ''healthy''); f = get_state s (qualifyWorkerName name ''failing'')
      in lifecycle h = StateRunning \<and> ready h \<and> acceptingWork h \<and> lastFailure h = None
       \<and> lifecycle f = StateFailed \<and> \<not> ready f \<and> \<not> acceptingWork f
       \<and> map_option fi_code (lastFailure f) = Some ''worker_failed''
       \<and> map_option fi_message (lastFailure f) = Some ''worker operation failed'')"

lemma scenario_starts:
  assumes sc: "scenario name policy s" and reg: "\<forall>n \<in> set (r_workerOrder s). lifecycle (get_state s n) = StateRegistered"
  obtains failing s' where "startWorkers (out, s) = (Value failing, out, s')" "quietly (set (r_workerOrder s)) s s'"
    "\<forall>n \<in> set (r_workerOrder s). started_as s s' n"
    "fw_runtime failing = Some (workerRuntimeHandle (Some 0) (qualifyWorkerName name ''failing'')
       (generation (get_state s' (qualifyWorkerName name ''failing''))))"
proof -
  let ?f = "qualifyWorkerName name ''failing''"
  have s: "sys_inv s" "r_gate s" "ctx_Err 0 s = None" "r_identity s = name" "?f \<in> set (r_workerOrder s)"
    using sc by (simp_all add: scenario_def ctx_Err_def)
  define result where "result = (\<lambda>m. Returns (if m = ?f then None else healthyWorker_Start))"
  have "\<forall>n \<in> set (r_workerOrder s). result n = Returns None
       \<and> lifecycle (get_state s n) \<in> {StateRegistered, StateStopped, StateFailed}"
    using reg by (simp add: result_def healthyWorker_Start_def)
  then obtain s' where s': "StartAll 0 [] (quiet_env result) s = (Finished None, s')"
    "quietly (set (r_workerOrder s)) s s'" "\<forall>n \<in> set (r_workerOrder s). started_as s s' n"
    using quiet_StartAll [OF s(1-3)] by metis
  let ?w = "\<lparr>fw_runtime = Some (workerRuntimeHandle (Some 0) ?f (generation (get_state s ?f) + 1))\<rparr>"
  have "startWorkers (out, s) = (Value ?w, out, s')"
    using s'(1) by (simp add: startWorkers_def Let_def s(4) failingWorker_Start_def mustFinish_def result_def)
  moreover have "generation (get_state s' ?f) = generation (get_state s ?f) + 1"
    using s'(3) s(5) by (simp add: started_as_def)
  ultimately show thesis using that [of ?w s'] s'(2,3) by simp
qed

lemma background_failure:
  "failure_info (operationalFailure (Some (errors_new t)) workerFailure) now =
     \<lparr>fi_code = ''worker_failed'', fi_message = ''worker operation failed'', fi_at = now\<rparr>"
  by (simp add: failure_info_def operationalFailure_def errors_new_def workerFailure_def
      FailureCodeWorkerFailed_def)

lemma scenario_fails:
  assumes sc: "scenario name policy s" and st: "\<forall>n \<in> set (r_workerOrder s). started_as s0 s n"
    and cfg: "get_config s0 = get_config s"
    and w: "fw_runtime failing = Some (workerRuntimeHandle (Some 0) (qualifyWorkerName name ''failing'')
       (generation (get_state s (qualifyWorkerName name ''failing''))))"
  obtains s' where "must (failingWorker_Fail failing (errors_new t)) (out, s) = (Value (), out, s')"
    "scenario name policy s'" "one_failed name s'" "r_registrations s' = r_registrations s"
proof -
  let ?f = "qualifyWorkerName name ''failing''" and ?h = "qualifyWorkerName name ''healthy''"
  have s: "sys_inv s" "?f \<in> set (r_workerOrder s)" "?h \<in> set (r_workerOrder s)" "get_config s ?h = defaultWorkerConfig"
    using sc by (simp_all add: scenario_def)
  have run: "lifecycle (get_state s ?f) = StateRunning" using st s(2) by (simp add: started_as_def)
  obtain s' where s': "reportWorkerFailure ?f (generation (get_state s ?f)) (Some (errors_new t)) s = (None, s')"
    "only ?f s s'" "lifecycle (get_state s' ?f) = StateFailed" "\<not> ready (get_state s' ?f)"
    "\<not> acceptingWork (get_state s' ?f)" "lastFailure (get_state s' ?f) = Some (failure_info
       (operationalFailure (Some (errors_new t)) workerFailure) (r_now s))"
    using quiet_report [OF s(1,2) run refl] by metis
  have q: "quietly {?f} s s'" by (rule quietly_only [OF s'(2)]) simp
  note f = quietly_fields [OF q]
  have "get_state s' ?h = get_state s ?h" by (rule f(12)) (simp add: qualify_names)
  moreover have "started_as s0 s ?h" using st s(3) by blast
  ultimately have "one_failed name s'"
    using s'(3-6) s(4) by (simp add: one_failed_def Let_def started_as_def cfg background_failure defaultWorkerConfig_def)
  moreover have "must (failingWorker_Fail failing (errors_new t)) (out, s) = (Value (), out, s')"
    using s'(1) w by (simp add: must_def failingWorker_Fail_def report_through_def
        workerControlHandle_ReportFailure_def workerRuntimeHandle_def)
  ultimately show thesis using that scenario_later [OF sc q] f(7) by blast
qed

text \<open>What becomes of the aggregate: state and readiness.\<close>

definition aggregate :: "FailurePolicy \<Rightarrow> LifecycleState \<times> bool" where
  "aggregate policy = (case policy of
       FailurePolicyIsolate \<Rightarrow> (StateRunning, True)
     | FailurePolicyMarkRuntimeUnready \<Rightarrow> (StateRunning, False)
     | FailurePolicyFailRuntime \<Rightarrow> (StateFailed, False)
     | FailurePolicyOther _ \<Rightarrow> (StateRunning, True))"

definition status_text :: "FailurePolicy \<Rightarrow> string" where
  "status_text policy =
     (let name = scenarioName policy
      in ''runtime='' @ name @ '' state='' @ lifecycle_string (fst (aggregate policy))
       @ '' ready='' @ bool_text (snd (aggregate policy)) @ '' workers=2'' @ newline
       @ ''worker='' @ name @ ''/healthy state=running ready=true accepting=true'' @ newline
       @ ''worker='' @ name @ ''/failing state=failed ready=false accepting=false'' @ newline
       @ ''last failure worker='' @ name @ ''/failing code='' @ go_quote ''worker_failed''
       @ '' message='' @ go_quote ''worker operation failed'' @ newline)"

definition scenario_text :: "string \<Rightarrow> FailurePolicy \<Rightarrow> string" where
  "scenario_text label policy = newline @ ''== '' @ label @ '' =='' @ newline @ status_text policy"

lemma scenario_aggregate:
  assumes "scenario name policy s" and "one_failed name s" and "validFailurePolicy policy"
  shows "rs_name (r_status s) = name" "rs_workers (r_status s) = 2"
    "rs_state (r_status s) = fst (aggregate policy)" "rs_ready (r_status s) = snd (aggregate policy)"
proof -
  let ?f = "qualifyWorkerName name ''failing''" and ?h = "qualifyWorkerName name ''healthy''"
  have rt: "rt_inv s" using assms(1) by (simp add: scenario_def sys_inv_rt)
  have ord: "map fst (r_workerStates s) = [?h, ?f]" using rt assms(1) by (simp add: rt_inv_def scenario_def)
  then obtain h f where st: "r_workerStates s = [(?h, h), (?f, f)]" by (auto simp: map_eq_Cons_conv)
  have gs: "get_state s ?h = h" "get_state s ?f = f"
    using qualify_names [of name] by (simp_all add: get_state_def st)
  have w: "lifecycle h = StateRunning" "ready h" "lifecycle f = StateFailed"
    using assms(2) by (simp_all add: one_failed_def Let_def gs)
  have c: "failurePolicy (get_config s ?h) = FailurePolicyIsolate" "contributesToReadiness (get_config s ?h)"
    "failurePolicy (get_config s ?f) = policy" "\<not> contributesToReadiness (get_config s ?f)"
    using assms(1) by (simp_all add: scenario_def failing_config_def defaultWorkerConfig_def)
  have ready: "readinessPolicy (r_config s) = ReadyWhenContributingWorkersReady"
    using assms(1) by (simp add: scenario_def)
  note fresh = rt_inv_fresh [OF rt, unfolded status_fresh_def]
  show "rs_name (r_status s) = name" "rs_workers (r_status s) = 2"
    using fresh assms(1) by (simp_all add: st scenario_def)
  show "rs_state (r_status s) = fst (aggregate policy)"
    using fresh assms(3) by (cases policy)
      (simp_all add: derived_state_eq st fatal_worker_def w c aggregate_def validFailurePolicy_def)
  show "rs_ready (r_status s) = snd (aggregate policy)"
    using fresh assms(3) ready by (cases policy)
      (simp_all add: derived_ready_eq st fatal_worker_def unready_failure_def w c aggregate_def
        validFailurePolicy_def)
qed

lemma scenario_prints:
  assumes "scenario name policy s" and "one_failed name s" and "validFailurePolicy policy"
    and "name = scenarioName policy"
    and "map_of (r_registrations s) (qualifyWorkerName name ''healthy'') = Some healthy_spec"
    and "map_of (r_registrations s) (qualifyWorkerName name ''failing'') = Some failing_spec"
  shows "printStatus (out, s) = (Value (), out @ status_text policy, s)"
proof -
  let ?f = "qualifyWorkerName name ''failing''" and ?h = "qualifyWorkerName name ''healthy''"
  have workers: "Workers s = [snapshot_of ?h healthy_spec s, snapshot_of ?f failing_spec s]"
    using assms(1,5,6) by (simp add: Workers_def scenario_def)
  obtain i where i: "lastFailure (get_state s ?f) = Some i" "fi_code i = ''worker_failed''"
    "fi_message i = ''worker operation failed''"
    using assms(2) by (auto simp: one_failed_def Let_def)
  have name: "?h = name @ ''/healthy''" "?f = name @ ''/failing''" by (simp_all add: qualifyWorkerName_def)
  have two: "itoa 2 = ''2''" by (simp add: itoa_def char_of_def bit_Suc_0_iff)
  show ?thesis
    using assms(2) i scenario_aggregate [OF assms(1-3)]
    by (simp add: printStatus_def workers printWorker_def andThen_def printLine_def status_line_def RuntimeStatus_of_def
        worker_line_def failure_line_def snapshot_of_def toWorkerStatus_def one_failed_def Let_def status_text_def
        two lifecycle_string_def bool_text_def assms(4) [symmetric] name)
qed

lemma scenario_shuts_down:
  assumes "scenario name policy s" and "one_failed name s"
  shows "\<exists>s'. shutdownWorkers_quiet (out, s) = (Value (), out, s')"
proof -
  define result where "result = (\<lambda>m. Returns (if m = qualifyWorkerName (r_identity s) ''failing''
      then failingWorker_Stop else healthyWorker_Stop))"
  have "\<forall>n \<in> set (r_workerOrder s). result n = Returns None
       \<and> lifecycle (get_state s n) \<in> {StateRunning, StateDraining, StateFailed}"
    using assms by (simp add: scenario_def one_failed_def Let_def result_def failingWorker_Stop_def
        healthyWorker_Stop_def)
  then obtain s' where "Shutdown 1 [] (quiet_shutdown result) s = (Finished None, s')"
    using assms(1) quiet_Shutdown [where c = 1 and s = s and result = result]
    by (force simp: scenario_def ctx_Err_def)
  then show ?thesis by (simp add: shutdownWorkers_quiet_def Let_def mustFinish_def result_def)
qed

lemma scenario_names: "is_identifier (scenarioName policy)"
  by (cases policy) (simp_all add: scenarioName_def is_identifier_def ident_char_def)

section \<open>The program\<close>

lemma printLine_after: "printLine t (out, s) = (Value (), out @ t @ newline, s)"
  by (simp add: printLine_def)

lemma runScenario_prints:
  assumes "validFailurePolicy policy"
  shows "\<exists>s'. runScenario label policy (out, s) = (Value (), out @ scenario_text label policy, s')"
proof -
  let ?name = "scenarioName policy"
  define o1 where "o1 = out @ (newline @ ''== '' @ label @ '' =='') @ newline"
  have 0: "printLine (newline @ ''== '' @ label @ '' =='') (out, s) = (Value (), o1, s)"
    unfolding o1_def by (rule printLine_after)
  obtain s1 s2 s3 where r: "newRuntime ?name (o1, s) = (Value (), o1, s1)"
    "must (Register healthy_spec []) (o1, s1) = (Value (), o1, s2)"
    "must (Register failing_spec (failing_options policy)) (o1, s2) = (Value (), o1, s3)"
    "scenario ?name policy s3" "\<forall>n \<in> set (r_workerOrder s3). lifecycle (get_state s3 n) = StateRegistered"
    "map_of (r_registrations s3) (qualifyWorkerName ?name ''healthy'') = Some healthy_spec"
    "map_of (r_registrations s3) (qualifyWorkerName ?name ''failing'') = Some failing_spec"
    using scenario_registers [OF scenario_names assms, where out = o1 and ?s0.0 = s] by blast
  obtain failing s4 where s4: "startWorkers (o1, s3) = (Value failing, o1, s4)" "quietly (set (r_workerOrder s3)) s3 s4"
    "\<forall>n \<in> set (r_workerOrder s3). started_as s3 s4 n"
    "fw_runtime failing = Some (workerRuntimeHandle (Some 0) (qualifyWorkerName ?name ''failing'')
       (generation (get_state s4 (qualifyWorkerName ?name ''failing''))))"
    using scenario_starts [OF r(4,5)] by metis
  note f4 = quietly_fields [OF s4(2)]
  have started: "\<forall>n \<in> set (r_workerOrder s4). started_as s3 s4 n" using s4(3) by (simp add: f4(2))
  obtain s5 where s5: "must (failingWorker_Fail failing (errors_new ''background poll failed'')) (o1, s4) = (Value (), o1, s5)"
    "scenario ?name policy s5" "one_failed ?name s5" "r_registrations s5 = r_registrations s4"
    using scenario_fails [OF scenario_later [OF r(4) s4(2)] started f4(3) [symmetric] s4(4)] by metis
  have "printStatus (o1, s5) = (Value (), o1 @ status_text policy, s5)"
    using scenario_prints [OF s5(2,3) assms refl] r(6,7) s5(4) f4(7) by simp
  moreover obtain s6 where "shutdownWorkers_quiet (o1 @ status_text policy, s5) = (Value (), o1 @ status_text policy, s6)"
    using scenario_shuts_down [OF s5(2,3)] by blast
  ultimately have "runScenario label policy (out, s) = (Value (), o1 @ status_text policy, s6)"
    unfolding runScenario_def healthy_spec_def [symmetric] failing_spec_def [symmetric] failing_options_def [symmetric]
    by (simp add: andThen_def 0 [simplified] r(1-3) s4(1) s5(1))
  then show ?thesis by (auto simp: scenario_text_def o1_def)
qed

text \<open>C33: what the failure policies do, end to end. The program registers a healthy and a failing
  worker, starts both, lets one report a background failure, prints the status and shuts down. It
  runs to its end under each policy and prints: with \<open>isolate\<close>, that the runtime is running and
  ready; with \<open>mark_runtime_unready\<close>, running and not ready; with \<open>fail_runtime\<close>, failed and not
  ready; always that the healthy worker runs and that the failed one is neither ready nor accepting
  work; and of the failure its public code and message, not the private text of the error.\<close>

theorem failure_policies_end_to_end:
  "\<exists>s'. main_failure_policy (out, s) = (Value (), out
      @ scenario_text ''FailurePolicyIsolate'' FailurePolicyIsolate
      @ scenario_text ''FailurePolicyMarkRuntimeUnready'' FailurePolicyMarkRuntimeUnready
      @ scenario_text ''FailurePolicyFailRuntime'' FailurePolicyFailRuntime, s')"
proof -
  have valid: "validFailurePolicy FailurePolicyIsolate" "validFailurePolicy FailurePolicyMarkRuntimeUnready"
    "validFailurePolicy FailurePolicyFailRuntime" by (simp_all add: validFailurePolicy_def)
  obtain s1 where 1: "runScenario ''FailurePolicyIsolate'' FailurePolicyIsolate (out, s) =
      (Value (), out @ scenario_text ''FailurePolicyIsolate'' FailurePolicyIsolate, s1)" (is "_ = (_, ?o1, _)")
    using runScenario_prints [OF valid(1)] by blast
  obtain s2 where 2: "runScenario ''FailurePolicyMarkRuntimeUnready'' FailurePolicyMarkRuntimeUnready (?o1, s1) =
      (Value (), ?o1 @ scenario_text ''FailurePolicyMarkRuntimeUnready'' FailurePolicyMarkRuntimeUnready, s2)"
      (is "_ = (_, ?o2, _)")
    using runScenario_prints [OF valid(2)] by blast
  obtain s3 where 3: "runScenario ''FailurePolicyFailRuntime'' FailurePolicyFailRuntime (?o2, s2) =
      (Value (), ?o2 @ scenario_text ''FailurePolicyFailRuntime'' FailurePolicyFailRuntime, s3)"
    using runScenario_prints [OF valid(3)] by blast
  show ?thesis
    by (simp only: main_failure_policy_def andThen_def 1 2 3 prod.case ending.case) simp
qed

end
