(* ===== verification/Demo_Programs.thy ===== *)
theory Demo_Programs
  imports Demo_Failure_Policy
begin

text \<open>
  The programs \<open>examples/basic\<close>, \<open>examples/commands\<close> and \<open>examples/multi-worker\<close>, each from the
  first statement of its \<open>main\<close> to the last, in the way of \<open>Demo_Failure_Policy\<close>.

  A program knows its workers and handlers by the numbers it registers them with: \<open>workers k\<close> is
  what method \<open>Start\<close> or \<open>Stop\<close> of worker \<open>k\<close> prints before it returns nil, \<open>handlers k\<close> is handler
  \<open>k\<close>. These handlers keep no state.
\<close>

section \<open>Lifecycle calls whose workers print\<close>

definition text_line :: "string \<Rightarrow> string" where
  "text_line text = text @ newline"

definition worker_text :: "(nat \<Rightarrow> string) \<Rightarrow> sys \<Rightarrow> string \<Rightarrow> string" where
  "worker_text workers s n =
     (case map_of (r_registrations s) n of
        None \<Rightarrow> ''''
      | Some reg \<Rightarrow> (case sp_worker reg of None \<Rightarrow> '''' | Some w \<Rightarrow> workers w))"

text \<open>A lifecycle operation whose workers print: the output is empty before it, so that afterwards it
  holds what the calls of worker code have printed, in the order the runtime made them.\<close>

definition mustFinish_printing :: "(sys \<Rightarrow> outcome \<times> sys) \<Rightarrow> unit program" where
  "mustFinish_printing operation = (\<lambda>(out, s).
     case mustFinish operation (out, s\<lparr>s_output := ''''\<rparr>) of
       (e, out', s') \<Rightarrow> (e, out' @ s_output s', s'))"

text \<open>Each \<open>Start\<close> and each \<open>Stop\<close> prints its text when the runtime calls it, and returns nil. The
  context of the shutdown is the program's own and does not end.\<close>

definition callStartAll :: "(nat \<Rightarrow> string) \<Rightarrow> unit program" where
  "callStartAll workers = (\<lambda>(out, s).
     mustFinish_printing (StartAll 0 [] (printing_env (worker_text workers s) (\<lambda>_. Returns None))) (out, s))"

definition callShutdown :: "(nat \<Rightarrow> string) \<Rightarrow> unit program" where
  "callShutdown workers = (\<lambda>(out, s).
     mustFinish_printing (Shutdown 1 [] (printing_shutdown (worker_text workers s) (\<lambda>_. Returns None))) (out, s))"

section \<open>Dispatch\<close>

definition reply_result :: "reply \<Rightarrow> op_result" where
  "reply_result r = (case r of Reply _ err \<Rightarrow> Returns err | HandlerPanic \<Rightarrow> Panics)"

definition reply_value :: "reply \<Rightarrow> CommandResult" where
  "reply_value r = (case r of Reply v _ \<Rightarrow> v | HandlerPanic \<Rightarrow> no_result)"

text \<open>What the handler of the command replies to the request the runtime hands it. A request that
  names no registered command reaches no handler: its reply is not used.\<close>

definition reply_to :: "(nat \<Rightarrow> CommandRequest \<Rightarrow> reply) \<Rightarrow> CommandRequest \<Rightarrow> sys \<Rightarrow> reply" where
  "reply_to handlers req s =
     (case normalizeCommandRequest req (r_now s) s of
        Inl e \<Rightarrow> HandlerPanic
      | Inr req1 \<Rightarrow>
          (case lookupCommandTarget req1 s of
             Inl e \<Rightarrow> HandlerPanic
           | Inr (cfg, reg) \<Rightarrow>
               handlers (cr_handler reg) (req1\<lparr>cq_worker := cr_worker reg, cq_name := cr_name reg\<rparr>)))"

definition quiet_dispatch :: "reply \<Rightarrow> dispatch_env" where
  "quiet_dispatch r =
     \<lparr>de_ctx = 0, de_beforeAdmit = [], de_attempts = [attempt_that (reply_result r)],
      de_value = (\<lambda>_. reply_value r), de_beforeRelease = [], de_beforeEnd = []\<rparr>"

definition callDispatch ::
  "(nat \<Rightarrow> CommandRequest \<Rightarrow> reply) \<Rightarrow> CommandRequest \<Rightarrow> (error + CommandResult) program" where
  "callDispatch handlers req = (\<lambda>(out, s).
     case Dispatch (quiet_dispatch (reply_to handlers req s)) req s of
       (CommandOk v, s') \<Rightarrow> (Value (Inr v), out, s')
     | (CommandErr err, s') \<Rightarrow> (Value (Inl err), out, s')
     | (CommandPanic, s') \<Rightarrow> (Crashed, out, s')
     | (CommandBlocked, s') \<Rightarrow> (Waiting, out, s'))"

text \<open>\<open>log.Fatal(err)\<close> if there is an error.\<close>

definition orFatal :: "error + 'a \<Rightarrow> 'a program" where
  "orFatal r = (\<lambda>st. case r of Inl err \<Rightarrow> (LogFatal err, st) | Inr x \<Rightarrow> (Value x, st))"

text \<open>A panic, for \<open>None\<close>.\<close>

definition orPanic :: "'a option \<Rightarrow> 'a program" where
  "orPanic r = (\<lambda>st. case r of None \<Rightarrow> (Crashed, st) | Some x \<Rightarrow> (Value x, st))"

section \<open>Status\<close>

text \<open>\<open>for _, x := range xs\<close>, with what is printed for each.\<close>

definition printAll :: "(sys \<Rightarrow> 'a list) \<Rightarrow> ('a \<Rightarrow> string) \<Rightarrow> unit program" where
  "printAll xs text = (\<lambda>(out, s). (Value (), out @ concat (map text (xs s)), s))"

definition printRuntimeStatus :: "(RuntimeStatus \<Rightarrow> string) \<Rightarrow> unit program" where
  "printRuntimeStatus text = (\<lambda>(out, s). printLine (text (RuntimeStatus_of s)) (out, s))"

definition short_status_line :: "RuntimeStatus \<Rightarrow> string" where
  "short_status_line st = ''runtime='' @ rs_name st @ '' state='' @ lifecycle_string (rs_state st)
     @ '' ready='' @ bool_text (rs_ready st)"

definition short_worker_line :: "WorkerSnapshot \<Rightarrow> string" where
  "short_worker_line w = ''worker='' @ sn_qualifiedName w @ '' state='' @ lifecycle_string (ws_state (sn_status w))
     @ '' ready='' @ bool_text (ws_ready (sn_status w))"

definition title :: "string \<Rightarrow> string" where
  "title label = newline @ ''== '' @ label @ '' =='' @ newline"

definition printTitle :: "string \<Rightarrow> unit program" where
  "printTitle label = (\<lambda>(out, s). (Value (), out @ title label, s))"

section \<open>examples/basic\<close>

definition printerWorker_Start :: string where
  "printerWorker_Start = text_line ''printer worker started''"

definition printerWorker_Stop :: string where
  "printerWorker_Stop = text_line ''printer worker stopped''"

definition printer_spec :: WorkerSpec where
  "printer_spec = \<lparr>sp_name = ''printer'', sp_description = ''Shows the smallest custom Workerkit worker.'',
     sp_worker = Some 1\<rparr>"

definition main_basic :: "unit program" where
  "main_basic =
     andThen (newRuntime ''basic'')
     (\<lambda>_. andThen (must (Register printer_spec []))
     (\<lambda>_. andThen (callStartAll (\<lambda>_. printerWorker_Start))
     (\<lambda>_. andThen (printRuntimeStatus status_line)
     (\<lambda>_. andThen (printAll Workers (\<lambda>w. text_line (short_worker_line w)))
     (\<lambda>_. andThen (callShutdown (\<lambda>_. printerWorker_Stop))
     (\<lambda>_. printRuntimeStatus status_line))))))"

section \<open>examples/multi-worker\<close>

definition serviceWorker_name :: "nat \<Rightarrow> string" where
  "serviceWorker_name w = (if w = 1 then ''ingest'' else if w = 2 then ''index'' else ''maintenance'')"

definition serviceWorker_Start :: "nat \<Rightarrow> string" where
  "serviceWorker_Start w = text_line (serviceWorker_name w @ '' started'')"

definition serviceWorker_Stop :: "nat \<Rightarrow> string" where
  "serviceWorker_Stop w = text_line (serviceWorker_name w @ '' stopped'')"

definition search_handlers :: "string unmarshal \<Rightarrow> marshal \<Rightarrow> nat \<Rightarrow> CommandRequest \<Rightarrow> reply" where
  "search_handlers unmarshal marshal k =
     (if k = 1 then enqueueDocument unmarshal marshal
      else if k = 2 then rebuildIndex_requested marshal else sweepMaintenance marshal)"

text \<open>The numbered list of workers.\<close>

definition numbered_line :: "nat \<times> WorkerSnapshot \<Rightarrow> string" where
  "numbered_line p = itoa (int (fst p) + 1) @ ''. '' @ worker_line (snd p)"

definition printStatus_search :: "string \<Rightarrow> unit program" where
  "printStatus_search label =
     andThen (printTitle label)
     (\<lambda>_. andThen (printRuntimeStatus status_line)
     (\<lambda>_. printAll (\<lambda>s. enumerate 0 (Workers s)) (\<lambda>p. text_line (numbered_line p))))"

definition dispatch_line :: "CommandRequest \<Rightarrow> CommandResult \<Rightarrow> string" where
  "dispatch_line req result = ''dispatch worker='' @ cq_worker req @ '' command='' @ cq_name req
     @ '' message='' @ go_quote (res_message result) @ '' payload='' @ res_payload result"

definition dispatch_search ::
  "(nat \<Rightarrow> CommandRequest \<Rightarrow> reply) \<Rightarrow> CommandRequest \<Rightarrow> unit program" where
  "dispatch_search handlers req =
     andThen (callDispatch handlers req)
     (\<lambda>r. andThen (orFatal r) (\<lambda>result. printLine (dispatch_line req result)))"

definition command_request :: "string \<Rightarrow> string \<Rightarrow> string \<Rightarrow> CommandRequest" where
  "command_request worker name payload =
     \<lparr>cq_worker = worker, cq_name = name, cq_payload = payload, cq_requestedAt = None\<rparr>"

definition main_multi_worker :: "string unmarshal \<Rightarrow> marshal \<Rightarrow> unit program" where
  "main_multi_worker unmarshal marshal =
     (let dispatch = dispatch_search (search_handlers unmarshal marshal)
      in andThen (newRuntime ''search_service'')
     (\<lambda>_. andThen (must (Register
        \<lparr>sp_name = ''ingest'', sp_description = ''Accepts incoming documents.'', sp_worker = Some 1\<rparr>
        [Some (WithCommand ''ingest/enqueue'' (Some 1))]))
     (\<lambda>_. andThen (must (Register
        \<lparr>sp_name = ''index'', sp_description = ''Builds searchable index entries.'', sp_worker = Some 2\<rparr>
        [Some (WithCommand ''index/rebuild'' (Some 2))]))
     (\<lambda>_. andThen (must (Register
        \<lparr>sp_name = ''maintenance'', sp_description = ''Runs service housekeeping work.'', sp_worker = Some 3\<rparr>
        [Some (WithCommand ''maintenance/sweep'' (Some 3))]))
     (\<lambda>_. andThen (callStartAll serviceWorker_Start)
     (\<lambda>_. andThen (printStatus_search ''after StartAll'')
     (\<lambda>_. andThen (orPanic (mustJSON marshal [(''documentID'', JText ''doc-123'')]))
     (\<lambda>payload. andThen (dispatch (command_request ''ingest'' ''ingest/enqueue'' payload))
     (\<lambda>_. andThen (dispatch (command_request ''index'' ''index/rebuild'' ''''))
     (\<lambda>_. andThen (dispatch (command_request ''maintenance'' ''maintenance/sweep'' ''''))
     (\<lambda>_. andThen (printStatus_search ''after commands'')
     (\<lambda>_. andThen (callShutdown serviceWorker_Stop)
     (\<lambda>_. printStatus_search ''after shutdown'')))))))))))))"

section \<open>examples/commands\<close>

definition cache_command :: "string \<Rightarrow> string \<Rightarrow> nat \<Rightarrow> CommandSpec" where
  "cache_command name description handler =
     \<lparr>csp_name = name, csp_description = description, csp_payloadKind = '''', csp_dangerous = False,
      csp_idempotent = False, csp_attributes = [], csp_handler = Some handler\<rparr>"

definition cache_handlers :: "string unmarshal \<Rightarrow> marshal \<Rightarrow> nat \<Rightarrow> CommandRequest \<Rightarrow> reply" where
  "cache_handlers unmarshal marshal k =
     (if k = 1 then cacheWorker_echo
      else if k = 2 then cacheWorker_refresh unmarshal marshal else cacheWorker_fail)"

definition command_line :: "CommandInfo \<Rightarrow> string" where
  "command_line c = ''- worker='' @ ci_worker c @ '' name='' @ ci_name c
     @ '' description='' @ go_quote (ci_description c)"

text \<open>\<open>log.Fatalf\<close> of a worker that is not found.\<close>

definition printCommands :: "string \<Rightarrow> unit program" where
  "printCommands worker = (\<lambda>(out, s).
     case Commands worker s of
       None \<Rightarrow> (LogFatal (Errorf ''worker %q not found'' [FStr worker] []), out, s)
     | Some commands \<Rightarrow>
         (Value (), out @ text_line ''registered commands:''
            @ concat (map (\<lambda>c. text_line (command_line c)) commands), s))"

definition command_failure_line :: "CommandFailureInfo \<Rightarrow> string" where
  "command_failure_line f = ''last command failure command='' @ cfi_command f
     @ '' message='' @ go_quote (cfi_message f)"

definition cache_status_lines :: "WorkerSnapshot \<Rightarrow> string" where
  "cache_status_lines w = text_line (short_worker_line w)
     @ (case ws_lastCommandFailure (sn_status w) of
          None \<Rightarrow> '''' | Some f \<Rightarrow> text_line (command_failure_line f))"

definition printStatus_cache :: "string \<Rightarrow> unit program" where
  "printStatus_cache label =
     andThen (printTitle label)
     (\<lambda>_. andThen (printRuntimeStatus short_status_line) (\<lambda>_. printAll Workers cache_status_lines))"

definition result_line :: "string \<Rightarrow> CommandResult \<Rightarrow> string" where
  "result_line label result = label @ '' result message='' @ go_quote (res_message result)
     @ '' payload='' @ res_payload result"

text \<open>\<open>show_error\<close> is the text of an error.\<close>

definition main_commands ::
  "(error \<Rightarrow> string) \<Rightarrow> string unmarshal \<Rightarrow> marshal \<Rightarrow> unit program" where
  "main_commands show_error unmarshal marshal =
     (let dispatch = callDispatch (cache_handlers unmarshal marshal)
      in andThen (newRuntime ''commands'')
     (\<lambda>_. andThen (must (Register
        \<lparr>sp_name = ''cache'', sp_description = ''Owns cache-domain commands.'', sp_worker = Some 1\<rparr>
        [Some (WithCommand ''cache/echo'' (Some 1)),
         Some (WithCommandSpec (cache_command ''cache/refresh''
           ''Refresh one cache key and return the refreshed value.'' 2)),
         Some (WithCommandSpec (cache_command ''cache/fail''
           ''Return a domain command error without failing the worker.'' 3))]))
     (\<lambda>_. andThen (callStartAll (\<lambda>_. ''''))
     (\<lambda>_. andThen (printCommands ''cache'')
     (\<lambda>_. andThen (orPanic (mustJSON marshal [(''message'', JText ''hello from raw JSON bytes'')]))
     (\<lambda>payload. andThen (dispatch (command_request ''cache'' ''cache/echo'' payload))
     (\<lambda>r. andThen (orFatal r)
     (\<lambda>echoResult. andThen (printLine (result_line ''echo'' echoResult))
     (\<lambda>_. andThen (orPanic (mustJSON marshal [(''key'', JText ''homepage'')]))
     (\<lambda>payload. andThen (dispatch (command_request ''cache'' ''cache/refresh'' payload))
     (\<lambda>r. andThen (orFatal r)
     (\<lambda>refreshResult. andThen (printLine (result_line ''refresh'' refreshResult))
     (\<lambda>_. andThen (orPanic (mustJSON marshal
            [(''reason'', JText ''demonstrate command failure status'')]))
     (\<lambda>payload. andThen (dispatch (command_request ''cache'' ''cache/fail'' payload))
     (\<lambda>r. andThen (case r of
             Inl err \<Rightarrow> printLine (''expected command error: '' @ show_error err)
           | Inr _ \<Rightarrow> (\<lambda>st. (Value (), st)))
     (\<lambda>_. andThen (printStatus_cache ''after command error'')
     (\<lambda>_. callShutdown (\<lambda>_. ''''))))))))))))))))))"

end
