(* ===== verification/Demo_Running.thy ===== *)
theory Demo_Running
  imports Demo_Programs Demo_Failure_Claims
begin

text \<open>
  Running a program on the runtime model while nothing else runs beside it: registration, start,
  dispatch and shutdown, and the status it prints in between, for workers whose \<open>Start\<close> and \<open>Stop\<close>
  return nil and all of which count for readiness.
\<close>

section \<open>Running a program\<close>

text \<open>A program, run in \<open>s\<close>, prints \<open>t\<close>, gives \<open>x\<close> and leaves \<open>s'\<close>.\<close>

definition yields :: "'a program \<Rightarrow> sys \<Rightarrow> 'a \<Rightarrow> string \<Rightarrow> sys \<Rightarrow> bool" where
  "yields p s x t s' \<longleftrightarrow> (\<forall>out. p (out, s) = (Value x, out @ t, s'))"

lemma yields_then:
  "yields p s x t s1 \<Longrightarrow> yields (f x) s1 y u s2 \<Longrightarrow> yields (andThen p f) s y (t @ u) s2"
  by (simp add: yields_def andThen_def)

lemma yields_text: "yields p s x t s' \<Longrightarrow> t = u \<Longrightarrow> yields p s x u s'"
  by simp

lemma yields_must: "operation s = (None, s') \<Longrightarrow> yields (must operation) s () '''' s'"
  by (simp add: yields_def must_def)

lemma yields_orFatal: "yields (orFatal (Inr x)) s x '''' s"
  by (simp add: yields_def orFatal_def)

lemma yields_orPanic: "yields (orPanic (Some x)) s x '''' s"
  by (simp add: yields_def orPanic_def)

lemma yields_print:
  "yields (printLine t) s () (text_line t) s"
  "yields (printTitle label) s () (title label) s"
  "yields (printRuntimeStatus text) s () (text_line (text (RuntimeStatus_of s))) s"
  "yields (printAll xs text') s () (concat (map text' (xs s))) s"
  by (simp_all add: yields_def printLine_def text_line_def printTitle_def printRuntimeStatus_def printAll_def)

section \<open>The runtime of a program\<close>

text \<open>Its workers in the order of their registration, each with its name, specification,
  configuration and commands.\<close>

type_synonym entry = "string \<times> WorkerSpec \<times> workerConfig \<times> commandRegistration list"

definition entry_of :: "sys \<Rightarrow> entry \<Rightarrow> bool" where
  "entry_of s e \<longleftrightarrow> map_of (r_registrations s) (fst e) = Some (fst (snd e))
     \<and> get_config s (fst e) = fst (snd (snd e)) \<and> get_commands s (fst e) = commands_map (snd (snd (snd e)))"

definition app :: "string \<Rightarrow> entry list \<Rightarrow> sys \<Rightarrow> bool" where
  "app name ws s \<longleftrightarrow> sys_inv s \<and> r_gate s \<and> s_done s = [] \<and> s_active s = [] \<and> \<not> r_admissionClosed s
     \<and> r_identity s = name \<and> r_config s = defaultRuntimeConfig \<and> r_workerOrder s = map fst ws
     \<and> (\<forall>e \<in> set ws. entry_of s e)"

definition serving :: "sys \<Rightarrow> bool" where
  "serving s \<longleftrightarrow> (\<forall>n \<in> set (r_workerOrder s). lifecycle (get_state s n) = StateRunning
     \<and> ready (get_state s n) \<and> acceptingWork (get_state s n))"

definition down :: "sys \<Rightarrow> bool" where
  "down s \<longleftrightarrow> (\<forall>n \<in> set (r_workerOrder s). is_stopped n s)"

lemma app_later:
  assumes "app name ws s" and "frozen s' = frozen s" and "sys_inv s'" and "s_done s' = []" and "s_active s' = []"
  shows "app name ws s'"
  using assms by (simp add: app_def entry_of_def frozen_def get_config_def get_commands_def)

lemma app_quietly:
  assumes "app name ws s" and "quietly ns s s'"
  shows "app name ws s'"
proof -
  have r: "rest s' = rest s" "sys_inv s'" using assms(2) by (simp_all add: quietly_def)
  show ?thesis
    using assms(1) rest_more [OF r(1)] by (intro app_later [OF assms(1) rest_frozen [OF r(1)] r(2)]) (simp_all add: app_def)
qed

section \<open>Registration\<close>

lemma app_new:
  assumes "is_identifier name"
  obtains s where "yields (newRuntime name) s0 () '''' s" "app name [] s" "unstarted s" "reachable s"
proof -
  obtain s where s: "newRuntime name ([], s0) = (Value (), [], s)" "unstarted s" "reachable s" "r_gate s"
    "s_done s = []" "s_active s = []" "r_identity s = name" "r_config s = defaultRuntimeConfig"
    "r_workerOrder s = []" "\<not> r_admissionClosed s"
    using newRuntime_makes [OF assms] by metis
  then have "app name [] s" using reachable_sys_inv by (simp add: app_def)
  moreover have "yields (newRuntime name) s0 () '''' s"
    using s(1) by (auto simp: yields_def newRuntime_def split: sum.splits)
  ultimately show thesis using s(2,3) that by blast
qed

lemma app_registers:
  assumes app: "app name ws s" "unstarted s" "reachable s"
    and cfg: "apply_options opts defaultWorkerConfig = cfg" "workerConfig_validate cfg = None"
      "bindWorkerCommands q (wc_commands cfg) = Inr cs"
    and spec: "is_identifier (sp_name spec)" "sp_worker spec \<noteq> None"
    and q: "qualifyWorkerName name (sp_name spec) = q" "q \<notin> fst ` set ws"
  obtains s' where "yields (must (Register spec opts)) s () '''' s'"
    "app name (ws @ [(q, spec, cfg, cs)]) s'" "unstarted s'" "reachable s'"
proof -
  have s: "sys_inv s" "r_gate s" "r_identity s = name" "r_config s = defaultRuntimeConfig" "r_workerOrder s = map fst ws"
    using app(1) by (simp_all add: app_def)
  have new: "map_of (r_registrations s) q = None"
    using rt_inv_registered(2) [OF sys_inv_rt [OF s(1)], of q] q(2) s(5) by auto
  let ?s = "registered_with q spec cfg cs s"
  have reg: "Register spec opts s = (None, ?s)"
    by (rule Register_accepts) (use cfg spec q app(2) s new in \<open>simp_all add: defaultRuntimeConfig_def\<close>)
  have r: "reachable ?s" by (rule reachable.registering [OF app(3) s(2) reg])
  have more: "s_done ?s = s_done s" "s_active ?s = s_active s"
    by (simp_all add: registered_with_def recomputeStatusLocked_def Let_def)
  have new: "entry_of ?s (q, spec, cfg, cs)"
    by (simp add: entry_of_def get_config_def get_commands_def)
  have old: "entry_of ?s e" if "e \<in> set ws" for e
  proof -
    have "fst e \<noteq> q" "entry_of s e" using q(2) app(1) that by (auto simp: app_def)
    then show ?thesis by (simp add: entry_of_def get_config_def get_commands_def)
  qed
  have "app name (ws @ [(q, spec, cfg, cs)]) ?s"
    using app(1) new old reachable_sys_inv [OF r] more by (simp add: app_def)
  with r registered_unstarted [OF app(2)] show thesis using that yields_must [where operation = "Register spec opts", OF reg] by blast
qed

section \<open>Start and shutdown\<close>

definition entry_text :: "(nat \<Rightarrow> string) \<Rightarrow> entry \<Rightarrow> string" where
  "entry_text workers e = (case sp_worker (fst (snd e)) of None \<Rightarrow> '''' | Some w \<Rightarrow> workers w)"

lemma app_text:
  assumes "app name ws s" and "set es \<subseteq> set ws"
  shows "concat (map (worker_text workers s) (map fst es)) = concat (map (entry_text workers) es)"
proof -
  have "worker_text workers s (fst e) = entry_text workers e" if "e \<in> set es" for e
  proof -
    have "entry_of s e" using assms that by (auto simp: app_def)
    then show ?thesis by (simp add: entry_of_def worker_text_def entry_text_def)
  qed
  then show ?thesis by (simp add: comp_def cong: map_cong)
qed

text \<open>The state in which the output has been emptied.\<close>

abbreviation silent :: "sys \<Rightarrow> sys" where
  "silent s \<equiv> s\<lparr>s_output := ''''\<rparr>"

lemma app_silent: "app name ws s \<Longrightarrow> app name ws (silent s)"
  by (rule app_later) (simp_all add: app_def)

text \<open>What an operation of a program has printed, and what it leaves.\<close>

lemma prints_from_silent:
  assumes app: "app name ws s" and q: "quietly ns (said t (silent s)) s'"
    and run: "operation (silent s) = (Finished None, s')"
  shows "yields (mustFinish_printing operation) s () t s' \<and> app name ws s'"
proof -
  have "rest s' = rest (said t (silent s))" using q by (simp add: quietly_def)
  from rest_more(4) [OF this] have "s_output s' = t" by simp
  moreover have "app name ws (said t (silent s))"
    using app_silent [OF app] by (rule app_later) (use app in \<open>simp_all add: app_def\<close>)
  ultimately show ?thesis
    using app_quietly [OF _ q] by (simp add: yields_def mustFinish_printing_def mustFinish_def run)
qed

lemma app_starts:
  assumes app: "app name ws s" and "unstarted s"
    and cfg: "\<forall>e \<in> set ws. readyOnStart (fst (snd (snd e))) \<and> wc_acceptingWork (fst (snd (snd e)))"
  obtains s' where "yields (callStartAll workers) s () (concat (map (entry_text workers) ws)) s'"
    "app name ws s'" "serving s'"
proof -
  have s: "sys_inv (silent s)" "r_gate (silent s)" "ctx_Err 0 (silent s) = None" "r_workerOrder s = map fst ws"
    "sys_inv s" using app by (simp_all add: app_def ctx_Err_def)
  have reg: "lifecycle (get_state s n) = StateRegistered" if n: "n \<in> set (r_workerOrder s)" for n
  proof -
    obtain w where w: "map_of (r_workerStates s) n = Some w"
      using state_present [OF sys_inv_rt [OF s(5)] n] by blast
    with assms(2) show ?thesis using map_of_SomeD [OF w] by (auto simp: unstarted_def get_state_def)
  qed
  let ?text = "worker_text workers s"
  obtain s' where s': "StartAll 0 [] (printing_env ?text (\<lambda>n. Returns None)) (silent s) = (Finished None, s')"
    "quietly (set (r_workerOrder s)) (said (concat (map ?text (map fst ws))) (silent s)) s'"
    "\<forall>n \<in> set (r_workerOrder s). started_as (silent s) s' n"
    using printing_StartAll [OF s(1-3), of "\<lambda>n. Returns None" ?text] reg s(4) by auto
  note out = prints_from_silent [OF app s'(2), where operation = "StartAll 0 [] (printing_env ?text (\<lambda>n. Returns None))",
      OF s'(1), unfolded app_text [OF app subset_refl]]
  then have "serving s'"
    using s'(3) cfg app by (auto simp: serving_def started_as_def app_def entry_of_def get_config_def)
  with out show thesis using that by (simp add: callStartAll_def yields_def)
qed

lemma app_stops:
  assumes app: "app name ws s" and "serving s"
  obtains s' where "yields (callShutdown workers) s () (concat (map (entry_text workers) (rev ws))) s'"
    "app name ws s'" "down s'"
proof -
  have s: "sys_inv (silent s)" "r_gate (silent s)" "ctx_Err 1 (silent s) = None" "s_active (silent s) = []"
    "r_workerOrder s = map fst ws"
    using app by (simp_all add: app_def ctx_Err_def)
  let ?text = "worker_text workers s"
  obtain s' where s': "Shutdown 1 [] (printing_shutdown ?text (\<lambda>n. Returns None)) (silent s) = (Finished None, s')"
    "quietly (set (r_workerOrder s)) (said (concat (map ?text (map fst (rev ws)))) (silent s)) s'"
    "\<forall>n \<in> set (r_workerOrder s). is_stopped n s'"
    using printing_Shutdown [OF s(1-4), of "\<lambda>n. Returns None" ?text] assms(2) s(5)
    by (auto simp: serving_def rev_map simp del: map_map)
  have "set (rev ws) \<subseteq> set ws" by simp
  note out = prints_from_silent [OF app s'(2),
      where operation = "Shutdown 1 [] (printing_shutdown ?text (\<lambda>n. Returns None))",
      OF s'(1), unfolded app_text [OF app this]]
  then have "down s'" using s'(3) s(5) by (auto simp: down_def app_def)
  with out show thesis using that by (simp add: callShutdown_def yields_def)
qed

section \<open>Status\<close>

lemma app_status:
  assumes app: "app name ws s" and "ws \<noteq> []"
    and cfg: "\<forall>e \<in> set ws. contributesToReadiness (fst (snd (snd e)))"
  shows app_name: "rs_name (r_status s) = name" "rs_workers (r_status s) = length ws"
    and app_up: "serving s \<Longrightarrow> rs_state (r_status s) = StateRunning \<and> rs_ready (r_status s)"
    and app_down: "down s \<Longrightarrow> rs_state (r_status s) = StateStopped \<and> \<not> rs_ready (r_status s)"
proof -
  have s: "sys_inv s" "r_identity s = name" "r_config s = defaultRuntimeConfig" "r_workerOrder s = map fst ws"
    using app by (simp_all add: app_def)
  have rt: "rt_inv s" using s(1) by (rule sys_inv_rt)
  note fresh = rt_inv_fresh [OF rt, unfolded status_fresh_def]
  have keys: "map fst (r_workerStates s) = map fst ws" using rt s(4) by (simp add: rt_inv_def)
  then have len: "length (r_workerStates s) = length ws" by (metis length_map)
  then show "rs_name (r_status s) = name" "rs_workers (r_status s) = length ws"
    using fresh s(2) by simp_all
  have some: "r_workerStates s \<noteq> []" using len assms(2) by auto
  have contributes: "contributesToReadiness (get_config s n)" if n: "n \<in> set (r_workerOrder s)" for n
  proof -
    obtain e where e: "e \<in> set ws" "n = fst e" using n s(4) by auto
    then have "entry_of s e" using app by (simp add: app_def)
    with cfg e show ?thesis by (simp add: entry_of_def)
  qed
  have all: "every_worker s P \<longleftrightarrow> (\<forall>n \<in> set (r_workerOrder s). P n (get_state s n))" for P
    unfolding worker_entries [OF rt] by simp
  have ex: "some_worker s P \<longleftrightarrow> (\<exists>n \<in> set (r_workerOrder s). P n (get_state s n))" for P
    unfolding worker_entries [OF rt] by simp
  have first: "\<exists>n. n \<in> set (r_workerOrder s)" using assms(2) s(4) by (cases ws) auto
  have policy: "readinessPolicy (r_config s) = ReadyWhenContributingWorkersReady"
    by (simp add: s(3) defaultRuntimeConfig_def)
  have state: "rs_state (r_status s) = deriveRuntimeLifecycleState s (statusFactsLocked s)"
    and ready: "rs_ready (r_status s) = deriveRuntimeReadiness s (statusFactsLocked s)"
    using fresh by simp_all
  note derived = state [unfolded derived_state_eq all ex] ready [unfolded derived_ready_eq all ex policy]
  show "rs_state (r_status s) = StateRunning \<and> rs_ready (r_status s)" if "serving s"
    using that some first contributes
    by (auto simp: derived serving_def fatal_worker_def unready_failure_def)
  show "rs_state (r_status s) = StateStopped \<and> \<not> rs_ready (r_status s)" if "down s"
    using that some first contributes
    by (auto simp: derived down_def is_stopped_def fatal_worker_def unready_failure_def)
qed

section \<open>Dispatch\<close>

text \<open>A dispatch by itself, of a command whose handler returns.\<close>

lemma quiet_admits:
  assumes "serving s" and "rs_state (r_status s) = StateRunning" and app: "app name ws s"
    and e: "(q, spec, cfg, cs) \<in> set ws" and "wc_commandConcurrency cfg \<le> 0"
    and d: "nextCommandDispatchID s = (d, s1)"
  obtains t s3 where "admit_slot q (startCommandObservation q c d now s1) = (Inr (t, generation (get_state s q)), s3)"
    "s_active s3 = [(t, q, generation (get_state s q))]" "s_done s3 = []"
    "\<forall>m. service_view (get_state s3 m) = service_view (get_state s m)"
proof -
  let ?s2 = "startCommandObservation q c d now s1"
  have s: "sys_inv s" "s_active s = []" "s_done s = []" "\<not> r_admissionClosed s" "r_config s = defaultRuntimeConfig"
    "r_workerOrder s = map fst ws" "entry_of s (q, spec, cfg, cs)"
    using app e by (auto simp: app_def)
  have q: "q \<in> set (r_workerOrder s)" using e s(6) by force
  obtain w where w: "map_of (r_workerStates s) q = Some w"
    using state_present [OF sys_inv_rt [OF s(1)] q] by blast
  have run: "lifecycle w = StateRunning" "acceptingWork w"
    using assms(1) q w by (auto simp: serving_def get_state_def)
  have g: "get_state s q = w" using w by (simp add: get_state_def)
  have same: "get_state ?s2 m = get_state s m" "s_active ?s2 = []" "s_done ?s2 = []" for m
    using d s(2,3) by (auto simp: startCommandObservation_def nextCommandDispatchID_def Let_def observe_def get_state_def)
  have "admissible q w ?s2"
    using d s(4,5,7) assms(2,5) w run
    by (auto simp: admissible_def startCommandObservation_def nextCommandDispatchID_def Let_def observe_def
        get_config_def entry_of_def defaultRuntimeConfig_def)
  from admitCommand_admissible [OF this] obtain s3 where
    s3: "admit_slot q ?s2 = (Inr (s_next (admitted q w ?s2), generation w), s3)"
    "s3 = (admitted q w ?s2)\<lparr>s_active := s_active (admitted q w ?s2) @ [(s_next (admitted q w ?s2), q, generation w)],
       s_next := s_next (admitted q w ?s2) + 1\<rparr>"
    by (simp add: admit_slot_def)
  have "s_active s3 = [(s_next (admitted q w ?s2), q, generation w)]" "s_done s3 = []"
    using s3(2) same(2,3) by (simp_all add: admitted_def)
  moreover have "service_view (get_state s3 m) = service_view (get_state s m)" for m
    using s3(2) same(1) g by (auto simp: admitted_def service_view_def get_state_def set_worker_def)
  ultimately show thesis using that s3(1) g by metis
qed

lemma recorded_ghosts:
  "s_active (recordCommandFailure n g c e d k s) = s_active s"
  "s_done (recordCommandFailure n g c e d k s) = s_done s" for s :: sys
proof -
  have "rest (recordCommandFailure n g c e d k s) = rest s"
    using recordCommandFailure_affects [of n s g c e d k] by (simp add: affects_def)
  then show "s_active (recordCommandFailure n g c e d k s) = s_active s"
    "s_done (recordCommandFailure n g c e d k s) = s_done s" by (rule rest_more)+
qed

lemma quiet_executes:
  assumes "commandRetryPolicy cfg = Some Never" and "s_done s = []"
  shows "executeCommand 0 req cfg g d (map (shield t) [attempt_that (Returns err)]) s =
    (Finished err, 1, case err of None \<Rightarrow> s
       | Some e \<Rightarrow> recordCommandFailure (cq_worker req) g (cq_name req) e d 1 s)"
  using assms
  by (auto simp: executeCommand_def runWithRetry_def call_worker_def shield_def attempt_that_def others_def
      Never_def ctx_Err_def recorded_ghosts split: option.split)

lemma quiet_finish:
  assumes "s_active s = [(t, n, g)]"
  shows "s_active (finishCommand t (quiet_dispatch r) req d k st err s) = []"
    "s_done (finishCommand t (quiet_dispatch r) req d k st err s) = s_done s"
    "lastCommandFailure (get_state (finishCommand t (quiet_dispatch r) req d k st err s) m)
       = lastCommandFailure (get_state s m)"
  using assms
  by (auto simp: finishCommand_def quiet_dispatch_def others_def endCommandObservation_def Let_def
      release_slot_def releaseCommandSlot_def get_state_def observe_def set_worker_def split: option.split)

lemma recorded_failure:
  assumes "generation (get_state s n) = g"
  shows "lastCommandFailure (get_state (recordCommandFailure n g c e d k s) n) =
    Some (command_failure_info c (operationalFailure (Some e) commandFailure) (r_now s))"
  using assms by (simp add: recordCommandFailure_def section_simps)

text \<open>The handler is called with the resolved request; what it returns is the caller's answer, and the
  workers serve on.\<close>

lemma app_dispatch:
  assumes app: "app name ws s" and up: "serving s" and st: "rs_state (r_status s) = StateRunning"
    and e: "(q, spec, cfg, cs) \<in> set ws" and cfg: "wc_commandConcurrency cfg \<le> 0" "commandRetryPolicy cfg = Some Never"
    and reg: "map_of (commands_map cs) c = Some reg" "cr_worker reg = q" "cr_name reg = c"
    and req: "resolveWorkerName name w = Inr q" "ValidateCommandName c = None"
    and reply: "\<And>now. handlers (cr_handler reg)
        \<lparr>cq_worker = q, cq_name = c, cq_payload = p, cq_requestedAt = Some now\<rparr> = Reply v err"
  obtains s' where "yields (callDispatch handlers (command_request w c p)) s
      (case err of None \<Rightarrow> Inr v | Some e \<Rightarrow> Inl e) '''' s'"
    "app name ws s'" "serving s'"
    "\<forall>e. err = Some e \<longrightarrow> (\<exists>now. lastCommandFailure (get_state s' q) =
        Some (command_failure_info c (operationalFailure (Some e) commandFailure) now))"
proof -
  have s: "sys_inv s" "r_identity s = name" "entry_of s (q, spec, cfg, cs)" using app e by (auto simp: app_def)
  let ?req = "command_request w c p" and ?req1 = "\<lparr>cq_worker = q, cq_name = c, cq_payload = p, cq_requestedAt = Some (r_now s)\<rparr>"
  have norm: "normalizeCommandRequest ?req (r_now s) s = Inr ?req1"
    using req s(2) by (simp add: normalizeCommandRequest_def command_request_def)
  have look: "lookupCommandTarget ?req1 s = Inr (cfg, reg)"
    using s(3) reg(1) by (simp add: lookupCommandTarget_def entry_of_def)
  have rep: "reply_to handlers ?req s = Reply v err" by (simp add: reply_to_def norm look reg(2,3) reply)
  obtain d s1 where d: "nextCommandDispatchID s = (d, s1)" by fastforce
  let ?g = "generation (get_state s q)"
  obtain t s3 where s3: "admit_slot q (startCommandObservation q c d (r_now s) s1) = (Inr (t, ?g), s3)"
    "s_active s3 = [(t, q, ?g)]" "s_done s3 = []" "\<forall>m. service_view (get_state s3 m) = service_view (get_state s m)"
    using quiet_admits [OF up st app e cfg(1) d, of c "r_now s"] by metis
  let ?env = "quiet_dispatch (Reply v err)"
  define s4 where "s4 = (case err of None \<Rightarrow> s3 | Some e \<Rightarrow> recordCommandFailure q ?g c e d 1 s3)"
  define s' where "s' = finishCommand t ?env ?req1 d 1 (r_now s) err s4"
  have ex: "executeCommand 0 ?req1 cfg ?g d (map (shield t) [attempt_that (Returns err)]) s3 = (Finished err, 1, s4)"
    using quiet_executes [OF cfg(2) s3(3)] by (simp add: s4_def split: option.split)
  have run: "Dispatch ?env ?req s = (case err of None \<Rightarrow> CommandOk v | Some e \<Rightarrow> CommandErr e, s')"
    using ex by (cases err) (simp_all add: Dispatch_def norm look reg(2,3) d s3(1) runAdmitted_def Let_def
        s'_def quiet_dispatch_def reply_result_def reply_value_def)
  have s4: "s_active s4 = [(t, q, ?g)]" "s_done s4 = []"
    "service_view (get_state s4 m) = service_view (get_state s m)" for m
    using s3 by (simp_all add: s4_def recorded_ghosts recordCommandFailure_view split: option.split)
  obtain as where "s' = run as s" using Dispatch_acts [OF s(1) run] by (auto simp: acts_from_def)
  then have kept: "sys_inv s'" "frozen s' = frozen s" using s(1) frozen.run_view by simp_all
  have view: "service_view (get_state s' m) = service_view (get_state s m)" for m
    using finish_view [of ?env t ?req1 d 1 "r_now s" err s4 m] s4(3) by (simp add: s'_def quiet_dispatch_def)
  note fin = quiet_finish [OF s4(1), of "Reply v err" ?req1 d 1 "r_now s" err, folded s'_def]
  have "app name ws s'" by (rule app_later [OF app kept(2,1)]) (simp_all add: fin s4)
  moreover have "serving s'"
    using up view kept(2) by (simp add: serving_def service_view_def frozen_def)
  moreover have "\<exists>now. lastCommandFailure (get_state s' q) =
        Some (command_failure_info c (operationalFailure (Some e) commandFailure) now)" if "err = Some e" for e
  proof -
    have "generation (get_state s3 q) = ?g" using s3(4) by (simp add: service_view_def)
    then show ?thesis using that recorded_failure [of s3 q ?g] by (auto simp: fin s4_def)
  qed
  moreover have "yields (callDispatch handlers ?req) s (case err of None \<Rightarrow> Inr v | Some e \<Rightarrow> Inl e) '''' s'"
    using run by (cases err) (simp_all add: yields_def callDispatch_def rep)
  ultimately show thesis using that by blast
qed

section \<open>Printed status\<close>

definition lines :: "string list \<Rightarrow> string" where
  "lines ls = concat (map text_line ls)"

lemma lines_append: "lines (xs @ ys) = lines xs @ lines ys" by (simp add: lines_def)

lemma app_Workers:
  assumes "app name ws s"
  shows "Workers s = map (\<lambda>e. snapshot_of (fst e) (fst (snd e)) s) ws"
  using assms by (auto simp: Workers_def app_def entry_of_def)

text \<open>Programs whose workers all count for readiness.\<close>

definition contributing :: "entry list \<Rightarrow> bool" where
  "contributing ws \<longleftrightarrow> ws \<noteq> [] \<and> (\<forall>e \<in> set ws. contributesToReadiness (fst (snd (snd e)))
     \<and> readyOnStart (fst (snd (snd e))) \<and> wc_acceptingWork (fst (snd (snd e))))"

lemma status_lines:
  assumes app: "app name ws s" and ws: "contributing ws"
  shows "serving s \<Longrightarrow> status_line (RuntimeStatus_of s)
      = ''runtime='' @ name @ '' state=running ready=true workers='' @ itoa (int (length ws))"
    "down s \<Longrightarrow> status_line (RuntimeStatus_of s)
      = ''runtime='' @ name @ '' state=stopped ready=false workers='' @ itoa (int (length ws))"
    "serving s \<Longrightarrow> short_status_line (RuntimeStatus_of s) = ''runtime='' @ name @ '' state=running ready=true''"
proof -
  have c: "ws \<noteq> []" "\<forall>e \<in> set ws. contributesToReadiness (fst (snd (snd e)))"
    using ws by (simp_all add: contributing_def)
  note st = app_status [OF app c]
  note defs = status_line_def short_status_line_def RuntimeStatus_of_def bool_text_def lifecycle_string_def
  show "serving s \<Longrightarrow> status_line (RuntimeStatus_of s)
      = ''runtime='' @ name @ '' state=running ready=true workers='' @ itoa (int (length ws))"
    "down s \<Longrightarrow> status_line (RuntimeStatus_of s)
      = ''runtime='' @ name @ '' state=stopped ready=false workers='' @ itoa (int (length ws))"
    "serving s \<Longrightarrow> short_status_line (RuntimeStatus_of s) = ''runtime='' @ name @ '' state=running ready=true''"
    using st by (simp_all add: defs)
qed

lemma snapshot_lines:
  assumes "app name ws s" and "q \<in> fst ` set ws"
  shows "serving s \<Longrightarrow> worker_line (snapshot_of q spec s)
      = ''worker='' @ q @ '' state=running ready=true accepting=true''"
    "down s \<Longrightarrow> worker_line (snapshot_of q spec s)
      = ''worker='' @ q @ '' state=stopped ready=false accepting=false''"
    "serving s \<Longrightarrow> short_worker_line (snapshot_of q spec s) = ''worker='' @ q @ '' state=running ready=true''"
proof -
  have q: "q \<in> set (r_workerOrder s)" using assms by (auto simp: app_def)
  note defs = snapshot_of_def toWorkerStatus_def bool_text_def lifecycle_string_def
  show "serving s \<Longrightarrow> worker_line (snapshot_of q spec s)
      = ''worker='' @ q @ '' state=running ready=true accepting=true''"
    "down s \<Longrightarrow> worker_line (snapshot_of q spec s)
      = ''worker='' @ q @ '' state=stopped ready=false accepting=false''"
    "serving s \<Longrightarrow> short_worker_line (snapshot_of q spec s) = ''worker='' @ q @ '' state=running ready=true''"
    using q by (simp_all add: serving_def down_def is_stopped_def worker_line_def short_worker_line_def defs)
qed

lemma program_names: "is_identifier ''basic''" "is_identifier ''printer''" "is_identifier ''search_service''"
  "is_identifier ''ingest''" "is_identifier ''index''" "is_identifier ''maintenance''"
  "is_identifier ''commands''" "is_identifier ''cache''"
  by (simp_all add: is_identifier_def ident_char_def)

lemma small_texts: "itoa 1 = ''1''" "itoa 2 = ''2''" "itoa 3 = ''3''"
  by (simp_all add: itoa_def char_of_def bit_Suc_0_iff bit_simps)

lemma default_valid:
  "workerConfig_validate (defaultWorkerConfig\<lparr>wc_commands := cs\<rparr>) = None" "workerConfig_validate defaultWorkerConfig = None"
  by (simp_all add: workerConfig_validate_def defaultWorkerConfig_def validPanicPolicy_def validFailurePolicy_def)

lemma default_fields: "wc_commands defaultWorkerConfig = []" "wc_commandConcurrency defaultWorkerConfig = 0"
  "commandRetryPolicy defaultWorkerConfig = Some Never" "contributesToReadiness defaultWorkerConfig"
  "readyOnStart defaultWorkerConfig" "wc_acceptingWork defaultWorkerConfig"
  by (simp_all add: defaultWorkerConfig_def)

end
