(* ===== verification/Demo_Program_Claims.thy ===== *)
theory Demo_Program_Claims
  imports Demo_Running Example_Runtime
begin

text \<open>
  The programs of \<open>Demo_Programs\<close> on the runtime model: what each prints, from its first statement to
  its last.
\<close>

section \<open>examples/basic\<close>

lemma main_basic_prints:
  "\<exists>s'. main_basic (out, s) = (Value (), out @ lines
     [''printer worker started'',
      ''runtime=basic state=running ready=true workers=1'',
      ''worker=basic/printer state=running ready=true'',
      ''printer worker stopped'',
      ''runtime=basic state=stopped ready=false workers=1''], s')"
proof -
  let ?ws = "[(''basic/printer'', printer_spec, defaultWorkerConfig, [])]"
  obtain s1 where s1: "yields (newRuntime ''basic'') s () '''' s1" "app ''basic'' [] s1" "unstarted s1" "reachable s1"
    using app_new [OF program_names(1)] by metis
  obtain s2 where s2: "yields (must (Register printer_spec [])) s1 () '''' s2" "app ''basic'' ?ws s2" "unstarted s2"
    by (rule app_registers [OF s1(2-4), of "[]" defaultWorkerConfig "''basic/printer''" "[]" printer_spec])
       (simp_all add: apply_options_def default_valid bindWorkerCommands_def printer_spec_def program_names
        qualifyWorkerName_def default_fields)
  have c: "contributing ?ws" by (simp add: contributing_def default_fields)
  obtain s3 where s3: "yields (callStartAll (\<lambda>_. printerWorker_Start)) s2 () printerWorker_Start s3"
    "app ''basic'' ?ws s3" "serving s3"
    by (rule app_starts [OF s2(2,3), of "\<lambda>_. printerWorker_Start"])
       (use c in \<open>simp_all add: contributing_def entry_text_def printer_spec_def\<close>)
  obtain s4 where s4: "yields (callShutdown (\<lambda>_. printerWorker_Stop)) s3 () printerWorker_Stop s4"
    "app ''basic'' ?ws s4" "down s4"
    by (rule app_stops [OF s3(2,3), of "\<lambda>_. printerWorker_Stop"]) (simp_all add: entry_text_def printer_spec_def)
  note out = yields_then [OF s1(1) yields_then [OF s2(1) yields_then [OF s3(1) yields_then [OF yields_print(3)
    yields_then [OF yields_print(4) yields_then [OF s4(1) yields_print(3)]]]]]]
  have "yields main_basic s () (lines
     [''printer worker started'',
      ''runtime=basic state=running ready=true workers=1'',
      ''worker=basic/printer state=running ready=true'',
      ''printer worker stopped'',
      ''runtime=basic state=stopped ready=false workers=1'']) s4"
    unfolding main_basic_def
    by (rule yields_text [OF out])
       (simp add: lines_def printerWorker_Start_def printerWorker_Stop_def status_lines(1) [OF s3(2) c s3(3)]
        status_lines(2) [OF s4(2) c s4(3)] app_Workers [OF s3(2)] snapshot_lines(3) [OF s3(2) _ s3(3)] small_texts)
  then show ?thesis by (auto simp: yields_def)
qed

section \<open>examples/multi-worker\<close>

text \<open>A worker of the search service, with one command.\<close>

definition search_spec :: "string \<Rightarrow> string \<Rightarrow> nat \<Rightarrow> WorkerSpec" where
  "search_spec n description k = \<lparr>sp_name = n, sp_description = description, sp_worker = Some k\<rparr>"

definition search_command :: "string \<Rightarrow> string \<Rightarrow> nat \<Rightarrow> commandRegistration" where
  "search_command n c k =
     \<lparr>cr_worker = ''search_service/'' @ n, cr_name = c, cr_description = '''', cr_payloadKind = '''',
      cr_dangerous = False, cr_idempotent = False, cr_attributes = [], cr_handler = k\<rparr>"

definition search_config :: "string \<Rightarrow> nat \<Rightarrow> workerConfig" where
  "search_config c k = defaultWorkerConfig\<lparr>wc_commands :=
     [\<lparr>csp_name = c, csp_description = '''', csp_payloadKind = '''', csp_dangerous = False,
       csp_idempotent = False, csp_attributes = [], csp_handler = Some k\<rparr>]\<rparr>"

definition search_entry :: "string \<Rightarrow> string \<Rightarrow> nat \<Rightarrow> string \<Rightarrow> entry" where
  "search_entry n description k c =
     (''search_service/'' @ n, search_spec n description k, search_config c k, [search_command n c k])"

lemma search_registers:
  assumes "app ''search_service'' ws s" "unstarted s" "reachable s"
    and "is_identifier n" "ValidateCommandName c = None" "''search_service/'' @ n \<notin> fst ` set ws"
  obtains s' where "yields (must (Register (search_spec n description k) [Some (WithCommand c (Some k))])) s () '''' s'"
    "app ''search_service'' (ws @ [search_entry n description k c]) s'" "unstarted s'" "reachable s'"
proof -
  let ?spec = "search_spec n description k" and ?q = "''search_service/'' @ n"
  have cfg: "apply_options [Some (WithCommand c (Some k))] defaultWorkerConfig = search_config c k"
    "workerConfig_validate (search_config c k) = None"
    by (simp_all add: apply_options_def WithCommand_def WithCommandSpec_def search_config_def default_fields default_valid)
  have bound: "bindWorkerCommands ?q (wc_commands (search_config c k)) = Inr [search_command n c k]"
    using assms(5) by (simp add: bindWorkerCommands_def search_config_def search_command_def cloneCommandAttributes_def)
  have spec: "is_identifier (sp_name ?spec)" "sp_worker ?spec \<noteq> None" "qualifyWorkerName ''search_service'' (sp_name ?spec) = ?q"
    using assms(4) by (simp_all add: search_spec_def qualifyWorkerName_def)
  show thesis
    by (rule app_registers [OF assms(1-3) cfg bound spec assms(6)], rule that) (simp_all add: search_entry_def)
qed

lemma search_dispatches:
  assumes app: "app ''search_service'' ws s" and up: "serving s" and ws: "contributing ws"
    and e: "search_entry n description k c \<in> set ws" and id: "is_identifier n" "ValidateCommandName c = None"
    and reply: "\<And>req. cq_payload req = p \<Longrightarrow> handlers k req = Reply v None"
  obtains s' where "yields (dispatch_search handlers (command_request n c p)) s ()
      (text_line (''dispatch worker='' @ n @ '' command='' @ c @ '' message='' @ go_quote (res_message v)
         @ '' payload='' @ res_payload v)) s'"
    "app ''search_service'' ws s'" "serving s'"
proof -
  have c: "ws \<noteq> []" "\<forall>e \<in> set ws. contributesToReadiness (fst (snd (snd e)))"
    using ws by (simp_all add: contributing_def)
  have "resolveWorkerName ''search_service'' n = Inr (''search_service/'' @ n)"
    using resolveWorkerName_local [OF id(1)] by (simp add: qualifyWorkerName_def)
  then obtain s' where s': "yields (callDispatch handlers (command_request n c p)) s (Inr v) '''' s'"
    "app ''search_service'' ws s'" "serving s'"
    using app_dispatch [OF app up _ e [unfolded search_entry_def], of c "search_command n c k" n handlers p v None]
      app_up [OF app c up] id(2) reply
    by (auto simp: search_config_def search_command_def default_fields commands_map_def)
  have "yields (dispatch_search handlers (command_request n c p)) s ()
      ('''' @ '''' @ text_line (dispatch_line (command_request n c p) v)) s'"
    unfolding dispatch_search_def
    by (rule yields_then, rule s'(1), rule yields_then, rule yields_orFatal, rule yields_print(1))
  then show thesis using that s'(2,3) by (simp add: dispatch_line_def command_request_def)
qed

definition search_workers :: "entry list" where
  "search_workers =
     [search_entry ''ingest'' ''Accepts incoming documents.'' 1 ''ingest/enqueue'',
      search_entry ''index'' ''Builds searchable index entries.'' 2 ''index/rebuild'',
      search_entry ''maintenance'' ''Runs service housekeeping work.'' 3 ''maintenance/sweep'']"

definition search_status :: "string \<Rightarrow> string \<Rightarrow> string \<Rightarrow> string list" where
  "search_status label state flag =
     ['''', ''== '' @ label @ '' =='',
      ''runtime=search_service state='' @ state @ '' ready='' @ flag @ '' workers=3'',
      ''1. worker=search_service/ingest state='' @ state @ '' ready='' @ flag @ '' accepting='' @ flag,
      ''2. worker=search_service/index state='' @ state @ '' ready='' @ flag @ '' accepting='' @ flag,
      ''3. worker=search_service/maintenance state='' @ state @ '' ready='' @ flag @ '' accepting='' @ flag]"

lemma search_contributing: "contributing search_workers"
  by (simp add: contributing_def search_workers_def search_entry_def search_config_def default_fields)

lemma search_prints:
  assumes app: "app ''search_service'' search_workers s"
  shows "serving s \<Longrightarrow> yields (printStatus_search label) s () (lines (search_status label ''running'' ''true'')) s"
    "down s \<Longrightarrow> yields (printStatus_search label) s () (lines (search_status label ''stopped'' ''false'')) s"
proof -
  have out: "yields (printStatus_search label) s () (title label @ text_line (status_line (RuntimeStatus_of s))
      @ concat (map (\<lambda>p. text_line (numbered_line p)) (enumerate 0 (Workers s)))) s"
    unfolding printStatus_search_def
    by (rule yields_then, rule yields_print(2), rule yields_then, rule yields_print(3), rule yields_print(4))
  have names: "''search_service/ingest'' \<in> fst ` set search_workers" "''search_service/index'' \<in> fst ` set search_workers"
    "''search_service/maintenance'' \<in> fst ` set search_workers" "length search_workers = 3"
    by (simp_all add: search_workers_def search_entry_def)
  note st = status_lines [OF app search_contributing, unfolded names(4)]
  note w = snapshot_lines [OF app names(1)] snapshot_lines [OF app names(2)] snapshot_lines [OF app names(3)]
  note ws = app_Workers [OF app, unfolded search_workers_def search_entry_def]
  note defs = lines_def search_status_def numbered_line_def small_texts title_def text_line_def
  show "yields (printStatus_search label) s () (lines (search_status label ''running'' ''true'')) s" if "serving s"
    by (rule yields_text [OF out]) (simp add: defs st w ws that)
  show "yields (printStatus_search label) s () (lines (search_status label ''stopped'' ''false'')) s" if "down s"
    by (rule yields_text [OF out]) (simp add: defs st w ws that)
qed

text \<open>All that the program prints, given the payloads of the three results.\<close>

definition search_output :: "string \<Rightarrow> string \<Rightarrow> string \<Rightarrow> string list" where
  "search_output p1 p2 p3 =
     [''ingest started'', ''index started'', ''maintenance started'']
     @ search_status ''after StartAll'' ''running'' ''true''
     @ [''dispatch worker=ingest command=ingest/enqueue message='' @ go_quote ''document enqueued'' @ '' payload='' @ p1,
        ''dispatch worker=index command=index/rebuild message='' @ go_quote ''index rebuild requested'' @ '' payload='' @ p2,
        ''dispatch worker=maintenance command=maintenance/sweep message='' @ go_quote ''maintenance sweep completed''
          @ '' payload='' @ p3]
     @ search_status ''after commands'' ''running'' ''true''
     @ [''maintenance stopped'', ''index stopped'', ''ingest stopped'']
     @ search_status ''after shutdown'' ''stopped'' ''false''"

lemma search_names:
  "ValidateCommandName ''ingest/enqueue'' = None" "ValidateCommandName ''index/rebuild'' = None"
  "ValidateCommandName ''maintenance/sweep'' = None"
proof -
  have id: "is_identifier ''enqueue''" "is_identifier ''rebuild''" "is_identifier ''sweep''"
    by (simp_all add: is_identifier_def ident_char_def)
  show "ValidateCommandName ''ingest/enqueue'' = None" "ValidateCommandName ''index/rebuild'' = None"
    "ValidateCommandName ''maintenance/sweep'' = None"
    unfolding valid_command_name using id program_names
    by (rule_tac x = "[''ingest'', ''enqueue'']" in exI, simp,
        rule_tac x = "[''index'', ''rebuild'']" in exI, simp,
        rule_tac x = "[''maintenance'', ''sweep'']" in exI, simp)
qed

lemma search_setup:
  obtains s1 s2 s3 s4 where "yields (newRuntime ''search_service'') s () '''' s1"
    "yields (must (Register (search_spec ''ingest'' ''Accepts incoming documents.'' 1)
        [Some (WithCommand ''ingest/enqueue'' (Some 1))])) s1 () '''' s2"
    "yields (must (Register (search_spec ''index'' ''Builds searchable index entries.'' 2)
        [Some (WithCommand ''index/rebuild'' (Some 2))])) s2 () '''' s3"
    "yields (must (Register (search_spec ''maintenance'' ''Runs service housekeeping work.'' 3)
        [Some (WithCommand ''maintenance/sweep'' (Some 3))])) s3 () '''' s4"
    "app ''search_service'' search_workers s4" "unstarted s4"
proof -
  obtain s1 where s1: "yields (newRuntime ''search_service'') s () '''' s1" "app ''search_service'' [] s1"
    "unstarted s1" "reachable s1"
    using app_new [OF program_names(3)] by metis
  let ?e1 = "search_entry ''ingest'' ''Accepts incoming documents.'' 1 ''ingest/enqueue''"
  let ?e2 = "search_entry ''index'' ''Builds searchable index entries.'' 2 ''index/rebuild''"
  obtain s2 where s2: "yields (must (Register (search_spec ''ingest'' ''Accepts incoming documents.'' 1)
        [Some (WithCommand ''ingest/enqueue'' (Some 1))])) s1 () '''' s2"
    "app ''search_service'' ([] @ [?e1]) s2" "unstarted s2" "reachable s2"
    using search_registers [OF s1(2-4) program_names(4) search_names(1)] by (metis empty_iff image_empty list.set(1))
  have "''search_service/'' @ ''index'' \<notin> fst ` set ([] @ [?e1])" by (simp add: search_entry_def)
  from search_registers [OF s2(2-4) program_names(5) search_names(2) this] obtain s3 where
    s3: "yields (must (Register (search_spec ''index'' ''Builds searchable index entries.'' 2)
        [Some (WithCommand ''index/rebuild'' (Some 2))])) s2 () '''' s3"
    "app ''search_service'' (([] @ [?e1]) @ [?e2]) s3" "unstarted s3" "reachable s3" by metis
  have "''search_service/'' @ ''maintenance'' \<notin> fst ` set (([] @ [?e1]) @ [?e2])" by (simp add: search_entry_def)
  from search_registers [OF s3(2-4) program_names(6) search_names(3) this] obtain s4 where
    s4: "yields (must (Register (search_spec ''maintenance'' ''Runs service housekeeping work.'' 3)
        [Some (WithCommand ''maintenance/sweep'' (Some 3))])) s3 () '''' s4"
    "app ''search_service'' ((([] @ [?e1]) @ [?e2]) @ [search_entry ''maintenance''
        ''Runs service housekeeping work.'' 3 ''maintenance/sweep'']) s4" "unstarted s4" by metis
  then have "app ''search_service'' search_workers s4" by (simp add: search_workers_def)
  with s1(1) s2(1) s3(1) s4(1,3) show thesis using that by blast
qed

lemma search_starts:
  assumes "app ''search_service'' search_workers s" and "unstarted s"
  obtains s' where "yields (callStartAll serviceWorker_Start) s ()
      (lines [''ingest started'', ''index started'', ''maintenance started'']) s'"
    "app ''search_service'' search_workers s'" "serving s'"
proof (rule app_starts [OF assms, of serviceWorker_Start])
  show "\<forall>e \<in> set search_workers. readyOnStart (fst (snd (snd e))) \<and> wc_acceptingWork (fst (snd (snd e)))"
    using search_contributing by (simp add: contributing_def)
qed (rule that, simp_all add: lines_def search_workers_def search_entry_def search_spec_def entry_text_def
      serviceWorker_Start_def serviceWorker_name_def)

lemma search_stops:
  assumes "app ''search_service'' search_workers s" and "serving s"
  obtains s' where "yields (callShutdown serviceWorker_Stop) s ()
      (lines [''maintenance stopped'', ''index stopped'', ''ingest stopped'']) s'"
    "app ''search_service'' search_workers s'" "down s'"
  by (rule app_stops [OF assms, of serviceWorker_Stop])
     (rule that, simp_all add: lines_def search_workers_def search_entry_def search_spec_def entry_text_def
      serviceWorker_Stop_def serviceWorker_name_def)

text \<open>C34: the search service end to end. If JSON encodes the request and the replies of the program and
  its request decodes to the document, \<open>main\<close> of \<open>examples/multi-worker\<close> runs to its end and prints
  exactly this: the three workers start in the order of their registration, each dispatch is answered by
  the handler of its worker, the commands leave the status of the service as it was, and the workers
  stop in the reverse order.\<close>

theorem multi_worker_end_to_end:
  assumes "marshal [(''documentID'', JText ''doc-123'')] = Inr p" and "unmarshal p = Inr ''doc-123''"
    and "marshal [(''documentID'', JText ''doc-123''), (''status'', JText ''queued'')] = Inr p1"
    and "marshal [(''scope'', JText ''all'')] = Inr p2"
    and "marshal [(''expiredItems'', JNumber 7)] = Inr p3"
  shows "\<exists>s'. main_multi_worker unmarshal marshal (out, s) = (Value (), out @ lines (search_output p1 p2 p3), s')"
proof -
  let ?h = "search_handlers unmarshal marshal"
  obtain s1 s2 s3 s4 where made: "yields (newRuntime ''search_service'') s () '''' s1"
    "yields (must (Register (search_spec ''ingest'' ''Accepts incoming documents.'' 1)
        [Some (WithCommand ''ingest/enqueue'' (Some 1))])) s1 () '''' s2"
    "yields (must (Register (search_spec ''index'' ''Builds searchable index entries.'' 2)
        [Some (WithCommand ''index/rebuild'' (Some 2))])) s2 () '''' s3"
    "yields (must (Register (search_spec ''maintenance'' ''Runs service housekeeping work.'' 3)
        [Some (WithCommand ''maintenance/sweep'' (Some 3))])) s3 () '''' s4"
    "app ''search_service'' search_workers s4" "unstarted s4"
    by (rule search_setup)
  obtain s5 where s5: "yields (callStartAll serviceWorker_Start) s4 ()
      (lines [''ingest started'', ''index started'', ''maintenance started'']) s5"
    "app ''search_service'' search_workers s5" "serving s5"
    by (rule search_starts [OF made(5,6)])
  have payload: "yields (orPanic (mustJSON marshal [(''documentID'', JText ''doc-123'')])) s5 p '''' s5"
    using yields_orPanic by (simp add: mustJSON_def assms(1))
  have e: "search_entry ''ingest'' ''Accepts incoming documents.'' 1 ''ingest/enqueue'' \<in> set search_workers"
    "search_entry ''index'' ''Builds searchable index entries.'' 2 ''index/rebuild'' \<in> set search_workers"
    "search_entry ''maintenance'' ''Runs service housekeeping work.'' 3 ''maintenance/sweep'' \<in> set search_workers"
    by (simp_all add: search_workers_def)
  note id = search_names program_names(4-6)
  have r: "cq_payload req = p \<Longrightarrow> ?h 1 req = Reply \<lparr>res_message = ''document enqueued'', res_payload = p1\<rparr> None"
    "?h 2 req = Reply \<lparr>res_message = ''index rebuild requested'', res_payload = p2\<rparr> None"
    "?h 3 req = Reply \<lparr>res_message = ''maintenance sweep completed'', res_payload = p3\<rparr> None" for req
    using assms by (simp_all add: search_handlers_def enqueueDocument_def rebuildIndex_requested_def
        sweepMaintenance_def reply_JSON_def mustJSON_def)
  note go = search_dispatches [OF _ _ search_contributing, where handlers = ?h]
  obtain s6 where s6: "yields (dispatch_search ?h (command_request ''ingest'' ''ingest/enqueue'' p)) s5 ()
      (text_line (''dispatch worker=ingest command=ingest/enqueue message='' @ go_quote ''document enqueued''
        @ '' payload='' @ p1)) s6" "app ''search_service'' search_workers s6" "serving s6"
    by (rule go [OF s5(2,3) e(1) id(4,1), where p = p], erule r(1), rule that, simp_all)
  obtain s7 where s7: "yields (dispatch_search ?h (command_request ''index'' ''index/rebuild'' '''')) s6 ()
      (text_line (''dispatch worker=index command=index/rebuild message='' @ go_quote ''index rebuild requested''
        @ '' payload='' @ p2)) s7" "app ''search_service'' search_workers s7" "serving s7"
    by (rule go [OF s6(2,3) e(2) id(5,2), where p = "''''"], rule r(2), rule that, simp_all)
  obtain s8 where s8: "yields (dispatch_search ?h (command_request ''maintenance'' ''maintenance/sweep'' '''')) s7 ()
      (text_line (''dispatch worker=maintenance command=maintenance/sweep message=''
        @ go_quote ''maintenance sweep completed'' @ '' payload='' @ p3)) s8"
    "app ''search_service'' search_workers s8" "serving s8"
    by (rule go [OF s7(2,3) e(3) id(6,3), where p = "''''"], rule r(3), rule that, simp_all)
  obtain s9 where s9: "yields (callShutdown serviceWorker_Stop) s8 ()
      (lines [''maintenance stopped'', ''index stopped'', ''ingest stopped'']) s9"
    "app ''search_service'' search_workers s9" "down s9"
    by (rule search_stops [OF s8(2,3)])
  have "yields (main_multi_worker unmarshal marshal) s () (lines (search_output p1 p2 p3)) s9"
    unfolding main_multi_worker_def Let_def search_spec_def [symmetric]
    by (rule yields_text, (rule yields_then, rule made)+, rule yields_then, rule s5(1),
        rule yields_then, rule search_prints(1) [OF s5(2,3)], rule yields_then, rule payload,
        rule yields_then, rule s6(1), rule yields_then, rule s7(1), rule yields_then, rule s8(1),
        rule yields_then, rule search_prints(1) [OF s8(2,3)], rule yields_then, rule s9(1),
        rule search_prints(2) [OF s9(2,3)])
       (simp add: search_output_def lines_def)
  then show ?thesis by (auto simp: yields_def)
qed

text \<open>JSON objects of the program's kind, written by hand; the decoder knows the one request.\<close>

definition json_field :: "string \<times> json_value \<Rightarrow> string" where
  "json_field f = go_quote (fst f) @ '':'' @
     (case snd f of JText t \<Rightarrow> go_quote t | JNumber n \<Rightarrow> itoa n | JFlag b \<Rightarrow> bool_text b)"

fun json_fields :: "(string \<times> json_value) list \<Rightarrow> string" where
  "json_fields [] = ''''"
| "json_fields [f] = json_field f"
| "json_fields (f # fs) = json_field f @ '','' @ json_fields fs"

definition json_object :: "(string \<times> json_value) list \<Rightarrow> string" where
  "json_object fs = ''{'' @ json_fields fs @ ''}''"

definition known_request :: "string \<Rightarrow> string \<Rightarrow> string unmarshal" where
  "known_request field val p =
     (if p = json_object [(field, JText val)] then Inr val else Inl (errors_new ''unexpected JSON''))"

theorem multi_worker_end_to_end_witness:
  "\<exists>s'. main_multi_worker (known_request ''documentID'' ''doc-123'') (\<lambda>fs. Inr (json_object fs)) ('''', ex_running)
     = (Value (), lines (search_output
         (json_object [(''documentID'', JText ''doc-123''), (''status'', JText ''queued'')])
         (json_object [(''scope'', JText ''all'')]) (json_object [(''expiredItems'', JNumber 7)])), s')"
  using multi_worker_end_to_end [where marshal = "\<lambda>fs. Inr (json_object fs)" and s = ex_running and out = "''''"
      and unmarshal = "known_request ''documentID'' ''doc-123''", OF refl _ refl refl refl]
  by (simp add: known_request_def)

section \<open>examples/commands\<close>

definition cache_spec :: WorkerSpec where
  "cache_spec = \<lparr>sp_name = ''cache'', sp_description = ''Owns cache-domain commands.'', sp_worker = Some 1\<rparr>"

definition cache_options :: "WorkerOption option list" where
  "cache_options =
     [Some (WithCommand ''cache/echo'' (Some 1)),
      Some (WithCommandSpec (cache_command ''cache/refresh''
        ''Refresh one cache key and return the refreshed value.'' 2)),
      Some (WithCommandSpec (cache_command ''cache/fail''
        ''Return a domain command error without failing the worker.'' 3))]"

definition cache_config :: workerConfig where
  "cache_config = defaultWorkerConfig\<lparr>wc_commands :=
     [cache_command ''cache/echo'' '''' 1,
      cache_command ''cache/refresh'' ''Refresh one cache key and return the refreshed value.'' 2,
      cache_command ''cache/fail'' ''Return a domain command error without failing the worker.'' 3]\<rparr>"

definition cache_registration :: "string \<Rightarrow> string \<Rightarrow> nat \<Rightarrow> commandRegistration" where
  "cache_registration c description k =
     \<lparr>cr_worker = ''commands/cache'', cr_name = c, cr_description = description, cr_payloadKind = '''',
      cr_dangerous = False, cr_idempotent = False, cr_attributes = [], cr_handler = k\<rparr>"

definition cache_registrations :: "commandRegistration list" where
  "cache_registrations =
     [cache_registration ''cache/echo'' '''' 1,
      cache_registration ''cache/refresh'' ''Refresh one cache key and return the refreshed value.'' 2,
      cache_registration ''cache/fail'' ''Return a domain command error without failing the worker.'' 3]"

definition cache_workers :: "entry list" where
  "cache_workers = [(''commands/cache'', cache_spec, cache_config, cache_registrations)]"

lemma cache_names: "ValidateCommandName ''cache/echo'' = None" "ValidateCommandName ''cache/refresh'' = None"
  "ValidateCommandName ''cache/fail'' = None"
proof -
  have id: "is_identifier ''echo''" "is_identifier ''refresh''" "is_identifier ''fail''"
    by (simp_all add: is_identifier_def ident_char_def)
  show "ValidateCommandName ''cache/echo'' = None" "ValidateCommandName ''cache/refresh'' = None"
    "ValidateCommandName ''cache/fail'' = None"
    unfolding valid_command_name using id program_names
    by (rule_tac x = "[''cache'', ''echo'']" in exI, simp,
        rule_tac x = "[''cache'', ''refresh'']" in exI, simp,
        rule_tac x = "[''cache'', ''fail'']" in exI, simp)
qed

lemma cache_contributing: "contributing cache_workers"
  by (simp add: contributing_def cache_workers_def cache_config_def default_fields)

lemma cache_starts:
  obtains s1 s2 s3 where "yields (newRuntime ''commands'') s () '''' s1"
    "yields (must (Register cache_spec cache_options)) s1 () '''' s2"
    "yields (callStartAll (\<lambda>_. '''')) s2 () '''' s3" "app ''commands'' cache_workers s3" "serving s3"
proof -
  obtain s1 where s1: "yields (newRuntime ''commands'') s () '''' s1" "app ''commands'' [] s1"
    "unstarted s1" "reachable s1"
    using app_new [OF program_names(7)] by metis
  have cfg: "apply_options cache_options defaultWorkerConfig = cache_config" "workerConfig_validate cache_config = None"
    by (simp_all add: cache_options_def apply_options_def WithCommand_def WithCommandSpec_def cache_command_def
        cache_config_def default_fields default_valid)
  have bound: "bindWorkerCommands ''commands/cache'' (wc_commands cache_config) = Inr cache_registrations"
    using cache_names by (simp add: bindWorkerCommands_def cache_config_def cache_command_def cache_registrations_def
        cache_registration_def cloneCommandAttributes_def)
  have spec: "is_identifier (sp_name cache_spec)" "sp_worker cache_spec \<noteq> None"
    "qualifyWorkerName ''commands'' (sp_name cache_spec) = ''commands/cache''" "''commands/cache'' \<notin> fst ` set []"
    by (simp_all add: cache_spec_def qualifyWorkerName_def program_names)
  obtain s2 where s2: "yields (must (Register cache_spec cache_options)) s1 () '''' s2"
    "app ''commands'' cache_workers s2" "unstarted s2"
    by (rule app_registers [OF s1(2-4) cfg bound spec], rule that) (simp_all add: cache_workers_def)
  obtain s3 where "yields (callStartAll (\<lambda>_. '''')) s2 () '''' s3" "app ''commands'' cache_workers s3" "serving s3"
  proof (rule app_starts [OF s2(2,3), of "\<lambda>_. ''''"])
    show "\<forall>e \<in> set cache_workers. readyOnStart (fst (snd (snd e))) \<and> wc_acceptingWork (fst (snd (snd e)))"
      using cache_contributing by (simp add: contributing_def)
  qed (rule that, simp_all add: cache_workers_def entry_text_def cache_spec_def)
  with s1(1) s2(1) show thesis using that by blast
qed

lemma cache_dispatches:
  assumes app: "app ''commands'' cache_workers s" and up: "serving s"
    and reg: "map_of (commands_map cache_registrations) c = Some reg" "cr_worker reg = ''commands/cache''" "cr_name reg = c"
    and name: "ValidateCommandName c = None"
    and reply: "\<And>req. cq_payload req = p \<Longrightarrow> handlers (cr_handler reg) req = Reply v err"
  obtains s' where "yields (callDispatch handlers (command_request ''cache'' c p)) s
      (case err of None \<Rightarrow> Inr v | Some e \<Rightarrow> Inl e) '''' s'"
    "app ''commands'' cache_workers s'" "serving s'"
    "\<forall>e. err = Some e \<longrightarrow> (\<exists>now. lastCommandFailure (get_state s' ''commands/cache'') =
        Some (command_failure_info c (operationalFailure (Some e) commandFailure) now))"
proof -
  have st: "rs_state (r_status s) = StateRunning"
    using app_up [OF app] up cache_contributing by (simp add: contributing_def)
  have e: "(''commands/cache'', cache_spec, cache_config, cache_registrations) \<in> set cache_workers"
    by (simp add: cache_workers_def)
  have cfg: "wc_commandConcurrency cache_config \<le> 0" "commandRetryPolicy cache_config = Some Never"
    by (simp_all add: cache_config_def default_fields)
  have target: "resolveWorkerName ''commands'' ''cache'' = Inr ''commands/cache''"
    using resolveWorkerName_local [OF program_names(8)] by (simp add: qualifyWorkerName_def)
  show thesis
    by (rule app_dispatch [OF app up st e cfg reg target name, where handlers = handlers and p = p and v = v and err = err],
        rule reply, simp, rule that)
qed

lemma cache_commands:
  assumes "app ''commands'' cache_workers s"
  shows "yields (printCommands ''cache'') s () (lines
     [''registered commands:'',
      ''- worker=commands/cache name=cache/echo description='' @ go_quote '''',
      ''- worker=commands/cache name=cache/fail description=''
        @ go_quote ''Return a domain command error without failing the worker.'',
      ''- worker=commands/cache name=cache/refresh description=''
        @ go_quote ''Refresh one cache key and return the refreshed value.'']) s"
proof -
  have s: "r_identity s = ''commands''" "map_of (r_registrations s) ''commands/cache'' = Some cache_spec"
    "get_commands s ''commands/cache'' = commands_map cache_registrations"
    using assms by (simp_all add: app_def cache_workers_def entry_of_def)
  have target: "resolveWorkerNameLenient ''cache'' s = ''commands/cache''"
    using resolveWorkerName_local [OF program_names(8), of "''commands''"] s(1)
    by (simp add: resolveWorkerNameLenient_def qualifyWorkerName_def)
  have m: "commands_map cache_registrations =
      [(''cache/echo'', cache_registration ''cache/echo'' '''' 1),
       (''cache/refresh'', cache_registration ''cache/refresh'' ''Refresh one cache key and return the refreshed value.'' 2),
       (''cache/fail'', cache_registration ''cache/fail'' ''Return a domain command error without failing the worker.'' 3)]"
    by (simp add: commands_map_def cache_registrations_def cache_registration_def)
  have "sort_names (map fst (commands_map cache_registrations)) = [''cache/echo'', ''cache/fail'', ''cache/refresh'']"
    unfolding m by (simp add: sort_names_def)
  then have "Commands ''cache'' s = Some (map command_info
      [cache_registration ''cache/echo'' '''' 1,
       cache_registration ''cache/fail'' ''Return a domain command error without failing the worker.'' 3,
       cache_registration ''cache/refresh'' ''Refresh one cache key and return the refreshed value.'' 2])"
    by (simp add: Commands_def Let_def target s(2,3) m List.map_filter_simps)
  then show ?thesis
    by (simp add: yields_def printCommands_def lines_def command_line_def command_info_def cache_registration_def)
qed

lemma cache_status:
  assumes app: "app ''commands'' cache_workers s" and up: "serving s"
    and failed: "lastCommandFailure (get_state s ''commands/cache'') =
        Some (command_failure_info ''cache/fail'' (operationalFailure (Some (errors_new t)) commandFailure) now)"
  shows "yields (printStatus_cache label) s () (lines
     ['''', ''== '' @ label @ '' =='',
      ''runtime=commands state=running ready=true'',
      ''worker=commands/cache state=running ready=true'',
      ''last command failure command=cache/fail message='' @ go_quote ''command failed'']) s"
proof -
  have w: "''commands/cache'' \<in> fst ` set cache_workers" by (simp add: cache_workers_def)
  have failure: "ws_lastCommandFailure (sn_status (snapshot_of ''commands/cache'' cache_spec s)) =
      Some \<lparr>cfi_command = ''cache/fail'', cfi_code = ''command_failed'', cfi_message = ''command failed'', cfi_at = now\<rparr>"
    using failed by (simp add: snapshot_of_def toWorkerStatus_def cloneCommandFailureInfo_def command_failure_info_def
        operationalFailure_def errors_new_def commandFailure_def FailureCodeCommandFailed_def)
  have out: "yields (printStatus_cache label) s () (title label
      @ text_line (short_status_line (RuntimeStatus_of s)) @ concat (map cache_status_lines (Workers s))) s"
    unfolding printStatus_cache_def
    by (rule yields_then, rule yields_print(2), rule yields_then, rule yields_print(3), rule yields_print(4))
  show ?thesis
    by (rule yields_text [OF out])
       (simp add: lines_def title_def text_line_def status_lines(3) [OF app cache_contributing up] app_Workers [OF app]
        cache_workers_def cache_status_lines_def failure snapshot_lines(3) [OF app w up] command_failure_line_def)
qed

text \<open>All that the program prints, given the payload it echoes and that of the refresh.\<close>

definition commands_output :: "(error \<Rightarrow> string) \<Rightarrow> string \<Rightarrow> string \<Rightarrow> string list" where
  "commands_output show_error p v =
     [''registered commands:'',
      ''- worker=commands/cache name=cache/echo description='' @ go_quote '''',
      ''- worker=commands/cache name=cache/fail description=''
        @ go_quote ''Return a domain command error without failing the worker.'',
      ''- worker=commands/cache name=cache/refresh description=''
        @ go_quote ''Refresh one cache key and return the refreshed value.'',
      ''echo result message='' @ go_quote ''echo'' @ '' payload='' @ p,
      ''refresh result message='' @ go_quote ''cache refreshed'' @ '' payload='' @ v,
      ''expected command error: '' @ show_error (errors_new ''domain command rejected''),
      '''', ''== after command error =='',
      ''runtime=commands state=running ready=true'',
      ''worker=commands/cache state=running ready=true'',
      ''last command failure command=cache/fail message='' @ go_quote ''command failed'']"

text \<open>Commands end to end. If JSON encodes the payloads of the program and the refresh request
  decodes to its key, \<open>main\<close> of \<open>examples/commands\<close> runs to its end and prints exactly this: the
  commands sorted by name, the echoed payload and the refreshed value, and the error of the command
  that fails. That error goes to its caller; the worker stays running and ready, and its status shows
  the public message of the failure, not the text of the error.\<close>

lemma commands_end_to_end:
  assumes "marshal [(''message'', JText ''hello from raw JSON bytes'')] = Inr p"
    and "marshal [(''key'', JText ''homepage'')] = Inr k" and "unmarshal k = Inr ''homepage''"
    and "marshal [(''key'', JText ''homepage''), (''value'', JText ''fresh-value''), (''refreshed'', JFlag True)] = Inr v"
    and "marshal [(''reason'', JText ''demonstrate command failure status'')] = Inr q"
  shows "\<exists>s'. main_commands show_error unmarshal marshal (out, s) = (Value (), out @ lines (commands_output show_error p v), s')"
proof -
  let ?h = "cache_handlers unmarshal marshal"
  obtain s1 s2 s3 where made: "yields (newRuntime ''commands'') s () '''' s1"
    "yields (must (Register cache_spec cache_options)) s1 () '''' s2"
    "yields (callStartAll (\<lambda>_. '''')) s2 () '''' s3" "app ''commands'' cache_workers s3" "serving s3"
    by (rule cache_starts)
  have json: "yields (orPanic (mustJSON marshal [(''message'', JText ''hello from raw JSON bytes'')])) x p '''' x"
    "yields (orPanic (mustJSON marshal [(''key'', JText ''homepage'')])) x k '''' x"
    "yields (orPanic (mustJSON marshal [(''reason'', JText ''demonstrate command failure status'')])) x q '''' x" for x
    using yields_orPanic by (simp_all add: mustJSON_def assms)
  note regs = commands_map_def cache_registrations_def cache_registration_def
  define fail where "fail = errors_new ''domain command rejected''"
  obtain s4 where s4: "yields (callDispatch ?h (command_request ''cache'' ''cache/echo'' p)) s3
      (Inr \<lparr>res_message = ''echo'', res_payload = p\<rparr>) '''' s4" "app ''commands'' cache_workers s4" "serving s4"
    by (rule cache_dispatches [OF made(4,5), of "''cache/echo''" "cache_registration ''cache/echo'' '''' 1" p ?h _ None])
       (simp_all add: regs cache_names cache_handlers_def cacheWorker_echo_def, blast)
  obtain s5 where s5: "yields (callDispatch ?h (command_request ''cache'' ''cache/refresh'' k)) s4
      (Inr \<lparr>res_message = ''cache refreshed'', res_payload = v\<rparr>) '''' s5" "app ''commands'' cache_workers s5" "serving s5"
    by (rule cache_dispatches [OF s4(2,3), of "''cache/refresh''" "cache_registration ''cache/refresh''
          ''Refresh one cache key and return the refreshed value.'' 2" k ?h _ None])
       (simp_all add: regs cache_names cache_handlers_def cacheWorker_refresh_def assms reply_JSON_def mustJSON_def, blast)
  obtain s6 now where s6: "yields (callDispatch ?h (command_request ''cache'' ''cache/fail'' q)) s5 (Inl fail) '''' s6"
    "app ''commands'' cache_workers s6" "serving s6"
    "lastCommandFailure (get_state s6 ''commands/cache'') =
        Some (command_failure_info ''cache/fail'' (operationalFailure (Some fail) commandFailure) now)"
    by (rule cache_dispatches [OF s5(2,3), of "''cache/fail''" "cache_registration ''cache/fail''
          ''Return a domain command error without failing the worker.'' 3" q ?h no_result "Some fail"])
       (simp_all add: regs cache_names cache_handlers_def cacheWorker_fail_def fail_def, blast)
  obtain s7 where s7: "yields (callShutdown (\<lambda>_. '''')) s6 () '''' s7"
    by (rule app_stops [OF s6(2,3), of "\<lambda>_. ''''"]) (simp add: cache_workers_def entry_text_def cache_spec_def)
  have expected: "yields (case Inl fail of Inl err \<Rightarrow> printLine (''expected command error: '' @ show_error err)
      | Inr _ \<Rightarrow> (\<lambda>st. (Value (), st))) s6 () (text_line (''expected command error: '' @ show_error fail)) s6"
    by (simp add: yields_print)
  have "yields (main_commands show_error unmarshal marshal) s () (lines (commands_output show_error p v)) s7"
    unfolding main_commands_def Let_def cache_spec_def [symmetric] cache_options_def [symmetric]
    by (rule yields_text, (rule yields_then, rule made)+, rule yields_then, rule cache_commands [OF made(4)],
        rule yields_then, rule json(1), rule yields_then, rule s4(1), rule yields_then, rule yields_orFatal,
        rule yields_then, rule yields_print(1),
        rule yields_then, rule json(2), rule yields_then, rule s5(1), rule yields_then, rule yields_orFatal,
        rule yields_then, rule yields_print(1),
        rule yields_then, rule json(3), rule yields_then, rule s6(1), rule yields_then, rule expected,
        rule yields_then, rule cache_status [OF s6(2,3,4) [unfolded fail_def]], rule s7)
       (simp add: commands_output_def lines_def result_line_def fail_def)
  then show ?thesis by (auto simp: yields_def)
qed

end
