(* ===== verification/Spec2Isabelle.thy ===== *)
theory Spec2Isabelle
  imports Runtime_Claims Operation_Claims Dispatch_Claims Loop_System Loop_Progress
    Retry_Float Release_Check Check_Claims
    Opskit_Claims Check_Observers Otel_Observer Opshttp_Claims Service_Returns
    Demo_Claims Demo_Failure_Claims Demo_Program_Claims
begin

text \<open>
  Workerkit is a Go library that runs the workers of one service: it registers them, starts, drains
  and stops them, dispatches commands to them, derives an aggregate status and reports what
  happens to observers. This development models it as HOL functions and step relations translated
  from the sources under \<open>src/\<close>, and proves what its parts promise.

  \<^bold>\<open>The parts and how they interact.\<close> A \<open>Runtime\<close> (\<open>runtime.go\<close>) owns one record per worker and
  the aggregate status, both changed only in critical sections under its mutex. Lifecycle
  operations hold a second lock, the lifecycle gate, while they call worker code; commands, signals
  from worker code and clocks do not, and interleave with them at section granularity. Worker code
  acts on the runtime through a handle that carries a generation (\<open>worker.go\<close>); a \<open>LoopWorker\<close>
  (\<open>loop.go\<close>) and a check loop (\<open>check_loop.go\<close>) are worker code of the library itself. Package
  \<open>retry\<close> decides about further attempts. Observers (\<open>observability.go\<close>, \<open>slogobserver\<close>, \<open>otel\<close>)
  receive events; \<open>opskit.go\<close>, \<open>opshttp\<close> and \<open>servekitservice\<close> present the runtime outside.

  \<^bold>\<open>Which theory models what.\<close>

  \<^item> \<open>Prelude\<close>: lemmas on association lists as Go maps (\<open>gomap\<close>), and the locales
    \<open>invariant_step\<close> and \<open>framed_step\<close> of operations that keep an invariant, or a frame.
  \<^item> \<open>Go_Errors\<close>: \<open>failure.go\<close> and the errors of \<open>command.go\<close> and \<open>runtime.go\<close>: \<open>error\<close> is the
    tree of wrapped errors, \<open>errors_is\<close>/\<open>errors_join\<close> the standard functions on it,
    \<open>operationalFailure\<close> what is shown of a private error.
  \<^item> \<open>Names\<close>: \<open>names.go\<close> and the name functions of \<open>worker.go\<close> and \<open>command.go\<close>, over UTF-8
    byte strings.
  \<^item> \<open>Retry\<close>, \<open>Float64\<close>, \<open>Retry_Float\<close>: package \<open>retry\<close>; the second is the part of binary64
    arithmetic that it uses.
  \<^item> \<open>Status\<close>, \<open>Options\<close>: \<open>lifecycle.go\<close>, \<open>status.go\<close> and \<open>options.go\<close>; \<open>lifecycle_edge\<close> is the
    automaton of worker states.
  \<^item> \<open>Observability\<close>, \<open>Check_Observers\<close>, \<open>Slog_Observer\<close>, \<open>Otel_Observer\<close>: \<open>observability.go\<close>, the
    fan-out and panic containment of observers, and the two observers that ship with the library.
  \<^item> \<open>Runtime_State\<close>: the \<open>Runtime\<close> struct, \<open>New\<close>, \<open>Register\<close> and \<open>runtime_status.go\<close>.
    \<open>Runtime_Steps\<close>: the critical sections. \<open>Runtime_Lifecycle\<close>: \<open>Start\<close>, \<open>Stop\<close>, \<open>Drain\<close>,
    their forms over all workers, \<open>Shutdown\<close>, the waits, retries and the gate. \<open>Runtime_Dispatch\<close>:
    \<open>Dispatch\<close> and the snapshots.
  \<^item> \<open>Runtime_System\<close>: the runtime among its goroutines: \<open>sys\<close> adds held command slots and ended
    contexts to the struct, and what worker code has printed (\<open>s_output\<close>); \<open>act\<close> is one step of code
    that runs outside the gate.
    \<open>Reachable\<close>: every state a program can bring a runtime to, and \<open>section_step\<close>.
  \<^item> \<open>Loop_Worker\<close>: the \<open>LoopWorker\<close> as the step relation \<open>loop_step\<close> over its goroutines, one
    program counter each; \<open>Check_Loop\<close>, \<open>Worker_Handle\<close>: \<open>check_loop.go\<close> and \<open>worker.go\<close>.
    \<open>Loop_System\<close>: a \<open>LoopWorker\<close> and its runtime as one system (\<open>composed\<close>).
  \<^item> \<open>Opskit_Surface\<close>, \<open>Opshttp\<close>, \<open>Service\<close>: \<open>opskit.go\<close> and the command adapter of
    \<open>command.go\<close>, package \<open>opshttp\<close>, package \<open>servekitservice\<close>. \<open>Release_Check\<close>:
    \<open>tools/releasecheck\<close>.
  \<^item> \<open>Demo_Handlers\<close>, \<open>Demo_Composition\<close>, \<open>Demo_Failure_Policy\<close>, \<open>Demo_Programs\<close>: programs under
    \<open>examples/\<close>, as clients of the library: their workers and command handlers, the composition of a
    service of three workers, and the programs \<open>failure-policy\<close>, \<open>basic\<close>, \<open>commands\<close> and
    \<open>multi-worker\<close> as a whole, with what they print. What a worker prints in \<open>Start\<close> or \<open>Stop\<close> is
    printed by the runtime's call of it, so the order of these lines is that of the calls.

  \<^bold>\<open>How the code is translated.\<close> A struct is a record, an enumeration a datatype (with a
  constructor for other values where the code accepts any string), a nil interface or pointer
  \<open>None\<close>, a map an association list with distinct keys, whose order stands for Go's order of
  iteration. A function that takes the mutex is one atomic definition. A function that calls
  foreign code takes its behaviour as an argument: a \<open>script\<close> of actions that other goroutines and
  the callee perform meanwhile, and the result, which may be a panic (\<open>op_result\<close>, \<open>outcome\<close>). A
  list of attempts or polls stands for the calls of a loop that may go on; \<open>Blocked\<close> says that the
  list was used up before the code returned, so a theorem about \<open>Blocked\<close> runs is one about runs
  that are still under way, and \<open>start_attempts_bounded\<close> says how long a list is enough. Time is
  a counter that only the action \<open>Tick\<close> moves; when a timer fires or a context ends is the
  environment's. A context is a number; it has the error it ended with. Events for
  observers are appended to \<open>r_calls\<close>.

  Durations are \<open>int\<close> in the range of \<open>int64\<close>, with \<open>wrap64\<close> where the code multiplies; attempt
  numbers, limits and counters, which the code compares and counts up by one, are unbounded;
  generations are 64-bit words, which wrap around. A \<open>float64\<close> is NaN, an infinity or a rational,
  each operation the exact one followed by rounding to the nearest, ties to even; the sign of zero is not
  kept, since no code of the package can tell. Formatted texts are kept as format and arguments; \<open>%q\<close> is
  written out where the text is shown.

  \<^bold>\<open>What the lemmas show.\<close>

  \<^item> \<open>Runtime_Inv\<close>, \<open>Runtime_Preserve\<close>, \<open>Registration\<close>, \<open>Runtime_System\<close>: the invariant \<open>rt_inv\<close> of the
    struct, \<open>sys_inv\<close> of the system (each counter is the number of held slots), that every section
    and action keeps them, changes one worker only (\<open>affects\<close>), and moves it along the automaton.
  \<^item> \<open>Lifecycle_Props\<close>, \<open>Bulk_Props\<close>, \<open>Shutdown_Props\<close>, \<open>Settled\<close>: the contracts of the lifecycle
    operations for every environment; the locale \<open>lifecycle_operation\<close> is what an operation
    promises while it holds the gate, \<open>settling_operation\<close> that it leaves no worker in between.
    \<open>Runtime_Claims\<close> and \<open>Operation_Claims\<close> state the contracts; \<open>Example_Runtime\<close> is the runtime they are
    instantiated with.
  \<^item> \<open>Dispatch_Props\<close>, \<open>Dispatch_Claims\<close>: a dispatch acts only through actions, gives its slot back
    on every path, isolates failures and closes what it has opened for observers.
  \<^item> \<open>Loop_Props\<close>, \<open>Loop_Claims\<close>, \<open>Loop_Progress\<close>, \<open>Loop_System\<close>: mutual exclusion of loop and cleanup, what nil out
    of \<open>Stop\<close> means, that every run of the \<open>LoopWorker\<close> ends and none deadlocks, and that a failed loop takes its
    worker out of service in the runtime; what the loop function returned is followed from its return to
    the closing of \<open>done\<close>. \<open>Check_Claims\<close>: check loops, as clients of the runtime, with each action of a
    run tagged as the program's or the loop's.
  \<^item> \<open>Check_Observers\<close>, \<open>Otel_Observer\<close>, \<open>Opskit_Claims\<close>, \<open>Opshttp_Claims\<close>, \<open>Service_Claims\<close>: containment of
    observers' panics, privacy of error texts, truth of readiness items, and a service's shutdown.
    \<open>Service_Returns\<close>: in which environments the lifecycle operations, the waits and \<open>Run\<close> return.
  \<^item> \<open>Retry\<close>, \<open>Retry_Float\<close>: exactness and bounds of delays, against rounding and overflow, for the
    package's strategies and for backoffs and jitters that callers implement.

  \<^item> \<open>Demo_Steps\<close>, \<open>Demo_Running\<close>: what the operations do, and a program that calls them prints, when
    nothing else happens meanwhile. \<open>Demo_Claims\<close>, \<open>Demo_Failure_Claims\<close>, \<open>Demo_Program_Claims\<close>: what
    the example programs show, end to end, of retries, failure policies, commands and lifecycle order.

  The locales \<open>backoff_law\<close>, \<open>bounded_policy\<close>, \<open>retry_client\<close>, \<open>contained_observer\<close> are the
  interfaces between these parts; each is interpreted on the definitions of the code.

  \<^bold>\<open>Assumptions.\<close> Callers of a \<open>LoopWorker\<close> are the runtime's: \<open>Start\<close> excludes every other lifecycle
  call, calls of \<open>Stop\<close> may overlap. The random source and \<open>math.Pow\<close> are arguments; \<open>Pow(x, 0) = 1\<close>
  is the only law used of the latter, and draws in \<open>[0, 1)\<close> of the former. Whether a
  compiler fuses a multiplication with an addition, and what an out-of-range conversion gives, is left open.
  An error of foreign code is opaque but for what it wraps and whether comparing it panics.

  \<^bold>\<open>Not modelled.\<close> Of the programs under \<open>examples/\<close>, the \<open>main\<close> functions of the others
  but for the registrations of \<open>production-composition\<close> (wiring of third-party servers, goroutines of
  the program's own, and printing), and the workers of \<open>readiness\<close>, \<open>loop-worker\<close> and \<open>opskit-checks\<close>. The bodies of Opskit,
  Servekit, the OpenTelemetry SDK, \<open>log/slog\<close> and \<open>golang.org/x/mod\<close>: their calls are arguments, or
  events, of the definitions that use them. JSON encoding below the strict decoding rules of
  \<open>opshttp\<close>. Timers and goroutine scheduling beyond interleaving, and Go's memory model: the mutex
  is taken to make sections atomic. Nil contexts passed by a caller.
\<close>

end
